(* ===== verification/Forge_Prelude.thy ===== *)
theory Forge_Prelude
  imports Main "HOL-Library.Multiset" "HOL-Library.Char_ord" "HOL-Library.List_Lexorder"
    "HOL-Library.Product_Lexorder"
begin

text \<open>
  What every theory of the development shares: the representation of Go's time values,
  of names, and the generic facts on lists the component proofs use.

  A \<open>time.Time\<close> is the number of nanoseconds since Go's zero time (January 1 of year 1,
  UTC), so \<open>IsZero\<close> is the comparison with 0 and \<open>Before\<close> / \<open>After\<close> are the order of the
  integers.  A \<open>time.Duration\<close> is a number of nanoseconds; \<open>Sub\<close> saturates at the bounds
  of an int64, as the library documents.
\<close>

section \<open>Names, times and durations\<close>

type_synonym slot = string
type_synonym model = string
type_synonym unit_name = string
type_synonym time = int
type_synonym duration = int

abbreviation nanos_per_second :: int where
  "nanos_per_second \<equiv> 1000000000"

abbreviation nanos_per_minute :: int where
  "nanos_per_minute \<equiv> 60000000000"

abbreviation max_duration :: int where
  "max_duration \<equiv> 9223372036854775807"

abbreviation min_duration :: int where
  "min_duration \<equiv> - 9223372036854775808"

definition is_zero :: "time \<Rightarrow> bool" where
  "is_zero t \<longleftrightarrow> t = 0"

definition time_sub :: "time \<Rightarrow> time \<Rightarrow> duration" where
  "time_sub a b = max min_duration (min max_duration (a - b))"

lemma time_sub_exact: "min_duration \<le> a - b \<Longrightarrow> a - b \<le> max_duration \<Longrightarrow> time_sub a b = a - b"
  by (simp add: time_sub_def)

lemma time_sub_mono: "a \<le> a' \<Longrightarrow> time_sub a b \<le> time_sub a' b"
  by (simp add: time_sub_def)

section \<open>Collections of facts\<close>

named_theorems forge_simps \<open>unfolding of small operations\<close>
named_theorems forge_inv \<open>preservation of the components' invariants\<close>

section \<open>Lists\<close>

text \<open>Splitting a list at the first element with a property, as a scan with \<open>break\<close> does.\<close>

lemma takeWhile_dropWhile_split:
  "xs = takeWhile P xs @ dropWhile P xs"
  by simp

lemma filter_takeWhile_none:
  "(\<And>x. x \<in> set xs \<Longrightarrow> P x \<Longrightarrow> Q x) \<Longrightarrow>
   filter P (takeWhile (\<lambda>x. \<not> Q x) xs) = []"
  by (auto simp: filter_empty_conv dest: set_takeWhileD)

lemma sorted_wrt_filter: "sorted_wrt R xs \<Longrightarrow> sorted_wrt R (filter P xs)"
  by (induction xs) auto

lemma sorted_wrt_all: "(\<And>x y. y \<in> set xs \<Longrightarrow> R x y) \<Longrightarrow> sorted_wrt R xs"
  by (induction xs) auto

lemma filter_map_same:
  "(\<And>x. P (f x) = P x) \<Longrightarrow> filter P (map f xs) = map f (filter P xs)"
  by (induction xs) auto

lemma hd_in_set: "xs \<noteq> [] \<Longrightarrow> hd xs \<in> set xs"
  by (cases xs) auto

lemma find_Some_prop: "find P xs = Some x \<Longrightarrow> x \<in> set xs \<and> P x"
  by (induction xs) (auto split: if_splits)

lemma hd_filter_in:
  "filter P xs \<noteq> [] \<Longrightarrow> hd (filter P xs) \<in> set xs \<and> P (hd (filter P xs))"
  using hd_in_set [of "filter P xs"] by simp

text \<open>\<open>sort_key\<close> is the stable sort of the library; its first element is a minimum.\<close>

lemma sort_key_Nil_iff [simp]: "sort_key k xs = [] \<longleftrightarrow> xs = []"
  by (metis length_0_conv length_sort)

lemma hd_sort_key_in: "xs \<noteq> [] \<Longrightarrow> hd (sort_key k xs) \<in> set xs"
  by (metis hd_in_set set_sort sort_key_Nil_iff)

lemma hd_sort_key_least:
  assumes "x \<in> set xs"
  shows "k (hd (sort_key k xs)) \<le> k x"
proof -
  have s: "sorted (map k (sort_key k xs))" and m: "x \<in> set (sort_key k xs)"
    using assms by simp_all
  from m show ?thesis
  proof (cases "sort_key k xs")
    case (Cons y ys)
    with s m show ?thesis by auto
  qed simp
qed

text \<open>Updating the first element that satisfies a test.\<close>

fun update_first :: "('a \<Rightarrow> bool) \<Rightarrow> ('a \<Rightarrow> 'a) \<Rightarrow> 'a list \<Rightarrow> 'a list" where
  "update_first P f [] = []"
| "update_first P f (x # xs) = (if P x then f x # xs else x # update_first P f xs)"

fun remove_first :: "('a \<Rightarrow> bool) \<Rightarrow> 'a list \<Rightarrow> 'a list" where
  "remove_first P [] = []"
| "remove_first P (x # xs) = (if P x then xs else x # remove_first P xs)"

lemma set_remove_first: "set (remove_first P xs) \<subseteq> set xs"
  by (induction xs) auto

lemma sorted_wrt_remove_first: "sorted_wrt R xs \<Longrightarrow> sorted_wrt R (remove_first P xs)"
  by (induction xs) (auto dest: set_remove_first [THEN subsetD])

lemma filter_remove_first_other:
  "(\<And>x. P x \<Longrightarrow> \<not> Q x) \<Longrightarrow> filter Q (remove_first P xs) = filter Q xs"
  by (induction xs) auto

lemma remove_first_none: "(\<And>x. x \<in> set xs \<Longrightarrow> \<not> P x) \<Longrightarrow> remove_first P xs = xs"
  by (induction xs) auto

lemma map_remove_first_distinct:
  "distinct (map k xs) \<Longrightarrow> remove_first (\<lambda>x. k x = a) xs = filter (\<lambda>x. k x \<noteq> a) xs"
proof (induction xs)
  case (Cons x xs)
  then show ?case
    by (cases "k x = a") (auto simp: filter_id_conv image_iff intro!: filter_True [symmetric])
qed simp

lemma length_update_first [simp]: "length (update_first P f xs) = length xs"
  by (induction xs) auto

lemma map_update_first_same:
  "(\<And>x. k (f x) = k x) \<Longrightarrow> map k (update_first P f xs) = map k xs"
  by (induction xs) auto

lemma in_update_first:
  "y \<in> set (update_first P f xs) \<Longrightarrow> y \<in> set xs \<or> (\<exists>x \<in> set xs. P x \<and> y = f x)"
  by (induction xs) (auto split: if_splits)

lemma Max_insert_insert:
  "finite S \<Longrightarrow> Max (insert a (insert b S)) = Max (insert (max a (b::int)) S)"
  by (cases "S = {}") (auto simp: max.assoc)

lemma distinct_drop_nth:
  assumes "distinct ys"
  shows "distinct (take i ys @ drop (Suc i) ys)"
proof -
  have "distinct (take i ys @ drop i ys)" using assms by simp
  moreover have "drop (Suc i) ys = tl (drop i ys)" by (simp add: drop_Suc drop_tl)
  ultimately show ?thesis
    unfolding distinct_append by (metis Int_mono distinct_tl equalityE list.set_sel(2) subset_empty
        subset_eq tl_Nil)
qed

text \<open>\<open>append(xs[:i], xs[i+1:]...)\<close>.\<close>

definition drop_at :: "nat \<Rightarrow> 'a list \<Rightarrow> 'a list" where
  "drop_at i xs = take i xs @ drop (Suc i) xs"

lemma distinct_map_drop_at: "distinct (map f xs) \<Longrightarrow> distinct (map f (drop_at i xs))"
  using distinct_drop_nth [of "map f xs" i] by (simp add: take_map drop_map drop_at_def)

lemma drop_at_0 [simp]: "drop_at 0 (x # xs) = xs"
  by (simp add: drop_at_def)

lemma drop_at_Suc [simp]: "drop_at (Suc i) (x # xs) = x # drop_at i xs"
  by (simp add: drop_at_def)

lemma distinct_map_update_same:
  assumes "distinct (map f xs)" and "i < length xs" and "f y = f (xs ! i)"
  shows "distinct (map f (xs[i := y]))"
proof -
  have "map f (xs[i := y]) = map f xs"
    using assms(2,3) by (metis list_update_id map_update nth_map)
  with assms(1) show ?thesis by simp
qed

lemma set_drop_at: "set (drop_at i xs) \<subseteq> set xs"
  by (auto simp: drop_at_def dest: in_set_takeD in_set_dropD)

lemma drop_at_keeps: "j < length xs \<Longrightarrow> i \<noteq> j \<Longrightarrow> xs ! j \<in> set (drop_at i xs)"
proof (induction xs arbitrary: i j)
  case (Cons x xs)
  then show ?case by (cases i; cases j) auto
qed simp

lemma map_of_key_in:
  "distinct (map key xs) \<Longrightarrow> r \<in> set xs \<Longrightarrow> map_of (map (\<lambda>r. (key r, v r)) xs) (key r) = Some (v r)"
  by (induction xs) (auto simp: image_iff)

lemma distinct_map_sort_key: "distinct (map k (sort_key f xs)) \<longleftrightarrow> distinct (map k xs)"
  by (rule mset_eq_imp_distinct_iff) simp

end
