(* ===== verification/Sched_Types.thy ===== *)
theory Sched_Types
  imports Forge_Prelude
begin

text \<open>
  The data of the scheduler package: requests, tickets, the runtime tunables with their
  validation (sched.go, core.go), reservations (sched.go) and the refusal codes (place.go).
  Statuses and refusal codes are string constants in the code; here they are enumerations.
\<close>

section \<open>Requests and tickets\<close>

datatype ticket_status = StatusQueued | StatusLoading | StatusLoaded | StatusFailed

datatype refusal_reason =
    NoReason \<comment> \<open>the empty string\<close>
  | ReasonFitProbeFailed
  | ReasonModelTooLarge
  | ReasonReservationActive
  | ReasonReservationSoon
  | ReasonIdleThresholdNotMet
  | ReasonActivityUnknown
  | ReasonComfyEvictionDisabled
  | ReasonComfyReservationActive
  | ReasonComfyReservationSoon
  | ReasonComfyNotConfigured
  | ReasonComfyBusy
  | ReasonNoEvictableReserved
  | ReasonNoEvictableIdle

text \<open>
  The human-readable messages of placement and loading: one constructor per format string
  of the code, with the values the code prints.  \<open>MsgText\<close> carries a message composed
  elsewhere (the engine's), \<open>MsgNone\<close> is the empty string.
\<close>

datatype message =
    MsgNone
  | MsgText string
  | MsgFitCheckFailed string
  | MsgProtectedActive model slot
  | MsgProtectedSoon model slot
  | MsgActivityUnknown slot
  | MsgIdleOnly slot duration int
  | MsgEvictableIn message duration
  | MsgEvictableBeyond message duration duration
  | MsgComfyDisabled model int
  | MsgComfyReserved model
  | MsgComfyReservedSoon model
  | MsgComfyNotConfigured model
  | MsgComfyNotIdle model int string
  | MsgNoRoomOn slot model
  | MsgTargetSoon slot
  | MsgAllReserved
  | MsgNoIdleSlot
  | MsgNoEnd message
  | MsgLiftsBeyond message duration duration
  | MsgEligibleIn message duration
  | MsgEvictFailed slot message
  | MsgStopComfyFailed unit_name model string
  | MsgTimedOut model "message option"
  | MsgMaintenance string
  | MsgLoadFailed model message
    \<comment> \<open>the engine's messages\<close>
  | MsgUnknownMode model
  | MsgNoServices model
  | MsgSlotMustBe "slot list"
  | MsgCannotSize model
  | MsgFitsNow
  | MsgNeedsEvicted "slot list"
  | MsgNeedsEvictedAndComfy "slot list"
  | MsgFitsAfterComfy
  | MsgNotEnoughVRAM model int int int bool bool
  | MsgAlreadyOn model slot
  | MsgSameWeights model model slot message
  | MsgDidNotStop unit_name
  | MsgStillDeactivating unit_name
  | MsgNotFreed unit_name
  | MsgStartFailed unit_name
  | MsgNotRunning unit_name
  | MsgLoaded model slot
  | MsgUnloaded slot
  | MsgAllUnloaded
  | MsgInvalidSlotName slot
  | MsgWriteFailed string
  | MsgAlreadyIn model
  | MsgSwitched model
  | MsgNoCleanStop
  | MsgCannotRestart
  | MsgNothingToRestart
  | MsgStartServicesFailed model

record ensure_request =
  er_model :: model
  er_requestedBy :: string
  er_targetSlot :: slot  \<comment> \<open>the empty string: the scheduler chooses\<close>
  er_smallJob :: bool
  er_priority :: int

record ticket =
  tk_id :: string
  tk_model :: model
  tk_requestedBy :: string
  tk_targetSlot :: slot
  tk_status :: ticket_status
  tk_small :: bool
  tk_enqueuedAt :: time
  tk_reason :: refusal_reason
  tk_message :: message
  tk_jumped :: int  \<comment> \<open>jumpedCount\<close>
  tk_priority :: int

section \<open>Runtime tunables\<close>

record config =
  idleUnloadS :: int
  smallJobTokenThreshold :: int
  priorityJumpCap :: int
  reservationSoonMin :: int
  comfyUIEvictable :: "bool option"

definition comfyEvictable :: "config \<Rightarrow> bool" where
  "comfyEvictable c = (comfyUIEvictable c = None \<or> comfyUIEvictable c = Some True)"

definition defaultConfig :: config where
  "defaultConfig = \<lparr>idleUnloadS = 180, smallJobTokenThreshold = 1500, priorityJumpCap = 2,
     reservationSoonMin = 10, comfyUIEvictable = None\<rparr>"

definition zeroConfig :: config where
  "zeroConfig = \<lparr>idleUnloadS = 0, smallJobTokenThreshold = 0, priorityJumpCap = 0,
     reservationSoonMin = 0, comfyUIEvictable = None\<rparr>"

datatype config_error =
    IdleUnloadRange int
  | SmallJobThresholdRange int
  | PriorityJumpCapRange int
  | ReservationSoonRange int

definition validateConfig :: "config \<Rightarrow> config_error option" where
  "validateConfig c =
     (if idleUnloadS c < 30 \<or> idleUnloadS c > 3600 then Some (IdleUnloadRange (idleUnloadS c))
      else if smallJobTokenThreshold c < 1
        then Some (SmallJobThresholdRange (smallJobTokenThreshold c))
      else if priorityJumpCap c < 0 then Some (PriorityJumpCapRange (priorityJumpCap c))
      else if reservationSoonMin c < 1 \<or> reservationSoonMin c > 120
        then Some (ReservationSoonRange (reservationSoonMin c))
      else None)"

lemma validateConfig_None_iff:
  "validateConfig c = None \<longleftrightarrow>
     30 \<le> idleUnloadS c \<and> idleUnloadS c \<le> 3600 \<and> 1 \<le> smallJobTokenThreshold c \<and>
     0 \<le> priorityJumpCap c \<and> 1 \<le> reservationSoonMin c \<and> reservationSoonMin c \<le> 120"
  by (auto simp: validateConfig_def)

lemma defaultConfig_valid: "validateConfig defaultConfig = None"
  by (simp add: validateConfig_None_iff defaultConfig_def)

definition smallJobFromHint :: "config \<Rightarrow> int \<Rightarrow> bool" where
  "smallJobFromHint c tokenHint = (tokenHint \<le> smallJobTokenThreshold c)"

section \<open>Reservations\<close>

record reservation =
  r_label :: string
  r_model :: model
  r_start :: time
  r_end :: time
  r_scope :: string
  r_bay :: string
  r_createdBy :: string
  r_allowReschedule :: bool
  r_allowCancellation :: bool

definition humanIdentity :: string where
  "humanIdentity = ''human''"

end
