(* ===== verification/Sched_Queue.thy ===== *)
theory Sched_Queue
  imports Sched_Types
begin

text \<open>
  queue.go: the in-memory ticket queue with the small-job queue jump.  The queue of ticket
  pointers is the list of tickets, identified by their ids; \<open>enqueueLocked\<close> scans for the
  insertion point, inserts, and charges one jump to every non-small ticket left behind it;
  \<open>dequeue\<close> removes the first ticket with the id.
\<close>

section \<open>The operations\<close>

text \<open>The scan of \<open>enqueueLocked\<close>: the index of the first non-small ticket below the cap,
  else the end of the queue.\<close>

fun insertAt :: "int \<Rightarrow> ticket list \<Rightarrow> nat" where
  "insertAt jumpCap [] = 0"
| "insertAt jumpCap (x # xs) =
     (if \<not> tk_small x \<and> tk_jumped x < jumpCap then 0 else Suc (insertAt jumpCap xs))"

definition chargeJump :: "ticket \<Rightarrow> ticket" where
  "chargeJump x = (if tk_small x then x else x\<lparr>tk_jumped := tk_jumped x + 1\<rparr>)"

definition enqueueLocked :: "int \<Rightarrow> ticket \<Rightarrow> ticket list \<Rightarrow> ticket list" where
  "enqueueLocked jumpCap t q =
     (if \<not> tk_small t then q @ [t]
      else let i = insertAt jumpCap q
           in take i q @ t # map chargeJump (drop i q))"

definition dequeueTicket :: "string \<Rightarrow> ticket list \<Rightarrow> ticket list" where
  "dequeueTicket i q = remove_first (\<lambda>t. tk_id t = i) q"

text \<open>A run of the queue: tickets arrive, leave, and the operator changes the cap.\<close>

datatype queue_event = Arrive ticket | Leave string | SetCap int

fun queue_step :: "int \<times> ticket list \<Rightarrow> queue_event \<Rightarrow> int \<times> ticket list" where
  "queue_step (cap, q) (Arrive t) = (cap, enqueueLocked cap t q)"
| "queue_step (cap, q) (Leave i) = (cap, dequeueTicket i q)"
| "queue_step (cap, q) (SetCap cap') = (cap', q)"

definition queue_run :: "int \<times> ticket list \<Rightarrow> queue_event list \<Rightarrow> int \<times> ticket list" where
  "queue_run = foldl queue_step"

section \<open>Invariants\<close>

text \<open>
  Along the queue the jump counts of the non-small tickets never increase: whatever jumps a
  ticket also jumps the ones behind it only when the ticket itself is already at the cap.
\<close>

definition open_to_jump :: "int \<Rightarrow> ticket \<Rightarrow> bool" where
  "open_to_jump cap x \<longleftrightarrow> \<not> tk_small x \<and> tk_jumped x < cap"

definition antitone_rel :: "ticket \<Rightarrow> ticket \<Rightarrow> bool" where
  "antitone_rel x y \<longleftrightarrow> \<not> tk_small x \<longrightarrow> \<not> tk_small y \<longrightarrow> tk_jumped y \<le> tk_jumped x"

definition jumps_antitone :: "ticket list \<Rightarrow> bool" where
  "jumps_antitone q \<longleftrightarrow>
     sorted_wrt antitone_rel q \<and> (\<forall>x \<in> set q. \<not> tk_small x \<longrightarrow> 0 \<le> tk_jumped x)"

lemma insertAt_takeWhile: "insertAt cap q = length (takeWhile (\<lambda>x. \<not> open_to_jump cap x) q)"
  by (induction q) (auto simp: open_to_jump_def)

lemma enqueue_large: "\<not> tk_small t \<Longrightarrow> enqueueLocked cap t q = q @ [t]"
  by (simp add: enqueueLocked_def)

lemma takeWhile_eq_take_length: "take (length (takeWhile P xs)) xs = takeWhile P xs"
  by (metis takeWhile_eq_take)

lemma dropWhile_eq_drop_length: "drop (length (takeWhile P xs)) xs = dropWhile P xs"
  by (metis dropWhile_eq_drop)

lemma enqueue_small:
  assumes "tk_small t"
  shows "enqueueLocked cap t q =
     takeWhile (\<lambda>x. \<not> open_to_jump cap x) q @ t #
     map chargeJump (dropWhile (\<lambda>x. \<not> open_to_jump cap x) q)"
  using assms
  by (simp add: enqueueLocked_def insertAt_takeWhile takeWhile_eq_take_length
      dropWhile_eq_drop_length Let_def)

lemma chargeJump_simps [simp]:
  "tk_small (chargeJump x) = tk_small x" "tk_id (chargeJump x) = tk_id x"
  "tk_status (chargeJump x) = tk_status x" "tk_model (chargeJump x) = tk_model x"
  "tk_targetSlot (chargeJump x) = tk_targetSlot x"
  by (simp_all add: chargeJump_def)

lemma chargeJump_small [simp]: "tk_small x \<Longrightarrow> chargeJump x = x"
  by (simp add: chargeJump_def)

lemma chargeJump_large [simp]:
  "\<not> tk_small x \<Longrightarrow> tk_jumped (chargeJump x) = tk_jumped x + 1"
  by (simp add: chargeJump_def)

text \<open>
  Behind the insertion point of a small ticket every non-small ticket is below the cap, when
  the counts are antitone: the first one is, and the counts only fall from there.
\<close>

lemma behind_insertion_open:
  assumes "sorted_wrt antitone_rel q"
    and "y \<in> set (dropWhile (\<lambda>x. \<not> open_to_jump cap x) q)" and "\<not> tk_small y"
  shows "open_to_jump cap y"
  using assms
proof (induction q)
  case (Cons x q)
  then show ?case
    by (cases "open_to_jump cap x") (auto simp: open_to_jump_def antitone_rel_def)
qed simp

lemma ahead_insertion_capped:
  assumes "x \<in> set (takeWhile (\<lambda>x. \<not> open_to_jump cap x) q)" and "\<not> tk_small x"
  shows "cap \<le> tk_jumped x"
  using assms by (auto simp: open_to_jump_def dest: set_takeWhileD)

lemma antitone_split:
  fixes cap :: int and q :: "ticket list"
  assumes "jumps_antitone q"
  defines "a \<equiv> takeWhile (\<lambda>x. \<not> open_to_jump cap x) q"
    and "b \<equiv> dropWhile (\<lambda>x. \<not> open_to_jump cap x) q"
  shows "sorted_wrt antitone_rel a" "sorted_wrt antitone_rel b"
    and "\<forall>x \<in> set a \<union> set b. \<not> tk_small x \<longrightarrow> 0 \<le> tk_jumped x"
proof -
  have "q = a @ b" by (simp add: a_def b_def)
  with assms(1) show "sorted_wrt antitone_rel a" "sorted_wrt antitone_rel b"
    "\<forall>x \<in> set a \<union> set b. \<not> tk_small x \<longrightarrow> 0 \<le> tk_jumped x"
    by (auto simp: jumps_antitone_def sorted_wrt_append)
qed

lemma antitone_charge: "antitone_rel x y \<Longrightarrow> antitone_rel (chargeJump x) (chargeJump y)"
  by (auto simp: antitone_rel_def)

lemma sorted_wrt_map_charge:
  "sorted_wrt antitone_rel b \<Longrightarrow> sorted_wrt antitone_rel (map chargeJump b)"
  by (induction b) (auto intro: antitone_charge)

lemma enqueue_antitone [forge_inv]:
  assumes inv: "jumps_antitone q" and fresh: "tk_jumped t = 0"
  shows "jumps_antitone (enqueueLocked cap t q)"
proof (cases "tk_small t")
  case False
  with inv fresh show ?thesis
    by (auto simp: jumps_antitone_def enqueue_large sorted_wrt_append antitone_rel_def)
next
  case True
  let ?a = "takeWhile (\<lambda>x. \<not> open_to_jump cap x) q"
  let ?b = "dropWhile (\<lambda>x. \<not> open_to_jump cap x) q"
  note split = antitone_split [OF inv, of cap]
  have cross: "antitone_rel x (chargeJump y)" if "x \<in> set ?a" "y \<in> set ?b" for x y
    using ahead_insertion_capped [OF that(1)] behind_insertion_open [OF _ that(2)] inv
    by (auto simp: antitone_rel_def jumps_antitone_def open_to_jump_def)
  have "sorted_wrt antitone_rel (?a @ t # map chargeJump ?b)"
    using split sorted_wrt_map_charge [OF split(2)] cross True
    by (auto simp: sorted_wrt_append antitone_rel_def)
  moreover have "0 \<le> tk_jumped (chargeJump y)" if "y \<in> set ?b" "\<not> tk_small y" for y
    using split(3) that by force
  ultimately show ?thesis
    using split(3) True by (auto simp: jumps_antitone_def enqueue_small)
qed

lemma dequeue_antitone [forge_inv]: "jumps_antitone q \<Longrightarrow> jumps_antitone (dequeueTicket i q)"
  by (auto simp: jumps_antitone_def dequeueTicket_def sorted_wrt_remove_first
      dest: set_remove_first [THEN subsetD])


section \<open>Order\<close>

text \<open>Arrivals of the same class stay in order of arrival: always for the large ones, and for
  the small ones as long as no large ticket that is still open to a jump stands before a
  small one, which a fixed cap maintains.\<close>

definition smalls_settled :: "int \<Rightarrow> ticket list \<Rightarrow> bool" where
  "smalls_settled cap q \<longleftrightarrow> sorted_wrt (\<lambda>x y. tk_small y \<longrightarrow> \<not> open_to_jump cap x) q"

lemma filter_large_charge:
  "map tk_id (filter (\<lambda>x. \<not> tk_small x) (map chargeJump q)) =
   map tk_id (filter (\<lambda>x. \<not> tk_small x) q)"
  by (induction q) auto

lemma filter_small_charge: "filter tk_small (map chargeJump q) = filter tk_small q"
  by (induction q) auto

lemma filter_split_open:
  "filter Q (takeWhile P q) @ filter Q (dropWhile P q) = filter Q q"
  by (metis filter_append takeWhile_dropWhile_id)

lemma enqueue_larges_ids:
  "map tk_id (filter (\<lambda>x. \<not> tk_small x) (enqueueLocked cap t q)) =
   map tk_id (filter (\<lambda>x. \<not> tk_small x) q) @ (if tk_small t then [] else [tk_id t])"
proof (cases "tk_small t")
  case True
  let ?L = "\<lambda>x. \<not> tk_small x" and ?P = "\<lambda>x. \<not> open_to_jump cap x"
  have "map tk_id (filter ?L (enqueueLocked cap t q)) =
        map tk_id (filter ?L (takeWhile ?P q)) @ map tk_id (filter ?L (dropWhile ?P q))"
    unfolding enqueue_small [OF True] using True by (simp add: filter_large_charge del: map_map)
  also have "\<dots> = map tk_id (filter ?L q)"
    by (metis map_append filter_split_open)
  finally show ?thesis using True by simp
qed (simp add: enqueue_large)

lemma settled_behind_no_small:
  assumes "smalls_settled cap q"
  shows "filter tk_small (dropWhile (\<lambda>x. \<not> open_to_jump cap x) q) = []"
  using assms
proof (induction q)
  case (Cons x q)
  show ?case
  proof (cases "open_to_jump cap x")
    case True
    with Cons.prems have "\<forall>y \<in> set q. \<not> tk_small y" by (simp add: smalls_settled_def)
    with True show ?thesis by (simp add: filter_empty_conv open_to_jump_def)
  next
    case False
    with Cons show ?thesis by (simp add: smalls_settled_def)
  qed
qed simp

lemma enqueue_smalls_fifo:
  assumes "smalls_settled cap q"
  shows "filter tk_small (enqueueLocked cap t q) =
         filter tk_small q @ (if tk_small t then [t] else [])"
proof (cases "tk_small t")
  case True
  let ?P = "\<lambda>x. \<not> open_to_jump cap x"
  have "filter tk_small (takeWhile ?P q) = filter tk_small q"
    using settled_behind_no_small [OF assms] filter_split_open [of tk_small ?P q] by simp
  then show ?thesis
    using True settled_behind_no_small [OF assms] by (simp add: enqueue_small filter_small_charge)
qed (simp add: enqueue_large)

lemma open_charge: "\<not> open_to_jump cap x \<Longrightarrow> \<not> open_to_jump cap (chargeJump x)"
  by (auto simp: open_to_jump_def chargeJump_def)

lemma enqueue_settled [forge_inv]:
  assumes inv: "smalls_settled cap q"
  shows "smalls_settled cap (enqueueLocked cap t q)"
proof (cases "tk_small t")
  case False
  with inv show ?thesis by (auto simp: smalls_settled_def enqueue_large sorted_wrt_append)
next
  case True
  let ?a = "takeWhile (\<lambda>x. \<not> open_to_jump cap x) q"
  let ?b = "dropWhile (\<lambda>x. \<not> open_to_jump cap x) q"
  let ?R = "\<lambda>x y. tk_small y \<longrightarrow> \<not> open_to_jump cap x"
  have no_small: "\<not> tk_small y" if "y \<in> set ?b" for y
    using settled_behind_no_small [OF inv] that by (auto simp: filter_empty_conv)
  have a_closed: "\<not> open_to_jump cap x" if "x \<in> set ?a" for x
    using that by (auto dest: set_takeWhileD)
  have "sorted_wrt ?R (?a @ ?b)" using inv by (simp add: smalls_settled_def)
  then have "sorted_wrt ?R ?a" by (simp add: sorted_wrt_append)
  moreover have "sorted_wrt ?R (map chargeJump ?b)"
    using no_small by (intro sorted_wrt_all) auto
  moreover have "\<not> open_to_jump cap t" using True by (simp add: open_to_jump_def)
  ultimately have "sorted_wrt ?R (?a @ t # map chargeJump ?b)"
    unfolding sorted_wrt_append sorted_wrt.simps using no_small a_closed True by blast
  then show ?thesis unfolding smalls_settled_def enqueue_small [OF True] .
qed

lemma dequeue_settled [forge_inv]: "smalls_settled cap q \<Longrightarrow> smalls_settled cap (dequeueTicket i q)"
  by (simp add: smalls_settled_def dequeueTicket_def sorted_wrt_remove_first)

section \<open>How often a large ticket can be passed\<close>

text \<open>One arrival: the tickets ahead of a large ticket grow by exactly the jumps it is charged,
  and it is charged only below the cap.\<close>

lemma takeWhile_before:
  assumes "q = ys @ x # zs" and "\<not> P x"
  shows "takeWhile P q = takeWhile P ys" and "dropWhile P q = dropWhile P ys @ x # zs"
  using assms by (auto simp: takeWhile_tail dropWhile_append)

lemma takeWhile_beyond:
  assumes "\<And>y. y \<in> set (ys @ [x]) \<Longrightarrow> P y"
  shows "takeWhile P (ys @ x # zs) = ys @ x # takeWhile P zs"
    and "dropWhile P (ys @ x # zs) = dropWhile P zs"
  using assms by (simp_all add: takeWhile_append dropWhile_append)

lemma enqueue_position:
  assumes inv: "jumps_antitone (ys @ x # zs)" and large: "\<not> tk_small x"
  shows "\<exists>ys' x' zs'. enqueueLocked cap t (ys @ x # zs) = ys' @ x' # zs' \<and>
     tk_id x' = tk_id x \<and> \<not> tk_small x' \<and>
     int (length ys') = int (length ys) + (tk_jumped x' - tk_jumped x) \<and>
     (tk_jumped x' = tk_jumped x \<or> (tk_jumped x' = tk_jumped x + 1 \<and> tk_jumped x < cap))"
proof (cases "tk_small t")
  case False
  then show ?thesis
    using large by (intro exI [of _ ys] exI [of _ x] exI [of _ "zs @ [t]"]) (simp add: enqueue_large)
next
  case True
  let ?P = "\<lambda>y. \<not> open_to_jump cap y"
  show ?thesis
  proof (cases "\<forall>y \<in> set (ys @ [x]). ?P y")
    case True
    have "enqueueLocked cap t (ys @ x # zs) =
        ys @ x # takeWhile ?P zs @ t # map chargeJump (dropWhile ?P zs)"
      using \<open>tk_small t\<close> takeWhile_beyond [of ys x ?P zs] True by (simp add: enqueue_small)
    then show ?thesis using large
      by (intro exI [of _ ys] exI [of _ x]
          exI [of _ "takeWhile ?P zs @ t # map chargeJump (dropWhile ?P zs)"]) simp
  next
    case False
    then have x_open: "open_to_jump cap x"
      using inv large by (fastforce simp: jumps_antitone_def sorted_wrt_append antitone_rel_def
          open_to_jump_def)
    have "enqueueLocked cap t (ys @ x # zs) =
        (takeWhile ?P ys @ t # map chargeJump (dropWhile ?P ys)) @ chargeJump x # map chargeJump zs"
      using \<open>tk_small t\<close> takeWhile_before [of _ ys x zs ?P] x_open by (simp add: enqueue_small)
    moreover have "length (takeWhile ?P ys) + length (dropWhile ?P ys) = length ys"
      by (metis length_append takeWhile_dropWhile_id)
    ultimately show ?thesis
      using large x_open
      by (intro exI [of _ "takeWhile ?P ys @ t # map chargeJump (dropWhile ?P ys)"]
          exI [of _ "chargeJump x"] exI [of _ "map chargeJump zs"]) (auto simp: open_to_jump_def)
  qed
qed

lemma dequeue_position:
  assumes "tk_id x \<noteq> i"
  shows "\<exists>ys' zs'. dequeueTicket i (ys @ x # zs) = ys' @ x # zs' \<and> length ys' \<le> length ys"
proof (induction ys)
  case Nil
  then show ?case using assms by (auto simp: dequeueTicket_def intro: exI [of _ "[]"])
next
  case (Cons y ys)
  then obtain ys' zs' where *: "dequeueTicket i (ys @ x # zs) = ys' @ x # zs'"
    "length ys' \<le> length ys" by blast
  show ?case
  proof (cases "tk_id y = i")
    case True
    then have "dequeueTicket i ((y # ys) @ x # zs) = ys @ x # zs"
      by (simp add: dequeueTicket_def)
    then show ?thesis by (intro exI [of _ ys] exI [of _ zs]) simp
  next
    case False
    with * have "dequeueTicket i ((y # ys) @ x # zs) = (y # ys') @ x # zs'"
      by (simp add: dequeueTicket_def)
    with * show ?thesis by (intro exI [of _ "y # ys'"] exI [of _ zs']) simp
  qed
qed

text \<open>Events that leave the cap alone and bring fresh tickets.\<close>

definition quiet_event :: "string \<Rightarrow> queue_event \<Rightarrow> bool" where
  "quiet_event i e = (case e of Arrive t \<Rightarrow> tk_jumped t = 0 | Leave j \<Rightarrow> j \<noteq> i | SetCap _ \<Rightarrow> False)"

lemma queue_run_Cons [simp]: "queue_run s (e # es) = queue_run (queue_step s e) es"
  by (simp add: queue_run_def)

lemma queue_run_Nil [simp]: "queue_run s [] = s"
  by (simp add: queue_run_def)

lemma queue_step_position:
  assumes inv: "jumps_antitone (ys @ x # zs)" and "\<not> tk_small x" and "tk_jumped x \<le> cap"
    and ev: "quiet_event (tk_id x) e"
  shows "\<exists>ys' x' zs'. queue_step (cap, ys @ x # zs) e = (cap, ys' @ x' # zs') \<and>
     tk_id x' = tk_id x \<and> \<not> tk_small x' \<and> tk_jumped x' \<le> cap \<and> jumps_antitone (ys' @ x' # zs') \<and>
     int (length ys') + (cap - tk_jumped x') \<le> int (length ys) + (cap - tk_jumped x)"
proof (cases e)
  case (Arrive t)
  with ev have fresh: "tk_jumped t = 0" by (simp add: quiet_event_def)
  show ?thesis
    using enqueue_position [OF assms(1,2), of cap t] enqueue_antitone [OF inv fresh, of cap] assms(3)
    by (fastforce simp: Arrive)
next
  case (Leave i)
  with ev have "tk_id x \<noteq> i" by (auto simp: quiet_event_def)
  then show ?thesis
    using dequeue_position [of x i ys zs] dequeue_antitone [OF inv, of i] assms(2,3)
    by (fastforce simp: Leave)
next
  case (SetCap c)
  with ev show ?thesis by (simp add: quiet_event_def)
qed

lemma queue_run_position:
  assumes "jumps_antitone (ys @ x # zs)" and "\<not> tk_small x" and "tk_jumped x \<le> cap"
    and "\<forall>e \<in> set es. quiet_event (tk_id x) e"
  shows "\<exists>ys' x' zs'. queue_run (cap, ys @ x # zs) es = (cap, ys' @ x' # zs') \<and>
     tk_id x' = tk_id x \<and> \<not> tk_small x' \<and> tk_jumped x' \<le> cap \<and>
     int (length ys') + (cap - tk_jumped x') \<le> int (length ys) + (cap - tk_jumped x)"
  using assms
proof (induction es arbitrary: ys x zs)
  case (Cons e es)
  from Cons.prems(4) have "quiet_event (tk_id x) e" by simp
  from queue_step_position [OF Cons.prems(1-3) this] obtain ys1 x1 zs1 where
    step: "queue_step (cap, ys @ x # zs) e = (cap, ys1 @ x1 # zs1)" and
    x1: "tk_id x1 = tk_id x" "\<not> tk_small x1" "tk_jumped x1 \<le> cap" "jumps_antitone (ys1 @ x1 # zs1)"
      "int (length ys1) + (cap - tk_jumped x1) \<le> int (length ys) + (cap - tk_jumped x)"
    by blast
  have "\<forall>e \<in> set es. quiet_event (tk_id x1) e" using Cons.prems(4) x1(1) by simp
  from Cons.IH [OF x1(4,2,3) this] step x1 show ?case by fastforce
qed auto

section \<open>Runs\<close>

definition fresh_event :: "queue_event \<Rightarrow> bool" where
  "fresh_event e = (case e of Arrive t \<Rightarrow> tk_jumped t = 0 | _ \<Rightarrow> True)"

definition cap_within :: "int \<Rightarrow> queue_event \<Rightarrow> bool" where
  "cap_within B e = (case e of SetCap c \<Rightarrow> c \<le> B | _ \<Rightarrow> True)"

definition keeps_cap :: "queue_event \<Rightarrow> bool" where
  "keeps_cap e = (case e of SetCap _ \<Rightarrow> False | _ \<Rightarrow> True)"

lemma queue_run_append: "queue_run s (es @ fs) = queue_run (queue_run s es) fs"
  by (simp add: queue_run_def)

lemma queue_step_antitone:
  "jumps_antitone (snd s) \<Longrightarrow> fresh_event e \<Longrightarrow> jumps_antitone (snd (queue_step s e))"
  by (cases s; cases e) (auto simp: fresh_event_def intro: forge_inv)

lemma queue_run_antitone:
  "jumps_antitone (snd s) \<Longrightarrow> \<forall>e \<in> set es. fresh_event e \<Longrightarrow> jumps_antitone (snd (queue_run s es))"
  by (induction es arbitrary: s) (auto simp: queue_step_antitone)

lemma enqueue_bounded:
  assumes inv: "jumps_antitone q" and "tk_jumped t = 0" and "cap \<le> B" and "0 \<le> B"
    and bound: "\<forall>x \<in> set q. \<not> tk_small x \<longrightarrow> tk_jumped x \<le> B"
  shows "\<forall>x \<in> set (enqueueLocked cap t q). \<not> tk_small x \<longrightarrow> tk_jumped x \<le> B"
proof (cases "tk_small t")
  case True
  let ?b = "dropWhile (\<lambda>x. \<not> open_to_jump cap x) q"
  have "tk_jumped (chargeJump y) \<le> B" if "y \<in> set ?b" "\<not> tk_small y" for y
    using behind_insertion_open [OF _ that] inv \<open>cap \<le> B\<close> that(2)
    by (simp add: jumps_antitone_def open_to_jump_def)
  then show ?thesis
    using True bound by (auto simp: enqueue_small dest: set_takeWhileD)
qed (use assms in \<open>auto simp: enqueue_large\<close>)

lemma queue_run_bounded:
  assumes "jumps_antitone q" and "cap \<le> B" and "0 \<le> B"
    and "\<forall>x \<in> set q. \<not> tk_small x \<longrightarrow> tk_jumped x \<le> B"
    and "\<forall>e \<in> set es. fresh_event e \<and> cap_within B e"
  shows "\<forall>x \<in> set (snd (queue_run (cap, q) es)). \<not> tk_small x \<longrightarrow> tk_jumped x \<le> B"
  using assms
proof (induction es arbitrary: cap q)
  case (Cons e es)
  obtain cap' q' where s: "queue_step (cap, q) e = (cap', q')" by fastforce
  have e: "fresh_event e" "cap_within B e" using Cons.prems by auto
  have "jumps_antitone q'" using queue_step_antitone [of "(cap, q)" e] Cons.prems e s by simp
  moreover have "cap' \<le> B" using s e Cons.prems(2) by (cases e) (auto simp: cap_within_def)
  moreover have "\<forall>x \<in> set q'. \<not> tk_small x \<longrightarrow> tk_jumped x \<le> B"
  proof (cases e)
    case (Arrive t)
    with s e enqueue_bounded [OF Cons.prems(1) _ Cons.prems(2-4), of t] show ?thesis
      by (auto simp: fresh_event_def)
  qed (use s Cons.prems(4) in \<open>auto simp: dequeueTicket_def dest: set_remove_first [THEN subsetD]\<close>)
  ultimately show ?case using Cons.IH [of q' cap'] Cons.prems(3,5) s by simp
qed simp

lemma queue_run_settled:
  assumes "smalls_settled cap q" and "\<forall>e \<in> set es. keeps_cap e"
  shows "smalls_settled cap (snd (queue_run (cap, q) es)) \<and> fst (queue_run (cap, q) es) = cap"
  using assms
proof (induction es arbitrary: q)
  case (Cons e es)
  then show ?case
    by (cases e) (auto simp: keeps_cap_def intro: forge_inv)
qed simp

section \<open>Properties\<close>


definition sample_ticket :: "string \<Rightarrow> bool \<Rightarrow> ticket" where
  "sample_ticket i small = \<lparr>tk_id = i, tk_model = ''m'', tk_requestedBy = ''a0'', tk_targetSlot = [],
     tk_status = StatusQueued, tk_small = small, tk_enqueuedAt = 1, tk_reason = NoReason,
     tk_message = MsgNone, tk_jumped = 0, tk_priority = 0\<rparr>"


text \<open>The starvation guard.  However the operator moves the cap at run time, no large ticket
  is ever charged more jumps than the largest cap that was in force.\<close>

theorem jump_count_bounded:
  assumes "\<forall>e \<in> set es. fresh_event e \<and> cap_within B e" and "cap \<le> B" and "0 \<le> B"
    and "x \<in> set (snd (queue_run (cap, []) es))" and "\<not> tk_small x"
  shows "0 \<le> tk_jumped x \<and> tk_jumped x \<le> B"
proof -
  have "jumps_antitone (snd (queue_run (cap, []) es))"
    using queue_run_antitone [of "(cap, [])" es] assms(1) by (simp add: jumps_antitone_def)
  then show ?thesis
    using queue_run_bounded [of "[]" cap B es] assms by (auto simp: jumps_antitone_def)
qed

theorem jump_count_bounded_witness:
  "0 \<le> tk_jumped ((sample_ticket ''big'' False)\<lparr>tk_jumped := 1\<rparr>) \<and>
   tk_jumped ((sample_ticket ''big'' False)\<lparr>tk_jumped := 1\<rparr>) \<le> 2"
proof (rule jump_count_bounded [where cap = 1 and
      es = "[Arrive (sample_ticket ''big'' False), Arrive (sample_ticket ''s1'' True), SetCap 2]"])
  show "(sample_ticket ''big'' False)\<lparr>tk_jumped := 1\<rparr> \<in> set (snd (queue_run (1, [])
     [Arrive (sample_ticket ''big'' False), Arrive (sample_ticket ''s1'' True), SetCap 2]))"
    by (simp add: sample_ticket_def enqueueLocked_def chargeJump_def)
qed (simp_all add: sample_ticket_def fresh_event_def cap_within_def)

text \<open>Order of arrival.  With the cap fixed, an arriving ticket goes behind every ticket of
  its own class: the large ones stay in order of arrival, and so do the small ones.\<close>

theorem arrival_order_kept:
  assumes keeps: "\<forall>e \<in> set es. keeps_cap e" and run: "queue_run (cap, []) es = (cap', q)"
  shows "cap' = cap \<and>
    filter tk_small (enqueueLocked cap t q) = filter tk_small q @ (if tk_small t then [t] else []) \<and>
    map tk_id (filter (\<lambda>x. \<not> tk_small x) (enqueueLocked cap t q)) =
      map tk_id (filter (\<lambda>x. \<not> tk_small x) q) @ (if tk_small t then [] else [tk_id t])"
proof -
  have "smalls_settled cap q \<and> cap' = cap"
    using queue_run_settled [of cap "[]" es] assms by (simp add: smalls_settled_def)
  then show ?thesis using enqueue_smalls_fifo enqueue_larges_ids by blast
qed

theorem arrival_order_kept_witness:
  "filter tk_small (enqueueLocked 1 (sample_ticket ''s2'' True)
      [sample_ticket ''s1'' True, (sample_ticket ''big'' False)\<lparr>tk_jumped := 1\<rparr>]) =
   [sample_ticket ''s1'' True, sample_ticket ''s2'' True]"
proof -
  have run: "queue_run (1, []) [Arrive (sample_ticket ''big'' False), Arrive (sample_ticket ''s1'' True)] =
     (1, [sample_ticket ''s1'' True, (sample_ticket ''big'' False)\<lparr>tk_jumped := 1\<rparr>])"
    by (simp add: sample_ticket_def enqueueLocked_def chargeJump_def)
  show ?thesis
    using arrival_order_kept [OF _ run, of "sample_ticket ''s2'' True"]
    by (simp add: keeps_cap_def sample_ticket_def)
qed

text \<open>The order of the small jobs depends on the cap staying fixed.  With a cap of 0 two jobs
  queue behind a large one; after the operator raises the cap to 1, a second small job is
  put ahead of the large ticket and so ahead of the first small job.\<close>

theorem raised_cap_reorders_smalls:
  "map tk_id (snd (queue_run (0, [])
     [Arrive (sample_ticket ''big'' False), Arrive (sample_ticket ''s1'' True), SetCap 1,
      Arrive (sample_ticket ''s2'' True)])) = [''s2'', ''big'', ''s1'']"
  by (simp add: sample_ticket_def enqueueLocked_def chargeJump_def)

end
