(* ===== verification/Sched_Ops.thy ===== *)
theory Sched_Ops
  imports Sched_Types
begin

text \<open>
  The persistence surface the scheduler relies on (the \<open>Sched\<close> interface of
  internal/store/store.go): its rows, its operations over an abstract database state, and
  the laws a provider promises, as a locale.  The clients are the reservation CRUD and the
  restart recovery; the provider is the SQL store.
\<close>

section \<open>Rows\<close>

record queue_row =
  qr_id :: string
  qr_model :: model
  qr_requestedBy :: string
  qr_targetSlot :: slot
  qr_status :: ticket_status
  qr_small :: bool
  qr_priority :: int
  qr_enqueuedAt :: time
  qr_updatedAt :: time

record reservation_row =
  rr_id :: int
  rr_label :: string
  rr_model :: model
  rr_start :: time
  rr_end :: time
  rr_scope :: string
  rr_bay :: string
  rr_createdBy :: string
  rr_allowReschedule :: bool
  rr_allowCancellation :: bool
  rr_createdAt :: time

definition reservationFromRow :: "reservation_row \<Rightarrow> reservation" where
  "reservationFromRow row = \<lparr>r_label = rr_label row, r_model = rr_model row,
     r_start = rr_start row, r_end = rr_end row, r_scope = rr_scope row, r_bay = rr_bay row,
     r_createdBy = rr_createdBy row, r_allowReschedule = rr_allowReschedule row,
     r_allowCancellation = rr_allowCancellation row\<rparr>"

definition reservationToRow :: "reservation \<Rightarrow> time \<Rightarrow> reservation_row" where
  "reservationToRow r now = \<lparr>rr_id = 0, rr_label = r_label r, rr_model = r_model r,
     rr_start = r_start r, rr_end = r_end r, rr_scope = r_scope r, rr_bay = r_bay r,
     rr_createdBy = r_createdBy r, rr_allowReschedule = r_allowReschedule r,
     rr_allowCancellation = r_allowCancellation r, rr_createdAt = now\<rparr>"

lemma reservation_row_roundtrip: "reservationFromRow (reservationToRow r now) = r"
  by (simp add: reservationFromRow_def reservationToRow_def)

lemma reservationToRow_label [simp]: "rr_label (reservationToRow r now) = r_label r"
  by (simp add: reservationToRow_def)

text \<open>Timestamps are stored as unix seconds: \<open>unixOf\<close> floors, \<open>timeOf\<close> reads back.\<close>

definition unix_epoch :: int where
  "unix_epoch = 62135596800"

definition unixOf :: "time \<Rightarrow> int" where
  "unixOf t = t div 1000000000 - unix_epoch"

definition timeOf :: "int \<Rightarrow> time" where
  "timeOf s = (s + unix_epoch) * 1000000000"

definition to_seconds :: "time \<Rightarrow> time" where
  "to_seconds t = timeOf (unixOf t)"

lemma to_seconds_eq: "to_seconds t = (t div 1000000000) * 1000000000"
  by (simp add: to_seconds_def timeOf_def unixOf_def)

lemma to_seconds_bounds: "to_seconds t \<le> t \<and> t < to_seconds t + 1000000000"
  unfolding to_seconds_eq by (simp add: minus_mod_eq_div_mult [symmetric])

lemma to_seconds_idem [simp]: "to_seconds (to_seconds t) = to_seconds t"
  by (simp add: to_seconds_eq)

definition truncate_reservation :: "reservation \<Rightarrow> reservation" where
  "truncate_reservation r = r\<lparr>r_start := to_seconds (r_start r), r_end := to_seconds (r_end r)\<rparr>"

lemma truncate_reservation_simps [simp]:
  "r_label (truncate_reservation r) = r_label r"
  "r_model (truncate_reservation r) = r_model r"
  "r_scope (truncate_reservation r) = r_scope r"
  "r_bay (truncate_reservation r) = r_bay r"
  "r_createdBy (truncate_reservation r) = r_createdBy r"
  "r_start (truncate_reservation r) = to_seconds (r_start r)"
  "r_end (truncate_reservation r) = to_seconds (r_end r)"
  by (simp_all add: truncate_reservation_def)

section \<open>The operations\<close>

datatype store_err = StoreNotFound | StoreErr string

record 'd sched_ops =
  so_saveSlot :: "slot \<Rightarrow> string \<Rightarrow> time \<Rightarrow> 'd \<Rightarrow> store_err option \<times> 'd"
  so_saveTicket :: "queue_row \<Rightarrow> 'd \<Rightarrow> store_err option \<times> 'd"
  so_deleteTicket :: "string \<Rightarrow> 'd \<Rightarrow> store_err option \<times> 'd"
  so_queue :: "'d \<Rightarrow> store_err + queue_row list"
  so_saveReservation :: "reservation_row \<Rightarrow> 'd \<Rightarrow> store_err option \<times> 'd"
  so_deleteReservation :: "string \<Rightarrow> 'd \<Rightarrow> store_err option \<times> 'd"
  so_reservations :: "'d \<Rightarrow> store_err + reservation_row list"

section \<open>The laws\<close>

definition labelled :: "reservation list \<Rightarrow> (string \<rightharpoonup> reservation)" where
  "labelled rs = map_of (map (\<lambda>r. (r_label r, r)) rs)"

lemma labelled_Cons: "labelled (r # rs) = (labelled rs)(r_label r \<mapsto> r)"
  by (simp add: labelled_def)

lemma labelled_Some_in: "labelled rs l = Some r \<Longrightarrow> r \<in> set rs \<and> r_label r = l"
  by (auto simp: labelled_def dest: map_of_SomeD)

lemma labelled_None_iff: "labelled rs l = None \<longleftrightarrow> l \<notin> r_label ` set rs"
  by (auto simp: labelled_def map_of_eq_None_iff image_image)

lemma labelled_in:
  "distinct (map r_label rs) \<Longrightarrow> r \<in> set rs \<Longrightarrow> labelled rs (r_label r) = Some r"
  by (auto simp: labelled_def comp_def intro!: map_of_is_SomeI)

locale sched_store =
  fixes ops :: "'d sched_ops"
    and stored :: "'d \<Rightarrow> (string \<rightharpoonup> reservation)"
    and tickets :: "'d \<Rightarrow> string set"
    and ok :: "'d \<Rightarrow> bool"
  assumes save_ok:
      "ok d \<Longrightarrow> so_saveReservation ops row d = (None, d') \<Longrightarrow>
       ok d' \<and> tickets d' = tickets d \<and>
       stored d' = (stored d)(rr_label row \<mapsto> truncate_reservation (reservationFromRow row))"
    and save_err:
      "ok d \<Longrightarrow> so_saveReservation ops row d = (Some e, d') \<Longrightarrow> d' = d"
    and delete_ok:
      "ok d \<Longrightarrow> so_deleteReservation ops l d = (None, d') \<Longrightarrow>
       ok d' \<and> tickets d' = tickets d \<and> stored d' = (stored d)(l := None)"
    and delete_err:
      "ok d \<Longrightarrow> so_deleteReservation ops l d = (Some e, d') \<Longrightarrow>
       d' = d \<and> (e = StoreNotFound \<longrightarrow> stored d l = None)"
    and read_back:
      "ok d \<Longrightarrow> so_reservations ops d = Inr rows \<Longrightarrow>
       distinct (map rr_label rows) \<and> labelled (map reservationFromRow rows) = stored d"
    and ticket_saved:
      "ok d \<Longrightarrow> so_saveTicket ops q d = (None, d') \<Longrightarrow>
       ok d' \<and> stored d' = stored d \<and> tickets d' = insert (qr_id q) (tickets d)"
    and ticket_deleted:
      "ok d \<Longrightarrow> so_deleteTicket ops i d = (None, d') \<Longrightarrow>
       ok d' \<and> stored d' = stored d \<and> tickets d' = tickets d - {i}"
    and ticket_queue:
      "ok d \<Longrightarrow> so_queue ops d = Inr qs \<Longrightarrow> set (map qr_id qs) = tickets d"

end
