(* ===== verification/Reservations.thy ===== *)
theory Reservations
  imports Sched_Ops
begin

text \<open>
  reservations.go: reservation CRUD with its ownership rules, and the window helpers the
  placement reads.  The reservation list of the scheduler is authoritative; every change is
  written through to the store first (\<open>None\<close> for the store models a scheduler without one).
\<close>

section \<open>Defaults, validation, permission\<close>

definition resolveAgentFlags :: "string \<Rightarrow> bool option \<Rightarrow> bool option \<Rightarrow> bool \<times> bool" where
  "resolveAgentFlags createdBy reschedule cancellation =
     (let def = (createdBy \<noteq> humanIdentity)
      in (case reschedule of None \<Rightarrow> def | Some b \<Rightarrow> b,
          case cancellation of None \<Rightarrow> def | Some b \<Rightarrow> b))"

datatype reservation_error =
    LabelRequired
  | ModelRequired
  | BayRequired
  | BayForbidden string
  | InvalidScope string
  | EndNotAfterStart
  | CreatedByRequired
  | ErrConflict string
  | ErrNotFound string
  | ErrPermissionDenied string string string string
  | PersistFailed string store_err
  | DeleteFailed string store_err

definition validateReservation :: "reservation \<Rightarrow> reservation_error option" where
  "validateReservation r =
     (if r_label r = [] then Some LabelRequired
      else if r_model r = [] then Some ModelRequired
      else if r_scope r = ''bay'' \<and> r_bay r = [] then Some BayRequired
      else if (r_scope r = ''whole_box'' \<or> r_scope r = ''comfyui'') \<and> r_bay r \<noteq> []
        then Some (BayForbidden (r_scope r))
      else if r_scope r \<noteq> ''bay'' \<and> r_scope r \<noteq> ''whole_box'' \<and> r_scope r \<noteq> ''comfyui''
        then Some (InvalidScope (r_scope r))
      else if is_zero (r_start r) \<or> is_zero (r_end r) \<or> \<not> r_start r < r_end r
        then Some EndNotAfterStart
      else if r_createdBy r = [] then Some CreatedByRequired
      else None)"

definition checkReservationPermission ::
    "reservation \<Rightarrow> string \<Rightarrow> string \<Rightarrow> reservation_error option" where
  "checkReservationPermission r requestedBy action =
     (if requestedBy = humanIdentity then None
      else if requestedBy \<noteq> [] \<and> r_createdBy r = requestedBy then None
      else let allowed = (if action = ''cancel'' then r_allowCancellation r else r_allowReschedule r)
           in if allowed then None
              else Some (ErrPermissionDenied requestedBy action (r_label r) (r_createdBy r)))"

section \<open>CRUD\<close>

fun reservationIndex :: "reservation list \<Rightarrow> string \<Rightarrow> nat option" where
  "reservationIndex [] l = None"
| "reservationIndex (r # rs) l =
     (if r_label r = l then Some 0 else map_option Suc (reservationIndex rs l))"

definition persistReservation ::
    "'d sched_ops option \<Rightarrow> reservation \<Rightarrow> time \<Rightarrow> 'd \<Rightarrow> reservation_error option \<times> 'd" where
  "persistReservation ops r now d =
     (case ops of None \<Rightarrow> (None, d)
      | Some so \<Rightarrow> (case so_saveReservation so (reservationToRow r now) d of
            (None, d') \<Rightarrow> (None, d')
          | (Some e, d') \<Rightarrow> (Some (PersistFailed (r_label r) e), d')))"

definition createReservation ::
    "'d sched_ops option \<Rightarrow> reservation \<Rightarrow> time \<Rightarrow> reservation list \<times> 'd
     \<Rightarrow> reservation_error option \<times> reservation list \<times> 'd" where
  "createReservation ops r now s =
     (case s of (rs, d) \<Rightarrow>
       (case validateReservation r of Some e \<Rightarrow> (Some e, rs, d)
        | None \<Rightarrow>
          if list_ex (\<lambda>x. r_label x = r_label r) rs then (Some (ErrConflict (r_label r)), rs, d)
          else (case persistReservation ops r now d of
                  (Some e, d') \<Rightarrow> (Some e, rs, d')
                | (None, d') \<Rightarrow> (None, rs @ [r], d'))))"

definition updateReservation ::
    "'d sched_ops option \<Rightarrow> string \<Rightarrow> reservation \<Rightarrow> time \<Rightarrow> reservation list \<times> 'd
     \<Rightarrow> reservation_error option \<times> reservation list \<times> 'd" where
  "updateReservation ops l r now s =
     (case s of (rs, d) \<Rightarrow>
       (case reservationIndex rs l of None \<Rightarrow> (Some (ErrNotFound l), rs, d)
        | Some idx \<Rightarrow>
          let existing = rs ! idx in
          (case checkReservationPermission existing (r_createdBy r) ''reschedule'' of
             Some e \<Rightarrow> (Some e, rs, d)
           | None \<Rightarrow>
             let updated = r\<lparr>r_label := l, r_createdBy := r_createdBy existing\<rparr> in
             (case validateReservation updated of Some e \<Rightarrow> (Some e, rs, d)
              | None \<Rightarrow>
                (case persistReservation ops updated now d of
                   (Some e, d') \<Rightarrow> (Some e, rs, d')
                 | (None, d') \<Rightarrow> (None, rs[idx := updated], d'))))))"

definition cancelReservation ::
    "'d sched_ops option \<Rightarrow> string \<Rightarrow> string \<Rightarrow> reservation list \<times> 'd
     \<Rightarrow> reservation_error option \<times> reservation list \<times> 'd" where
  "cancelReservation ops l requestedBy s =
     (case s of (rs, d) \<Rightarrow>
       (case reservationIndex rs l of None \<Rightarrow> (Some (ErrNotFound l), rs, d)
        | Some idx \<Rightarrow>
          (case checkReservationPermission (rs ! idx) requestedBy ''cancel'' of
             Some e \<Rightarrow> (Some e, rs, d)
           | None \<Rightarrow>
             let removed = drop_at idx rs in
             (case ops of None \<Rightarrow> (None, removed, d)
              | Some so \<Rightarrow>
                (case so_deleteReservation so l d of
                   (None, d') \<Rightarrow> (None, removed, d')
                 | (Some StoreNotFound, d') \<Rightarrow> (None, removed, d')
                 | (Some e, d') \<Rightarrow> (Some (DeleteFailed l e), rs, d'))))))"

section \<open>Window helpers\<close>

definition activeReservationForModel ::
    "reservation list \<Rightarrow> model \<Rightarrow> time \<Rightarrow> reservation option" where
  "activeReservationForModel rs m now =
     find (\<lambda>r. r_model r = m \<and> \<not> now < r_start r \<and> now < r_end r) rs"

definition modelReservedSoon ::
    "reservation list \<Rightarrow> model \<Rightarrow> time \<Rightarrow> duration \<Rightarrow> bool" where
  "modelReservedSoon rs m now soon =
     list_ex (\<lambda>r. r_model r = m \<and> \<not> r_start r < now \<and> \<not> r_start r > now + soon) rs"

definition activeReservationEnd :: "reservation list \<Rightarrow> model \<Rightarrow> time \<Rightarrow> time" where
  "activeReservationEnd rs m now =
     foldl (\<lambda>e r.
        if r_model r \<noteq> m \<or> r_end r < e then e
        else if \<not> now < r_start r \<and> now < r_end r \<and> r_end r > e then r_end r else e) 0 rs"

definition soonReservationStart ::
    "reservation list \<Rightarrow> model \<Rightarrow> time \<Rightarrow> duration \<Rightarrow> time" where
  "soonReservationStart rs m now soon =
     foldl (\<lambda>start r.
        if r_model r \<noteq> m then start
        else if \<not> r_start r < now \<and> \<not> r_start r > now + soon
                \<and> (is_zero start \<or> r_start r < start) then r_start r else start) 0 rs"

definition activeComfyReservation :: "reservation list \<Rightarrow> time \<Rightarrow> bool" where
  "activeComfyReservation rs now =
     list_ex (\<lambda>r. r_scope r = ''comfyui'' \<and> \<not> now < r_start r \<and> now < r_end r) rs"

definition activeComfyReservationEnd :: "reservation list \<Rightarrow> time \<Rightarrow> time" where
  "activeComfyReservationEnd rs now =
     foldl (\<lambda>e r.
        if r_scope r \<noteq> ''comfyui'' \<or> r_end r < e then e
        else if \<not> now < r_start r \<and> now < r_end r \<and> r_end r > e then r_end r else e) 0 rs"

definition soonComfyReservation :: "reservation list \<Rightarrow> time \<Rightarrow> duration \<Rightarrow> bool" where
  "soonComfyReservation rs now soon =
     list_ex (\<lambda>r. r_scope r = ''comfyui'' \<and> \<not> r_start r < now \<and> \<not> r_start r > now + soon) rs"


section \<open>Lemmas\<close>

definition in_window :: "reservation \<Rightarrow> time \<Rightarrow> bool" where
  "in_window r now \<longleftrightarrow> r_start r \<le> now \<and> now < r_end r"

lemma active_iff:
  "activeReservationForModel rs m now \<noteq> None \<longleftrightarrow> (\<exists>r \<in> set rs. r_model r = m \<and> in_window r now)"
  by (auto simp: activeReservationForModel_def find_None_iff in_window_def not_less)

lemma soon_iff:
  "modelReservedSoon rs m now soon \<longleftrightarrow>
     (\<exists>r \<in> set rs. r_model r = m \<and> now \<le> r_start r \<and> r_start r \<le> now + soon)"
  by (auto simp: modelReservedSoon_def list_ex_iff not_less)

lemma activeComfy_iff:
  "activeComfyReservation rs now \<longleftrightarrow> (\<exists>r \<in> set rs. r_scope r = ''comfyui'' \<and> in_window r now)"
  by (auto simp: activeComfyReservation_def list_ex_iff in_window_def not_less)

text \<open>Both end functions keep the latest end seen; the start function the earliest start.\<close>

lemma foldl_latest:
  fixes k :: "'a \<Rightarrow> int"
  shows "foldl (\<lambda>e r. if \<not> A r \<or> k r < e then e else if B r \<and> k r > e then k r else e) e0 xs =
     Max (insert e0 (k ` {x \<in> set xs. A x \<and> B x}))"
proof (induction xs arbitrary: e0)
  case (Cons x xs)
  let ?S = "k ` {y \<in> set xs. A y \<and> B y}"
  have fin: "finite ?S" by simp
  show ?case
  proof (cases "A x \<and> B x")
    case True
    then have "k ` {y \<in> set (x # xs). A y \<and> B y} = insert (k x) ?S" by auto
    moreover have "Max (insert e0 (insert (k x) ?S)) = Max (insert (max e0 (k x)) ?S)"
      using fin by (rule Max_insert_insert)
    ultimately show ?thesis using Cons.IH True by (auto simp: max_def)
  next
    case False
    then have "k ` {y \<in> set (x # xs). A y \<and> B y} = ?S" by auto
    then show ?thesis using Cons.IH False by auto
  qed
qed simp

lemma activeReservationEnd_eq:
  "activeReservationEnd rs m now =
     Max (insert 0 (r_end ` {r \<in> set rs. r_model r = m \<and> in_window r now}))"
  using foldl_latest [of "\<lambda>r. r_model r = m" r_end
      "\<lambda>r. \<not> now < r_start r \<and> now < r_end r" 0 rs]
  by (simp add: activeReservationEnd_def in_window_def not_less [symmetric] conj_assoc cong: if_cong)

lemma activeComfyReservationEnd_eq:
  "activeComfyReservationEnd rs now =
     Max (insert 0 (r_end ` {r \<in> set rs. r_scope r = ''comfyui'' \<and> in_window r now}))"
  using foldl_latest [of "\<lambda>r. r_scope r = ''comfyui''" r_end
      "\<lambda>r. \<not> now < r_start r \<and> now < r_end r" 0 rs]
  by (simp add: activeComfyReservationEnd_def in_window_def not_less [symmetric] conj_assoc cong: if_cong)

lemma active_end_covers:
  assumes "r \<in> set rs" and "r_model r = m" and "in_window r now"
  shows "r_end r \<le> activeReservationEnd rs m now"
  using assms by (auto simp: activeReservationEnd_eq intro!: Max_ge)

text \<open>Once the reported end has passed, no reservation that is active now still protects.\<close>

lemma active_end_clears:
  assumes "r \<in> set rs" and "r_model r = m" and "in_window r now"
    and "activeReservationEnd rs m now \<le> later"
  shows "\<not> in_window r later"
  using active_end_covers [OF assms(1-3)] assms(4) by (simp add: in_window_def)

lemma reservationIndex_Some:
  "reservationIndex rs l = Some i \<Longrightarrow> i < length rs \<and> r_label (rs ! i) = l"
  by (induction rs arbitrary: i) (auto split: if_splits)

lemma reservationIndex_None: "reservationIndex rs l = None \<longleftrightarrow> l \<notin> r_label ` set rs"
  by (induction rs) auto

lemma validate_None_iff:
  "validateReservation r = None \<longleftrightarrow>
     r_label r \<noteq> [] \<and> r_model r \<noteq> [] \<and> r_createdBy r \<noteq> [] \<and>
     (r_scope r = ''bay'' \<and> r_bay r \<noteq> [] \<or>
      (r_scope r = ''whole_box'' \<or> r_scope r = ''comfyui'') \<and> r_bay r = []) \<and>
     r_start r \<noteq> 0 \<and> r_end r \<noteq> 0 \<and> r_start r < r_end r"
  by (auto simp: validateReservation_def is_zero_def)

subsection \<open>The invariant of the reservation list\<close>

definition reservations_wf :: "reservation list \<Rightarrow> bool" where
  "reservations_wf rs \<longleftrightarrow>
     distinct (map r_label rs) \<and> (\<forall>r \<in> set rs. validateReservation r = None)"

datatype reservation_cmd =
    RCreate reservation time
  | RUpdate string reservation time
  | RCancel string string

fun reservation_step ::
    "'d sched_ops option \<Rightarrow> reservation list \<times> 'd \<Rightarrow> reservation_cmd
     \<Rightarrow> reservation_error option \<times> reservation list \<times> 'd" where
  "reservation_step ops s (RCreate r now) = createReservation ops r now s"
| "reservation_step ops s (RUpdate l r now) = updateReservation ops l r now s"
| "reservation_step ops s (RCancel l who) = cancelReservation ops l who s"

text \<open>What one command does to the list: nothing, append a new label, replace the entry of a
  label keeping its label and owner, or drop the entry of a label.\<close>

lemma create_cases:
  assumes "createReservation ops r now (rs, d) = (e, rs', d')"
  shows "(e \<noteq> None \<and> rs' = rs) \<or>
     (e = None \<and> rs' = rs @ [r] \<and> validateReservation r = None \<and> r_label r \<notin> r_label ` set rs \<and>
      persistReservation ops r now d = (None, d'))"
  using assms
  by (cases "validateReservation r"; cases e)
    (auto simp: createReservation_def list_ex_iff split: option.splits if_splits prod.splits)

lemma update_cases:
  assumes "updateReservation ops l r now (rs, d) = (e, rs', d')"
  shows "(e \<noteq> None \<and> rs' = rs) \<or>
     (\<exists>i u. e = None \<and> i < length rs \<and> r_label (rs ! i) = l \<and> rs' = rs[i := u] \<and>
        u = r\<lparr>r_label := l, r_createdBy := r_createdBy (rs ! i)\<rparr> \<and> validateReservation u = None \<and>
        checkReservationPermission (rs ! i) (r_createdBy r) ''reschedule'' = None \<and>
        persistReservation ops u now d = (None, d'))"
  using assms reservationIndex_Some [of rs l]
  by (auto simp: updateReservation_def Let_def split: option.splits prod.splits)

lemma cancel_cases:
  assumes "cancelReservation ops l who (rs, d) = (e, rs', d')"
  shows "(e \<noteq> None \<and> rs' = rs) \<or>
     (\<exists>i. e = None \<and> i < length rs \<and> r_label (rs ! i) = l \<and>
        rs' = drop_at i rs \<and>
        checkReservationPermission (rs ! i) who ''cancel'' = None)"
  using assms reservationIndex_Some [of rs l]
  by (auto simp: cancelReservation_def Let_def split: option.splits prod.splits store_err.splits)

lemma reservation_step_wf [forge_inv]:
  assumes wf: "reservations_wf rs" and step: "reservation_step ops (rs, d) c = (e, rs', d')"
  shows "reservations_wf rs'"
proof (cases c)
  case (RCreate r now)
  with step have "createReservation ops r now (rs, d) = (e, rs', d')" by simp
  from create_cases [OF this] wf show ?thesis by (auto simp: reservations_wf_def)
next
  case (RUpdate l r now)
  with step have "updateReservation ops l r now (rs, d) = (e, rs', d')" by simp
  from update_cases [OF this] wf show ?thesis
    by (auto simp: reservations_wf_def intro!: distinct_map_update_same
        dest: set_update_subset_insert [THEN subsetD])
next
  case (RCancel l who)
  with step have "cancelReservation ops l who (rs, d) = (e, rs', d')" by simp
  from cancel_cases [OF this] wf show ?thesis
    unfolding reservations_wf_def
    by (metis distinct_map_drop_at set_drop_at subsetD)
qed

text \<open>Who issues a command; an agent may touch another's reservation only through the flags.\<close>

fun cmd_actor :: "reservation_cmd \<Rightarrow> string" where
  "cmd_actor (RCreate r now) = r_createdBy r"
| "cmd_actor (RUpdate l r now) = r_createdBy r"
| "cmd_actor (RCancel l who) = who"

lemma permission_denied_iff:
  "checkReservationPermission r who action \<noteq> None \<longleftrightarrow>
     who \<noteq> humanIdentity \<and> (who = [] \<or> r_createdBy r \<noteq> who) \<and>
     \<not> (if action = ''cancel'' then r_allowCancellation r else r_allowReschedule r)"
  by (auto simp: checkReservationPermission_def)

lemma locked_kept:
  assumes r: "r \<in> set rs" and wf: "reservations_wf rs"
    and locked: "\<not> r_allowReschedule r" "\<not> r_allowCancellation r"
    and other: "cmd_actor c \<noteq> humanIdentity" "cmd_actor c \<noteq> r_createdBy r"
    and step: "reservation_step ops (rs, d) c = (e, rs', d')"
  shows "r \<in> set rs'"
proof -
  have denied: "checkReservationPermission r (cmd_actor c) a \<noteq> None" for a
    unfolding permission_denied_iff using locked other by auto
  from r obtain j where j: "j < length rs" "rs ! j = r" by (auto simp: in_set_conv_nth)
  show ?thesis
  proof (cases c)
    case (RCreate x now)
    with step create_cases [of ops x now rs d e rs' d'] r show ?thesis by auto
  next
    case (RUpdate l x now)
    with step update_cases [of ops l x now rs d e rs' d'] consider "rs' = rs"
      | i u where "i < length rs" "rs' = rs[i := u]"
        "checkReservationPermission (rs ! i) (cmd_actor c) ''reschedule'' = None"
      by auto
    then show ?thesis
    proof cases
      case 2
      with denied j have "i \<noteq> j" by metis
      with 2 j show ?thesis by (metis length_list_update nth_list_update_neq nth_mem)
    qed (use r in simp)
  next
    case (RCancel l who)
    with step cancel_cases [of ops l who rs d e rs' d'] consider "rs' = rs"
      | i where "i < length rs" "rs' = drop_at i rs"
        "checkReservationPermission (rs ! i) (cmd_actor c) ''cancel'' = None"
      by auto
    then show ?thesis
    proof cases
      case 2
      with denied j have "i \<noteq> j" by metis
      with 2 j drop_at_keeps [of j rs i] show ?thesis by simp
    qed (use r in simp)
  qed
qed

subsection \<open>The list and its persistent copy\<close>

text \<open>
  The store holds the reservations of the list, each with its window cut to whole seconds.
  Every command keeps this, so what a restart reads back is the list, up to that.
\<close>

definition persisted :: "reservation list \<Rightarrow> (string \<rightharpoonup> reservation)" where
  "persisted rs = labelled (map truncate_reservation rs)"

lemma persisted_append: "r_label r \<notin> r_label ` set rs \<Longrightarrow>
   persisted (rs @ [r]) = (persisted rs)(r_label r \<mapsto> truncate_reservation r)"
  by (induction rs) (auto simp: persisted_def labelled_def fun_upd_twist)

lemma persisted_update:
  "distinct (map r_label rs) \<Longrightarrow> i < length rs \<Longrightarrow> r_label u = r_label (rs ! i) \<Longrightarrow>
   persisted (rs[i := u]) = (persisted rs)(r_label u \<mapsto> truncate_reservation u)"
proof (induction rs arbitrary: i)
  case (Cons x rs)
  show ?case
  proof (cases i)
    case (Suc k)
    then have "r_label x \<noteq> r_label u" using Cons.prems by auto
    with Cons Suc show ?thesis by (auto simp: persisted_def labelled_def fun_upd_twist)
  qed (use Cons.prems in \<open>auto simp: persisted_def labelled_def fun_eq_iff\<close>)
qed simp

lemma persisted_drop:
  "distinct (map r_label rs) \<Longrightarrow> i < length rs \<Longrightarrow>
   persisted (drop_at i rs) = (persisted rs)(r_label (rs ! i) := None)"
proof (induction rs arbitrary: i)
  case (Cons x rs)
  show ?case
  proof (cases i)
    case 0
    have "persisted rs (r_label x) = None"
      using Cons.prems by (auto simp: persisted_def labelled_None_iff image_image)
    with 0 show ?thesis by (auto simp: persisted_def labelled_def fun_eq_iff)
  next
    case (Suc k)
    then have "r_label x \<noteq> r_label (rs ! k)" using Cons.prems by auto
    with Cons Suc show ?thesis by (auto simp: persisted_def labelled_def fun_upd_twist)
  qed
qed simp

context sched_store
begin

definition mirrors :: "reservation list \<Rightarrow> 'd \<Rightarrow> bool" where
  "mirrors rs d \<longleftrightarrow> ok d \<and> distinct (map r_label rs) \<and> stored d = persisted rs"

lemma persist_ok:
  assumes "ok d" and "persistReservation (Some ops) r now d = (None, d')"
  shows "ok d' \<and> stored d' = (stored d)(r_label r \<mapsto> truncate_reservation r)"
  using assms save_ok [of d "reservationToRow r now" d']
  by (auto simp: persistReservation_def reservation_row_roundtrip
      split: prod.splits option.splits)

lemma persist_err:
  assumes "ok d" and "persistReservation (Some ops) r now d = (Some e, d')"
  shows "d' = d"
  using assms save_err [of d "reservationToRow r now"]
  by (auto simp: persistReservation_def split: prod.splits option.splits)

lemma create_mirrors:
  assumes m: "mirrors rs d" and step: "createReservation (Some ops) r now (rs, d) = (e, rs', d')"
  shows "mirrors rs' d'"
proof (cases e)
  case None
  with create_cases [OF step] have "rs' = rs @ [r]" "r_label r \<notin> r_label ` set rs"
    "persistReservation (Some ops) r now d = (None, d')" by auto
  with m persist_ok [of d r now d'] show ?thesis by (auto simp: mirrors_def persisted_append)
next
  case (Some x)
  then have "rs' = rs" using create_cases [OF step] by auto
  moreover have "d' = d"
    using step Some m persist_err [of d r now _ d']
    by (cases "validateReservation r")
      (auto simp: createReservation_def mirrors_def split: if_splits prod.splits option.splits)
  ultimately show ?thesis using m by simp
qed

lemma update_mirrors:
  assumes m: "mirrors rs d" and step: "updateReservation (Some ops) l r now (rs, d) = (e, rs', d')"
  shows "mirrors rs' d'"
proof (cases e)
  case None
  with update_cases [OF step] obtain i u where u: "i < length rs" "r_label (rs ! i) = l"
    "rs' = rs[i := u]" "r_label u = l" "persistReservation (Some ops) u now d = (None, d')" by auto
  with m persist_ok [OF _ u(5)] show ?thesis
    by (simp add: mirrors_def persisted_update distinct_map_update_same)
next
  case (Some x)
  then have "rs' = rs" using update_cases [OF step] by auto
  moreover have "d' = d"
    using step Some m persist_err [of d _ now _ d']
    by (auto simp: updateReservation_def mirrors_def Let_def split: prod.splits option.splits)
  ultimately show ?thesis using m by simp
qed

lemma cancel_mirrors:
  assumes m: "mirrors rs d" and step: "cancelReservation (Some ops) l who (rs, d) = (e, rs', d')"
  shows "mirrors rs' d'"
proof (cases e)
  case None
  with cancel_cases [OF step] obtain i where i: "i < length rs" "r_label (rs ! i) = l"
    "rs' = drop_at i rs" by auto
  from None step have "so_deleteReservation ops l d = (None, d') \<or>
      so_deleteReservation ops l d = (Some StoreNotFound, d')"
    by (auto simp: cancelReservation_def Let_def split: prod.splits option.splits store_err.splits)
  then show ?thesis
  proof
    assume "so_deleteReservation ops l d = (None, d')"
    with m i delete_ok [of d l d'] show ?thesis
      by (auto simp: mirrors_def persisted_drop distinct_map_drop_at)
  next
    assume "so_deleteReservation ops l d = (Some StoreNotFound, d')"
    with m delete_err [of d l StoreNotFound d'] have "d' = d" "persisted rs l = None"
      by (auto simp: mirrors_def)
    with m i show ?thesis
      by (auto simp: mirrors_def persisted_drop distinct_map_drop_at fun_upd_idem)
  qed
next
  case (Some x)
  then have "rs' = rs" using cancel_cases [OF step] by auto
  moreover have "d' = d"
    using step Some m delete_err [of d l _ d']
    by (auto simp: cancelReservation_def mirrors_def Let_def
        split: prod.splits option.splits store_err.splits)
  ultimately show ?thesis using m by simp
qed

lemma step_mirrors:
  assumes "mirrors rs d" and "reservation_step (Some ops) (rs, d) c = (e, rs', d')"
  shows "mirrors rs' d'"
  using assms by (cases c) (auto intro: create_mirrors update_mirrors cancel_mirrors)

lemma recovery:
  assumes "mirrors rs d" and "so_reservations ops d = Inr rows"
  shows "labelled (map reservationFromRow rows) = persisted rs"
  using read_back [OF _ assms(2)] assms(1) by (simp add: mirrors_def)

end

section \<open>Properties\<close>

fun reservations_run ::
    "'d sched_ops option \<Rightarrow> reservation list \<times> 'd \<Rightarrow> reservation_cmd list \<Rightarrow> reservation list \<times> 'd" where
  "reservations_run ops s [] = s"
| "reservations_run ops s (c # cs) = reservations_run ops (snd (reservation_step ops s c)) cs"

lemma reservations_run_wf:
  "reservations_wf (fst s) \<Longrightarrow> reservations_wf (fst (reservations_run ops s cs))"
proof (induction cs arbitrary: s)
  case (Cons c cs)
  obtain e rs' d' where step: "reservation_step ops s c = (e, rs', d')" by (rule prod_cases3)
  then have "reservations_wf rs'"
    using reservation_step_wf [of "fst s" ops "snd s" c e rs' d'] Cons.prems by simp
  with Cons.IH [of "(rs', d')"] step show ?case by simp
qed simp

text \<open>reservations stay well-formed.  Whatever commands arrive, and whatever the store
  answers, labels stay unique and every reservation in the list satisfies the validation:
  a label, a model, an owner, a bay exactly for scope bay, and an end after its start.\<close>

theorem reservations_stay_wf:
  "distinct (map r_label (fst (reservations_run ops ([], d) cs))) \<and>
   list_all (\<lambda>r. validateReservation r = None) (fst (reservations_run ops ([], d) cs))"
  using reservations_run_wf [of "([], d)" ops cs] by (simp add: reservations_wf_def list_all_iff)

text \<open>C26: a locked reservation is safe from other agents.  A reservation whose two agent flags
  are off stays in the list, unchanged, through any sequence of commands issued by agents
  that do not own it.\<close>

theorem locked_reservation_safe:
  assumes "r \<in> set rs" and "reservations_wf rs"
    and "\<not> r_allowReschedule r" and "\<not> r_allowCancellation r"
    and "\<forall>c \<in> set cs. cmd_actor c \<noteq> humanIdentity \<and> cmd_actor c \<noteq> r_createdBy r"
  shows "r \<in> set (fst (reservations_run ops (rs, d) cs))"
  using assms
proof (induction cs arbitrary: rs d)
  case (Cons c cs)
  obtain e rs' d' where step: "reservation_step ops (rs, d) c = (e, rs', d')" by (rule prod_cases3)
  have "r \<in> set rs'" using locked_kept [OF Cons.prems(1-4) _ _ step] Cons.prems(5) by simp
  with Cons.IH [of rs' d'] Cons.prems reservation_step_wf [OF Cons.prems(2) step] step
  show ?case by simp
qed simp

definition sample_reservation :: reservation where
  "sample_reservation = \<lparr>r_label = ''night'', r_model = ''m'', r_start = 1000000000000,
     r_end = 2000000000000, r_scope = ''whole_box'', r_bay = [], r_createdBy = ''human'',
     r_allowReschedule = False, r_allowCancellation = False\<rparr>"

theorem locked_reservation_safe_witness:
  "sample_reservation \<in> set (fst (reservations_run None ([sample_reservation], ())
     [RCancel ''night'' ''agent-7'', RUpdate ''night'' (sample_reservation\<lparr>r_createdBy := ''agent-7''\<rparr>) 5]))"
  by (rule locked_reservation_safe)
    (simp_all add: reservations_wf_def validateReservation_def sample_reservation_def
      is_zero_def humanIdentity_def)

text \<open>An update never renames a reservation nor transfers its ownership, whatever label and
  creator the request carries, and a failed one changes nothing.\<close>

theorem update_keeps_identity:
  assumes "updateReservation ops l r now (rs, d) = (e, rs', d')"
  shows "map r_label rs' = map r_label rs \<and> map r_createdBy rs' = map r_createdBy rs \<and>
    (e \<noteq> None \<longrightarrow> rs' = rs)"
proof -
  have same: "map f (rs[i := u]) = map f rs" if "f u = f (rs ! i)" for f :: "reservation \<Rightarrow> string" and i u
    using that by (metis list_update_id map_update)
  from update_cases [OF assms] show ?thesis by (auto simp: same)
qed

theorem update_keeps_identity_witness:
  "map r_createdBy (fst (snd (updateReservation None ''night''
     (sample_reservation\<lparr>r_label := ''other'', r_end := 3000000000000\<rparr>) 5 ([sample_reservation], ())))) =
   [''human'']"
proof -
  obtain e rs' d' where u: "updateReservation None ''night''
     (sample_reservation\<lparr>r_label := ''other'', r_end := 3000000000000\<rparr>) 5
     ([sample_reservation], ()) = (e, rs', d')" by (rule prod_cases3)
  show ?thesis using update_keeps_identity [OF u] u by (simp add: sample_reservation_def)
qed

text \<open>The reported end of protection is exact.  For a model under an active reservation, a
  reservation that is active now still stands at a later time exactly when that time is
  before the end \<open>activeReservationEnd\<close> reports; and the report is the zero time exactly
  when no reservation is active.\<close>

theorem reservation_end_exact:
  assumes "0 < now" and "now \<le> later"
  shows "(later < activeReservationEnd rs m now \<longleftrightarrow>
       (\<exists>r \<in> set rs. r_model r = m \<and> in_window r now \<and> in_window r later)) \<and>
    (is_zero (activeReservationEnd rs m now) \<longleftrightarrow> activeReservationForModel rs m now = None)"
proof -
  let ?S = "r_end ` {r \<in> set rs. r_model r = m \<and> in_window r now}"
  have "later < Max (insert 0 ?S) \<longleftrightarrow> (\<exists>e \<in> ?S. later < e)"
    using assms by (subst Max_gr_iff) auto
  moreover have "Max (insert 0 ?S) = 0 \<longleftrightarrow> ?S = {}"
  proof
    assume "Max (insert 0 ?S) = 0"
    moreover have "e \<le> Max (insert 0 ?S)" if "e \<in> ?S" for e using that by (intro Max_ge) auto
    moreover have "0 < e" if "e \<in> ?S" for e using that assms by (auto simp: in_window_def)
    ultimately show "?S = {}" by fastforce
  next
    assume "?S = {}"
    then show "Max (insert 0 ?S) = 0" by (simp only: Max_singleton)
  qed
  moreover have "?S = {} \<longleftrightarrow> activeReservationForModel rs m now = None"
    using active_iff [of rs m now] by auto
  ultimately show ?thesis
    using assms unfolding activeReservationEnd_eq by (auto simp: in_window_def is_zero_def)
qed

theorem reservation_end_exact_witness:
  "1999000000000 < activeReservationEnd [sample_reservation] ''m'' 1500000000000"
  using reservation_end_exact [of 1500000000000 1999000000000 "[sample_reservation]" "''m''"]
  by (simp add: sample_reservation_def in_window_def)

end
