(* ===== verification/Engine_Ops.thy ===== *)
theory Engine_Ops
  imports Sched_Types
begin

text \<open>
  The slice of the engine the scheduler needs (the \<open>Engine\<close>, \<open>ComfyUISeam\<close> and \<open>Footprints\<close>
  interfaces of sched/core.go), the collector snapshot it reads
  (collector/snapshot.go), and the fit plan of engine/memory.go.  The state the operations
  act on is abstract here; the engine theories provide a concrete one.
\<close>

section \<open>Snapshots\<close>

record unit_state =
  us_activeState :: string
  us_subState :: string
  us_gpuBytes :: int

definition unit_active :: "unit_state \<Rightarrow> bool" where
  "unit_active u = (us_activeState u = ''active'')"

definition unit_deactivating :: "unit_state \<Rightarrow> bool" where
  "unit_deactivating u = (us_activeState u = ''deactivating'')"

record slot_snap =
  ss_label :: string
  ss_lastActivity :: time
  ss_memoryBytes :: int

record snapshot =
  sn_takenAt :: time
  sn_units :: "unit_name \<rightharpoonup> unit_state"
  sn_slots :: "slot \<rightharpoonup> slot_snap"
  sn_gttTotal :: "int option"
  sn_inferenceRSS :: "int option"

record transition =
  tn_mode :: model
  tn_startedAt :: time

record slot_assignment =
  sa_mode :: model  \<comment> \<open>the empty string: no mode\<close>
  sa_loading :: "transition option"
  sa_unloading :: "transition option"

definition no_assignment :: slot_assignment where
  "no_assignment = \<lparr>sa_mode = [], sa_loading = None, sa_unloading = None\<rparr>"

text \<open>Reading a Go map at a missing key gives the zero value.\<close>

definition assigned :: "(slot \<rightharpoonup> slot_assignment) \<Rightarrow> slot \<Rightarrow> slot_assignment" where
  "assigned occ s = (case occ s of None \<Rightarrow> no_assignment | Some a \<Rightarrow> a)"

section \<open>Plans and results\<close>

record plan =
  p_fits :: bool
  p_need :: int
  p_free :: int
  p_slot :: slot
  p_evict :: "slot list"
  p_evictComfy :: bool
  p_comfyBytes :: int
  p_message :: message

record op_result =
  or_success :: bool
  or_message :: message
  or_nctx :: int

section \<open>The operations\<close>

record 'w engine_ops =
  eo_slots :: "'w \<Rightarrow> slot list"
  eo_slotStates :: "(unit_name \<rightharpoonup> unit_state) \<Rightarrow> 'w \<Rightarrow> (slot \<rightharpoonup> slot_assignment) \<times> 'w"
  eo_fitPlan :: "model \<Rightarrow> 'w \<Rightarrow> (string + plan) \<times> 'w"
  eo_load :: "model \<Rightarrow> slot \<Rightarrow> 'w \<Rightarrow> op_result \<times> 'w"
  eo_unload :: "slot \<Rightarrow> 'w \<Rightarrow> op_result \<times> 'w"
  eo_footprintMB :: "(slot \<Rightarrow> 'w \<Rightarrow> int) option"  \<comment> \<open>the optional \<open>Footprints\<close> interface\<close>

text \<open>The fields of the seam may be unset each.\<close>

record 'w comfy_seam =
  cs_unit :: "unit_name option"
  cs_idle :: "('w \<Rightarrow> bool \<times> string) option"
  cs_stop :: "('w \<Rightarrow> string option \<times> 'w) option"

section \<open>The laws the scheduler relies on\<close>

text \<open>
  What an engine promises about its slots:
  \<^item> \<open>mode_of\<close> is its own record of the mode in a slot; a report of slot states shows it;
  \<^item> \<open>touched\<close> are the slots whose service it has told to stop, or whose process it has killed:
    reading slot states and planning touch none, a load or an unload only its own slot;
  \<^item> \<open>ok\<close>, its invariant, is kept by every operation;
  \<^item> a recorded mode survives reading and planning as long as the slot's service is not
    reported gone, by the snapshot (\<open>shown\<close>) and by the host (\<open>alive\<close>).
\<close>

locale slot_engine =
  fixes ops :: "'w engine_ops"
    and mode_of :: "'w \<Rightarrow> slot \<Rightarrow> model"
    and touched :: "'w \<Rightarrow> slot set"
    and alive :: "'w \<Rightarrow> slot \<Rightarrow> bool"
    and shown :: "(unit_name \<rightharpoonup> unit_state) \<Rightarrow> slot \<Rightarrow> bool"
    and ok :: "'w \<Rightarrow> bool"
  assumes no_all: "''all'' \<notin> set (eo_slots ops w)"
    and states_report:
      "eo_slotStates ops units w = (occ, w') \<Longrightarrow> s \<in> set (eo_slots ops w) \<Longrightarrow>
       sa_mode (assigned occ s) = mode_of w' s"
    and states_known:
      "eo_slotStates ops units w = (occ, w') \<Longrightarrow> assigned occ s \<noteq> no_assignment \<Longrightarrow>
       s \<in> set (eo_slots ops w)"
    and states_keep:
      "eo_slotStates ops units w = (occ, w') \<Longrightarrow> shown units s \<Longrightarrow> mode_of w s \<noteq> [] \<Longrightarrow>
       mode_of w' s = mode_of w s"
    and states_quiet:
      "eo_slotStates ops units w = (occ, w') \<Longrightarrow>
       touched w' = touched w \<and> alive w' = alive w \<and> eo_slots ops w' = eo_slots ops w"
    and plan_known:
      "eo_fitPlan ops m w = (Inr plan, w') \<Longrightarrow> set (p_evict plan) \<subseteq> set (eo_slots ops w)"
    and plan_keep:
      "eo_fitPlan ops m w = (p, w') \<Longrightarrow> alive w s \<Longrightarrow> mode_of w s \<noteq> [] \<Longrightarrow>
       mode_of w' s = mode_of w s"
    and plan_quiet:
      "eo_fitPlan ops m w = (p, w') \<Longrightarrow>
       touched w' = touched w \<and> alive w' = alive w \<and> eo_slots ops w' = eo_slots ops w"
    and states_ok: "eo_slotStates ops units w = (occ, w') \<Longrightarrow> ok w \<Longrightarrow> ok w'"
    and plan_ok: "eo_fitPlan ops m w = (p, w') \<Longrightarrow> ok w \<Longrightarrow> ok w'"
    and load_keeps: "eo_load ops m s w = (r, w') \<Longrightarrow> ok w \<Longrightarrow> ok w'"
    and unload_keeps: "eo_unload ops s w = (r, w') \<Longrightarrow> ok w \<Longrightarrow> ok w'"
    and load_ok: "eo_load ops m s w = (r, w') \<Longrightarrow> ok w \<Longrightarrow> or_success r \<Longrightarrow> mode_of w' s = m"
    and load_quiet: "eo_load ops m s w = (r, w') \<Longrightarrow> touched w' \<subseteq> insert s (touched w)"
    and unload_ok:
      "eo_unload ops s w = (r, w') \<Longrightarrow> or_success r \<Longrightarrow> s \<noteq> ''all'' \<Longrightarrow> mode_of w' s = []"
    and unload_quiet:
      "eo_unload ops s w = (r, w') \<Longrightarrow> s \<noteq> ''all'' \<Longrightarrow> touched w' \<subseteq> insert s (touched w)"

text \<open>With ComfyUI: stopping it touches no slot.\<close>

locale seamed_engine = slot_engine +
  fixes seam :: "'a comfy_seam option"
  assumes stop_quiet:
    "seam = Some c \<Longrightarrow> cs_stop c = Some stop \<Longrightarrow> stop w = (e, w') \<Longrightarrow>
     touched w' = touched w \<and> (ok w \<longrightarrow> ok w')"

end
