(* ===== verification/Place.thy ===== *)
theory Place
  imports Reservations Engine_Ops
begin

text \<open>
  place.go: where a model goes and what is evicted first.  \<open>place\<close> reads the engine's fit
  plan and slot states, checks the memory-driven evictions against the two tiers, gates
  stopping ComfyUI, and then picks the pinned slot, a free slot, the first memory eviction,
  or exactly one occupied slot to evict.

  One reading of the clock stands for the calls of \<open>Now\<close> within one placement.  Idle times
  are nanoseconds; the code's float seconds are compared with whole seconds only.
\<close>

section \<open>Placements\<close>

record placement =
  pl_slot :: slot
  pl_evict :: "slot list"
  pl_evictComfy :: bool
  pl_message :: message
  pl_terminal :: bool
  pl_reason :: refusal_reason

definition refused :: "message \<Rightarrow> bool \<Rightarrow> refusal_reason \<Rightarrow> placement" where
  "refused msg terminal reason = \<lparr>pl_slot = [], pl_evict = [], pl_evictComfy = False,
     pl_message = msg, pl_terminal = terminal, pl_reason = reason\<rparr>"

definition placed :: "slot \<Rightarrow> slot list \<Rightarrow> bool \<Rightarrow> placement" where
  "placed s evict comfy = \<lparr>pl_slot = s, pl_evict = evict, pl_evictComfy = comfy,
     pl_message = MsgNone, pl_terminal = False, pl_reason = NoReason\<rparr>"

section \<open>Reading the state\<close>

definition occupancy ::
    "'w engine_ops \<Rightarrow> snapshot \<Rightarrow> 'w \<Rightarrow> (slot \<rightharpoonup> slot_assignment) \<times> 'w" where
  "occupancy ops snap w = eo_slotStates ops (sn_units snap) w"

definition usable :: "(slot \<rightharpoonup> slot_assignment) \<Rightarrow> model \<Rightarrow> slot \<Rightarrow> bool" where
  "usable occ m s = (sa_mode (assigned occ s) = m \<and> sa_unloading (assigned occ s) = None)"

definition findLoaded ::
    "'w engine_ops \<Rightarrow> snapshot \<Rightarrow> model \<Rightarrow> slot \<Rightarrow> 'w \<Rightarrow> slot \<times> 'w" where
  "findLoaded ops snap m target w =
     (let (occ, w') = occupancy ops snap w in
      if target \<noteq> [] then (if usable occ m target then (target, w') else ([], w'))
      else (case find (usable occ m) (eo_slots ops w') of
              Some s \<Rightarrow> (s, w') | None \<Rightarrow> ([], w')))"

definition idleSeconds :: "snapshot \<Rightarrow> time \<Rightarrow> slot \<Rightarrow> duration option" where
  "idleSeconds snap clock s =
     (case sn_slots snap s of None \<Rightarrow> None
      | Some st \<Rightarrow>
        if is_zero (ss_lastActivity st) then None
        else let now = (if is_zero (sn_takenAt snap) then clock else sn_takenAt snap);
                 idle = time_sub now (ss_lastActivity st)
             in Some (if idle < 0 then 0 else idle))"

definition idleEligible :: "snapshot \<Rightarrow> time \<Rightarrow> slot \<Rightarrow> int \<Rightarrow> bool" where
  "idleEligible snap clock s idleUnload =
     (case idleSeconds snap clock s of None \<Rightarrow> False
      | Some idle \<Rightarrow> idle \<ge> idleUnload * nanos_per_second)"

section \<open>Refusals\<close>

definition structuralRefusal ::
    "time \<Rightarrow> duration \<Rightarrow> time \<Rightarrow> refusal_reason \<Rightarrow> message \<Rightarrow> placement" where
  "structuralRefusal now horizon clearsAt reason base =
     (if is_zero clearsAt then refused (MsgNoEnd base) True reason
      else let eta = time_sub clearsAt now in
        if eta > horizon then refused (MsgLiftsBeyond base eta horizon) True reason
        else refused (MsgEligibleIn base eta) False reason)"

text \<open>\<open>None\<close> is the eligible outcome; otherwise message, terminality and reason.\<close>

definition idleHorizonRefusal ::
    "snapshot \<Rightarrow> time \<Rightarrow> slot \<Rightarrow> int \<Rightarrow> duration \<Rightarrow> (message \<times> bool \<times> refusal_reason) option" where
  "idleHorizonRefusal snap clock s idleUnload horizon =
     (case idleSeconds snap clock s of
        None \<Rightarrow> Some (MsgActivityUnknown s, True, ReasonActivityUnknown)
      | Some idle \<Rightarrow>
        if idle \<ge> idleUnload * nanos_per_second then None
        else let wait = ((idleUnload * nanos_per_second - idle) div nanos_per_second) * nanos_per_second;
                 base = MsgIdleOnly s idle idleUnload
             in if wait > horizon
                then Some (MsgEvictableBeyond base wait horizon, True, ReasonIdleThresholdNotMet)
                else Some (MsgEvictableIn base wait, False, ReasonIdleThresholdNotMet))"

section \<open>The decision\<close>

text \<open>What the closures of \<open>place\<close> capture.\<close>

record place_env =
  pe_model :: model
  pe_target :: slot
  pe_cfg :: config
  pe_res :: "reservation list"
  pe_horizon :: duration
  pe_now :: time
  pe_snap :: snapshot
  pe_occ :: "slot \<rightharpoonup> slot_assignment"

definition pe_forced :: "place_env \<Rightarrow> bool" where
  "pe_forced v = (activeReservationForModel (pe_res v) (pe_model v) (pe_now v) \<noteq> None)"

definition pe_soon :: "place_env \<Rightarrow> duration" where
  "pe_soon v = reservationSoonMin (pe_cfg v) * nanos_per_minute"

definition mode_at :: "place_env \<Rightarrow> slot \<Rightarrow> model" where
  "mode_at v s = sa_mode (assigned (pe_occ v) s)"

definition free_slot :: "place_env \<Rightarrow> slot \<Rightarrow> bool" where
  "free_slot v s = (let a = assigned (pe_occ v) s in
     sa_mode a = [] \<and> sa_loading a = None \<and> sa_unloading a = None)"

definition activeProtected :: "place_env \<Rightarrow> slot \<Rightarrow> bool" where
  "activeProtected v s = (let m = mode_at v s in
     m \<noteq> [] \<and> activeReservationForModel (pe_res v) m (pe_now v) \<noteq> None)"

definition soonProtected :: "place_env \<Rightarrow> slot \<Rightarrow> bool" where
  "soonProtected v s = (let m = mode_at v s in
     m \<noteq> [] \<and> modelReservedSoon (pe_res v) m (pe_now v) (pe_soon v))"

definition env_idleEligible :: "place_env \<Rightarrow> slot \<Rightarrow> bool" where
  "env_idleEligible v s = idleEligible (pe_snap v) (pe_now v) s (idleUnloadS (pe_cfg v))"

definition env_idleRefusal :: "place_env \<Rightarrow> slot \<Rightarrow> (message \<times> bool \<times> refusal_reason) option" where
  "env_idleRefusal v s =
     idleHorizonRefusal (pe_snap v) (pe_now v) s (idleUnloadS (pe_cfg v)) (pe_horizon v)"

text \<open>The tier check of the engine's eviction list: a refusal, or the evictions to make.\<close>

fun memEvictions :: "place_env \<Rightarrow> slot list \<Rightarrow> placement + slot list" where
  "memEvictions v [] = Inr []"
| "memEvictions v (s # ss) =
     (if s = pe_target v then memEvictions v ss
      else if activeProtected v s then
        Inl (structuralRefusal (pe_now v) (pe_horizon v)
          (activeReservationEnd (pe_res v) (mode_at v s) (pe_now v))
          ReasonReservationActive (MsgProtectedActive (pe_model v) s))
      else
        (case (if pe_forced v then None else env_idleRefusal v s) of
           Some (msg, terminal, reason) \<Rightarrow> Inl (refused msg terminal reason)
         | None \<Rightarrow>
           if \<not> pe_forced v \<and> soonProtected v s then
             Inl (structuralRefusal (pe_now v) (pe_horizon v)
               (soonReservationStart (pe_res v) (mode_at v s) (pe_now v) (pe_soon v))
               ReasonReservationSoon (MsgProtectedSoon (pe_model v) s))
           else map_sum id ((#) s) (memEvictions v ss)))"

text \<open>The gate on stopping ComfyUI.\<close>

definition comfy_idle_probe :: "'w comfy_seam option \<Rightarrow> ('w \<Rightarrow> bool \<times> string) option" where
  "comfy_idle_probe seam =
     (case seam of None \<Rightarrow> None
      | Some c \<Rightarrow> if cs_idle c = None \<or> cs_stop c = None \<or> cs_unit c = None then None else cs_idle c)"

definition comfyGate ::
    "place_env \<Rightarrow> 'w comfy_seam option \<Rightarrow> plan \<Rightarrow> 'w \<Rightarrow> placement + bool" where
  "comfyGate v seam plan w =
     (if \<not> p_evictComfy plan then Inr False
      else if \<not> comfyEvictable (pe_cfg v) then
        Inl (refused (MsgComfyDisabled (pe_model v) (p_comfyBytes plan)) True
          ReasonComfyEvictionDisabled)
      else if activeComfyReservation (pe_res v) (pe_now v) then
        Inl (structuralRefusal (pe_now v) (pe_horizon v)
          (activeComfyReservationEnd (pe_res v) (pe_now v))
          ReasonComfyReservationActive (MsgComfyReserved (pe_model v)))
      else if soonComfyReservation (pe_res v) (pe_now v) (pe_soon v) then
        Inl (refused (MsgComfyReservedSoon (pe_model v)) True ReasonComfyReservationSoon)
      else
        (case comfy_idle_probe seam of
           None \<Rightarrow> Inl (refused (MsgComfyNotConfigured (pe_model v)) True ReasonComfyNotConfigured)
         | Some idle \<Rightarrow>
           (case idle w of
              (False, why) \<Rightarrow> Inl (refused
                (MsgComfyNotIdle (pe_model v) (p_comfyBytes plan) why) False ReasonComfyBusy)
            | (True, _) \<Rightarrow> Inr True)))"

text \<open>Smallest footprint first: by footprint and name when the engine offers footprints, else
  by the rank in the plan's eviction list, unranked slots last, in the given order.\<close>

definition evict_rank :: "slot list \<Rightarrow> slot \<Rightarrow> nat" where
  "evict_rank evict s = (if s \<in> set evict
     then length evict - 1 - length (takeWhile (\<lambda>x. x \<noteq> s) (rev evict)) else length evict)"

definition sortByFootprint ::
    "'w engine_ops \<Rightarrow> 'w \<Rightarrow> plan \<Rightarrow> slot list \<Rightarrow> slot list" where
  "sortByFootprint ops w plan slots =
     (case eo_footprintMB ops of
        Some fp \<Rightarrow> sort_key (\<lambda>s. (fp s w, s)) slots
      | None \<Rightarrow> sort_key (evict_rank (p_evict plan)) slots)"

definition placePinned :: "place_env \<Rightarrow> slot list \<Rightarrow> bool \<Rightarrow> placement" where
  "placePinned v memEvict comfy =
     (let target = pe_target v in
      if free_slot v target then placed target memEvict comfy
      else if activeProtected v target then
        structuralRefusal (pe_now v) (pe_horizon v)
          (activeReservationEnd (pe_res v) (mode_at v target) (pe_now v))
          ReasonReservationActive (MsgNoRoomOn target (mode_at v target))
      else
        (case (if pe_forced v then None else env_idleRefusal v target) of
           Some (msg, terminal, reason) \<Rightarrow> refused msg terminal reason
         | None \<Rightarrow>
           if \<not> pe_forced v \<and> soonProtected v target then
             structuralRefusal (pe_now v) (pe_horizon v)
               (soonReservationStart (pe_res v) (mode_at v target) (pe_now v) (pe_soon v))
               ReasonReservationSoon (MsgTargetSoon target)
           else placed target (target # memEvict) comfy))"

definition placeForced ::
    "'w engine_ops \<Rightarrow> 'w \<Rightarrow> place_env \<Rightarrow> plan \<Rightarrow> slot list \<Rightarrow> bool \<Rightarrow> placement" where
  "placeForced ops w v plan slots comfy =
     (let candidates = filter (\<lambda>s. mode_at v s \<noteq> [] \<and> \<not> activeProtected v s) slots in
      case sort_key (\<lambda>s. if env_idleEligible v s then 0 else 1 :: nat)
             (sortByFootprint ops w plan candidates) of
        [] \<Rightarrow> refused MsgAllReserved False ReasonNoEvictableReserved
      | s # _ \<Rightarrow> placed s [s] comfy)"

definition placeNormal ::
    "'w engine_ops \<Rightarrow> 'w \<Rightarrow> place_env \<Rightarrow> plan \<Rightarrow> slot list \<Rightarrow> bool \<Rightarrow> placement" where
  "placeNormal ops w v plan slots comfy =
     (let evictable = filter (\<lambda>s. mode_at v s \<noteq> [] \<and>
            \<not> (\<not> env_idleEligible v s \<or> soonProtected v s \<or> activeProtected v s)) slots in
      case sortByFootprint ops w plan evictable of
        [] \<Rightarrow> refused MsgNoIdleSlot False ReasonNoEvictableIdle
      | s # _ \<Rightarrow> placed s [s] comfy)"

definition chooseSlot ::
    "'w engine_ops \<Rightarrow> 'w \<Rightarrow> place_env \<Rightarrow> plan \<Rightarrow> slot list \<Rightarrow> bool \<Rightarrow> placement" where
  "chooseSlot ops w v plan memEvict comfy =
     (if pe_target v \<noteq> [] then placePinned v memEvict comfy
      else (case find (free_slot v) (eo_slots ops w) of
              Some s \<Rightarrow> placed s memEvict comfy
            | None \<Rightarrow>
              (case memEvict of
                 s # _ \<Rightarrow> placed s memEvict comfy
               | [] \<Rightarrow>
                 if pe_forced v then placeForced ops w v plan (eo_slots ops w) comfy
                 else placeNormal ops w v plan (eo_slots ops w) comfy)))"

definition decide ::
    "'w engine_ops \<Rightarrow> 'w comfy_seam option \<Rightarrow> 'w \<Rightarrow> place_env \<Rightarrow> plan \<Rightarrow> placement" where
  "decide ops seam w v plan =
     (if \<not> p_fits plan \<and> p_evict plan = [] \<and> \<not> p_evictComfy plan
      then refused (p_message plan) True ReasonModelTooLarge
      else
        (case (if p_fits plan then Inr [] else memEvictions v (p_evict plan)) of
           Inl r \<Rightarrow> r
         | Inr memEvict \<Rightarrow>
           (case comfyGate v seam plan w of
              Inl r \<Rightarrow> r
            | Inr comfy \<Rightarrow> chooseSlot ops w v plan memEvict comfy)))"

definition place ::
    "'w engine_ops \<Rightarrow> 'w comfy_seam option \<Rightarrow> snapshot \<Rightarrow> time \<Rightarrow> model \<Rightarrow> slot \<Rightarrow> config
     \<Rightarrow> reservation list \<Rightarrow> duration \<Rightarrow> 'w \<Rightarrow> placement \<times> 'w" where
  "place ops seam snap now m target cfg res horizon w =
     (case eo_fitPlan ops m w of
        (Inl err, w1) \<Rightarrow> (refused (MsgFitCheckFailed err) False ReasonFitProbeFailed, w1)
      | (Inr plan, w1) \<Rightarrow>
        (let (occ, w2) = occupancy ops snap w1;
             v = \<lparr>pe_model = m, pe_target = target, pe_cfg = cfg, pe_res = res,
                  pe_horizon = horizon, pe_now = now, pe_snap = snap, pe_occ = occ\<rparr>
         in (decide ops seam w2 v plan, w2)))"

definition couldLoad ::
    "'w engine_ops \<Rightarrow> 'w comfy_seam option \<Rightarrow> snapshot \<Rightarrow> time \<Rightarrow> model \<Rightarrow> config
     \<Rightarrow> reservation list \<Rightarrow> duration \<Rightarrow> 'w \<Rightarrow> (string + placement) \<times> 'w" where
  "couldLoad ops seam snap now m cfg res horizon w =
     (if m = [] then (Inl ''sched: model is required'', w)
      else let (s, w1) = findLoaded ops snap m [] w in
        if s \<noteq> [] then (Inr (placed s [] False), w1)
        else let (p, w2) = place ops seam snap now m [] cfg res horizon w1 in (Inr p, w2))"

section \<open>Lemmas\<close>

lemma refused_simps [simp]:
  "pl_slot (refused m t r) = []" "pl_evict (refused m t r) = []"
  "pl_evictComfy (refused m t r) = False" "pl_terminal (refused m t r) = t"
  "pl_reason (refused m t r) = r" "pl_message (refused m t r) = m"
  by (simp_all add: refused_def)

lemma placed_simps [simp]:
  "pl_slot (placed s es c) = s" "pl_evict (placed s es c) = es"
  "pl_evictComfy (placed s es c) = c" "pl_terminal (placed s es c) = False"
  "pl_reason (placed s es c) = NoReason"
  by (simp_all add: placed_def)

lemma structuralRefusal_simps [simp]:
  "pl_slot (structuralRefusal now h c r b) = []" "pl_evict (structuralRefusal now h c r b) = []"
  "pl_evictComfy (structuralRefusal now h c r b) = False"
  "pl_reason (structuralRefusal now h c r b) = r"
  by (simp_all add: structuralRefusal_def Let_def)

lemma idle_refusal_None_iff:
  "idleHorizonRefusal snap clock s u h = None \<longleftrightarrow> idleEligible snap clock s u"
  by (auto simp: idleHorizonRefusal_def idleEligible_def Let_def split: option.splits if_splits)

lemma env_idleRefusal_None_iff: "env_idleRefusal v s = None \<longleftrightarrow> env_idleEligible v s"
  by (simp add: env_idleRefusal_def env_idleEligible_def idle_refusal_None_iff)

text \<open>What a slot must satisfy to be evicted, by tier.\<close>

definition evictable_now :: "place_env \<Rightarrow> slot \<Rightarrow> bool" where
  "evictable_now v s \<longleftrightarrow> \<not> activeProtected v s \<and>
     (pe_forced v \<or> (env_idleEligible v s \<and> \<not> soonProtected v s))"

lemma memEvictions_Inr:
  "memEvictions v ss = Inr es \<Longrightarrow>
   es = filter (\<lambda>s. s \<noteq> pe_target v) ss \<and> (\<forall>s \<in> set es. evictable_now v s)"
proof (induction ss arbitrary: es)
  case (Cons s ss)
  show ?case
  proof (cases "s = pe_target v")
    case False
    with Cons.prems have ok: "evictable_now v s"
      by (auto simp: evictable_now_def env_idleRefusal_None_iff [symmetric]
          split: if_splits option.splits)
    obtain es' where "memEvictions v ss = Inr es'" "es = s # es'"
      using Cons.prems False
      by (cases "memEvictions v ss") (auto split: if_splits option.splits)
    with Cons.IH [of es'] ok False show ?thesis by auto
  qed (use Cons in auto)
qed simp

lemma memEvictions_Inl:
  "memEvictions v ss = Inl r \<Longrightarrow> pl_slot r = [] \<and> pl_evict r = [] \<and> \<not> pl_evictComfy r"
proof (induction ss)
  case (Cons s ss)
  then show ?case
    by (cases "memEvictions v ss") (auto split: if_splits option.splits)
qed simp

lemma comfyGate_Inl:
  "comfyGate v seam plan w = Inl r \<Longrightarrow> pl_slot r = [] \<and> pl_evict r = [] \<and> \<not> pl_evictComfy r"
  by (auto simp: comfyGate_def split: if_splits option.splits prod.splits bool.splits)

lemma comfyGate_True:
  "comfyGate v seam plan w = Inr True \<Longrightarrow>
   p_evictComfy plan \<and> comfyEvictable (pe_cfg v) \<and> \<not> activeComfyReservation (pe_res v) (pe_now v) \<and>
   \<not> soonComfyReservation (pe_res v) (pe_now v) (pe_soon v) \<and>
   (\<exists>idle. comfy_idle_probe seam = Some idle \<and> fst (idle w))"
  by (auto simp: comfyGate_def split: if_splits option.splits prod.splits bool.splits)

lemma sortByFootprint_set: "set (sortByFootprint ops w plan xs) = set xs"
  by (auto simp: sortByFootprint_def split: option.splits)

text \<open>Three facts about each way of choosing a slot, collected in one predicate.\<close>

definition sound_choice :: "place_env \<Rightarrow> slot list \<Rightarrow> bool \<Rightarrow> placement \<Rightarrow> bool" where
  "sound_choice v memEvict comfy pl \<longleftrightarrow>
     (\<forall>s \<in> set (pl_evict pl). s \<in> set memEvict \<or> evictable_now v s) \<and>
     (pl_slot pl \<noteq> [] \<longrightarrow> free_slot v (pl_slot pl) \<or> pl_slot pl \<in> set (pl_evict pl)) \<and>
     (pl_evictComfy pl \<longrightarrow> comfy) \<and>
     (distinct memEvict \<and> pe_target v \<notin> set memEvict \<longrightarrow> distinct (pl_evict pl))"

lemma sound_refused: "sound_choice v es c (refused m t r)"
  by (simp add: sound_choice_def)

lemma sound_structural: "sound_choice v es c (structuralRefusal now h cl r b)"
  by (simp add: sound_choice_def)

lemma placePinned_sound:
  assumes "pe_target v \<noteq> []"
  shows "sound_choice v es comfy (placePinned v es comfy)"
proof (cases "free_slot v (pe_target v) \<or> activeProtected v (pe_target v)")
  case True
  then show ?thesis
    by (auto simp: placePinned_def Let_def sound_structural sound_choice_def)
next
  case False
  then show ?thesis
  proof (cases "pe_forced v")
    case True
    with False show ?thesis
      by (auto simp: placePinned_def Let_def sound_choice_def evictable_now_def)
  next
    case not_forced: False
    with False assms show ?thesis
      by (cases "env_idleRefusal v (pe_target v)")
        (auto simp: placePinned_def Let_def sound_refused sound_structural sound_choice_def
          evictable_now_def env_idleRefusal_None_iff [symmetric] split: prod.splits)
  qed
qed

lemma list_case_hd_in: "xs = y # ys \<Longrightarrow> y \<in> set xs"
  by simp

lemma placeForced_sound:
  assumes "pe_forced v"
  shows "sound_choice v es comfy (placeForced ops w v plan slots comfy)"
proof -
  let ?c = "filter (\<lambda>s. mode_at v s \<noteq> [] \<and> \<not> activeProtected v s) slots"
  let ?l = "sort_key (\<lambda>s. if env_idleEligible v s then 0 else 1 :: nat) (sortByFootprint ops w plan ?c)"
  have "set ?l = set ?c" by (simp add: sortByFootprint_set)
  then have ok: "\<forall>s \<in> set ?l. evictable_now v s" using assms by (auto simp: evictable_now_def)
  show ?thesis
  proof (cases ?l)
    case Nil
    then show ?thesis by (simp add: placeForced_def sound_refused Let_def del: sort_key_Nil_iff)
  next
    case (Cons s ss)
    with ok show ?thesis by (simp add: placeForced_def sound_choice_def Let_def)
  qed
qed

lemma placeNormal_sound:
  "sound_choice v es comfy (placeNormal ops w v plan slots comfy)"
proof -
  let ?c = "filter (\<lambda>s. mode_at v s \<noteq> [] \<and>
      \<not> (\<not> env_idleEligible v s \<or> soonProtected v s \<or> activeProtected v s)) slots"
  have "set (sortByFootprint ops w plan ?c) = set ?c" by (rule sortByFootprint_set)
  then have ok: "\<forall>s \<in> set (sortByFootprint ops w plan ?c). evictable_now v s"
    by (auto simp: evictable_now_def)
  show ?thesis
  proof (cases "sortByFootprint ops w plan ?c")
    case Nil
    then show ?thesis by (simp add: placeNormal_def sound_refused)
  next
    case (Cons s ss)
    with ok show ?thesis by (simp add: placeNormal_def sound_choice_def)
  qed
qed

lemma chooseSlot_sound: "sound_choice v es comfy (chooseSlot ops w v plan es comfy)"
proof (cases "pe_target v = []")
  case True
  show ?thesis
  proof (cases "find (free_slot v) (eo_slots ops w)")
    case (Some s)
    with True find_Some_prop [OF Some] show ?thesis
      by (auto simp: chooseSlot_def sound_choice_def)
  next
    case None
    with True show ?thesis
      by (cases es) (auto simp: chooseSlot_def placeForced_sound placeNormal_sound sound_choice_def [of v "_ # _"])
  qed
qed (simp add: chooseSlot_def placePinned_sound)

text \<open>The whole decision.\<close>

lemma decide_cases:
  obtains (refusal) "pl_slot (decide ops seam w v plan) = []" "pl_evict (decide ops seam w v plan) = []"
      "\<not> pl_evictComfy (decide ops seam w v plan)"
  | (choice) es comfy where
      "(if p_fits plan then Inr [] else memEvictions v (p_evict plan)) = Inr es"
      "comfyGate v seam plan w = Inr comfy"
      "decide ops seam w v plan = chooseSlot ops w v plan es comfy"
proof (cases "\<not> p_fits plan \<and> p_evict plan = [] \<and> \<not> p_evictComfy plan")
  case True
  then show ?thesis by (intro refusal) (simp_all add: decide_def)
next
  case False
  show ?thesis
  proof (cases "if p_fits plan then Inr [] else memEvictions v (p_evict plan)")
    case (Inl r)
    then show ?thesis using False memEvictions_Inl [of v "p_evict plan" r]
      by (intro refusal) (auto simp: decide_def split: if_splits)
  next
    case (Inr es)
    show ?thesis
    proof (cases "comfyGate v seam plan w")
      case (Inl r)
      with Inr False comfyGate_Inl [OF Inl] show ?thesis by (intro refusal) (auto simp: decide_def)
    next
      case gate: (Inr comfy)
      with Inr False show ?thesis by (intro choice) (auto simp: decide_def)
    qed
  qed
qed

lemma decide_evicts_allowed:
  assumes "s \<in> set (pl_evict (decide ops seam w v plan))"
  shows "evictable_now v s"
proof (rule decide_cases [of ops seam w v plan])
  fix es comfy
  assume es: "(if p_fits plan then Inr [] else memEvictions v (p_evict plan)) = Inr es"
    and d: "decide ops seam w v plan = chooseSlot ops w v plan es comfy"
  have "\<forall>s \<in> set es. evictable_now v s"
    using es memEvictions_Inr [of v "p_evict plan" es] by (auto split: if_splits)
  with assms d chooseSlot_sound [of v es comfy ops w plan] show ?thesis
    by (auto simp: sound_choice_def)
qed (use assms in simp)

lemma decide_slot_open:
  assumes "pl_slot (decide ops seam w v plan) \<noteq> []"
  shows "free_slot v (pl_slot (decide ops seam w v plan)) \<or>
     pl_slot (decide ops seam w v plan) \<in> set (pl_evict (decide ops seam w v plan))"
proof (rule decide_cases [of ops seam w v plan])
  fix es comfy
  assume "decide ops seam w v plan = chooseSlot ops w v plan es comfy"
  with assms chooseSlot_sound [of v es comfy ops w plan] show ?thesis
    by (auto simp: sound_choice_def)
qed (use assms in simp)

lemma decide_comfy_allowed:
  assumes "pl_evictComfy (decide ops seam w v plan)"
  shows "comfyGate v seam plan w = Inr True"
proof (rule decide_cases [of ops seam w v plan])
  fix es comfy
  assume "decide ops seam w v plan = chooseSlot ops w v plan es comfy"
    "comfyGate v seam plan w = Inr comfy"
  with assms chooseSlot_sound [of v es comfy ops w plan] show ?thesis
    by (auto simp: sound_choice_def)
qed (use assms in simp)

lemma decide_evict_distinct:
  assumes "distinct (p_evict plan)"
  shows "distinct (pl_evict (decide ops seam w v plan))"
proof (rule decide_cases [of ops seam w v plan])
  fix es comfy
  assume es: "(if p_fits plan then Inr [] else memEvictions v (p_evict plan)) = Inr es"
    and d: "decide ops seam w v plan = chooseSlot ops w v plan es comfy"
  have "distinct es \<and> pe_target v \<notin> set es"
    using es assms memEvictions_Inr [of v "p_evict plan" es] by (auto split: if_splits)
  with d chooseSlot_sound [of v es comfy ops w plan] show ?thesis
    by (auto simp: sound_choice_def)
qed simp

text \<open>Only slots the engine knows are evicted: planned ones, its own, or an occupied target.\<close>

lemma decide_evicts_known:
  assumes "s \<in> set (pl_evict (decide ops seam w v plan))"
  shows "s \<in> set (p_evict plan) \<or> s \<in> set (eo_slots ops w) \<or> \<not> free_slot v s"
proof (rule decide_cases [of ops seam w v plan])
  fix es comfy
  assume es: "(if p_fits plan then Inr [] else memEvictions v (p_evict plan)) = Inr es"
    and d: "decide ops seam w v plan = chooseSlot ops w v plan es comfy"
  have planned: "set es \<subseteq> set (p_evict plan)"
    using es memEvictions_Inr [of v "p_evict plan" es] by (auto split: if_splits)
  let ?forced = "sort_key (\<lambda>s. if env_idleEligible v s then 0 else 1 :: nat) (sortByFootprint ops w plan
      (filter (\<lambda>s. mode_at v s \<noteq> [] \<and> \<not> activeProtected v s) (eo_slots ops w)))"
  let ?normal = "sortByFootprint ops w plan (filter (\<lambda>s. mode_at v s \<noteq> [] \<and>
      \<not> (\<not> env_idleEligible v s \<or> soonProtected v s \<or> activeProtected v s)) (eo_slots ops w))"
  have forced: "set ?forced \<subseteq> set (eo_slots ops w)" and normal: "set ?normal \<subseteq> set (eo_slots ops w)"
    by (auto simp: sortByFootprint_set)
  have in_forced: "s \<in> set (pl_evict (placeForced ops w v plan (eo_slots ops w) comfy)) \<Longrightarrow>
      s \<in> set (eo_slots ops w)"
    using forced by (cases ?forced) (auto simp: placeForced_def Let_def)
  have in_normal: "s \<in> set (pl_evict (placeNormal ops w v plan (eo_slots ops w) comfy)) \<Longrightarrow>
      s \<in> set (eo_slots ops w)"
    using normal by (cases ?normal) (auto simp: placeNormal_def)
  have "s \<in> set es \<or> s \<in> set (eo_slots ops w) \<or> \<not> free_slot v s"
  proof (cases "pe_target v = []")
    case True
    with assms in_forced in_normal show ?thesis
      by (cases "find (free_slot v) (eo_slots ops w)"; cases es)
        (auto simp: d chooseSlot_def split: if_splits)
  next
    case False
    with assms show ?thesis
      by (auto simp: d chooseSlot_def placePinned_def Let_def split: if_splits option.splits)
  qed
  with planned show ?thesis by blast
qed (use assms in simp)

lemma place_decide:
  assumes "eo_fitPlan ops m w = (Inr plan, w1)" and "occupancy ops snap w1 = (occ, w2)"
  shows "place ops seam snap now m target cfg res horizon w =
    (decide ops seam w2 \<lparr>pe_model = m, pe_target = target, pe_cfg = cfg, pe_res = res,
       pe_horizon = horizon, pe_now = now, pe_snap = snap, pe_occ = occ\<rparr> plan, w2)"
  using assms by (simp add: place_def)

lemma activeProtected_iff:
  "activeProtected v s \<longleftrightarrow> mode_at v s \<noteq> [] \<and>
     (\<exists>r \<in> set (pe_res v). r_model r = mode_at v s \<and> in_window r (pe_now v))"
  using active_iff [of "pe_res v" "mode_at v s" "pe_now v"] by (simp add: activeProtected_def Let_def)

lemma pe_forced_iff:
  "pe_forced v \<longleftrightarrow> (\<exists>r \<in> set (pe_res v). r_model r = pe_model v \<and> in_window r (pe_now v))"
  using active_iff [of "pe_res v" "pe_model v" "pe_now v"] by (simp add: pe_forced_def)

lemma soonProtected_iff:
  "soonProtected v s \<longleftrightarrow> mode_at v s \<noteq> [] \<and> (\<exists>r \<in> set (pe_res v). r_model r = mode_at v s \<and>
     pe_now v \<le> r_start r \<and> r_start r \<le> pe_now v + pe_soon v)"
  by (simp add: soonProtected_def Let_def soon_iff)

text \<open>Without footprints the order is the plan's; with an empty eviction list nothing moves.\<close>

lemma sort_key_const [simp]: "sort_key (\<lambda>_. c) xs = xs"
  by (induction xs) (auto simp: insort_is_Cons)

lemma sortByFootprint_plain:
  assumes "eo_footprintMB ops = None" and "p_evict plan = []"
  shows "sortByFootprint ops w plan xs = xs"
proof -
  have "evict_rank [] = (\<lambda>_. 0)" by (auto simp: evict_rank_def fun_eq_iff)
  then show ?thesis using assms by (simp add: sortByFootprint_def)
qed

section \<open>Properties\<close>

text \<open>C1: the two eviction tiers.  Every slot a placement evicts holds no model under an active
  reservation; and unless the requested model itself is inside its own reservation window,
  the slot has been idle for the whole threshold and its model has no reservation that
  starts within the protection margin.\<close>

theorem eviction_respects_tiers:
  assumes "eo_fitPlan ops m w = (Inr plan, w1)" and "occupancy ops snap w1 = (occ, w2)"
    and "place ops seam snap now m target cfg res horizon w = (pl, w2)"
    and "s \<in> set (pl_evict pl)"
  defines "held \<equiv> sa_mode (assigned occ s)"
  shows "(held \<noteq> [] \<longrightarrow> \<not> (\<exists>r \<in> set res. r_model r = held \<and> in_window r now)) \<and>
    ((\<exists>r \<in> set res. r_model r = m \<and> in_window r now) \<or>
     (\<exists>idle. idleSeconds snap now s = Some idle \<and> idleUnloadS cfg * nanos_per_second \<le> idle) \<and>
     (held \<noteq> [] \<longrightarrow> \<not> (\<exists>r \<in> set res. r_model r = held \<and> now \<le> r_start r \<and>
        r_start r \<le> now + reservationSoonMin cfg * nanos_per_minute)))"
proof -
  let ?v = "\<lparr>pe_model = m, pe_target = target, pe_cfg = cfg, pe_res = res,
     pe_horizon = horizon, pe_now = now, pe_snap = snap, pe_occ = occ\<rparr>"
  have "evictable_now ?v s"
    using assms(3,4) place_decide [OF assms(1,2)] decide_evicts_allowed by fastforce
  then show ?thesis
    by (auto simp: evictable_now_def activeProtected_iff pe_forced_iff soonProtected_iff
        env_idleEligible_def idleEligible_def mode_at_def pe_soon_def held_def split: option.splits)
qed

text \<open>a placement lands in an empty slot or in one it evicts, names no slot twice among its
  evictions (when the engine's plan does not), and stops ComfyUI only when the plan asked
  for it, the operator allows it, no ComfyUI reservation is active or about to start, and
  ComfyUI reported itself idle.\<close>

theorem placement_sound:
  assumes "eo_fitPlan ops m w = (Inr plan, w1)" and "occupancy ops snap w1 = (occ, w2)"
    and "place ops seam snap now m target cfg res horizon w = (pl, w2)"
    and "distinct (p_evict plan)" and "pl_slot pl \<noteq> []"
  shows "(assigned occ (pl_slot pl) = no_assignment \<or> pl_slot pl \<in> set (pl_evict pl)) \<and>
    distinct (pl_evict pl) \<and>
    (pl_evictComfy pl \<longrightarrow> p_evictComfy plan \<and> comfyEvictable cfg \<and>
       \<not> activeComfyReservation res now \<and>
       \<not> soonComfyReservation res now (reservationSoonMin cfg * nanos_per_minute) \<and>
       (\<exists>idle. comfy_idle_probe seam = Some idle \<and> fst (idle w2)))"
proof -
  let ?v = "\<lparr>pe_model = m, pe_target = target, pe_cfg = cfg, pe_res = res,
     pe_horizon = horizon, pe_now = now, pe_snap = snap, pe_occ = occ\<rparr>"
  have pl: "pl = decide ops seam w2 ?v plan" using assms(3) place_decide [OF assms(1,2)] by simp
  have "free_slot ?v (pl_slot pl) \<or> pl_slot pl \<in> set (pl_evict pl)"
    using assms(5) unfolding pl by (rule decide_slot_open)
  then have "assigned occ (pl_slot pl) = no_assignment \<or> pl_slot pl \<in> set (pl_evict pl)"
    by (cases "assigned occ (pl_slot pl)") (simp add: free_slot_def no_assignment_def Let_def)
  moreover have "distinct (pl_evict pl)" using decide_evict_distinct [OF assms(4)] pl by simp
  moreover have "comfyGate ?v seam plan w2 = Inr True" if "pl_evictComfy pl"
    using that unfolding pl by (rule decide_comfy_allowed)
  ultimately show ?thesis using comfyGate_True [of ?v seam plan w2] by (auto simp: pe_soon_def)
qed

text \<open>terminal or retryable is decided by the horizon.  A refusal because of an active
  reservation is terminal exactly when that protection outlasts the time the caller is still
  willing to wait.\<close>

theorem active_refusal_terminal_iff:
  assumes "0 < now" and "0 \<le> horizon" and "horizon < max_duration"
    and "activeReservationForModel res m now \<noteq> None"
  shows "pl_terminal (structuralRefusal now horizon (activeReservationEnd res m now) reason base) \<longleftrightarrow>
    (\<exists>r \<in> set res. r_model r = m \<and> in_window r now \<and> in_window r (now + horizon))"
proof -
  let ?S = "r_end ` {r \<in> set res. r_model r = m \<and> in_window r now}"
  let ?fin = "activeReservationEnd res m now"
  have "?S \<noteq> {}" using assms(4) active_iff [of res m now] by auto
  then obtain e where "e \<in> ?S" by blast
  then have "now < ?fin"
    unfolding activeReservationEnd_eq using assms(1) by (subst Max_gr_iff) (auto simp: in_window_def)
  then have t: "pl_terminal (structuralRefusal now horizon ?fin reason base) \<longleftrightarrow> now + horizon < ?fin"
    using assms(1-3) by (auto simp: structuralRefusal_def is_zero_def Let_def time_sub_def)
  have "now + horizon < ?fin \<longleftrightarrow> (\<exists>e \<in> ?S. now + horizon < e)"
    unfolding activeReservationEnd_eq using assms(1,2) by (subst Max_gr_iff) auto
  with t show ?thesis using assms(2) by (auto simp: in_window_def)
qed

text \<open>C30: on-demand placement never gives up needlessly.  For an unpinned request whose model
  fits in memory, placement fails only when every slot is occupied or in transition and no
  occupied slot is evictable under the tier that applies; the refusal is then retryable.\<close>

theorem placement_complete:
  assumes plan: "eo_fitPlan ops m w = (Inr plan, w1)" "p_fits plan" "\<not> p_evictComfy plan"
    and occ: "occupancy ops snap w1 = (occ, w2)" and names: "[] \<notin> set (eo_slots ops w2)"
    and pl: "place ops seam snap now m [] cfg res horizon w = (pl, w2)"
  defines "v \<equiv> \<lparr>pe_model = m, pe_target = [], pe_cfg = cfg, pe_res = res,
     pe_horizon = horizon, pe_now = now, pe_snap = snap, pe_occ = occ\<rparr>"
  shows "(pl_slot pl = [] \<longleftrightarrow> (\<forall>s \<in> set (eo_slots ops w2). \<not> free_slot v s \<and>
      (mode_at v s = [] \<or> \<not> evictable_now v s))) \<and> \<not> pl_terminal pl"
proof -
  have d: "pl = chooseSlot ops w2 v plan [] False"
    using pl place_decide [OF plan(1) occ] plan(2,3) by (simp add: decide_def comfyGate_def v_def)
  have target: "pe_target v = []" by (simp add: v_def)
  show ?thesis
  proof (cases "find (free_slot v) (eo_slots ops w2)")
    case (Some s)
    with find_Some_prop [OF Some] names d target show ?thesis by (auto simp: chooseSlot_def)
  next
    case None
    then have none: "\<forall>s \<in> set (eo_slots ops w2). \<not> free_slot v s" by (simp add: find_None_iff)
    let ?E = "{s \<in> set (eo_slots ops w2). mode_at v s \<noteq> [] \<and> evictable_now v s}"
    have first: "\<exists>s ss. xs = s # ss \<and> s \<noteq> []" if "set xs = ?E" "?E \<noteq> {}" for xs
      using that names by (cases xs) auto
    show ?thesis
    proof (cases "pe_forced v")
      case True
      let ?xs = "sort_key (\<lambda>s. if env_idleEligible v s then 0 else 1 :: nat) (sortByFootprint ops w2 plan
          (filter (\<lambda>s. mode_at v s \<noteq> [] \<and> \<not> activeProtected v s) (eo_slots ops w2)))"
      have "set ?xs = ?E" using True by (auto simp: sortByFootprint_set evictable_now_def)
      with first [of ?xs] none show ?thesis
        using d target None True by (cases ?xs) (auto simp: chooseSlot_def placeForced_def Let_def)
    next
      case False
      let ?xs = "sortByFootprint ops w2 plan (filter (\<lambda>s. mode_at v s \<noteq> [] \<and>
          \<not> (\<not> env_idleEligible v s \<or> soonProtected v s \<or> activeProtected v s)) (eo_slots ops w2))"
      have "set ?xs = ?E" using False by (auto simp: sortByFootprint_set evictable_now_def)
      with first [of ?xs] none show ?thesis
        using d target None False by (cases ?xs) (auto simp: chooseSlot_def placeNormal_def)
    qed
  qed
qed

section \<open>Witnesses\<close>

definition sample_occ :: "slot \<rightharpoonup> slot_assignment" where
  "sample_occ = [''a1'' \<mapsto> \<lparr>sa_mode = ''m1'', sa_loading = None, sa_unloading = None\<rparr>,
     ''a2'' \<mapsto> \<lparr>sa_mode = ''m2'', sa_loading = None, sa_unloading = None\<rparr>]"

definition sample_plan :: plan where
  "sample_plan = \<lparr>p_fits = True, p_need = 1, p_free = 2, p_slot = [], p_evict = [],
     p_evictComfy = False, p_comfyBytes = 0, p_message = MsgFitsNow\<rparr>"

definition sample_engine :: "unit engine_ops" where
  "sample_engine = \<lparr>eo_slots = (\<lambda>_. [''a1'', ''a2'']), eo_slotStates = (\<lambda>_ w. (sample_occ, w)),
     eo_fitPlan = (\<lambda>_ w. (Inr sample_plan, w)),
     eo_load = (\<lambda>_ _ w. (\<lparr>or_success = True, or_message = MsgNone, or_nctx = 0\<rparr>, w)),
     eo_unload = (\<lambda>_ w. (\<lparr>or_success = True, or_message = MsgNone, or_nctx = 0\<rparr>, w)),
     eo_footprintMB = None\<rparr>"

definition sample_snapshot :: snapshot where
  "sample_snapshot = \<lparr>sn_takenAt = 1000000000000000, sn_units = Map.empty,
     sn_slots = [''a1'' \<mapsto> \<lparr>ss_label = ''A1'', ss_lastActivity = 1, ss_memoryBytes = 5\<rparr>,
       ''a2'' \<mapsto> \<lparr>ss_label = ''A2'', ss_lastActivity = 999999999999999, ss_memoryBytes = 3\<rparr>],
     sn_gttTotal = None, sn_inferenceRSS = None\<rparr>"

lemma sample_fit: "eo_fitPlan sample_engine ''m3'' () = (Inr sample_plan, ())"
  by (simp add: sample_engine_def)

lemma sample_occupancy: "occupancy sample_engine sample_snapshot () = (sample_occ, ())"
  by (simp add: sample_engine_def occupancy_def)

lemmas sample_eval = sample_engine_def sample_plan_def sample_occ_def sample_snapshot_def
  defaultConfig_def decide_def comfyGate_def chooseSlot_def placeNormal_def sortByFootprint_def
  evict_rank_def free_slot_def assigned_def mode_at_def env_idleEligible_def idleEligible_def
  idleSeconds_def is_zero_def time_sub_def soonProtected_def activeProtected_def pe_forced_def
  activeReservationForModel_def modelReservedSoon_def placed_def Let_def

lemma sample_place:
  "place sample_engine None sample_snapshot 1000000000000000 ''m3'' [] defaultConfig [] 0 () =
   (placed ''a1'' [''a1''] False, ())"
  unfolding place_decide [OF sample_fit sample_occupancy]
  by (simp add: sample_eval)

theorem eviction_respects_tiers_witness:
  "\<exists>idle. idleSeconds sample_snapshot 1000000000000000 ''a1'' = Some idle \<and>
     idleUnloadS defaultConfig * nanos_per_second \<le> idle"
  using eviction_respects_tiers [OF sample_fit sample_occupancy sample_place, of "''a1''"] by simp

theorem placement_sound_witness:
  "assigned sample_occ ''a1'' = no_assignment \<or> ''a1'' \<in> set [''a1'' :: string]"
  using placement_sound [OF sample_fit sample_occupancy sample_place]
  by (simp add: sample_plan_def)

theorem active_refusal_terminal_iff_witness:
  "pl_terminal (structuralRefusal 1500000000000 0
     (activeReservationEnd [sample_reservation] ''m'' 1500000000000) ReasonReservationActive MsgNone)
   \<longleftrightarrow> (\<exists>r \<in> set [sample_reservation]. r_model r = ''m'' \<and> in_window r 1500000000000 \<and>
         in_window r (1500000000000 + 0))"
  by (rule active_refusal_terminal_iff)
    (simp_all add: activeReservationForModel_def sample_reservation_def)

theorem placement_complete_witness:
  "\<not> pl_terminal (placed ''a1'' [''a1''] False)"
  using placement_complete [OF sample_fit _ _ sample_occupancy _ sample_place]
  by (simp add: sample_plan_def sample_engine_def)

end
