(* ===== verification/Outcomes.thy ===== *)
theory Outcomes
  imports Sched_Types
begin

text \<open>
  The outcome ring of loadstatus.go: each model's last terminal outcome, remembered for
  \<open>outcomeTTL\<close> and for at most \<open>outcomeRingCap\<close> models.
\<close>

section \<open>The ring\<close>

definition outcomeRingCap :: nat where
  "outcomeRingCap = 32"

definition outcomeTTL :: duration where
  "outcomeTTL = 10 * nanos_per_minute"

record outcome_record =
  oc_status :: ticket_status
  oc_reason :: refusal_reason
  oc_message :: message
  oc_slot :: slot
  oc_at :: time

record outcome_ring =
  og_order :: "model list"
  og_entries :: "model \<rightharpoonup> outcome_record"

definition newOutcomeRing :: outcome_ring where
  "newOutcomeRing = \<lparr>og_order = [], og_entries = Map.empty\<rparr>"

definition recordOutcome :: "model \<Rightarrow> outcome_record \<Rightarrow> outcome_ring \<Rightarrow> outcome_ring" where
  "recordOutcome m rec r =
     (case og_entries r m of
        Some _ \<Rightarrow> r\<lparr>og_entries := (og_entries r)(m \<mapsto> rec)\<rparr>
      | None \<Rightarrow>
        let order = og_order r @ [m] in
        if length order > outcomeRingCap
        then \<lparr>og_order = tl order, og_entries = ((og_entries r)(hd order := None))(m \<mapsto> rec)\<rparr>
        else \<lparr>og_order = order, og_entries = (og_entries r)(m \<mapsto> rec)\<rparr>)"

definition clearOutcome :: "model \<Rightarrow> outcome_ring \<Rightarrow> outcome_ring" where
  "clearOutcome m r =
     (case og_entries r m of None \<Rightarrow> r
      | Some _ \<Rightarrow> \<lparr>og_order = remove_first (\<lambda>k. k = m) (og_order r),
                  og_entries = (og_entries r)(m := None)\<rparr>)"

definition getOutcome :: "model \<Rightarrow> time \<Rightarrow> outcome_ring \<Rightarrow> outcome_record option" where
  "getOutcome m now r =
     (case og_entries r m of None \<Rightarrow> None
      | Some rec \<Rightarrow> if time_sub now (oc_at rec) > outcomeTTL then None else Some rec)"

section \<open>Invariant\<close>

definition ring_ok :: "outcome_ring \<Rightarrow> bool" where
  "ring_ok r \<longleftrightarrow> distinct (og_order r) \<and> set (og_order r) = dom (og_entries r) \<and>
     length (og_order r) \<le> outcomeRingCap"

lemma ring_ok_new [forge_inv]: "ring_ok newOutcomeRing"
  by (simp add: ring_ok_def newOutcomeRing_def)

lemma ring_ok_record [forge_inv]:
  assumes "ring_ok r" shows "ring_ok (recordOutcome m rec r)"
proof (cases "og_entries r m")
  case None
  then have m: "m \<notin> set (og_order r)" using assms by (auto simp: ring_ok_def)
  show ?thesis
  proof (cases "og_order r")
    case Nil
    with assms None show ?thesis
      by (auto simp: recordOutcome_def ring_ok_def Let_def outcomeRingCap_def)
  next
    case (Cons x xs)
    then have "set xs = dom (og_entries r) - {x}" "x \<notin> set xs" "distinct xs" "x \<noteq> m" "m \<notin> set xs"
      using assms m by (auto simp: ring_ok_def)
    with Cons assms None show ?thesis
      by (auto simp: recordOutcome_def ring_ok_def Let_def)
  qed
next
  case (Some rec')
  with assms show ?thesis by (auto simp: recordOutcome_def ring_ok_def)
qed

lemma ring_ok_clear [forge_inv]:
  assumes "ring_ok r" shows "ring_ok (clearOutcome m r)"
proof (cases "og_entries r m")
  case (Some rec)
  have "remove_first (\<lambda>k. k = m) (og_order r) = filter (\<lambda>k. k \<noteq> m) (og_order r)"
    using map_remove_first_distinct [of "\<lambda>k. k" "og_order r" m] assms by (simp add: ring_ok_def)
  with Some assms show ?thesis
    using le_trans [OF length_filter_le [of "\<lambda>k. k \<noteq> m" "og_order r"]]
    by (auto simp: clearOutcome_def ring_ok_def)
qed (use assms in \<open>simp add: clearOutcome_def\<close>)

section \<open>What is remembered\<close>

lemma record_entries_self: "og_entries (recordOutcome m rec r) m = Some rec"
  by (simp add: recordOutcome_def Let_def split: option.splits)

lemma record_entries_other:
  "n \<noteq> m \<Longrightarrow> og_entries (recordOutcome m rec r) n = og_entries r n \<or>
     og_entries (recordOutcome m rec r) n = None \<and> og_entries r m = None \<and>
     outcomeRingCap \<le> length (og_order r) \<and> n = hd (og_order r @ [m])"
  by (auto simp: recordOutcome_def Let_def split: option.splits)

lemma clear_entries: "og_entries (clearOutcome m r) = (og_entries r)(m := None)"
  by (auto simp: clearOutcome_def fun_eq_iff split: option.splits)

lemma get_clear [simp]: "getOutcome m now (clearOutcome m r) = None"
  by (simp add: getOutcome_def clear_entries)

lemma get_clear_other: "n \<noteq> m \<Longrightarrow> getOutcome n now (clearOutcome m r) = getOutcome n now r"
  by (simp add: getOutcome_def clear_entries)

text \<open>A run of the ring, and the outcome recorded last for a model.\<close>

datatype ring_event = Record model outcome_record | Clear model

fun ring_step :: "outcome_ring \<Rightarrow> ring_event \<Rightarrow> outcome_ring" where
  "ring_step r (Record m rec) = recordOutcome m rec r"
| "ring_step r (Clear m) = clearOutcome m r"

definition ring_run :: "ring_event list \<Rightarrow> outcome_ring" where
  "ring_run es = foldl ring_step newOutcomeRing es"

fun last_outcome :: "model \<Rightarrow> ring_event list \<Rightarrow> outcome_record option" where
  "last_outcome m [] = None"
| "last_outcome m (Record n rec # es) = (if n = m then Some rec else last_outcome m es)"
| "last_outcome m (Clear n # es) = (if n = m then None else last_outcome m es)"

lemma ring_run_snoc: "ring_run (es @ [e]) = ring_step (ring_run es) e"
  by (simp add: ring_run_def)

lemma ring_run_ok: "ring_ok (ring_run es)"
proof (induction es rule: rev_induct)
  case (snoc e es)
  then show ?case by (cases e) (auto simp: ring_run_snoc intro: forge_inv)
qed (auto simp: ring_run_def intro: forge_inv)

lemma ring_run_sound:
  "og_entries (ring_run es) m = Some rec \<Longrightarrow> last_outcome m (rev es) = Some rec"
proof (induction es rule: rev_induct)
  case Nil
  then show ?case by (simp add: ring_run_def newOutcomeRing_def)
next
  case (snoc e es)
  show ?case
  proof (cases e)
    case (Record n rec')
    show ?thesis
    proof (cases "m = n")
      case True
      with snoc.prems Record show ?thesis by (simp add: ring_run_snoc record_entries_self)
    next
      case False
      with snoc Record record_entries_other [OF False, of rec' "ring_run es"] show ?thesis
        by (auto simp: ring_run_snoc)
    qed
  next
    case (Clear n)
    with snoc show ?thesis by (cases "m = n") (auto simp: ring_run_snoc clear_entries)
  qed
qed

text \<open>With few models in play nothing is dropped.\<close>

fun event_model :: "ring_event \<Rightarrow> model" where
  "event_model (Record m rec) = m"
| "event_model (Clear m) = m"

lemma order_models: "set (og_order (ring_run es)) \<subseteq> event_model ` set es"
proof (induction es rule: rev_induct)
  case (snoc e es)
  show ?case
  proof (cases e)
    case (Record m rec)
    have "set (tl (og_order (ring_run es) @ [m])) \<subseteq> set (og_order (ring_run es) @ [m])"
      by (cases "og_order (ring_run es)") auto
    with snoc Record show ?thesis
      by (auto simp: ring_run_snoc recordOutcome_def Let_def split: option.splits if_splits)
  next
    case (Clear m)
    have "set (remove_first (\<lambda>k. k = m) (og_order (ring_run es))) \<subseteq> set (og_order (ring_run es))"
      by (rule set_remove_first)
    with snoc Clear show ?thesis
      by (auto simp: ring_run_snoc clearOutcome_def split: option.splits)
  qed
qed (simp add: ring_run_def newOutcomeRing_def)

lemma ring_run_complete:
  assumes "card (event_model ` set es) \<le> outcomeRingCap"
  shows "og_entries (ring_run es) m = last_outcome m (rev es)"
  using assms
proof (induction es rule: rev_induct)
  case Nil
  then show ?case by (simp add: ring_run_def newOutcomeRing_def)
next
  case (snoc e es)
  have "card (event_model ` set es) \<le> card (event_model ` set (es @ [e]))"
    by (rule card_mono) auto
  then have IH: "og_entries (ring_run es) m = last_outcome m (rev es)"
    using snoc by simp
  show ?case
  proof (cases e)
    case (Clear n)
    with IH show ?thesis by (cases "m = n") (auto simp: ring_run_snoc clear_entries)
  next
    case (Record n rec)
    have "length (og_order (ring_run es)) < outcomeRingCap" if "og_entries (ring_run es) n = None"
    proof -
      have ok: "ring_ok (ring_run es)" by (rule ring_run_ok)
      with that have "n \<notin> set (og_order (ring_run es))" by (auto simp: ring_ok_def)
      moreover have "length (og_order (ring_run es)) = card (set (og_order (ring_run es)))"
        using ok distinct_card unfolding ring_ok_def by metis
      moreover have "card (insert n (set (og_order (ring_run es)))) \<le> card (event_model ` set (es @ [e]))"
        using order_models [of es] Record by (intro card_mono) auto
      ultimately show ?thesis using snoc.prems by simp
    qed
    with IH Record record_entries_self [of n rec] record_entries_other [of m n rec "ring_run es"]
    show ?thesis by (cases "m = n") (auto simp: ring_run_snoc)
  qed
qed

section \<open>Properties\<close>

text \<open>The outcome ring never resurfaces a stale outcome.  Whatever sequence of records and
  clears it went through, it holds at most 32 outcomes; an outcome it returns for a model is
  the one recorded last for that model, not cleared since, and not older than ten minutes.\<close>

theorem outcome_never_stale:
  "length (og_order (ring_run es)) \<le> 32 \<and>
   getOutcome m now (ring_run es) \<in>
     {None} \<union> Some ` {rec. last_outcome m (rev es) = Some rec \<and>
                        time_sub now (oc_at rec) \<le> 600000000000}"
  using ring_run_ok [of es] ring_run_sound [of es m]
  by (auto simp: getOutcome_def ring_ok_def outcomeRingCap_def outcomeTTL_def split: option.splits)

text \<open>C31: while at most 32 models are in play the ring forgets nothing: a poll sees exactly the
  last outcome of its model, as long as it is not older than ten minutes.\<close>

theorem outcome_remembered:
  assumes "card (event_model ` set es) \<le> 32"
  shows "getOutcome m now (ring_run es) =
    (case last_outcome m (rev es) of None \<Rightarrow> None
     | Some rec \<Rightarrow> if time_sub now (oc_at rec) \<le> 600000000000 then Some rec else None)"
proof -
  have "og_entries (ring_run es) m = last_outcome m (rev es)"
    using ring_run_complete assms by (simp add: outcomeRingCap_def)
  then show ?thesis by (auto simp: getOutcome_def outcomeTTL_def split: option.splits)
qed

theorem outcome_remembered_witness:
  "getOutcome ''m'' 5 (ring_run [Record ''m''
     \<lparr>oc_status = StatusFailed, oc_reason = NoReason, oc_message = MsgNone, oc_slot = [], oc_at = 1\<rparr>,
     Clear ''n'']) =
   Some \<lparr>oc_status = StatusFailed, oc_reason = NoReason, oc_message = MsgNone, oc_slot = [], oc_at = 1\<rparr>"
  by (subst outcome_remembered) (simp_all add: time_sub_def card_insert_if)

end
