(* ===== verification/Sched_Store.thy ===== *)
theory Sched_Store
  imports Reservations
begin

text \<open>
  internal/store/sched.go: the SQL persistence of the scheduler over the tables
  \<open>slot_state\<close>, \<open>sched_queue\<close> and \<open>reservations\<close> (migrations 0001 and 0042), with the column
  conversions of impl.go.  A table is its list of rows; the CHECK and UNIQUE constraints of
  the schema are the guards of the insertions.  \<open>db_down\<close> stands for any failure of the
  database itself, which makes every statement return an error and change nothing; the
  \<open>time.Now()\<close> of a statement is a parameter.  This theory provides the laws of
  \<open>sched_store\<close>.
\<close>

section \<open>Column conversions\<close>

definition nullStr :: "string \<Rightarrow> string option" where
  "nullStr s = (if s = [] then None else Some s)"

definition strOf :: "string option \<Rightarrow> string" where
  "strOf v = (case v of None \<Rightarrow> [] | Some s \<Rightarrow> s)"

definition nullUnix :: "time \<Rightarrow> int option" where
  "nullUnix t = (if is_zero t then None else Some (unixOf t))"

definition orNow :: "time \<Rightarrow> time \<Rightarrow> time" where
  "orNow clock t = (if is_zero t then clock else t)"

definition boolInt :: "bool \<Rightarrow> int" where
  "boolInt b = (if b then 1 else 0)"

lemma strOf_nullStr [simp]: "strOf (nullStr s) = s"
  by (simp add: strOf_def nullStr_def)

lemma boolInt_nonzero [simp]: "(boolInt b \<noteq> 0) = b"
  by (simp add: boolInt_def)

section \<open>Tables\<close>

record slot_row =
  sl_slot :: slot
  sl_mode :: "string option"
  sl_loadedAt :: "int option"
  sl_updatedAt :: int

record ticket_row =
  tr_id :: string
  tr_model :: model
  tr_requestedBy :: string
  tr_targetSlot :: "string option"
  tr_status :: ticket_status
  tr_small :: int
  tr_priority :: int
  tr_enqueuedAt :: int
  tr_updatedAt :: int

record res_row =
  db_id :: int
  db_label :: string
  db_model :: model
  db_start :: int
  db_end :: int
  db_scope :: string
  db_bay :: "string option"
  db_createdBy :: string
  db_resched :: int
  db_cancel :: int
  db_created :: int

record database =
  db_down :: bool
  slot_state :: "slot_row list"
  sched_queue :: "ticket_row list"
  reservations_table :: "res_row list"
  reservations_seq :: int

definition sql_error :: store_err where
  "sql_error = StoreErr ''sql''"

text \<open>\<open>INSERT ... ON CONFLICT(key) DO UPDATE\<close>.\<close>

definition upsert :: "('r \<Rightarrow> 'k) \<Rightarrow> ('r \<Rightarrow> 'r) \<Rightarrow> 'r \<Rightarrow> 'r list \<Rightarrow> 'r list" where
  "upsert key upd row rows =
     (if list_ex (\<lambda>x. key x = key row) rows then update_first (\<lambda>x. key x = key row) upd rows
      else rows @ [row])"

section \<open>Slots and tickets\<close>

definition saveSlot :: "time \<Rightarrow> slot \<Rightarrow> string \<Rightarrow> time \<Rightarrow> database \<Rightarrow> store_err option \<times> database" where
  "saveSlot clock s mode loadedAt d =
     (if db_down d then (Some sql_error, d)
      else let row = \<lparr>sl_slot = s, sl_mode = nullStr mode, sl_loadedAt = nullUnix loadedAt,
                      sl_updatedAt = unixOf clock\<rparr>
           in (None, d\<lparr>slot_state := upsert sl_slot (\<lambda>_. row) row (slot_state d)\<rparr>))"

definition slotsView :: "database \<Rightarrow> store_err + (slot \<rightharpoonup> string)" where
  "slotsView d =
     (if db_down d then Inl sql_error
      else Inr (foldl (\<lambda>m r. m(sl_slot r \<mapsto> strOf (sl_mode r))) Map.empty (slot_state d)))"

definition ticketRow :: "time \<Rightarrow> queue_row \<Rightarrow> ticket_row" where
  "ticketRow clock t = \<lparr>tr_id = qr_id t, tr_model = qr_model t, tr_requestedBy = qr_requestedBy t,
     tr_targetSlot = nullStr (qr_targetSlot t), tr_status = qr_status t,
     tr_small = boolInt (qr_small t), tr_priority = qr_priority t,
     tr_enqueuedAt = unixOf (orNow clock (qr_enqueuedAt t)),
     tr_updatedAt = unixOf (orNow clock (qr_updatedAt t))\<rparr>"

lemma ticketRow_id [simp]: "tr_id (ticketRow clock t) = qr_id t"
  by (simp add: ticketRow_def)

definition saveTicket :: "time \<Rightarrow> queue_row \<Rightarrow> database \<Rightarrow> store_err option \<times> database" where
  "saveTicket clock t d =
     (if db_down d then (Some sql_error, d)
      else let row = ticketRow clock t
           in (None, d\<lparr>sched_queue := upsert tr_id (\<lambda>_. row) row (sched_queue d)\<rparr>))"

definition deleteTicket :: "string \<Rightarrow> database \<Rightarrow> store_err option \<times> database" where
  "deleteTicket i d =
     (if db_down d then (Some sql_error, d)
      else (None, d\<lparr>sched_queue := filter (\<lambda>r. tr_id r \<noteq> i) (sched_queue d)\<rparr>))"

definition queueView :: "database \<Rightarrow> store_err + queue_row list" where
  "queueView d =
     (if db_down d then Inl sql_error
      else Inr (map (\<lambda>r. \<lparr>qr_id = tr_id r, qr_model = tr_model r, qr_requestedBy = tr_requestedBy r,
             qr_targetSlot = strOf (tr_targetSlot r), qr_status = tr_status r,
             qr_small = (tr_small r \<noteq> 0), qr_priority = tr_priority r,
             qr_enqueuedAt = timeOf (tr_enqueuedAt r), qr_updatedAt = timeOf (tr_updatedAt r)\<rparr>)
           (sort_key (\<lambda>r. (tr_enqueuedAt r, tr_id r)) (sched_queue d))))"

section \<open>Reservations\<close>

definition resRow :: "time \<Rightarrow> int \<Rightarrow> reservation_row \<Rightarrow> res_row" where
  "resRow clock i r = \<lparr>db_id = i, db_label = rr_label r, db_model = rr_model r,
     db_start = unixOf (rr_start r), db_end = unixOf (rr_end r), db_scope = rr_scope r,
     db_bay = nullStr (rr_bay r), db_createdBy = rr_createdBy r,
     db_resched = boolInt (rr_allowReschedule r), db_cancel = boolInt (rr_allowCancellation r),
     db_created = unixOf (orNow clock (rr_createdAt r))\<rparr>"

text \<open>The CHECK constraints of migration 0042.\<close>

definition res_checks :: "res_row \<Rightarrow> bool" where
  "res_checks r \<longleftrightarrow>
     (db_scope r = ''bay'' \<or> db_scope r = ''whole_box'' \<or> db_scope r = ''comfyui'') \<and>
     db_end r > db_start r \<and> ((db_scope r = ''bay'') = (db_bay r \<noteq> None))"

text \<open>The conflict clause keeps the row's id and creation time.\<close>

definition saveReservation ::
    "time \<Rightarrow> reservation_row \<Rightarrow> database \<Rightarrow> store_err option \<times> database" where
  "saveReservation clock r d =
     (let row = resRow clock (reservations_seq d + 1) r in
      if db_down d \<or> \<not> res_checks row then (Some sql_error, d)
      else (None, d\<lparr>
        reservations_table :=
          upsert db_label (\<lambda>old. row\<lparr>db_id := db_id old, db_created := db_created old\<rparr>) row
            (reservations_table d),
        reservations_seq :=
          (if list_ex (\<lambda>x. db_label x = rr_label r) (reservations_table d) then reservations_seq d
           else reservations_seq d + 1)\<rparr>))"

definition deleteReservation :: "string \<Rightarrow> database \<Rightarrow> store_err option \<times> database" where
  "deleteReservation l d =
     (if db_down d then (Some sql_error, d)
      else if \<not> list_ex (\<lambda>x. db_label x = l) (reservations_table d) then (Some StoreNotFound, d)
      else (None, d\<lparr>reservations_table := filter (\<lambda>x. db_label x \<noteq> l) (reservations_table d)\<rparr>))"

definition scanReservation :: "res_row \<Rightarrow> reservation_row" where
  "scanReservation r = \<lparr>rr_id = db_id r, rr_label = db_label r, rr_model = db_model r,
     rr_start = timeOf (db_start r), rr_end = timeOf (db_end r), rr_scope = db_scope r,
     rr_bay = strOf (db_bay r), rr_createdBy = db_createdBy r,
     rr_allowReschedule = (db_resched r \<noteq> 0), rr_allowCancellation = (db_cancel r \<noteq> 0),
     rr_createdAt = timeOf (db_created r)\<rparr>"

definition reservationsView :: "database \<Rightarrow> store_err + reservation_row list" where
  "reservationsView d =
     (if db_down d then Inl sql_error
      else Inr (map scanReservation (sort_key (\<lambda>r. (db_start r, db_label r)) (reservations_table d))))"

definition sqlOps :: "time \<Rightarrow> database sched_ops" where
  "sqlOps clock = \<lparr>so_saveSlot = saveSlot clock, so_saveTicket = saveTicket clock,
     so_deleteTicket = deleteTicket, so_queue = queueView,
     so_saveReservation = saveReservation clock, so_deleteReservation = deleteReservation,
     so_reservations = reservationsView\<rparr>"

section \<open>The laws hold\<close>

definition sql_ok :: "database \<Rightarrow> bool" where
  "sql_ok d \<longleftrightarrow> distinct (map db_label (reservations_table d))"

definition sql_stored :: "database \<Rightarrow> (string \<rightharpoonup> reservation)" where
  "sql_stored d = map_of (map (\<lambda>r. (db_label r, reservationFromRow (scanReservation r)))
     (reservations_table d))"

definition sql_tickets :: "database \<Rightarrow> string set" where
  "sql_tickets d = tr_id ` set (sched_queue d)"

lemma scan_resRow: "reservationFromRow (scanReservation (resRow clock i r)) =
    truncate_reservation (reservationFromRow r)"
  by (simp add: reservationFromRow_def scanReservation_def resRow_def truncate_reservation_def
      to_seconds_def)

lemma scan_same: "reservationFromRow (scanReservation (r\<lparr>db_id := i, db_created := c\<rparr>)) =
    reservationFromRow (scanReservation r)"
  by (simp add: reservationFromRow_def scanReservation_def)

lemma map_of_upsert:
  assumes key: "\<And>x. key x = key row \<Longrightarrow> key (upd x) = key row"
    and val: "\<And>x. v (upd x) = v row"
  shows "map_of (map (\<lambda>r. (key r, v r)) (upsert key upd row rows)) =
     (map_of (map (\<lambda>r. (key r, v r)) rows))(key row \<mapsto> v row)"
proof (cases "list_ex (\<lambda>x. key x = key row) rows")
  case True
  then have "map_of (map (\<lambda>r. (key r, v r)) (update_first (\<lambda>x. key x = key row) upd rows)) =
     (map_of (map (\<lambda>r. (key r, v r)) rows))(key row \<mapsto> v row)"
    by (induction rows) (auto simp: key val fun_eq_iff)
  with True show ?thesis by (simp add: upsert_def)
next
  case False
  then have "map_of (map (\<lambda>r. (key r, v r)) (rows @ [row])) =
     (map_of (map (\<lambda>r. (key r, v r)) rows))(key row \<mapsto> v row)"
    by (induction rows) (auto simp: fun_eq_iff)
  with False show ?thesis by (simp add: upsert_def)
qed

lemma map_key_upsert:
  assumes "\<And>x. key x = key row \<Longrightarrow> key (upd x) = key row"
  shows "map key (upsert key upd row rows) =
    (if list_ex (\<lambda>x. key x = key row) rows then map key rows else map key rows @ [key row])"
proof -
  have "map key (update_first (\<lambda>x. key x = key row) upd rows) = map key rows"
    by (induction rows) (auto simp: assms)
  then show ?thesis by (simp add: upsert_def)
qed

lemma sql_save_ok:
  assumes ok: "sql_ok d" and save: "saveReservation clock row d = (None, d')"
  shows "sql_ok d' \<and> sql_tickets d' = sql_tickets d \<and>
    sql_stored d' = (sql_stored d)(rr_label row \<mapsto> truncate_reservation (reservationFromRow row))"
proof -
  let ?row = "resRow clock (reservations_seq d + 1) row"
  let ?upd = "\<lambda>old. ?row\<lparr>db_id := db_id old, db_created := db_created old\<rparr>"
  have l: "db_label ?row = rr_label row" by (simp add: resRow_def)
  have t: "reservations_table d' = upsert db_label ?upd ?row (reservations_table d)"
    and q: "sched_queue d' = sched_queue d"
    using save by (auto simp: saveReservation_def Let_def split: if_splits)
  have "map db_label (reservations_table d') =
     (if list_ex (\<lambda>x. db_label x = db_label ?row) (reservations_table d)
      then map db_label (reservations_table d)
      else map db_label (reservations_table d) @ [db_label ?row])"
    unfolding t by (rule map_key_upsert) simp
  then have "sql_ok d'" using ok by (auto simp: sql_ok_def list_ex_iff)
  moreover have "sql_stored d' =
     (sql_stored d)(db_label ?row \<mapsto> reservationFromRow (scanReservation ?row))"
    unfolding sql_stored_def t by (rule map_of_upsert) (simp_all add: scan_same)
  ultimately show ?thesis using q by (simp add: l scan_resRow sql_tickets_def)
qed

lemma sql_delete_ok:
  assumes ok: "sql_ok d" and del: "deleteReservation l d = (None, d')"
  shows "sql_ok d' \<and> sql_tickets d' = sql_tickets d \<and> sql_stored d' = (sql_stored d)(l := None)"
proof -
  have d': "d' = d\<lparr>reservations_table := filter (\<lambda>x. db_label x \<noteq> l) (reservations_table d)\<rparr>"
    using del by (auto simp: deleteReservation_def split: if_splits)
  have "map_of (map (\<lambda>r. (db_label r, v r)) (filter (\<lambda>x. db_label x \<noteq> l) rows)) =
      (map_of (map (\<lambda>r. (db_label r, v r)) rows))(l := None)" for v :: "res_row \<Rightarrow> reservation" and rows
    by (induction rows) (auto simp: fun_eq_iff)
  then show ?thesis
    using ok by (simp add: d' sql_ok_def sql_stored_def sql_tickets_def distinct_map_filter)
qed

lemma sql_delete_err:
  assumes "deleteReservation l d = (Some e, d')"
  shows "d' = d \<and> (e = StoreNotFound \<longrightarrow> sql_stored d l = None)"
  using assms
  by (auto simp: deleteReservation_def sql_stored_def sql_error_def map_of_eq_None_iff list_ex_iff
      image_iff split: if_splits)

lemma sql_read_back:
  assumes ok: "sql_ok d" and view: "reservationsView d = Inr rows"
  shows "distinct (map rr_label rows) \<and> labelled (map reservationFromRow rows) = sql_stored d"
proof -
  let ?s = "sort_key (\<lambda>r. (db_start r, db_label r)) (reservations_table d)"
  have rows: "rows = map scanReservation ?s"
    using view by (auto simp: reservationsView_def split: if_splits)
  have lab: "map rr_label rows = map db_label ?s" by (simp add: rows scanReservation_def)
  have dist: "distinct (map db_label ?s)"
    using ok by (simp add: sql_ok_def distinct_map_sort_key)
  let ?f = "\<lambda>r. (db_label r, reservationFromRow (scanReservation r))"
  have "labelled (map reservationFromRow rows) = map_of (map ?f ?s)"
    by (simp add: labelled_def rows comp_def reservationFromRow_def scanReservation_def)
  also have "\<dots> = map_of (map ?f (reservations_table d))"
  proof (rule map_of_eqI)
    show "set (map fst (map ?f ?s)) = set (map fst (map ?f (reservations_table d)))" by (simp add: comp_def)
    show "\<forall>k \<in> set (map fst (map ?f ?s)). map_of (map ?f ?s) k = map_of (map ?f (reservations_table d)) k"
    proof
      fix k assume "k \<in> set (map fst (map ?f ?s))"
      then obtain r where r: "r \<in> set (reservations_table d)" "db_label r = k" by auto
      have "map_of (map ?f xs) k = Some (reservationFromRow (scanReservation r))"
        if "distinct (map db_label xs)" "r \<in> set xs" for xs
        using map_of_key_in [OF that] r(2) by simp
      with dist ok r show "map_of (map ?f ?s) k = map_of (map ?f (reservations_table d)) k"
        by (simp add: sql_ok_def)
    qed
  qed
  finally show ?thesis using lab dist by (simp add: sql_stored_def)
qed

lemma set_upsert_ids:
  "key ` set (upsert key (\<lambda>_. row) row rows) = insert (key row) (key ` set rows)"
proof -
  have "set (map key (upsert key (\<lambda>_. row) row rows)) = insert (key row) (set (map key rows))"
    by (subst map_key_upsert) (auto simp: list_ex_iff, metis imageI)
  then show ?thesis by simp
qed

interpretation sql: sched_store "sqlOps clock" sql_stored sql_tickets sql_ok for clock
proof unfold_locales
  fix d d' row
  show "sql_ok d \<Longrightarrow> so_saveReservation (sqlOps clock) row d = (None, d') \<Longrightarrow>
     sql_ok d' \<and> sql_tickets d' = sql_tickets d \<and>
     sql_stored d' = (sql_stored d)(rr_label row \<mapsto> truncate_reservation (reservationFromRow row))"
    by (simp add: sqlOps_def sql_save_ok)
next
  fix d d' row e
  show "so_saveReservation (sqlOps clock) row d = (Some e, d') \<Longrightarrow> d' = d"
    by (auto simp: sqlOps_def saveReservation_def Let_def split: if_splits)
next
  fix d d' l
  show "sql_ok d \<Longrightarrow> so_deleteReservation (sqlOps clock) l d = (None, d') \<Longrightarrow>
     sql_ok d' \<and> sql_tickets d' = sql_tickets d \<and> sql_stored d' = (sql_stored d)(l := None)"
    by (simp add: sqlOps_def sql_delete_ok)
next
  fix d d' l e
  show "so_deleteReservation (sqlOps clock) l d = (Some e, d') \<Longrightarrow>
     d' = d \<and> (e = StoreNotFound \<longrightarrow> sql_stored d l = None)"
    by (simp add: sqlOps_def sql_delete_err)
next
  fix d rows
  show "sql_ok d \<Longrightarrow> so_reservations (sqlOps clock) d = Inr rows \<Longrightarrow>
     distinct (map rr_label rows) \<and> labelled (map reservationFromRow rows) = sql_stored d"
    by (simp add: sqlOps_def sql_read_back)
next
  fix d d' q
  show "sql_ok d \<Longrightarrow> so_saveTicket (sqlOps clock) q d = (None, d') \<Longrightarrow>
     sql_ok d' \<and> sql_stored d' = sql_stored d \<and> sql_tickets d' = insert (qr_id q) (sql_tickets d)"
    using set_upsert_ids [of tr_id "ticketRow clock q" "sched_queue d"]
    by (auto simp: sqlOps_def saveTicket_def sql_ok_def sql_stored_def sql_tickets_def Let_def
        split: if_splits)
next
  fix d d' i
  show "sql_ok d \<Longrightarrow> so_deleteTicket (sqlOps clock) i d = (None, d') \<Longrightarrow>
     sql_ok d' \<and> sql_stored d' = sql_stored d \<and> sql_tickets d' = sql_tickets d - {i}"
    by (auto simp: sqlOps_def deleteTicket_def sql_ok_def sql_stored_def sql_tickets_def
        split: if_splits)
next
  fix d qs
  show "so_queue (sqlOps clock) d = Inr qs \<Longrightarrow> set (map qr_id qs) = sql_tickets d"
    by (auto simp: sqlOps_def queueView_def sql_tickets_def image_image split: if_splits)
qed

section \<open>Properties\<close>

text \<open>Reservation commands against the SQL store, each with the store's clock and with the
  database failing or not during the command.\<close>

fun sql_run ::
    "reservation list \<times> database \<Rightarrow> (time \<times> bool \<times> reservation_cmd) list \<Rightarrow> reservation list \<times> database"
  where
  "sql_run s [] = s"
| "sql_run (rs, d) ((clock, down, c) # cs) =
     sql_run (snd (reservation_step (Some (sqlOps clock)) (rs, d\<lparr>db_down := down\<rparr>) c)) cs"

definition emptyDatabase :: database where
  "emptyDatabase = \<lparr>db_down = False, slot_state = [], sched_queue = [], reservations_table = [],
     reservations_seq = 0\<rparr>"

lemma mirrors_down: "sql.mirrors rs d \<Longrightarrow> sql.mirrors rs (d\<lparr>db_down := b\<rparr>)"
  by (simp add: sql.mirrors_def sql_ok_def sql_stored_def)

lemma sql_run_mirrors: "sql.mirrors (fst s) (snd s) \<Longrightarrow> sql.mirrors (fst (sql_run s cs)) (snd (sql_run s cs))"
proof (induction s cs rule: sql_run.induct)
  case (2 rs d clock down c cs)
  obtain e rs' d' where step:
    "reservation_step (Some (sqlOps clock)) (rs, d\<lparr>db_down := down\<rparr>) c = (e, rs', d')"
    by (rule prod_cases3)
  have "sql.mirrors rs' d'" using sql.step_mirrors [OF _ step] mirrors_down 2 by simp
  with 2 step show ?case by simp
qed simp

text \<open>Restart recovery.  After any sequence of reservation commands, with the database
  failing at any of them, what a restarted daemon reads back from the SQL store is the
  reservation list it had in memory, under the same labels, with the window of each cut to
  whole seconds.\<close>

theorem restart_recovers_reservations:
  assumes "sql_run ([], emptyDatabase) cs = (rs, d)" and "reservationsView d = Inr rows"
  shows "labelled (map reservationFromRow rows) = labelled (map truncate_reservation rs)"
proof -
  have "sql.mirrors rs d"
    using sql_run_mirrors [of "([], emptyDatabase)" cs] assms(1)
    by (simp add: sql.mirrors_def persisted_def labelled_def sql_ok_def sql_stored_def emptyDatabase_def)
  then show ?thesis
    using sql.recovery [of rs d _ rows] assms(2) by (simp add: sqlOps_def persisted_def)
qed

theorem restart_recovers_reservations_witness:
  "labelled (map reservationFromRow
      [scanReservation (resRow 7 1 (reservationToRow sample_reservation 7))]) =
   labelled (map truncate_reservation [sample_reservation])"
proof (rule restart_recovers_reservations [where cs = "[(7, False, RCreate sample_reservation 7)]"])
  show "sql_run ([], emptyDatabase) [(7, False, RCreate sample_reservation 7)] =
     ([sample_reservation], emptyDatabase\<lparr>
        reservations_table := [resRow 7 1 (reservationToRow sample_reservation 7)],
        reservations_seq := 1\<rparr>)"
    by (simp add: createReservation_def validateReservation_def sample_reservation_def is_zero_def
        persistReservation_def sqlOps_def saveReservation_def resRow_def reservationToRow_def
        res_checks_def emptyDatabase_def unixOf_def unix_epoch_def upsert_def nullStr_def)
qed (simp add: reservationsView_def emptyDatabase_def)

end
