(* ===== verification/Sched_Core.thy ===== *)
theory Sched_Core
  imports Sched_Queue Place Outcomes Sched_Store
begin

text \<open>
  core.go: the scheduler's one load attempt, the explicit unload, the read paths
  (\<open>Status\<close>, \<open>LoadStatus\<close>), the configuration and the restart recovery.  The concurrent part,
  \<open>EnsureLoaded\<close>, is in \<open>Ensure_Loaded\<close>.

  The scheduler acts on a world: the engine's state, the database, and the calls made to the
  optional \<open>RouteSync\<close> hook, in order.  Logging is left out.  One clock reading and one
  collector snapshot stand for the readings of one attempt.
\<close>

section \<open>The settings store\<close>

text \<open>A stored setting is represented by what \<open>json.Unmarshal\<close> makes of its bytes: a
  configuration, or bytes it rejects.\<close>

datatype setting_value = Undecodable string | Decoded config

datatype setting_read = SettingMissing | SettingFailed string | SettingFound setting_value

record 'd settings_ops =
  se_get :: "'d \<Rightarrow> setting_read"
  se_set :: "setting_value \<Rightarrow> 'd \<Rightarrow> string option \<times> 'd"

section \<open>Dependencies and the world\<close>

record ('w, 'd) deps =
  dp_engine :: "'w engine_ops"
  dp_sched :: "'d sched_ops option"
  dp_settings :: "'d settings_ops option"
  dp_comfy :: "'w comfy_seam option"
  dp_routeSync :: bool
  dp_maintenance :: "('w \<Rightarrow> bool \<times> string) option"
  dp_fallback :: config

record ('w, 'd) world =
  wo_engine :: 'w
  wo_store :: 'd
  wo_routes :: "(slot \<times> model) list"

definition routeSync ::
    "('w, 'd) deps \<Rightarrow> slot \<Rightarrow> model \<Rightarrow> ('w, 'd) world \<Rightarrow> ('w, 'd) world" where
  "routeSync dp s m wd = (if dp_routeSync dp then wd\<lparr>wo_routes := wo_routes wd @ [(s, m)]\<rparr> else wd)"

text \<open>The persistence writes are best effort: an error is logged and dropped.\<close>

definition persistSlot ::
    "('w, 'd) deps \<Rightarrow> time \<Rightarrow> slot \<Rightarrow> model \<Rightarrow> ('w, 'd) world \<Rightarrow> ('w, 'd) world" where
  "persistSlot dp now s m wd =
     (case dp_sched dp of None \<Rightarrow> wd
      | Some so \<Rightarrow>
        let loadedAt = (if m \<noteq> [] then now else 0) in
        wd\<lparr>wo_store := snd (so_saveSlot so s m loadedAt (wo_store wd))\<rparr>)"

definition persistTicket ::
    "('w, 'd) deps \<Rightarrow> time \<Rightarrow> ticket \<Rightarrow> ('w, 'd) world \<Rightarrow> ('w, 'd) world" where
  "persistTicket dp now t wd =
     (case dp_sched dp of None \<Rightarrow> wd
      | Some so \<Rightarrow>
        let row = \<lparr>qr_id = tk_id t, qr_model = tk_model t, qr_requestedBy = tk_requestedBy t,
              qr_targetSlot = tk_targetSlot t, qr_status = tk_status t, qr_small = tk_small t,
              qr_priority = tk_priority t, qr_enqueuedAt = tk_enqueuedAt t, qr_updatedAt = now\<rparr> in
        wd\<lparr>wo_store := snd (so_saveTicket so row (wo_store wd))\<rparr>)"

definition persistDeleteTicket ::
    "('w, 'd) deps \<Rightarrow> string \<Rightarrow> ('w, 'd) world \<Rightarrow> ('w, 'd) world" where
  "persistDeleteTicket dp i wd =
     (case dp_sched dp of None \<Rightarrow> wd
      | Some so \<Rightarrow> wd\<lparr>wo_store := snd (so_deleteTicket so i (wo_store wd))\<rparr>)"

lemma persist_keeps [simp]:
  "wo_engine (routeSync dp s m wd) = wo_engine wd"
  "wo_engine (persistSlot dp now s m wd) = wo_engine wd"
  "wo_engine (persistTicket dp now t wd) = wo_engine wd"
  "wo_engine (persistDeleteTicket dp i wd) = wo_engine wd"
  "wo_routes (persistSlot dp now s m wd) = wo_routes wd"
  by (simp_all add: routeSync_def persistSlot_def persistTicket_def persistDeleteTicket_def Let_def
      split: option.splits)

section \<open>One attempt\<close>

record load_outcome =
  lo_terminal :: bool
  lo_success :: bool
  lo_slot :: slot
  lo_message :: message
  lo_reason :: refusal_reason

text \<open>\<open>None\<close>: every slot was evicted; otherwise the message of the first failure.\<close>

fun evictAll ::
    "('w, 'd) deps \<Rightarrow> time \<Rightarrow> slot list \<Rightarrow> ('w, 'd) world \<Rightarrow> message option \<times> ('w, 'd) world" where
  "evictAll dp now [] wd = (None, wd)"
| "evictAll dp now (s # ss) wd =
     (let (r, w1) = eo_unload (dp_engine dp) s (wo_engine wd);
          wd1 = wd\<lparr>wo_engine := w1\<rparr> in
      if \<not> or_success r then (Some (MsgEvictFailed s (or_message r)), wd1)
      else evictAll dp now ss (routeSync dp s [] (persistSlot dp now s [] wd1)))"

definition stopComfyForMemory ::
    "('w, 'd) deps \<Rightarrow> model \<Rightarrow> ('w, 'd) world \<Rightarrow> message option \<times> ('w, 'd) world" where
  "stopComfyForMemory dp m wd =
     (case dp_comfy dp of None \<Rightarrow> (None, wd)
      | Some seam \<Rightarrow>
        (case (cs_stop seam, cs_unit seam) of
           (Some stop, Some u) \<Rightarrow>
             (case stop (wo_engine wd) of
                (Some err, w1) \<Rightarrow> (Some (MsgStopComfyFailed u m err), wd\<lparr>wo_engine := w1\<rparr>)
              | (None, w1) \<Rightarrow> (None, wd\<lparr>wo_engine := w1\<rparr>))
         | _ \<Rightarrow> (None, wd)))"

definition attemptLoad ::
    "('w, 'd) deps \<Rightarrow> snapshot \<Rightarrow> time \<Rightarrow> ensure_request \<Rightarrow> config \<Rightarrow> reservation list \<Rightarrow> duration
     \<Rightarrow> ('w, 'd) world \<Rightarrow> load_outcome \<times> ('w, 'd) world" where
  "attemptLoad dp snap now req cfg res horizon wd =
     (let ops = dp_engine dp; m = er_model req;
          (s, w0) = findLoaded ops snap m (er_targetSlot req) (wo_engine wd) in
      if s \<noteq> [] then
        (\<lparr>lo_terminal = True, lo_success = True, lo_slot = s, lo_message = MsgNone,
           lo_reason = NoReason\<rparr>, wd\<lparr>wo_engine := w0\<rparr>)
      else
        (let (pl, w1) = place ops (dp_comfy dp) snap now m (er_targetSlot req) cfg res horizon w0;
             wd1 = wd\<lparr>wo_engine := w1\<rparr> in
         if pl_slot pl = [] \<and> \<not> pl_evictComfy pl then
           (\<lparr>lo_terminal = pl_terminal pl, lo_success = False, lo_slot = [],
              lo_message = pl_message pl, lo_reason = pl_reason pl\<rparr>, wd1)
         else
           (case evictAll dp now (pl_evict pl) wd1 of
              (Some msg, wd2) \<Rightarrow>
                (\<lparr>lo_terminal = False, lo_success = False, lo_slot = [], lo_message = msg,
                   lo_reason = NoReason\<rparr>, wd2)
            | (None, wd2) \<Rightarrow>
              (case (if pl_evictComfy pl then stopComfyForMemory dp m wd2 else (None, wd2)) of
                 (Some msg, wd3) \<Rightarrow>
                   (\<lparr>lo_terminal = False, lo_success = False, lo_slot = [], lo_message = msg,
                      lo_reason = NoReason\<rparr>, wd3)
               | (None, wd3) \<Rightarrow>
                 (let (r, w4) = eo_load ops m (pl_slot pl) (wo_engine wd3);
                      wd4 = wd3\<lparr>wo_engine := w4\<rparr> in
                  if \<not> or_success r then
                    (\<lparr>lo_terminal = True, lo_success = False, lo_slot = [],
                       lo_message = or_message r, lo_reason = NoReason\<rparr>, wd4)
                  else
                    (\<lparr>lo_terminal = True, lo_success = True, lo_slot = pl_slot pl,
                       lo_message = MsgNone, lo_reason = NoReason\<rparr>,
                     routeSync dp (pl_slot pl) m (persistSlot dp now (pl_slot pl) m wd4)))))))"

section \<open>Explicit unload\<close>

datatype unload_error = ErrSlotRequired | ErrUnloadFailed slot message

definition persistUnloaded ::
    "('w, 'd) deps \<Rightarrow> time \<Rightarrow> slot list \<Rightarrow> ('w, 'd) world \<Rightarrow> ('w, 'd) world" where
  "persistUnloaded dp now ss wd = foldl (\<lambda>wd s. routeSync dp s [] (persistSlot dp now s [] wd)) wd ss"

definition unloadSlot ::
    "('w, 'd) deps \<Rightarrow> time \<Rightarrow> slot \<Rightarrow> ('w, 'd) world \<Rightarrow> unload_error option \<times> ('w, 'd) world" where
  "unloadSlot dp now s wd =
     (if s = [] then (Some ErrSlotRequired, wd)
      else let (r, w1) = eo_unload (dp_engine dp) s (wo_engine wd);
               wd1 = wd\<lparr>wo_engine := w1\<rparr> in
        if \<not> or_success r then (Some (ErrUnloadFailed s (or_message r)), wd1)
        else if s = ''all'' then (None, persistUnloaded dp now (eo_slots (dp_engine dp) w1) wd1)
        else (None, persistUnloaded dp now [s] wd1))"

section \<open>The read paths\<close>

record status =
  st_slots :: "slot \<rightharpoonup> model"
  st_labels :: "slot \<rightharpoonup> string"
  st_idle :: "slot \<rightharpoonup> duration option"
  st_slotMemory :: "slot \<rightharpoonup> int"
  st_unitMemory :: "unit_name \<rightharpoonup> int"
  st_total :: int
  st_used :: int
  st_free :: int
  st_queue :: "ticket list"

definition slot_label :: "snapshot \<Rightarrow> slot \<Rightarrow> string" where
  "slot_label snap s = (case sn_slots snap s of None \<Rightarrow> s
     | Some st \<Rightarrow> if ss_label st \<noteq> [] then ss_label st else s)"

definition statusView ::
    "('w, 'd) deps \<Rightarrow> snapshot \<Rightarrow> time \<Rightarrow> ticket list \<Rightarrow> 'w \<Rightarrow> status \<times> 'w" where
  "statusView dp snap clock queue w =
     (let ops = dp_engine dp;
          (occ, w') = eo_slotStates ops (sn_units snap) w;
          slots = eo_slots ops w';
          on_slots = (\<lambda>(P :: slot \<Rightarrow> bool) s. s \<in> set slots \<and> P s);
          occupied = on_slots (\<lambda>s. sa_mode (assigned occ s) \<noteq> []);
          total = (case sn_gttTotal snap of None \<Rightarrow> 0 | Some b \<Rightarrow> b);
          used = (case sn_inferenceRSS snap of None \<Rightarrow> 0 | Some b \<Rightarrow> b)
      in (\<lparr>st_slots = (\<lambda>s. if s \<in> set slots then Some (sa_mode (assigned occ s)) else None),
           st_labels = (\<lambda>s. if s \<in> set slots then Some (slot_label snap s) else None),
           st_idle = (\<lambda>s. if s \<in> set slots
              then Some (if occupied s then idleSeconds snap clock s else None) else None),
           st_slotMemory = (\<lambda>s. if occupied s then map_option ss_memoryBytes (sn_slots snap s) else None),
           st_unitMemory = (\<lambda>u. case sn_units snap u of None \<Rightarrow> None
              | Some x \<Rightarrow> if us_gpuBytes x > 0 then Some (us_gpuBytes x) else None),
           st_total = total, st_used = used,
           st_free = (if total - used > 0 then total - used else 0),
           st_queue = queue\<rparr>, w'))"

datatype load_state_kind = LsLoaded | LsTicket ticket_status | LsIdle

record load_state =
  ls_model :: model
  ls_state :: load_state_kind
  ls_position :: nat
  ls_slot :: slot
  ls_reason :: refusal_reason
  ls_message :: message
  ls_since :: "time option"

fun queuePosition :: "model \<Rightarrow> ticket list \<Rightarrow> (nat \<times> ticket) option" where
  "queuePosition m [] = None"
| "queuePosition m (t # ts) = (if tk_model t = m then Some (1, t)
     else map_option (\<lambda>(i, x). (Suc i, x)) (queuePosition m ts))"

definition loadStatus ::
    "('w, 'd) deps \<Rightarrow> snapshot \<Rightarrow> time \<Rightarrow> model \<Rightarrow> ticket list \<Rightarrow> outcome_ring \<Rightarrow> 'w
     \<Rightarrow> load_state \<times> 'w" where
  "loadStatus dp snap now m queue ring w =
     (let (s, w') = findLoaded (dp_engine dp) snap m [] w;
          idle = \<lparr>ls_model = m, ls_state = LsIdle, ls_position = 0, ls_slot = [],
             ls_reason = NoReason, ls_message = MsgNone, ls_since = None\<rparr> in
      if s \<noteq> [] then (idle\<lparr>ls_state := LsLoaded, ls_slot := s\<rparr>, w')
      else (case queuePosition m queue of
              Some (i, t) \<Rightarrow>
                (idle\<lparr>ls_state := LsTicket (tk_status t), ls_position := i, ls_slot := tk_targetSlot t,
                   ls_reason := tk_reason t, ls_message := tk_message t,
                   ls_since := Some (tk_enqueuedAt t)\<rparr>, w')
            | None \<Rightarrow>
              (case getOutcome m now ring of
                 Some rec \<Rightarrow>
                   (idle\<lparr>ls_state := LsTicket (oc_status rec), ls_slot := oc_slot rec,
                      ls_reason := oc_reason rec, ls_message := oc_message rec,
                      ls_since := Some (oc_at rec)\<rparr>, w')
               | None \<Rightarrow> (idle, w'))))"

end
