(* ===== verification/Sched_Restart.thy ===== *)
theory Sched_Restart
  imports Sched_Core
begin

text \<open>
  Configuration and restart recovery (\<open>New\<close> and \<open>SetConfig\<close> of core.go): the runtime
  tunables from the settings store, the reservations from the scheduler store, and the
  purge of queue rows a previous process left behind.
\<close>

datatype core_error =
    InvalidFallback config_error
  | CorruptSetting string
  | StoredOutOfBounds config_error
  | LoadConfigFailed string
  | LoadReservationsFailed store_err
  | LoadQueueFailed store_err
  | PurgeFailed string store_err
  | ConfigRejected config_error
  | PersistConfigFailed string

section \<open>Restart\<close>

definition fallbackConfig :: "config \<Rightarrow> config" where
  "fallbackConfig c = (if c = zeroConfig then defaultConfig else c)"

definition recoverConfig :: "config \<Rightarrow> 'd settings_ops option \<Rightarrow> 'd \<Rightarrow> core_error + config" where
  "recoverConfig fallback settings d =
     (case validateConfig (fallbackConfig fallback) of
        Some e \<Rightarrow> Inl (InvalidFallback e)
      | None \<Rightarrow>
        (case settings of None \<Rightarrow> Inr (fallbackConfig fallback)
         | Some se \<Rightarrow>
           (case se_get se d of
              SettingFound (Undecodable err) \<Rightarrow> Inl (CorruptSetting err)
            | SettingFound (Decoded cfg) \<Rightarrow>
              (case validateConfig cfg of
                 Some e \<Rightarrow> Inl (StoredOutOfBounds e) | None \<Rightarrow> Inr cfg)
            | SettingMissing \<Rightarrow> Inr (fallbackConfig fallback)
            | SettingFailed err \<Rightarrow> Inl (LoadConfigFailed err))))"

fun purgeTickets :: "'d sched_ops \<Rightarrow> queue_row list \<Rightarrow> 'd \<Rightarrow> core_error option \<times> 'd" where
  "purgeTickets so [] d = (None, d)"
| "purgeTickets so (t # ts) d =
     (case so_deleteTicket so (qr_id t) d of
        (Some e, d') \<Rightarrow> (Some (PurgeFailed (qr_id t) e), d')
      | (None, d') \<Rightarrow> purgeTickets so ts d')"

definition newCore ::
    "('w, 'd) deps \<Rightarrow> 'd \<Rightarrow> (core_error + config \<times> reservation list) \<times> 'd" where
  "newCore dp d =
     (case recoverConfig (dp_fallback dp) (dp_settings dp) d of
        Inl e \<Rightarrow> (Inl e, d)
      | Inr cfg \<Rightarrow>
        (case dp_sched dp of None \<Rightarrow> (Inr (cfg, []), d)
         | Some so \<Rightarrow>
           (case so_reservations so d of Inl e \<Rightarrow> (Inl (LoadReservationsFailed e), d)
            | Inr rows \<Rightarrow>
              (case so_queue so d of Inl e \<Rightarrow> (Inl (LoadQueueFailed e), d)
               | Inr stale \<Rightarrow>
                 (case purgeTickets so stale d of
                    (Some e, d') \<Rightarrow> (Inl e, d')
                  | (None, d') \<Rightarrow> (Inr (cfg, map reservationFromRow rows), d'))))))"

definition setConfig ::
    "'d settings_ops option \<Rightarrow> config \<Rightarrow> config \<times> 'd \<Rightarrow> core_error option \<times> config \<times> 'd" where
  "setConfig settings cfg s =
     (case s of (old, d) \<Rightarrow>
       (case validateConfig cfg of Some e \<Rightarrow> (Some (ConfigRejected e), old, d)
        | None \<Rightarrow>
          (case settings of None \<Rightarrow> (None, cfg, d)
           | Some se \<Rightarrow>
             (case se_set se (Decoded cfg) d of
                (Some err, d') \<Rightarrow> (Some (PersistConfigFailed err), old, d')
              | (None, d') \<Rightarrow> (None, cfg, d')))))"

section \<open>Lemmas\<close>

lemma recoverConfig_valid: "recoverConfig fb settings d = Inr cfg \<Longrightarrow> validateConfig cfg = None"
  by (auto simp: recoverConfig_def split: option.splits setting_read.splits setting_value.splits)

lemma newCore_cases:
  assumes "newCore dp d = (Inr (cfg, rs), d')" and "dp_sched dp = Some so"
  obtains rows stale where "recoverConfig (dp_fallback dp) (dp_settings dp) d = Inr cfg"
    "so_reservations so d = Inr rows" "so_queue so d = Inr stale"
    "purgeTickets so stale d = (None, d')" "rs = map reservationFromRow rows"
  using assms by (auto simp: newCore_def split: sum.splits prod.splits option.splits)

lemma setConfig_keeps_valid:
  assumes "setConfig settings c (old, d) = (e, cfg, d')" and "validateConfig old = None"
  shows "validateConfig cfg = None \<and> (e = None \<longrightarrow> cfg = c) \<and> (e \<noteq> None \<longrightarrow> cfg = old)"
  using assms by (auto simp: setConfig_def split: option.splits prod.splits)

context sched_store
begin

lemma purge_ok:
  assumes "ok d" and "purgeTickets ops ts d = (None, d')"
  shows "ok d' \<and> stored d' = stored d \<and> tickets d' = tickets d - set (map qr_id ts)"
  using assms
proof (induction ts arbitrary: d)
  case (Cons t ts)
  then obtain d1 where d1: "so_deleteTicket ops (qr_id t) d = (None, d1)"
    "purgeTickets ops ts d1 = (None, d')" by (auto split: prod.splits option.splits)
  with Cons.IH [of d1] ticket_deleted [OF Cons.prems(1) d1(1)] show ?case by auto
qed simp

lemma restart:
  assumes m: "mirrors rs d" and new: "newCore dp d = (Inr (cfg, rs'), d')"
    and so: "dp_sched dp = Some ops"
  shows "labelled rs' = persisted rs \<and> tickets d' = {} \<and> stored d' = stored d \<and> ok d'"
proof -
  obtain rows stale where r: "so_reservations ops d = Inr rows" "so_queue ops d = Inr stale"
    "purgeTickets ops stale d = (None, d')" "rs' = map reservationFromRow rows"
    using newCore_cases [OF new so] by metis
  have ok: "ok d" using m by (simp add: mirrors_def)
  show ?thesis
    using recovery [OF m r(1)] purge_ok [OF ok r(3)] ticket_queue [OF ok r(2)] r(4) by auto
qed

end

section \<open>Properties\<close>

text \<open>A restarted scheduler is the one that stopped.  Whatever reservation commands ran
  before, with the database failing at any of them, and whatever queue rows were left behind,
  a restart that succeeds comes up with the same reservations (windows cut to whole seconds),
  valid tunables, and no queue row left in the database.\<close>

theorem restart_clean:
  assumes "sql_run ([], emptyDatabase) cs = (rs, d)" and "dp_sched dp = Some (sqlOps clock)"
    and "newCore dp (d\<lparr>sched_queue := leftover\<rparr>) = (Inr (cfg, rs'), d')"
  shows "labelled rs' = labelled (map truncate_reservation rs) \<and> validateConfig cfg = None \<and>
    sched_queue d' = []"
proof -
  have "sql.mirrors rs d"
    using sql_run_mirrors [of "([], emptyDatabase)" cs] assms(1)
    by (simp add: sql.mirrors_def persisted_def labelled_def sql_ok_def sql_stored_def emptyDatabase_def)
  then have m: "sql.mirrors rs (d\<lparr>sched_queue := leftover\<rparr>)"
    by (simp add: sql.mirrors_def sql_ok_def sql_stored_def)
  have "validateConfig cfg = None"
    using newCore_cases [OF assms(3,2)] recoverConfig_valid by metis
  then show ?thesis
    using sql.restart [OF m assms(3,2)] by (simp add: persisted_def sql_tickets_def)
qed

definition sample_deps :: "'w engine_ops \<Rightarrow> ('w, database) deps" where
  "sample_deps ops = \<lparr>dp_engine = ops, dp_sched = Some (sqlOps 7), dp_settings = None,
     dp_comfy = None, dp_routeSync = True, dp_maintenance = None, dp_fallback = zeroConfig\<rparr>"

theorem restart_clean_witness:
  "\<exists>row. newCore (sample_deps sample_engine) (emptyDatabase\<lparr>sched_queue := [row]\<rparr>) =
     (Inr (defaultConfig, []), emptyDatabase) \<and>
   labelled [] = labelled (map truncate_reservation []) \<and> validateConfig defaultConfig = None"
proof -
  define row where "row = ticketRow 7 \<lparr>qr_id = ''t'', qr_model = ''m'', qr_requestedBy = ''a0'',
    qr_targetSlot = [], qr_status = StatusLoading, qr_small = True, qr_priority = 0,
    qr_enqueuedAt = 5, qr_updatedAt = 6\<rparr>"
  have new: "newCore (sample_deps sample_engine) (emptyDatabase\<lparr>sched_queue := [row]\<rparr>) =
     (Inr (defaultConfig, []), emptyDatabase)"
    by (simp add: newCore_def recoverConfig_def fallbackConfig_def sample_deps_def
        defaultConfig_valid sqlOps_def reservationsView_def queueView_def deleteTicket_def
        emptyDatabase_def row_def)
  moreover have "sql_run ([], emptyDatabase) [] = ([], emptyDatabase)" by simp
  ultimately show ?thesis
    using restart_clean [of "[]" "[]" emptyDatabase, OF _ _ new] by (auto simp: sample_deps_def)
qed

text \<open>The tunables are always within their bounds.  A configuration change is applied only
  when it is valid and persisted; otherwise the old one stays, in every case the bounds hold.\<close>

theorem config_always_valid:
  assumes "validateConfig old = None" and "setConfig settings c (old, d) = (e, cfg, d')"
  shows "(30 \<le> idleUnloadS cfg \<and> idleUnloadS cfg \<le> 3600 \<and> 1 \<le> smallJobTokenThreshold cfg \<and>
      0 \<le> priorityJumpCap cfg \<and> 1 \<le> reservationSoonMin cfg \<and> reservationSoonMin cfg \<le> 120) \<and>
    cfg = (if e = None then c else old)"
  using setConfig_keeps_valid [OF assms(2,1)] by (auto simp: validateConfig_None_iff)

theorem config_always_valid_witness:
  "(30 \<le> idleUnloadS defaultConfig \<and> idleUnloadS defaultConfig \<le> 3600) \<and>
   setConfig (None :: unit settings_ops option) zeroConfig (defaultConfig, ()) =
     (Some (ConfigRejected (IdleUnloadRange 0)), defaultConfig, ())"
proof -
  have s: "setConfig (None :: unit settings_ops option) zeroConfig (defaultConfig, ()) =
     (Some (ConfigRejected (IdleUnloadRange 0)), defaultConfig, ())"
    by (simp add: setConfig_def validateConfig_def zeroConfig_def)
  with config_always_valid [OF defaultConfig_valid s] show ?thesis by simp
qed

end
