(* ===== verification/Ensure_Loaded.thy ===== *)
theory Ensure_Loaded
  imports Sched_Restart
begin

text \<open>
  \<open>Core.EnsureLoaded\<close> as a concurrent program.  Each call is a small state machine whose
  transitions are the stretches of code between two releases of the scheduler mutex: the
  checks on entry, the insertion into the queue, the top of the polling loop (deadline, then
  the check whether the model is loaded), the test whether it is this ticket's turn, the load
  attempt under the \<open>loadBusy\<close> token, and the deferred removal from the queue.  The calls
  interleave freely with each other, with explicit unloads, configuration changes, reservation
  commands, and with whatever else moves the engine.

  The call is identified by its ticket's id, which the code draws at random; an id in use is
  not drawn again.  An attempt is one transition on the engine's state.  A read of the
  calling context's state is the \<open>cancelled\<close> flag of a transition, besides the deadline.
\<close>

section \<open>State\<close>

datatype ensure_result = EnsureOk ticket | EnsureFailed ticket message

datatype phase =
    PhEnqueue
  | PhWait
  | PhTurn
  | PhAttempt config "reservation list"
  | PhLeave ensure_result
  | PhDone ensure_result

record ensure_call =
  ca_req :: ensure_request
  ca_deadline :: time
  ca_phase :: phase
  ca_refusal :: message  \<comment> \<open>lastRefusal\<close>
  ca_reason :: refusal_reason  \<comment> \<open>lastReason\<close>

record ('w, 'd) core =
  co_cfg :: config
  co_queue :: "ticket list"
  co_res :: "reservation list"
  co_busy :: bool
  co_outcomes :: outcome_ring
  co_world :: "('w, 'd) world"
  co_calls :: "string \<rightharpoonup> ensure_call"

definition defaultTimeout :: duration where
  "defaultTimeout = 150 * nanos_per_second"

definition initCore :: "config \<Rightarrow> reservation list \<Rightarrow> ('w, 'd) world \<Rightarrow> ('w, 'd) core" where
  "initCore cfg rs wd = \<lparr>co_cfg = cfg, co_queue = [], co_res = rs, co_busy = False,
     co_outcomes = newOutcomeRing, co_world = wd, co_calls = Map.empty\<rparr>"

section \<open>The transitions of a call\<close>

definition set_phase :: "string \<Rightarrow> ensure_call \<Rightarrow> phase \<Rightarrow> ('w, 'd) core \<Rightarrow> ('w, 'd) core" where
  "set_phase i c p s = s\<lparr>co_calls := (co_calls s)(i \<mapsto> c\<lparr>ca_phase := p\<rparr>)\<rparr>"

definition set_engine :: "'w \<Rightarrow> ('w, 'd) core \<Rightarrow> ('w, 'd) core" where
  "set_engine w s = s\<lparr>co_world := (co_world s)\<lparr>wo_engine := w\<rparr>\<rparr>"

definition blank_ticket :: "string \<Rightarrow> ensure_request \<Rightarrow> ticket_status \<Rightarrow> ticket" where
  "blank_ticket i req st = \<lparr>tk_id = i, tk_model = er_model req, tk_requestedBy = er_requestedBy req,
     tk_targetSlot = [], tk_status = st, tk_small = False, tk_enqueuedAt = 0,
     tk_reason = NoReason, tk_message = MsgNone, tk_jumped = 0, tk_priority = 0\<rparr>"

definition new_ticket :: "string \<Rightarrow> ensure_request \<Rightarrow> time \<Rightarrow> slot \<Rightarrow> ticket_status \<Rightarrow> ticket" where
  "new_ticket i req now target st = (blank_ticket i req st)\<lparr>tk_targetSlot := target,
     tk_small := er_smallJob req, tk_enqueuedAt := now\<rparr>"

text \<open>The code up to the insertion into the queue.\<close>

definition beginEnsure ::
    "('w, 'd) deps \<Rightarrow> snapshot \<Rightarrow> time \<Rightarrow> string \<Rightarrow> ensure_request \<Rightarrow> time option
     \<Rightarrow> ('w, 'd) core \<Rightarrow> ('w, 'd) core" where
  "beginEnsure dp snap now i req deadline s =
     (let c = \<lparr>ca_req = req,
           ca_deadline = (case deadline of None \<Rightarrow> now + defaultTimeout | Some d \<Rightarrow> d),
           ca_phase = PhEnqueue, ca_refusal = MsgNone, ca_reason = NoReason\<rparr> in
      if er_model req = [] then
        set_phase i c (PhDone (EnsureFailed
          ((blank_ticket [] req StatusFailed)\<lparr>tk_requestedBy := []\<rparr>)
          (MsgText ''sched: model is required''))) s
      else
        (let (slot, w) = findLoaded (dp_engine dp) snap (er_model req) (er_targetSlot req)
               (wo_engine (co_world s));
             s1 = set_engine w s in
         if slot \<noteq> [] then
           set_phase i c (PhDone (EnsureOk (new_ticket i req now slot StatusLoaded)))
             (s1\<lparr>co_outcomes := clearOutcome (er_model req) (co_outcomes s1)\<rparr>)
         else
           (case (case dp_maintenance dp of None \<Rightarrow> (False, []) | Some f \<Rightarrow> f w) of
              (True, msg) \<Rightarrow> set_phase i c
                (PhDone (EnsureFailed (blank_ticket i req StatusFailed) (MsgMaintenance msg))) s1
            | (False, _) \<Rightarrow> set_phase i c PhEnqueue s1)))"

definition enqueueCall ::
    "('w, 'd) deps \<Rightarrow> time \<Rightarrow> string \<Rightarrow> ensure_call \<Rightarrow> ('w, 'd) core \<Rightarrow> ('w, 'd) core" where
  "enqueueCall dp now i c s =
     (let req = ca_req c;
          t = (new_ticket i req now (er_targetSlot req) StatusQueued)\<lparr>tk_priority := er_priority req\<rparr> in
      set_phase i c PhWait (s\<lparr>co_queue := enqueueLocked (priorityJumpCap (co_cfg s)) t (co_queue s),
        co_world := persistTicket dp now t (co_world s)\<rparr>))"

text \<open>Writing through the ticket pointer, and reading the ticket back.\<close>

definition setTicket :: "string \<Rightarrow> (ticket \<Rightarrow> ticket) \<Rightarrow> ticket list \<Rightarrow> ticket list" where
  "setTicket i f q = update_first (\<lambda>t. tk_id t = i) f q"

definition readTicket :: "string \<Rightarrow> ensure_call \<Rightarrow> ticket list \<Rightarrow> ticket" where
  "readTicket i c q = (case find (\<lambda>t. tk_id t = i) q of
     Some t \<Rightarrow> t | None \<Rightarrow> blank_ticket i (ca_req c) StatusQueued)"

definition failureRecord :: "refusal_reason \<Rightarrow> message \<Rightarrow> time \<Rightarrow> outcome_record" where
  "failureRecord reason msg now = \<lparr>oc_status = StatusFailed, oc_reason = reason,
     oc_message = msg, oc_slot = [], oc_at = now\<rparr>"

definition expireCall ::
    "time \<Rightarrow> string \<Rightarrow> ensure_call \<Rightarrow> ('w, 'd) core \<Rightarrow> ('w, 'd) core" where
  "expireCall now i c s =
     (let m = er_model (ca_req c);
          q = setTicket i (\<lambda>t. t\<lparr>tk_status := StatusFailed\<rparr>) (co_queue s);
          base = MsgTimedOut m (if ca_refusal c = MsgNone then None else Some (ca_refusal c)) in
      set_phase i c (PhLeave (EnsureFailed (readTicket i c q) base))
        (s\<lparr>co_queue := q,
           co_outcomes := recordOutcome m (failureRecord (ca_reason c) base now) (co_outcomes s)\<rparr>))"

definition pollCall ::
    "('w, 'd) deps \<Rightarrow> snapshot \<Rightarrow> string \<Rightarrow> ensure_call \<Rightarrow> ('w, 'd) core \<Rightarrow> ('w, 'd) core" where
  "pollCall dp snap i c s =
     (let req = ca_req c;
          (slot, w) = findLoaded (dp_engine dp) snap (er_model req) (er_targetSlot req)
            (wo_engine (co_world s));
          s1 = set_engine w s in
      if slot \<noteq> [] then
        (let q = setTicket i (\<lambda>t. t\<lparr>tk_status := StatusLoaded, tk_targetSlot := slot\<rparr>) (co_queue s) in
         set_phase i c (PhLeave (EnsureOk (readTicket i c q)))
           (s1\<lparr>co_queue := q, co_outcomes := clearOutcome (er_model req) (co_outcomes s)\<rparr>))
      else set_phase i c PhTurn s1)"

definition myTurn :: "string \<Rightarrow> ('w, 'd) core \<Rightarrow> bool" where
  "myTurn i s = (case co_queue s of [] \<Rightarrow> False | t # _ \<Rightarrow> tk_id t = i \<and> \<not> co_busy s)"

definition turnCall ::
    "('w, 'd) deps \<Rightarrow> time \<Rightarrow> string \<Rightarrow> ensure_call \<Rightarrow> ('w, 'd) core \<Rightarrow> ('w, 'd) core" where
  "turnCall dp now i c s =
     (if myTurn i s then
        (let q = setTicket i (\<lambda>t. t\<lparr>tk_status := StatusLoading\<rparr>) (co_queue s) in
         set_phase i c (PhAttempt (co_cfg s) (co_res s))
           (s\<lparr>co_queue := q, co_busy := True,
              co_world := persistTicket dp now (readTicket i c q) (co_world s)\<rparr>))
      else set_phase i c PhWait s)"

definition attemptCall ::
    "('w, 'd) deps \<Rightarrow> snapshot \<Rightarrow> time \<Rightarrow> string \<Rightarrow> ensure_call \<Rightarrow> config \<Rightarrow> reservation list
     \<Rightarrow> ('w, 'd) core \<Rightarrow> ('w, 'd) core" where
  "attemptCall dp snap now i c cfg res s =
     (let req = ca_req c; m = er_model req;
          (o1, wd) = attemptLoad dp snap now req cfg res (time_sub (ca_deadline c) now) (co_world s);
          s1 = s\<lparr>co_busy := False, co_world := wd\<rparr> in
      if lo_terminal o1 \<and> lo_success o1 then
        (let q = setTicket i (\<lambda>t. t\<lparr>tk_status := StatusLoaded, tk_targetSlot := lo_slot o1,
               tk_reason := NoReason, tk_message := MsgNone\<rparr>) (co_queue s) in
         set_phase i c (PhLeave (EnsureOk (readTicket i c q)))
           (s1\<lparr>co_queue := q, co_outcomes := clearOutcome m (co_outcomes s)\<rparr>))
      else if lo_terminal o1 then
        (let q = setTicket i (\<lambda>t. t\<lparr>tk_status := StatusFailed, tk_reason := lo_reason o1,
               tk_message := lo_message o1\<rparr>) (co_queue s) in
         set_phase i c (PhLeave (EnsureFailed (readTicket i c q) (MsgLoadFailed m (lo_message o1))))
           (s1\<lparr>co_queue := q, co_outcomes := recordOutcome m
              (failureRecord (lo_reason o1) (lo_message o1) now) (co_outcomes s)\<rparr>))
      else
        (let q = setTicket i (\<lambda>t. t\<lparr>tk_status := StatusQueued, tk_reason := lo_reason o1,
               tk_message := lo_message o1\<rparr>) (co_queue s) in
         set_phase i (c\<lparr>ca_refusal := lo_message o1, ca_reason := lo_reason o1\<rparr>) PhWait
           (s1\<lparr>co_queue := q, co_world := persistTicket dp now (readTicket i c q) wd\<rparr>)))"

definition leaveCall ::
    "('w, 'd) deps \<Rightarrow> string \<Rightarrow> ensure_call \<Rightarrow> ensure_result \<Rightarrow> ('w, 'd) core \<Rightarrow> ('w, 'd) core" where
  "leaveCall dp i c r s =
     set_phase i c (PhDone r) (s\<lparr>co_queue := dequeueTicket i (co_queue s),
       co_world := persistDeleteTicket dp i (co_world s)\<rparr>)"

definition callStep ::
    "('w, 'd) deps \<Rightarrow> snapshot \<Rightarrow> time \<Rightarrow> bool \<Rightarrow> string \<Rightarrow> ('w, 'd) core \<Rightarrow> ('w, 'd) core" where
  "callStep dp snap now cancelled i s =
     (case co_calls s i of None \<Rightarrow> s
      | Some c \<Rightarrow>
        (case ca_phase c of
           PhEnqueue \<Rightarrow> enqueueCall dp now i c s
         | PhWait \<Rightarrow> if cancelled \<or> ca_deadline c \<le> now then expireCall now i c s
             else pollCall dp snap i c s
         | PhTurn \<Rightarrow> turnCall dp now i c s
         | PhAttempt cfg res \<Rightarrow> attemptCall dp snap now i c cfg res s
         | PhLeave r \<Rightarrow> leaveCall dp i c r s
         | PhDone r \<Rightarrow> s))"

section \<open>The other operations, and runs\<close>

datatype 'w core_action =
    Begin string ensure_request "time option"
  | Own string bool  \<comment> \<open>the call's next transition; is its context cancelled?\<close>
  | Evict slot  \<comment> \<open>an explicit unload\<close>
  | Tune config
  | Reserve reservation_cmd
  | EngineMoves 'w  \<comment> \<open>whatever else acts on the engine\<close>

fun core_act ::
    "('w, 'd) deps \<Rightarrow> snapshot \<Rightarrow> time \<Rightarrow> 'w core_action \<Rightarrow> ('w, 'd) core \<Rightarrow> ('w, 'd) core" where
  "core_act dp snap now (Begin i req deadline) s =
     (if co_calls s i = None then beginEnsure dp snap now i req deadline s else s)"
| "core_act dp snap now (Own i cancelled) s = callStep dp snap now cancelled i s"
| "core_act dp snap now (Evict sl) s = s\<lparr>co_world := snd (unloadSlot dp now sl (co_world s))\<rparr>"
| "core_act dp snap now (Tune cfg) s =
     (let (cfg', d) = snd (setConfig (dp_settings dp) cfg (co_cfg s, wo_store (co_world s))) in
      s\<lparr>co_cfg := cfg', co_world := (co_world s)\<lparr>wo_store := d\<rparr>\<rparr>)"
| "core_act dp snap now (Reserve cmd) s =
     (let (rs, d) = snd (reservation_step (dp_sched dp) (co_res s, wo_store (co_world s)) cmd) in
      s\<lparr>co_res := rs, co_world := (co_world s)\<lparr>wo_store := d\<rparr>\<rparr>)"
| "core_act dp snap now (EngineMoves w) s = set_engine w s"

definition core_run ::
    "('w, 'd) deps \<Rightarrow> (snapshot \<times> time \<times> 'w core_action) list \<Rightarrow> ('w, 'd) core \<Rightarrow> ('w, 'd) core" where
  "core_run dp es s = foldl (\<lambda>s (snap, now, a). core_act dp snap now a s) s es"

text \<open>The states a scheduler can be in, from its start.\<close>

inductive reachable :: "('w, 'd) deps \<Rightarrow> ('w, 'd) core \<Rightarrow> bool" for dp where
  start: "newCore dp d = (Inr (cfg, rs), d') \<Longrightarrow>
    reachable dp (initCore cfg rs \<lparr>wo_engine = w, wo_store = d', wo_routes = []\<rparr>)"
| act: "reachable dp s \<Longrightarrow> reachable dp (core_act dp snap now a s)"

section \<open>The queue mirrors the calls\<close>

definition queue_status :: "ticket list \<Rightarrow> (string \<rightharpoonup> ticket_status)" where
  "queue_status q = map_of (map (\<lambda>t. (tk_id t, tk_status t)) q)"

definition ticket_ids :: "ticket list \<Rightarrow> string list" where
  "ticket_ids q = map tk_id q"

lemma dom_queue_status: "dom (queue_status q) = set (ticket_ids q)"
  by (auto simp: queue_status_def ticket_ids_def dom_map_of_conv_image_fst image_image)

lemma queue_status_append: "queue_status (q1 @ q2) = queue_status q2 ++ queue_status q1"
  by (simp add: queue_status_def)

lemma queue_status_Cons: "queue_status (t # q) = (queue_status q)(tk_id t \<mapsto> tk_status t)"
  by (simp add: queue_status_def)

lemma queue_status_charge [simp]: "queue_status (map chargeJump q) = queue_status q"
  by (simp add: queue_status_def comp_def chargeJump_def if_distrib [of tk_id] if_distrib [of tk_status]
      cong: if_cong)

lemma ticket_ids_charge [simp]: "ticket_ids (map chargeJump q) = ticket_ids q"
  by (simp add: ticket_ids_def comp_def chargeJump_def if_distrib [of tk_id] cong: if_cong)

lemma queue_status_insert:
  assumes "tk_id t \<notin> set (ticket_ids q1)"
  shows "queue_status (q1 @ t # q2) = (queue_status (q1 @ q2))(tk_id t \<mapsto> tk_status t)"
proof -
  have "tk_id t \<notin> dom (queue_status q1)" using assms by (simp add: dom_queue_status)
  then show ?thesis
    by (simp add: queue_status_append queue_status_Cons map_add_upd_left)
qed

lemma enqueue_status:
  assumes "tk_id t \<notin> set (ticket_ids q)"
  shows "queue_status (enqueueLocked cap t q) = (queue_status q)(tk_id t \<mapsto> tk_status t)"
proof (cases "tk_small t")
  case True
  let ?i = "insertAt cap q"
  have "queue_status q = queue_status (take ?i q @ drop ?i q)" by simp
  also have "\<dots> = queue_status (take ?i q @ map chargeJump (drop ?i q))"
    by (simp only: queue_status_append queue_status_charge)
  finally have "queue_status q = queue_status (take ?i q @ map chargeJump (drop ?i q))" .
  moreover have "tk_id t \<notin> set (ticket_ids (take ?i q))"
    using assms by (auto simp: ticket_ids_def dest: in_set_takeD)
  ultimately show ?thesis using True by (simp add: enqueueLocked_def Let_def queue_status_insert)
next
  case False
  then show ?thesis
    using queue_status_insert [of t q "[]"] assms by (simp add: enqueueLocked_def)
qed

lemma enqueue_ids:
  assumes "tk_id t \<notin> set (ticket_ids q)" and "distinct (ticket_ids q)"
  shows "distinct (ticket_ids (enqueueLocked cap t q))"
proof (cases "tk_small t")
  case True
  let ?i = "insertAt cap q"
  have "ticket_ids (enqueueLocked cap t q) =
      take ?i (ticket_ids q) @ tk_id t # drop ?i (ticket_ids q)"
    using True by (simp add: enqueueLocked_def Let_def ticket_ids_def take_map drop_map comp_def
        chargeJump_def if_distrib [of tk_id] cong: if_cong)
  moreover have "set (take ?i (ticket_ids q)) \<inter> set (drop ?i (ticket_ids q)) = {}"
    using assms(2) by (metis append_take_drop_id distinct_append)
  ultimately show ?thesis
    using assms by (auto dest: in_set_takeD in_set_dropD)
qed (use assms in \<open>simp add: enqueueLocked_def ticket_ids_def\<close>)

lemma setTicket_ids: "(\<And>t. tk_id (f t) = tk_id t) \<Longrightarrow> ticket_ids (setTicket i f q) = ticket_ids q"
  by (simp add: ticket_ids_def setTicket_def map_update_first_same)

lemma setTicket_status:
  assumes "\<And>t. tk_id (f t) = tk_id t" and "\<And>t. tk_status (f t) = st" and "i \<in> set (ticket_ids q)"
  shows "queue_status (setTicket i f q) = (queue_status q)(i \<mapsto> st)"
  using assms(3)
proof (induction q)
  case (Cons t q)
  show ?case
  proof (cases "tk_id t = i")
    case False
    with Cons show ?thesis
      by (auto simp: setTicket_def queue_status_Cons ticket_ids_def fun_eq_iff)
  qed (simp add: setTicket_def queue_status_Cons assms(1,2) fun_eq_iff)
qed (simp add: ticket_ids_def)

lemma dequeue_status:
  "distinct (ticket_ids q) \<Longrightarrow> queue_status (dequeueTicket i q) = (queue_status q)(i := None)"
proof (induction q)
  case (Cons t q)
  then have "tk_id t \<notin> dom (queue_status q)" by (simp add: dom_queue_status ticket_ids_def)
  then have "queue_status q (tk_id t) = None" by blast
  with Cons show ?case
    by (auto simp: dequeueTicket_def queue_status_Cons ticket_ids_def fun_eq_iff)
qed (simp add: dequeueTicket_def queue_status_def)

lemma dequeue_ids: "distinct (ticket_ids q) \<Longrightarrow> distinct (ticket_ids (dequeueTicket i q))"
  by (simp add: ticket_ids_def dequeueTicket_def map_remove_first_distinct distinct_map_filter)

text \<open>The status the ticket of a call must have in the queue.\<close>

fun result_status :: "ensure_result \<Rightarrow> ticket_status" where
  "result_status (EnsureOk t) = StatusLoaded"
| "result_status (EnsureFailed t msg) = StatusFailed"

fun phase_status :: "phase \<Rightarrow> ticket_status option" where
  "phase_status PhEnqueue = None"
| "phase_status PhWait = Some StatusQueued"
| "phase_status PhTurn = Some StatusQueued"
| "phase_status (PhAttempt cfg res) = Some StatusLoading"
| "phase_status (PhLeave r) = Some (result_status r)"
| "phase_status (PhDone r) = None"

definition call_status :: "ensure_call option \<Rightarrow> ticket_status option" where
  "call_status c = (case c of None \<Rightarrow> None | Some c \<Rightarrow> phase_status (ca_phase c))"

definition attempting :: "('w, 'd) core \<Rightarrow> string \<Rightarrow> bool" where
  "attempting s i \<longleftrightarrow> (\<exists>c cfg res. co_calls s i = Some c \<and> ca_phase c = PhAttempt cfg res)"

definition inv_queue :: "('w, 'd) core \<Rightarrow> bool" where
  "inv_queue s \<longleftrightarrow> distinct (ticket_ids (co_queue s)) \<and>
     queue_status (co_queue s) = (\<lambda>i. call_status (co_calls s i))"

definition inv_token :: "('w, 'd) core \<Rightarrow> bool" where
  "inv_token s \<longleftrightarrow> (\<forall>i j. attempting s i \<longrightarrow> attempting s j \<longrightarrow> i = j) \<and>
     (co_busy s \<longleftrightarrow> (\<exists>i. attempting s i))"

definition inv_core :: "('w, 'd) core \<Rightarrow> bool" where
  "inv_core s \<longleftrightarrow> inv_queue s \<and> inv_token s \<and> ring_ok (co_outcomes s) \<and>
     validateConfig (co_cfg s) = None"

text \<open>What one transition of a call does to the parts the invariant speaks about.\<close>

definition call_moved ::
    "string \<Rightarrow> ensure_call \<Rightarrow> ('w, 'd) core \<Rightarrow> ('w, 'd) core \<Rightarrow> bool" where
  "call_moved i c' s s' \<longleftrightarrow> co_calls s' = (co_calls s)(i \<mapsto> c') \<and>
     distinct (ticket_ids (co_queue s')) \<and>
     queue_status (co_queue s') = (queue_status (co_queue s))(i := phase_status (ca_phase c')) \<and>
     ring_ok (co_outcomes s') \<and> co_cfg s' = co_cfg s"

definition takes_token :: "phase \<Rightarrow> bool" where
  "takes_token p = (case p of PhAttempt cfg res \<Rightarrow> True | _ \<Rightarrow> False)"

lemma attempting_moved:
  "call_moved i c' s s' \<Longrightarrow>
   attempting s' j \<longleftrightarrow> (if j = i then takes_token (ca_phase c') else attempting s j)"
  by (auto simp: call_moved_def attempting_def takes_token_def split: phase.splits)

lemma moved_inv:
  assumes inv: "inv_core s" and m: "call_moved i c' s s'"
    and busy: "co_busy s' \<longleftrightarrow> takes_token (ca_phase c') \<or> co_busy s \<and> \<not> attempting s i"
    and free: "takes_token (ca_phase c') \<Longrightarrow> \<not> co_busy s"
  shows "inv_core s'"
proof -
  have "inv_queue s'"
    using inv m by (auto simp: inv_core_def inv_queue_def call_moved_def call_status_def fun_eq_iff)
  moreover have "inv_token s'"
  proof (cases "takes_token (ca_phase c')")
    case True
    then have none: "attempting s j \<longleftrightarrow> False" for j
      using inv free by (simp add: inv_core_def inv_token_def)
    show ?thesis using True busy by (simp add: inv_token_def attempting_moved [OF m] none)
  next
    case False
    have one: "attempting s j \<Longrightarrow> attempting s k \<Longrightarrow> j = k" for j k
      using inv by (simp add: inv_core_def inv_token_def)
    have b: "co_busy s \<longleftrightarrow> (\<exists>j. attempting s j)" using inv by (simp add: inv_core_def inv_token_def)
    have at: "attempting s' j \<longleftrightarrow> j \<noteq> i \<and> attempting s j" for j
      using False by (simp add: attempting_moved [OF m])
    have "co_busy s' \<longleftrightarrow> (\<exists>j. attempting s' j)"
      unfolding at
    proof (cases "attempting s i")
      case True
      then show "co_busy s' \<longleftrightarrow> (\<exists>j. j \<noteq> i \<and> attempting s j)" using busy False one [OF True] by metis
    next
      case na: False
      then show "co_busy s' \<longleftrightarrow> (\<exists>j. j \<noteq> i \<and> attempting s j)" using busy False b by metis
    qed
    moreover have "attempting s' j \<Longrightarrow> attempting s' k \<Longrightarrow> j = k" for j k
      unfolding at using one by blast
    ultimately show ?thesis unfolding inv_token_def by blast
  qed
  ultimately show ?thesis using inv m by (simp add: inv_core_def call_moved_def)
qed

lemma queued_in_ids:
  assumes "inv_core s" and "co_calls s i = Some c" and "phase_status (ca_phase c) = Some st"
  shows "i \<in> set (ticket_ids (co_queue s))"
proof -
  have "queue_status (co_queue s) i = Some st"
    using assms by (simp add: inv_core_def inv_queue_def call_status_def)
  then show ?thesis by (auto simp: dom_queue_status [symmetric])
qed

lemma inv_core_parts:
  assumes "inv_core s"
  shows "distinct (ticket_ids (co_queue s))" and "ring_ok (co_outcomes s)"
    and "queue_status (co_queue s) = (\<lambda>i. call_status (co_calls s i))"
  using assms by (simp_all add: inv_core_def inv_queue_def)

text \<open>The rule the transitions use: only \<open>set_phase\<close> writes the call.\<close>

lemma phase_inv:
  fixes s s1 :: "('w, 'd) core"
  assumes inv: "inv_core s" and calls: "co_calls s1 = co_calls s" and cfg: "co_cfg s1 = co_cfg s"
    and ids: "distinct (ticket_ids (co_queue s1))"
    and status: "queue_status (co_queue s1) = (queue_status (co_queue s))(i := phase_status p)"
    and ring: "ring_ok (co_outcomes s1)"
    and busy: "co_busy s1 \<longleftrightarrow> takes_token p \<or> co_busy s \<and> \<not> attempting s i"
    and free: "takes_token p \<Longrightarrow> \<not> co_busy s"
  shows "inv_core (set_phase i c p s1)"
proof (rule moved_inv [OF inv])
  show "call_moved i (c\<lparr>ca_phase := p\<rparr>) s (set_phase i c p s1)"
    using assms by (simp add: call_moved_def set_phase_def)
qed (use busy free in \<open>simp_all add: set_phase_def\<close>)

lemma set_engine_simps [simp]:
  "co_calls (set_engine w s) = co_calls s" "co_queue (set_engine w s) = co_queue s"
  "co_busy (set_engine w s) = co_busy s" "co_outcomes (set_engine w s) = co_outcomes s"
  "co_cfg (set_engine w s) = co_cfg s" "wo_engine (co_world (set_engine w s)) = w"
  by (simp_all add: set_engine_def)

lemma not_queued_status:
  assumes "inv_core s" and "call_status (co_calls s i) = None"
  shows "(queue_status (co_queue s))(i := None) = queue_status (co_queue s)"
    and "i \<notin> set (ticket_ids (co_queue s))"
  using assms inv_core_parts(3) [OF assms(1)]
  by (auto simp: fun_upd_idem dom_queue_status [symmetric])

lemma begin_inv:
  fixes s :: "('w, 'd) core"
  assumes inv: "inv_core s" and new: "co_calls s i = None"
  shows "inv_core (beginEnsure dp snap now i req deadline s)"
proof -
  have na: "\<not> attempting s i" using new by (simp add: attempting_def)
  have upd: "queue_status (co_queue s) = (queue_status (co_queue s))(i := None)"
    using not_queued_status(1) [OF inv, of i] new by (simp add: call_status_def)
  have stay: "inv_core (set_phase i c p s1)"
    if "co_calls s1 = co_calls s" "co_cfg s1 = co_cfg s" "co_queue s1 = co_queue s"
      "co_busy s1 = co_busy s" "ring_ok (co_outcomes s1)" "phase_status p = None"
    for c p and s1 :: "('w, 'd) core"
    using that upd na inv_core_parts [OF inv]
    by (intro phase_inv [OF inv]) (auto simp: takes_token_def split: phase.splits)
  obtain slot w where f: "findLoaded (dp_engine dp) snap (er_model req) (er_targetSlot req)
      (wo_engine (co_world s)) = (slot, w)" by (rule prod.exhaust)
  have "ring_ok (clearOutcome m (co_outcomes s))" for m
    using inv_core_parts(2) [OF inv] by (rule ring_ok_clear)
  then show ?thesis
    unfolding beginEnsure_def Let_def f
    by (auto split: option.splits prod.splits bool.splits
        intro!: stay inv_core_parts(2) [OF inv])
qed

lemma enqueue_inv:
  assumes inv: "inv_core s" and call: "co_calls s i = Some c" "ca_phase c = PhEnqueue"
  shows "inv_core (enqueueCall dp now i c s)"
proof -
  have new: "i \<notin> set (ticket_ids (co_queue s))"
    using not_queued_status(2) [OF inv, of i] call by (simp add: call_status_def)
  show ?thesis
    unfolding enqueueCall_def Let_def
    using new inv_core_parts [OF inv] call
    by (intro phase_inv [OF inv])
      (simp_all add: enqueue_ids enqueue_status new_ticket_def blank_ticket_def takes_token_def
        attempting_def)
qed

text \<open>A transition of a queued call writes its ticket's status and moves on.\<close>

lemma ticket_inv:
  fixes s s1 :: "('w, 'd) core"
  assumes inv: "inv_core s" and call: "co_calls s i = Some c" "phase_status (ca_phase c) \<noteq> None"
    and s1: "co_calls s1 = co_calls s" "co_cfg s1 = co_cfg s" "ring_ok (co_outcomes s1)"
      "co_queue s1 = setTicket i f (co_queue s)"
    and f: "\<And>t. tk_id (f t) = tk_id t" "\<And>t. Some (tk_status (f t)) = phase_status p"
    and busy: "co_busy s1 \<longleftrightarrow> takes_token p \<or> co_busy s \<and> \<not> attempting s i"
    and free: "takes_token p \<Longrightarrow> \<not> co_busy s"
  shows "inv_core (set_phase i c' p s1)"
proof (rule phase_inv [OF inv s1(1,2) _ _ s1(3) busy free])
  obtain st where st: "phase_status p = Some st" using f(2) [of undefined] by (metis)
  show "distinct (ticket_ids (co_queue s1))"
    using inv_core_parts [OF inv] s1 f(1) by (simp add: setTicket_ids)
  have "i \<in> set (ticket_ids (co_queue s))" using queued_in_ids [OF inv call(1)] call(2) by auto
  then show "queue_status (co_queue s1) = (queue_status (co_queue s))(i := phase_status p)"
    using f st unfolding s1(4) by (subst setTicket_status [where st = st]) auto
qed

lemma expire_inv:
  assumes inv: "inv_core s" and call: "co_calls s i = Some c" "ca_phase c = PhWait"
  shows "inv_core (expireCall now i c s)"
  unfolding expireCall_def Let_def
  using inv_core_parts [OF inv] call
  by (intro ticket_inv [OF inv call(1), where f = "\<lambda>t. t\<lparr>tk_status := StatusFailed\<rparr>"])
    (auto simp: ring_ok_record takes_token_def attempting_def)

lemma stay_status:
  assumes "inv_core s" and "co_calls s i = Some c" and "phase_status p = phase_status (ca_phase c)"
  shows "(queue_status (co_queue s))(i := phase_status p) = queue_status (co_queue s)"
  using assms inv_core_parts(3) [OF assms(1)] by (simp add: fun_upd_idem call_status_def)

lemma poll_inv:
  assumes inv: "inv_core s" and call: "co_calls s i = Some c" "ca_phase c = PhWait"
  shows "inv_core (pollCall dp snap i c s)"
proof -
  obtain slot w where f: "findLoaded (dp_engine dp) snap (er_model (ca_req c))
      (er_targetSlot (ca_req c)) (wo_engine (co_world s)) = (slot, w)" by (rule prod.exhaust)
  show ?thesis
  proof (cases "slot = []")
    case True
    then show ?thesis
      using f inv_core_parts [OF inv] call stay_status [OF inv call(1), of PhTurn]
      by (simp add: pollCall_def Let_def)
        (intro phase_inv [OF inv], simp_all add: takes_token_def attempting_def)
  next
    case False
    then show ?thesis
      using f inv_core_parts [OF inv] call
      by (simp add: pollCall_def Let_def)
        (intro ticket_inv [OF inv call(1), where f = "\<lambda>t. t\<lparr>tk_status := StatusLoaded, tk_targetSlot := slot\<rparr>"],
          auto simp: ring_ok_clear takes_token_def attempting_def)
  qed
qed

lemma turn_inv:
  assumes inv: "inv_core s" and call: "co_calls s i = Some c" "ca_phase c = PhTurn"
  shows "inv_core (turnCall dp now i c s)"
proof (cases "myTurn i s")
  case True
  then have "\<not> co_busy s" by (auto simp: myTurn_def split: list.splits)
  with True show ?thesis
    using inv_core_parts [OF inv] call
    by (simp add: turnCall_def Let_def)
      (intro ticket_inv [OF inv call(1), where f = "\<lambda>t. t\<lparr>tk_status := StatusLoading\<rparr>"],
        auto simp: takes_token_def attempting_def)
next
  case False
  then show ?thesis
    using inv_core_parts [OF inv] call stay_status [OF inv call(1), of PhWait]
    by (simp add: turnCall_def)
      (intro phase_inv [OF inv], simp_all add: takes_token_def attempting_def)
qed

lemma attempt_inv:
  fixes s :: "('w, 'd) core"
  assumes inv: "inv_core s" and call: "co_calls s i = Some c" "ca_phase c = PhAttempt cfg res"
  shows "inv_core (attemptCall dp snap now i c cfg res s)"
proof -
  have at: "attempting s i" using call by (simp add: attempting_def)
  obtain o1 wd where a: "attemptLoad dp snap now (ca_req c) cfg res
      (time_sub (ca_deadline c) now) (co_world s) = (o1, wd)" by (rule prod.exhaust)
  have move: "inv_core (set_phase i c' p s1)"
    if "co_queue s1 = setTicket i f (co_queue s)" "co_calls s1 = co_calls s" "co_cfg s1 = co_cfg s"
      "ring_ok (co_outcomes s1)" "\<not> co_busy s1" "\<And>t. tk_id (f t) = tk_id t"
      "\<And>t. Some (tk_status (f t)) = phase_status p" "\<not> takes_token p"
    for c' p f and s1 :: "('w, 'd) core"
    using that at call by (intro ticket_inv [OF inv call(1), where f = f]) auto
  consider (ok) "lo_terminal o1" "lo_success o1" | (failed) "lo_terminal o1" "\<not> lo_success o1"
    | (retry) "\<not> lo_terminal o1" by blast
  then show ?thesis
  proof cases
    case ok
    then show ?thesis
      unfolding attemptCall_def Let_def a split_conv
      by (simp, intro move [where f = "\<lambda>t. t\<lparr>tk_status := StatusLoaded, tk_targetSlot := lo_slot o1,
            tk_reason := NoReason, tk_message := MsgNone\<rparr>"])
        (simp_all add: takes_token_def ring_ok_clear inv_core_parts(2) [OF inv])
  next
    case failed
    then show ?thesis
      unfolding attemptCall_def Let_def a split_conv
      by (simp, intro move [where f = "\<lambda>t. t\<lparr>tk_status := StatusFailed, tk_reason := lo_reason o1,
            tk_message := lo_message o1\<rparr>"])
        (simp_all add: takes_token_def ring_ok_record inv_core_parts(2) [OF inv])
  next
    case retry
    then show ?thesis
      unfolding attemptCall_def Let_def a split_conv
      by (simp, intro move [where f = "\<lambda>t. t\<lparr>tk_status := StatusQueued, tk_reason := lo_reason o1,
            tk_message := lo_message o1\<rparr>"])
        (simp_all add: takes_token_def inv_core_parts(2) [OF inv])
  qed
qed

lemma leave_inv:
  assumes inv: "inv_core s" and call: "co_calls s i = Some c" "ca_phase c = PhLeave r"
  shows "inv_core (leaveCall dp i c r s)"
  unfolding leaveCall_def
  using inv_core_parts [OF inv] call
  by (intro phase_inv [OF inv]) (simp_all add: dequeue_ids dequeue_status takes_token_def attempting_def)

lemma call_inv: "inv_core s \<Longrightarrow> inv_core (callStep dp snap now cancelled i s)"
  by (auto simp: callStep_def enqueue_inv expire_inv poll_inv turn_inv attempt_inv leave_inv
      split: option.splits phase.splits)

text \<open>The other operations leave the queue, the token and the calls alone.\<close>

lemma other_inv:
  assumes "inv_core s" and "co_calls s1 = co_calls s" and "co_queue s1 = co_queue s"
    and "co_busy s1 = co_busy s" and "co_outcomes s1 = co_outcomes s"
    and "validateConfig (co_cfg s1) = None"
  shows "inv_core s1"
  using assms by (simp add: inv_core_def inv_queue_def inv_token_def attempting_def)

lemma act_inv [forge_inv]:
  assumes inv: "inv_core s" shows "inv_core (core_act dp snap now a s)"
proof -
  have cfg: "validateConfig (co_cfg s) = None" using inv by (simp add: inv_core_def)
  show ?thesis
  proof (cases a)
    case (Begin i req deadline)
    with inv show ?thesis by (simp add: begin_inv)
  next
    case (Own i cancelled)
    with inv show ?thesis by (simp add: call_inv)
  next
    case (Tune c)
    obtain e c' d where t: "setConfig (dp_settings dp) c (co_cfg s, wo_store (co_world s)) = (e, c', d)"
      by (rule prod_cases3)
    with setConfig_keeps_valid [OF t cfg] cfg have "validateConfig c' = None" by auto
    with Tune t show ?thesis by (auto intro: other_inv [OF inv])
  next
    case (Reserve cmd)
    then show ?thesis using cfg by (auto intro: other_inv [OF inv] split: prod.splits)
  qed (use cfg in \<open>auto intro: other_inv [OF inv]\<close>)
qed

lemma init_inv:
  assumes "validateConfig cfg = None" shows "inv_core (initCore cfg rs wd)"
  using assms ring_ok_new
  by (simp add: inv_core_def inv_queue_def inv_token_def initCore_def attempting_def ticket_ids_def
      queue_status_def call_status_def fun_eq_iff)

lemma newCore_valid: "newCore dp d = (Inr (cfg, rs), d') \<Longrightarrow> validateConfig cfg = None"
  by (auto simp: newCore_def recoverConfig_valid split: sum.splits option.splits prod.splits)

lemma reachable_inv: "reachable dp s \<Longrightarrow> inv_core s"
  by (induction rule: reachable.induct) (auto intro: init_inv newCore_valid act_inv)

section \<open>Progress\<close>

text \<open>How many transitions of its own a call still needs once its deadline has passed.\<close>

fun phase_rank :: "phase \<Rightarrow> nat" where
  "phase_rank PhEnqueue = 5"
| "phase_rank PhTurn = 4"
| "phase_rank (PhAttempt cfg res) = 3"
| "phase_rank PhWait = 2"
| "phase_rank (PhLeave r) = 1"
| "phase_rank (PhDone r) = 0"

definition own_action :: "string \<Rightarrow> 'w core_action \<Rightarrow> bool" where
  "own_action i a = (case a of Own j cancelled \<Rightarrow> j = i | _ \<Rightarrow> False)"

lemma set_phase_calls [simp]: "co_calls (set_phase i c p s) = (co_calls s)(i \<mapsto> c\<lparr>ca_phase := p\<rparr>)"
  by (simp add: set_phase_def)

lemmas transition_defs = enqueueCall_def expireCall_def pollCall_def turnCall_def attemptCall_def
  leaveCall_def Let_def

lemma callStep_other: "j \<noteq> i \<Longrightarrow> co_calls (callStep dp snap now cancelled j s) i = co_calls s i"
  by (simp add: callStep_def transition_defs split: option.splits phase.splits prod.splits)

lemma callStep_own:
  assumes "co_calls s i = Some c" and "ca_deadline c \<le> now"
  shows "\<exists>c'. co_calls (callStep dp snap now cancelled i s) i = Some c' \<and>
    ca_deadline c' = ca_deadline c \<and> phase_rank (ca_phase c') \<le> phase_rank (ca_phase c) - 1"
proof (cases "ca_phase c")
  case (PhAttempt cfg res)
  obtain o1 wd where "attemptLoad dp snap now (ca_req c) cfg res
      (time_sub (ca_deadline c) now) (co_world s) = (o1, wd)" by (rule prod.exhaust)
  with PhAttempt assms show ?thesis by (simp add: callStep_def attemptCall_def Let_def)
qed (use assms in \<open>simp_all add: callStep_def transition_defs\<close>)

lemma begin_other: "j \<noteq> i \<Longrightarrow> co_calls (beginEnsure dp snap now j req dl s) i = co_calls s i"
  by (simp add: beginEnsure_def Let_def split: option.splits prod.splits bool.splits)

lemma act_other:
  "\<not> own_action i a \<Longrightarrow> co_calls s i = Some c \<Longrightarrow> co_calls (core_act dp snap now a s) i = Some c"
proof (cases a)
  case (Begin j req dl)
  then show "co_calls s i = Some c \<Longrightarrow> co_calls (core_act dp snap now a s) i = Some c"
    by (cases "j = i") (simp_all add: begin_other)
next
  case (Own j cancelled)
  then show "\<not> own_action i a \<Longrightarrow> co_calls s i = Some c \<Longrightarrow> ?thesis"
    by (simp add: own_action_def callStep_other)
qed (auto simp: split: prod.splits)

lemma run_progress:
  assumes "co_calls s i = Some c" and "\<forall>(snap, now, a) \<in> set es. ca_deadline c \<le> now"
  shows "\<exists>c'. co_calls (core_run dp es s) i = Some c' \<and> ca_deadline c' = ca_deadline c \<and>
    phase_rank (ca_phase c') \<le>
      phase_rank (ca_phase c) - length (filter (\<lambda>(snap, now, a). own_action i a) es)"
  using assms
proof (induction es arbitrary: s c)
  case (Cons e es)
  obtain snap now a where e: "e = (snap, now, a)" by (rule prod_cases3)
  have run: "core_run dp (e # es) s = core_run dp es (core_act dp snap now a s)"
    by (simp add: core_run_def e)
  show ?case
  proof (cases "own_action i a")
    case True
    then obtain cancelled where "a = Own i cancelled" by (auto simp: own_action_def split: core_action.splits)
    then obtain c1 where c1: "co_calls (core_act dp snap now a s) i = Some c1"
      "ca_deadline c1 = ca_deadline c" "phase_rank (ca_phase c1) \<le> phase_rank (ca_phase c) - 1"
      using callStep_own [OF Cons.prems(1)] Cons.prems(2) e by fastforce
    have later: "\<forall>(snap, now, a) \<in> set es. ca_deadline c1 \<le> now" using Cons.prems(2) c1(2) by simp
    have count: "length (filter (\<lambda>(snap, now, a). own_action i a) (e # es)) =
        Suc (length (filter (\<lambda>(snap, now, a). own_action i a) es))" using True by (simp add: e)
    obtain c2 where c2: "co_calls (core_run dp es (core_act dp snap now a s)) i = Some c2"
      "ca_deadline c2 = ca_deadline c1" "phase_rank (ca_phase c2) \<le> phase_rank (ca_phase c1) -
        length (filter (\<lambda>(snap, now, a). own_action i a) es)"
      using Cons.IH [OF c1(1) later] by blast
    show ?thesis unfolding run count using c1 c2 by (intro exI [of _ c2]) simp
  next
    case False
    then have count: "length (filter (\<lambda>(snap, now, a). own_action i a) (e # es)) =
        length (filter (\<lambda>(snap, now, a). own_action i a) es)" by (simp add: e)
    show ?thesis unfolding run count
      using Cons.IH [OF act_other [OF False Cons.prems(1)]] Cons.prems(2) by simp
  qed
qed (simp add: core_run_def)

lemma run_reachable: "reachable dp s \<Longrightarrow> reachable dp (core_run dp es s)"
proof (induction es arbitrary: s)
  case (Cons e es)
  then show ?case by (cases e) (simp add: core_run_def reachable.act)
qed (simp add: core_run_def)

lemma call_failed:
  assumes "callStep dp snap now cancelled i s = s1" and "co_calls s i = Some c"
    and "ca_phase c = PhWait \<or> (\<exists>cfg res. ca_phase c = PhAttempt cfg res)"
    and "co_calls s1 i = Some c1" and "ca_phase c1 = PhLeave (EnsureFailed t msg)"
  obtains reason why where
    "co_outcomes s1 = recordOutcome (er_model (ca_req c)) (failureRecord reason why now) (co_outcomes s)"
    "msg = why \<or> msg = MsgLoadFailed (er_model (ca_req c)) why"
proof -
  have "\<exists>reason why.
    co_outcomes s1 = recordOutcome (er_model (ca_req c)) (failureRecord reason why now) (co_outcomes s) \<and>
    (msg = why \<or> msg = MsgLoadFailed (er_model (ca_req c)) why)"
  proof (cases "ca_phase c = PhWait")
    case True
    obtain slot w where f: "findLoaded (dp_engine dp) snap (er_model (ca_req c))
        (er_targetSlot (ca_req c)) (wo_engine (co_world s)) = (slot, w)" by (rule prod.exhaust)
    show ?thesis
    proof (cases "cancelled \<or> ca_deadline c \<le> now")
      case expired: True
      then have s1: "s1 = expireCall now i c s" using assms(1,2) True by (simp add: callStep_def)
      show ?thesis
      proof (intro exI conjI)
        show "co_outcomes s1 = recordOutcome (er_model (ca_req c))
            (failureRecord (ca_reason c) msg now) (co_outcomes s)"
          using assms(4,5) unfolding s1 by (auto simp: expireCall_def Let_def set_phase_def)
      qed simp
    next
      case False
      then have "s1 = pollCall dp snap i c s" using assms(1,2) True by (simp add: callStep_def)
      with assms(4,5) f show ?thesis
        by (auto simp: pollCall_def Let_def split: if_splits)
    qed
  next
    case False
    then obtain cfg res where p: "ca_phase c = PhAttempt cfg res" using assms(3) by auto
    obtain o1 wd where a: "attemptLoad dp snap now (ca_req c) cfg res
      (time_sub (ca_deadline c) now) (co_world s) = (o1, wd)" by (rule prod.exhaust)
    from p have s1: "s1 = attemptCall dp snap now i c cfg res s" using assms(1,2) by (simp add: callStep_def)
    show ?thesis
    proof (intro exI conjI)
      show "co_outcomes s1 = recordOutcome (er_model (ca_req c))
          (failureRecord (lo_reason o1) (lo_message o1) now) (co_outcomes s)"
        using assms(4,5) a unfolding s1
        by (auto simp: attemptCall_def Let_def set_phase_def split: if_splits)
      show "msg = lo_message o1 \<or> msg = MsgLoadFailed (er_model (ca_req c)) (lo_message o1)"
        using assms(4,5) a unfolding s1
        by (auto simp: attemptCall_def Let_def set_phase_def split: if_splits)
    qed
  qed
  then show ?thesis using that by blast
qed

section \<open>Properties\<close>

text \<open>C3: at most one load is in flight, however calls, unloads, configuration changes and
  reservation commands interleave, and even when a small job has jumped ahead of the loading
  ticket: \<open>loadBusy\<close> is set exactly while one call is in its attempt.\<close>

theorem one_load_in_flight:
  assumes "reachable dp s"
  shows "card {i. attempting s i} = (if co_busy s then 1 else 0)"
proof -
  have tok: "inv_token s" using reachable_inv [OF assms] by (simp add: inv_core_def)
  show ?thesis
  proof (cases "co_busy s")
    case True
    then obtain i where "attempting s i" using tok by (auto simp: inv_token_def)
    then have "{i. attempting s i} = {i}" using tok by (auto simp: inv_token_def)
    with True show ?thesis by simp
  qed (use tok in \<open>simp add: inv_token_def\<close>)
qed

text \<open>C4: the queue is exactly the calls that are waiting.  A ticket is queued if and only if its
  call is past the insertion and before the deferred removal, no ticket is there twice, and
  its status says what the call is doing: queued while polling, loading while it attempts the
  load, loaded or failed once it is about to leave.\<close>

theorem queue_is_waiting_calls:
  assumes "reachable dp s"
  shows "distinct (ticket_ids (co_queue s)) \<and>
    queue_status (co_queue s) = (\<lambda>i. call_status (co_calls s i))"
  using reachable_inv [OF assms] by (simp add: inv_core_def inv_queue_def)

text \<open>C5: a call cannot outlive its deadline for long.  Whatever else runs in between, once its
  deadline has passed a call returns within five transitions of its own (one attempt at
  most), and its ticket is then gone from the queue.\<close>

theorem returns_after_deadline:
  assumes "reachable dp s" and "co_calls s i = Some c"
    and "\<forall>(snap, now, a) \<in> set es. ca_deadline c \<le> now"
    and "5 \<le> length (filter (\<lambda>(snap, now, a). own_action i a) es)"
  shows "\<exists>c' r. co_calls (core_run dp es s) i = Some c' \<and> ca_phase c' = PhDone r \<and>
    i \<notin> set (ticket_ids (co_queue (core_run dp es s)))"
proof -
  obtain c' where c': "co_calls (core_run dp es s) i = Some c'"
    "phase_rank (ca_phase c') \<le>
      phase_rank (ca_phase c) - length (filter (\<lambda>(snap, now, a). own_action i a) es)"
    using run_progress [OF assms(2,3)] by blast
  have "phase_rank (ca_phase c) \<le> 5" by (cases "ca_phase c") simp_all
  with c'(2) assms(4) have "phase_rank (ca_phase c') = 0" by simp
  then obtain r where r: "ca_phase c' = PhDone r" by (cases "ca_phase c'") simp_all
  have inv: "inv_core (core_run dp es s)" using run_reachable [OF assms(1)] by (rule reachable_inv)
  have "i \<notin> set (ticket_ids (co_queue (core_run dp es s)))"
    using not_queued_status(2) [OF inv, of i] c'(1) r by (simp add: call_status_def)
  with c'(1) r show ?thesis by blast
qed

text \<open>A failure stays visible.  When a call fails, by its deadline or by its attempt, then
  after it has left the queue a status poll within the next ten minutes reports the model as
  failed with the cause, as long as no other ticket asks for the model and it is not loaded.\<close>

theorem failure_stays_visible:
  assumes "co_calls s i = Some c"
    and "ca_phase c = PhWait \<or> (\<exists>cfg res. ca_phase c = PhAttempt cfg res)"
    and "callStep dp snap now cancelled i s = s1" and "co_calls s1 i = Some c1"
    and "ca_phase c1 = PhLeave (EnsureFailed t msg)"
    and "callStep dp snap' now' cancelled' i s1 = s2"
    and "now \<le> later" and "later \<le> now + 600000000000"
    and "findLoaded (dp_engine dp) snap'' (er_model (ca_req c)) [] w = ([], w')"
    and "queuePosition (er_model (ca_req c)) (co_queue s2) = None"
  shows "\<exists>ls. loadStatus dp snap'' later (er_model (ca_req c)) (co_queue s2) (co_outcomes s2) w = (ls, w') \<and>
    ls_state ls = LsTicket StatusFailed \<and> ls_since ls = Some now \<and>
    (msg = ls_message ls \<or> msg = MsgLoadFailed (er_model (ca_req c)) (ls_message ls))"
proof -
  let ?m = "er_model (ca_req c)"
  obtain reason why where o: "co_outcomes s1 =
      recordOutcome ?m (failureRecord reason why now) (co_outcomes s)"
    and why: "msg = why \<or> msg = MsgLoadFailed ?m why"
    using call_failed [OF assms(3,1,2,4,5)] by blast
  have s2: "s2 = leaveCall dp i c1 (EnsureFailed t msg) s1"
    using assms(4-6) by (simp add: callStep_def)
  then have "co_outcomes s2 = co_outcomes s1" by (simp add: leaveCall_def set_phase_def)
  then have "og_entries (co_outcomes s2) ?m = Some (failureRecord reason why now)"
    using o by (simp add: record_entries_self)
  moreover have "time_sub later now \<le> outcomeTTL"
    using assms(7,8) by (simp add: time_sub_def outcomeTTL_def)
  ultimately have g: "getOutcome ?m later (co_outcomes s2) = Some (failureRecord reason why now)"
    by (simp add: getOutcome_def failureRecord_def)
  show ?thesis using why assms(9,10) g by (simp add: loadStatus_def failureRecord_def Let_def)
qed

section \<open>Witnesses\<close>

definition sample_request :: ensure_request where
  "sample_request = \<lparr>er_model = ''m3'', er_requestedBy = ''a0'', er_targetSlot = [],
     er_smallJob = True, er_priority = 0\<rparr>"

abbreviation sample_now :: time where
  "sample_now \<equiv> 1000000000000000"

definition sample_start :: "(unit, database) core" where
  "sample_start = initCore defaultConfig [] \<lparr>wo_engine = (), wo_store = emptyDatabase, wo_routes = []\<rparr>"

definition sample_loading :: "(unit, database) core" where
  "sample_loading = core_run (sample_deps sample_engine)
     [(sample_snapshot, sample_now, Begin ''t'' sample_request None),
      (sample_snapshot, sample_now, Own ''t'' False), (sample_snapshot, sample_now, Own ''t'' False),
      (sample_snapshot, sample_now, Own ''t'' False)] sample_start"

lemma sample_start_reachable: "reachable (sample_deps sample_engine) sample_start"
  unfolding sample_start_def
  by (rule reachable.start [where d = emptyDatabase])
    (simp add: newCore_def recoverConfig_def fallbackConfig_def sample_deps_def
        defaultConfig_valid sqlOps_def reservationsView_def queueView_def emptyDatabase_def)

lemma sample_loading_reachable: "reachable (sample_deps sample_engine) sample_loading"
  unfolding sample_loading_def by (rule run_reachable [OF sample_start_reachable])

lemma sample_loading_state:
  "co_calls sample_loading ''t'' = Some \<lparr>ca_req = sample_request,
     ca_deadline = sample_now + defaultTimeout, ca_phase = PhAttempt defaultConfig [],
     ca_refusal = MsgNone, ca_reason = NoReason\<rparr> \<and> co_busy sample_loading"
  by (simp add: sample_loading_def core_run_def sample_start_def initCore_def beginEnsure_def
      callStep_def transition_defs set_phase_def set_engine_def findLoaded_def occupancy_def
      sample_request_def sample_deps_def sample_engine_def sample_occ_def usable_def assigned_def
      myTurn_def enqueueLocked_def new_ticket_def blank_ticket_def no_assignment_def
      defaultTimeout_def)

theorem one_load_in_flight_witness: "card {i. attempting sample_loading i} = 1"
  using one_load_in_flight [OF sample_loading_reachable] sample_loading_state by simp

theorem queue_is_waiting_calls_witness:
  "queue_status (co_queue sample_loading) ''t'' = Some StatusLoading"
  using queue_is_waiting_calls [OF sample_loading_reachable] sample_loading_state
  by (simp add: call_status_def)

theorem returns_after_deadline_witness:
  "\<exists>c r. co_calls (core_run (sample_deps sample_engine)
      (replicate 5 (sample_snapshot, 2 * sample_now, Own ''t'' True)) sample_loading) ''t'' = Some c \<and>
    ca_phase c = PhDone r"
proof -
  have "\<exists>c r. co_calls (core_run (sample_deps sample_engine)
      (replicate 5 (sample_snapshot, 2 * sample_now, Own ''t'' True)) sample_loading) ''t'' = Some c \<and>
    ca_phase c = PhDone r \<and> ''t'' \<notin> set (ticket_ids (co_queue (core_run (sample_deps sample_engine)
      (replicate 5 (sample_snapshot, 2 * sample_now, Own ''t'' True)) sample_loading)))"
    using sample_loading_state
    by (intro returns_after_deadline [OF sample_loading_reachable])
      (auto simp: own_action_def defaultTimeout_def eval_nat_numeral)
  then show ?thesis by blast
qed

definition sample_waiting :: "(unit, database) core" where
  "sample_waiting = core_run (sample_deps sample_engine)
     [(sample_snapshot, sample_now, Begin ''t'' sample_request None),
      (sample_snapshot, sample_now, Own ''t'' False)] sample_start"

definition sample_call :: ensure_call where
  "sample_call = \<lparr>ca_req = sample_request, ca_deadline = sample_now + defaultTimeout,
     ca_phase = PhWait, ca_refusal = MsgNone, ca_reason = NoReason\<rparr>"

lemma sample_waiting_state:
  "co_calls sample_waiting = [''t'' \<mapsto> sample_call] \<and>
   co_queue sample_waiting = [new_ticket ''t'' sample_request sample_now [] StatusQueued]"
  by (simp add: sample_waiting_def core_run_def sample_start_def initCore_def beginEnsure_def
      callStep_def transition_defs set_phase_def set_engine_def findLoaded_def occupancy_def
      sample_request_def sample_deps_def sample_engine_def sample_occ_def usable_def assigned_def
      enqueueLocked_def insertAt.simps new_ticket_def blank_ticket_def no_assignment_def sample_call_def
      defaultTimeout_def)

theorem failure_stays_visible_witness:
  "\<exists>ls. fst (loadStatus (sample_deps sample_engine) sample_snapshot (sample_now + 7) ''m3''
      (co_queue (callStep (sample_deps sample_engine) sample_snapshot sample_now False ''t''
        (callStep (sample_deps sample_engine) sample_snapshot sample_now True ''t'' sample_waiting)))
      (co_outcomes (callStep (sample_deps sample_engine) sample_snapshot sample_now False ''t''
        (callStep (sample_deps sample_engine) sample_snapshot sample_now True ''t'' sample_waiting)))
      ()) = ls \<and> ls_state ls = LsTicket StatusFailed"
proof -
  let ?s1 = "callStep (sample_deps sample_engine) sample_snapshot sample_now True ''t'' sample_waiting"
  let ?t = "new_ticket ''t'' sample_request sample_now [] StatusFailed"
  have s: "co_calls sample_waiting ''t'' = Some sample_call" using sample_waiting_state by simp
  have p: "ca_phase sample_call = PhWait \<or> (\<exists>cfg res. ca_phase sample_call = PhAttempt cfg res)"
    by (simp add: sample_call_def)
  have m: "er_model (ca_req sample_call) = ''m3''" by (simp add: sample_call_def sample_request_def)
  have c1: "co_calls ?s1 ''t'' = Some (sample_call\<lparr>ca_phase :=
      PhLeave (EnsureFailed ?t (MsgTimedOut ''m3'' None))\<rparr>)"
    and q1: "co_queue ?s1 = [?t]"
    using sample_waiting_state
    by (simp_all add: callStep_def sample_call_def expireCall_def Let_def setTicket_def readTicket_def
        new_ticket_def blank_ticket_def sample_request_def set_phase_def)
  have f: "findLoaded (dp_engine (sample_deps sample_engine)) sample_snapshot ''m3'' [] () = ([], ())"
    by (simp add: findLoaded_def occupancy_def sample_deps_def sample_engine_def sample_occ_def
        usable_def assigned_def no_assignment_def)
  have q: "queuePosition ''m3'' (co_queue (callStep (sample_deps sample_engine) sample_snapshot
      sample_now False ''t'' ?s1)) = None"
    using c1 q1 by (simp add: callStep_def leaveCall_def set_phase_def dequeueTicket_def
        new_ticket_def blank_ticket_def)
  obtain ls where "loadStatus (sample_deps sample_engine) sample_snapshot (sample_now + 7) ''m3''
      (co_queue (callStep (sample_deps sample_engine) sample_snapshot sample_now False ''t'' ?s1))
      (co_outcomes (callStep (sample_deps sample_engine) sample_snapshot sample_now False ''t'' ?s1))
      () = (ls, ())" "ls_state ls = LsTicket StatusFailed"
    using failure_stays_visible [where snap' = sample_snapshot and now' = sample_now and
        cancelled' = False and later = "sample_now + 7" and snap'' = sample_snapshot and w = "()"
        and w' = "()" and t = ?t, OF s p refl c1 _ refl] f q unfolding m by auto
  then show ?thesis by simp
qed

end
