(* ===== verification/Attempt.thy ===== *)
theory Attempt
  imports Sched_Core
begin

text \<open>
  What one load attempt (\<open>Core.attemptLoad\<close>) does to the engine, proved once over the laws of
  the engine interface: it stops nothing but the slots it evicts and the slot it loads into,
  hence never the service of a model under an active reservation; and a reported success
  means that the engine has the model in the reported slot.
\<close>

lemma findLoaded_cases:
  assumes "findLoaded ops snap m target w = (s, w')"
  obtains occ where "eo_slotStates ops (sn_units snap) w = (occ, w')"
    "s \<noteq> [] \<Longrightarrow> usable occ m s \<and> (s = target \<or> s \<in> set (eo_slots ops w'))"
  using assms find_Some_prop
  by (fastforce simp: findLoaded_def occupancy_def split: prod.splits if_splits option.splits)

lemma place_cases:
  assumes "place ops seam snap now m target cfg res horizon w = (pl, w')"
  obtains (failed) e where "eo_fitPlan ops m w = (Inl e, w')" "pl_slot pl = []" "pl_evict pl = []"
      "\<not> pl_evictComfy pl"
  | (planned) plan w1 occ v where "eo_fitPlan ops m w = (Inr plan, w1)"
      "eo_slotStates ops (sn_units snap) w1 = (occ, w')" "pl = decide ops seam w' v plan"
      "v = \<lparr>pe_model = m, pe_target = target, pe_cfg = cfg, pe_res = res, pe_horizon = horizon,
         pe_now = now, pe_snap = snap, pe_occ = occ\<rparr>"
proof (cases "eo_fitPlan ops m w")
  case (Pair p w1)
  show ?thesis
  proof (cases p)
    case (Inl e)
    with Pair assms show ?thesis by (intro failed [of e]) (auto simp: place_def)
  next
    case (Inr plan)
    obtain occ w2 where occ: "eo_slotStates ops (sn_units snap) w1 = (occ, w2)" by (rule prod.exhaust)
    show ?thesis
      using assms Pair Inr occ
      by (intro planned [OF _ _ _ refl, of plan w1 occ]) (auto simp: place_def occupancy_def)
  qed
qed

context slot_engine
begin

lemma evictAll_quiet:
  assumes "evictAll dp now ss wd = (e, wd')" and "dp_engine dp = ops" and "''all'' \<notin> set ss"
  shows "touched (wo_engine wd') \<subseteq> set ss \<union> touched (wo_engine wd)"
  using assms
proof (induction ss arbitrary: wd)
  case (Cons s ss)
  obtain r w1 where u: "eo_unload ops s (wo_engine wd) = (r, w1)" by (rule prod.exhaust)
  have q: "touched w1 \<subseteq> insert s (touched (wo_engine wd))"
    using unload_quiet [OF u] Cons.prems by auto
  show ?case
  proof (cases "or_success r")
    case True
    have "evictAll dp now ss (routeSync dp s [] (persistSlot dp now s [] (wd\<lparr>wo_engine := w1\<rparr>))) = (e, wd')"
      using Cons.prems u True by simp
    from Cons.IH [OF this Cons.prems(2)] Cons.prems(3) q show ?thesis by auto
  next
    case False
    with Cons.prems u q show ?thesis by auto
  qed
qed simp

text \<open>A placement evicts or fills no slot that holds a model under an active reservation.\<close>

lemma place_spares:
  assumes place: "place ops seam snap now m target cfg res horizon w = (pl, w')"
    and slot: "s \<in> set (eo_slots ops w)" and held: "mode_of w s \<noteq> []"
    and res: "r \<in> set res" "r_model r = mode_of w s" "in_window r now"
    and seen: "shown (sn_units snap) s" "alive w s"
  shows "s \<notin> set (pl_evict pl) \<and> (pl_slot pl = s \<longrightarrow> pl_slot pl = [])"
  using place
proof (cases rule: place_cases)
  case failed
  then show ?thesis by simp
next
  case (planned plan w1 occ v)
  have w1: "mode_of w1 s = mode_of w s" "alive w1 = alive w" "eo_slots ops w1 = eo_slots ops w"
    using plan_keep [OF planned(1) seen(2) held] plan_quiet [OF planned(1)] by auto
  have "mode_of w' s = mode_of w s"
    using states_keep [OF planned(2) seen(1)] held w1 by simp
  then have at: "mode_at v s = mode_of w s"
    using states_report [OF planned(2)] slot w1 planned(4) by (simp add: mode_at_def)
  then have prot: "activeProtected v s"
    using held res planned(4) unfolding activeProtected_iff by auto
  have "s \<notin> set (pl_evict pl)"
    using decide_evicts_allowed [of s ops seam w' v plan] prot planned(3) by (auto simp: evictable_now_def)
  moreover have "pl_slot pl = []" if "pl_slot pl = s"
  proof (rule ccontr)
    assume "pl_slot pl \<noteq> []"
    with planned(3) have "free_slot v s \<or> s \<in> set (pl_evict pl)"
      using decide_slot_open [of ops seam w' v plan] that by auto
    then show False using calculation at held by (auto simp: free_slot_def mode_at_def Let_def)
  qed
  ultimately show ?thesis by blast
qed

lemma place_evicts_known:
  assumes "place ops seam snap now m target cfg res horizon w = (pl, w')"
  shows "''all'' \<notin> set (pl_evict pl)"
  using assms
proof (cases rule: place_cases)
  case (planned plan w1 occ v)
  show ?thesis
  proof
    assume "''all'' \<in> set (pl_evict pl)"
    then have "''all'' \<in> set (p_evict plan) \<or> ''all'' \<in> set (eo_slots ops w') \<or> \<not> free_slot v ''all''"
      using decide_evicts_known [of "''all''" ops seam w' v plan] planned(3) by simp
    moreover have "''all'' \<notin> set (p_evict plan)" using plan_known [OF planned(1)] no_all by blast
    moreover have "assigned occ ''all'' = no_assignment" using states_known [OF planned(2)] no_all by metis
    then have "free_slot v ''all''" using planned(4) by (simp add: free_slot_def no_assignment_def)
    ultimately show False using no_all by blast
  qed
qed simp

lemma evictAll_ok:
  "evictAll dp now ss wd = (e, wd') \<Longrightarrow> dp_engine dp = ops \<Longrightarrow> ok (wo_engine wd) \<Longrightarrow> ok (wo_engine wd')"
proof (induction ss arbitrary: wd)
  case (Cons s ss)
  obtain r w1 where u: "eo_unload ops s (wo_engine wd) = (r, w1)" by (rule prod.exhaust)
  have ok1: "ok w1" using unload_keeps [OF u] Cons.prems by simp
  show ?case
  proof (cases "or_success r")
    case True
    have "evictAll dp now ss (routeSync dp s [] (persistSlot dp now s [] (wd\<lparr>wo_engine := w1\<rparr>))) = (e, wd')"
      using Cons.prems u True by simp
    from Cons.IH [OF this Cons.prems(2)] ok1 show ?thesis by simp
  next
    case False
    with Cons.prems u ok1 show ?thesis by auto
  qed
qed simp

end

context seamed_engine
begin

lemma stopComfy_quiet:
  assumes "stopComfyForMemory dp m wd = (e, wd')" and "dp_comfy dp = seam"
  shows "touched (wo_engine wd') = touched (wo_engine wd) \<and> (ok (wo_engine wd) \<longrightarrow> ok (wo_engine wd'))"
  using assms stop_quiet
  by (fastforce simp: stopComfyForMemory_def split: option.splits prod.splits)

text \<open>A model under an active reservation is never stopped by a load attempt.\<close>

lemma attempt_spares:
  assumes att: "attemptLoad dp snap now req cfg res horizon wd = (out, wd')"
    and dp: "dp_engine dp = ops" "dp_comfy dp = seam"
    and slot: "s \<in> set (eo_slots ops (wo_engine wd))" "s \<noteq> []"
    and held: "mode_of (wo_engine wd) s \<noteq> []"
    and res: "r \<in> set res" "r_model r = mode_of (wo_engine wd) s" "in_window r now"
    and seen: "shown (sn_units snap) s" "alive (wo_engine wd) s"
    and clean: "s \<notin> touched (wo_engine wd)"
  shows "s \<notin> touched (wo_engine wd')"
proof -
  obtain f w0 where f: "findLoaded ops snap (er_model req) (er_targetSlot req) (wo_engine wd) = (f, w0)"
    by (rule prod.exhaust)
  obtain occ where occ: "eo_slotStates ops (sn_units snap) (wo_engine wd) = (occ, w0)"
    using findLoaded_cases [OF f] by metis
  have w0: "mode_of w0 s = mode_of (wo_engine wd) s" "touched w0 = touched (wo_engine wd)"
    "alive w0 = alive (wo_engine wd)" "eo_slots ops w0 = eo_slots ops (wo_engine wd)"
    using states_keep [OF occ seen(1) held] states_quiet [OF occ] by auto
  obtain pl w1 where p: "place ops seam snap now (er_model req) (er_targetSlot req) cfg res horizon w0
      = (pl, w1)" by (rule prod.exhaust)
  have spares: "s \<notin> set (pl_evict pl)" "pl_slot pl \<noteq> s"
    using place_spares [OF p, of s r] slot held res seen w0 by auto
  have t1: "touched w1 = touched w0"
    using p
  proof (cases rule: place_cases)
    case (failed e)
    then show ?thesis using plan_quiet by blast
  next
    case (planned plan w' o' v)
    then show ?thesis using plan_quiet [OF planned(1)] states_quiet [OF planned(2)] by simp
  qed
  obtain e2 wd2 where e2: "evictAll dp now (pl_evict pl) (wd\<lparr>wo_engine := w1\<rparr>) = (e2, wd2)"
    by (rule prod.exhaust)
  have t2: "s \<notin> touched (wo_engine wd2)"
    using evictAll_quiet [OF e2 dp(1) place_evicts_known [OF p]] spares(1) t1 w0(2) clean by auto
  obtain e3 wd3 where e3: "(if pl_evictComfy pl then stopComfyForMemory dp (er_model req) wd2
      else (None, wd2)) = (e3, wd3)" by (rule prod.exhaust)
  have t3: "s \<notin> touched (wo_engine wd3)"
    using e3 t2 stopComfy_quiet [OF _ dp(2)] by (auto split: if_splits)
  obtain q w4 where q: "eo_load ops (er_model req) (pl_slot pl) (wo_engine wd3) = (q, w4)"
    by (rule prod.exhaust)
  have t4: "s \<notin> touched w4" using load_quiet [OF q] t3 spares(2) by auto
  have "wo_engine wd' \<in> {w0, w1, wo_engine wd2, wo_engine wd3, w4}"
    using att f dp p e2 e3 q by (auto simp: attemptLoad_def Let_def split: if_splits option.splits)
  then show ?thesis using w0(2) t1 t2 t3 t4 clean by auto
qed

text \<open>Success means loaded.\<close>

lemma attempt_success:
  assumes att: "attemptLoad dp snap now req cfg res horizon wd = (out, wd')"
    and ops: "dp_engine dp = ops" and seam: "dp_comfy dp = seam" and good: "ok (wo_engine wd)"
    and success: "lo_success out" and m: "er_model req \<noteq> []"
    and target: "er_targetSlot req \<in> insert [] (set (eo_slots ops (wo_engine wd)))"
  shows "mode_of (wo_engine wd') (lo_slot out) = er_model req"
proof -
  obtain s w0 where f: "findLoaded ops snap (er_model req) (er_targetSlot req) (wo_engine wd) = (s, w0)"
    by (rule prod.exhaust)
  show ?thesis
  proof (cases "s = []")
    case False
    then have "out = \<lparr>lo_terminal = True, lo_success = True, lo_slot = s, lo_message = MsgNone,
        lo_reason = NoReason\<rparr>" "wo_engine wd' = w0"
      using att f ops by (auto simp: attemptLoad_def Let_def)
    moreover obtain occ where occ: "eo_slotStates ops (sn_units snap) (wo_engine wd) = (occ, w0)"
      "usable occ (er_model req) s" "s = er_targetSlot req \<or> s \<in> set (eo_slots ops w0)"
      using findLoaded_cases [OF f] False by metis
    moreover have "s \<in> set (eo_slots ops (wo_engine wd))"
      using occ(3) target False states_quiet [OF occ(1)] by auto
    ultimately show ?thesis using states_report [OF occ(1)] by (simp add: usable_def)
  next
    case True
    obtain pl w1 where p: "place ops (dp_comfy dp) snap now (er_model req) (er_targetSlot req) cfg res
        horizon w0 = (pl, w1)" by (rule prod.exhaust)
    obtain e2 wd2 where e2: "evictAll dp now (pl_evict pl) (wd\<lparr>wo_engine := w1\<rparr>) = (e2, wd2)"
      by (rule prod.exhaust)
    obtain e3 wd3 where e3: "(if pl_evictComfy pl then stopComfyForMemory dp (er_model req) wd2
        else (None, wd2)) = (e3, wd3)" by (rule prod.exhaust)
    obtain r w4 where r: "eo_load ops (er_model req) (pl_slot pl) (wo_engine wd3) = (r, w4)"
      by (rule prod.exhaust)
    obtain occ where occ: "eo_slotStates ops (sn_units snap) (wo_engine wd) = (occ, w0)"
      using findLoaded_cases [OF f] by metis
    have "ok w1"
      using p states_ok [OF occ good]
    proof (cases rule: place_cases)
      case (failed e)
      then show ?thesis using plan_ok states_ok [OF occ good] by blast
    next
      case (planned plan w' o' v)
      then show ?thesis using plan_ok states_ok states_ok [OF occ good] by blast
    qed
    then have "ok (wo_engine wd2)" using evictAll_ok [OF e2 ops] by simp
    then have "ok (wo_engine wd3)"
      using e3 stopComfy_quiet [OF _ seam] by (auto split: if_splits)
    then show ?thesis
      using att f ops True p e2 e3 r success load_ok [OF r]
      by (auto simp: attemptLoad_def Let_def split: if_splits option.splits)
  qed
qed

end

end
