(* ===== verification/Maintenance.thy ===== *)
theory Maintenance
  imports Attempt
begin

text \<open>
  maintenance/gate.go and maintenance/engine_wrap.go: the maintenance window, and the engine
  wrapped so that no load, unload, switch, restart or unit command passes while a window is
  open.  The mutex makes each operation of the gate atomic, so each is a function on the
  gate's state.  The settings store that keeps the window across a restart is a parameter, as
  are the lease identifiers (random in the code).  What the gate publishes is recorded in order;
  log lines are left out.  The background ticker only calls \<open>Status\<close>.
\<close>

section \<open>The window\<close>

record maint_window =
  mw_active :: bool
  mw_lease :: string
  mw_reason :: string
  mw_enteredBy :: string
  mw_slots :: "string list"
  mw_services :: "string list"
  mw_enteredAt :: int  \<comment> \<open>unix seconds\<close>
  mw_expiresAt :: int

definition noWindow :: maint_window where
  "noWindow = \<lparr>mw_active = False, mw_lease = [], mw_reason = [], mw_enteredBy = [], mw_slots = [],
     mw_services = [], mw_enteredAt = 0, mw_expiresAt = 0\<rparr>"

record enter_request =
  en_reason :: string
  en_enteredBy :: string
  en_slots :: "string list"
  en_services :: "string list"
  en_duration :: duration

datatype gate_error = ErrAlreadyActive | ErrNotActive | ErrWrongLease string

text \<open>\<open>Get\<close> of the settings store, decoded: nothing usable (absent, failed, empty or not
  JSON), or a window.  \<open>Set\<close> may fail, which is only logged.\<close>

record 'd gate_store =
  gt_get :: "'d \<Rightarrow> maint_window option"
  gt_set :: "maint_window \<Rightarrow> 'd \<Rightarrow> 'd"

record 'd gate =
  ga_window :: maint_window
  ga_data :: 'd
  ga_published :: "maint_window list"

section \<open>The operations\<close>

definition defaultMaxDuration :: duration where
  "defaultMaxDuration = 4 * 3600 * 1000000000"

definition gateLoad :: "'d gate_store option \<Rightarrow> 'd \<Rightarrow> maint_window" where
  "gateLoad st d =
     (case st of None \<Rightarrow> noWindow
      | Some s \<Rightarrow> (case gt_get s d of None \<Rightarrow> noWindow | Some w \<Rightarrow> w))"

definition newGate :: "'d gate_store option \<Rightarrow> 'd \<Rightarrow> 'd gate" where
  "newGate st d = \<lparr>ga_window = gateLoad st d, ga_data = d, ga_published = []\<rparr>"

definition gatePersist :: "'d gate_store option \<Rightarrow> 'd gate \<Rightarrow> 'd gate" where
  "gatePersist st g =
     (case st of None \<Rightarrow> g | Some s \<Rightarrow> g\<lparr>ga_data := gt_set s (ga_window g) (ga_data g)\<rparr>)"

definition publishChanged :: "'d gate \<Rightarrow> 'd gate" where
  "publishChanged g = g\<lparr>ga_published := ga_published g @ [ga_window g]\<rparr>"

definition expireLocked :: "'d gate_store option \<Rightarrow> time \<Rightarrow> 'd gate \<Rightarrow> 'd gate" where
  "expireLocked st now g =
     (let w = ga_window g in
      if \<not> mw_active w \<or> mw_expiresAt w = 0 \<or> unixOf now < mw_expiresAt w then g
      else publishChanged (gatePersist st (g\<lparr>ga_window := noWindow\<rparr>)))"

definition gateStatus :: "'d gate_store option \<Rightarrow> time \<Rightarrow> 'd gate \<Rightarrow> maint_window \<times> 'd gate" where
  "gateStatus st now g = (let g' = expireLocked st now g in (ga_window g', g'))"

definition clampDuration :: "duration \<Rightarrow> duration" where
  "clampDuration d = (if d \<le> 0 \<or> d > defaultMaxDuration then defaultMaxDuration else d)"

definition gateEnter ::
    "'d gate_store option \<Rightarrow> time \<Rightarrow> string \<Rightarrow> enter_request \<Rightarrow> 'd gate
     \<Rightarrow> (gate_error option \<times> maint_window) \<times> 'd gate" where
  "gateEnter st now lease req g =
     (let g1 = expireLocked st now g in
      if mw_active (ga_window g1) then ((Some ErrAlreadyActive, ga_window g1), g1)
      else
        (let w = \<lparr>mw_active = True, mw_lease = lease, mw_reason = en_reason req,
               mw_enteredBy = en_enteredBy req, mw_slots = en_slots req, mw_services = en_services req,
               mw_enteredAt = unixOf now, mw_expiresAt = unixOf (now + clampDuration (en_duration req))\<rparr>;
             g2 = publishChanged (gatePersist st (g1\<lparr>ga_window := w\<rparr>))
         in ((None, w), g2)))"

definition gateExit ::
    "'d gate_store option \<Rightarrow> time \<Rightarrow> string \<Rightarrow> bool \<Rightarrow> 'd gate
     \<Rightarrow> (gate_error option \<times> maint_window) \<times> 'd gate" where
  "gateExit st now lease force g =
     (let g1 = expireLocked st now g; w = ga_window g1 in
      if \<not> mw_active w then ((Some ErrNotActive, w), g1)
      else if \<not> force \<and> lease \<noteq> mw_lease w then ((Some (ErrWrongLease lease), w), g1)
      else ((None, w), publishChanged (gatePersist st (g1\<lparr>ga_window := noWindow\<rparr>))))"

text \<open>The lease a context carries: \<open>None\<close>, also for the empty string.\<close>

definition leaseFromContext :: "string option \<Rightarrow> string option" where
  "leaseFromContext ctx = (case ctx of None \<Rightarrow> None | Some l \<Rightarrow> if l = [] then None else Some l)"

definition gateBlocked ::
    "'d gate_store option \<Rightarrow> time \<Rightarrow> string option \<Rightarrow> 'd gate \<Rightarrow> string option \<times> 'd gate" where
  "gateBlocked st now ctx g =
     (let g1 = expireLocked st now g; w = ga_window g1 in
      if \<not> mw_active w then (None, g1)
      else if leaseFromContext ctx = Some (mw_lease w) then (None, g1)
      else (Some (if mw_reason w = [] then ''a maintenance window is active'' else mw_reason w), g1))"

definition reconcileOnBoot :: "'d gate_store option \<Rightarrow> 'd gate \<Rightarrow> 'd gate" where
  "reconcileOnBoot st g =
     (let g1 = g\<lparr>ga_window := noWindow\<rparr> in
      if \<not> mw_active (ga_window g) then g1 else publishChanged (gatePersist st g1))"

text \<open>
  The boot (\<open>startMaintenanceGate\<close> in cmd/forge/main.go): \<open>claimed\<close> tells the leases a running
  procedure holds in the database; it is false when the query fails.
\<close>

definition hasLiveMaintenanceLease :: "(string \<Rightarrow> bool) \<Rightarrow> string \<Rightarrow> bool" where
  "hasLiveMaintenanceLease claimed lease = (if lease = [] then False else claimed lease)"

definition startMaintenanceGate ::
    "'d gate_store option \<Rightarrow> time \<Rightarrow> (string \<Rightarrow> bool) \<Rightarrow> 'd \<Rightarrow> 'd gate" where
  "startMaintenanceGate st now claimed d =
     (let (w, g) = gateStatus st now (newGate st d) in
      if \<not> hasLiveMaintenanceLease claimed (mw_lease w) then reconcileOnBoot st g else g)"

section \<open>Histories\<close>

datatype gate_event =
    EvStatus
  | EvEnter string enter_request
  | EvExit string bool
  | EvBlocked "string option"

fun gateStep :: "'d gate_store option \<Rightarrow> time \<Rightarrow> gate_event \<Rightarrow> 'd gate \<Rightarrow> 'd gate" where
  "gateStep st now EvStatus g = snd (gateStatus st now g)"
| "gateStep st now (EvEnter lease req) g = snd (gateEnter st now lease req g)"
| "gateStep st now (EvExit lease force) g = snd (gateExit st now lease force g)"
| "gateStep st now (EvBlocked ctx) g = snd (gateBlocked st now ctx g)"

fun gateRun :: "'d gate_store option \<Rightarrow> (time \<times> gate_event) list \<Rightarrow> 'd gate \<Rightarrow> 'd gate" where
  "gateRun st [] g = g"
| "gateRun st ((now, e) # es) g = gateRun st es (gateStep st now e g)"

text \<open>
  A history of the daemon from its first boot on, through operations and restarts: the clock
  does not run backwards and shows a time after 1970.
\<close>

inductive gate_history :: "'d gate_store option \<Rightarrow> time \<Rightarrow> 'd gate \<Rightarrow> bool" for st where
  boot: "unixOf now > 0 \<Longrightarrow> \<not> mw_active (gateLoad st d) \<Longrightarrow>
    gate_history st now (startMaintenanceGate st now claimed d)"
| event: "gate_history st t g \<Longrightarrow> t \<le> now \<Longrightarrow> gate_history st now (gateStep st now e g)"
| restart: "gate_history st t g \<Longrightarrow> t \<le> now \<Longrightarrow>
    gate_history st now (startMaintenanceGate st now claimed (ga_data g))"

text \<open>What a write of the settings store does: it takes effect or it does not.\<close>

definition plain_store :: "'d gate_store option \<Rightarrow> bool" where
  "plain_store st \<longleftrightarrow> (\<forall>s w d. st = Some s \<longrightarrow> gt_get s (gt_set s w d) \<in> {Some w, gt_get s d})"

section \<open>A window ends\<close>

definition window_ok :: "time \<Rightarrow> maint_window \<Rightarrow> bool" where
  "window_ok now w \<longleftrightarrow> (mw_active w \<longrightarrow>
     mw_enteredAt w \<le> unixOf now \<and> 0 < mw_expiresAt w \<and> mw_expiresAt w \<le> mw_enteredAt w + 14400)"

definition gate_ok :: "'d gate_store option \<Rightarrow> time \<Rightarrow> 'd gate \<Rightarrow> bool" where
  "gate_ok st now g \<longleftrightarrow> unixOf now > 0 \<and> window_ok now (ga_window g) \<and> window_ok now (gateLoad st (ga_data g))"

lemma unixOf_mono: "t \<le> now \<Longrightarrow> unixOf t \<le> unixOf now"
  by (simp add: unixOf_def zdiv_mono1)

lemma unixOf_add: "unixOf (t + k * 1000000000) = unixOf t + k"
  unfolding unixOf_def by (subst div_mult_self1) simp_all

lemma unixOf_clamp: "unixOf now \<le> unixOf (now + clampDuration d)"
    "unixOf (now + clampDuration d) \<le> unixOf now + 14400"
proof -
  have c: "0 \<le> clampDuration d" "clampDuration d \<le> 14400 * 1000000000"
    by (auto simp: clampDuration_def defaultMaxDuration_def)
  then show "unixOf now \<le> unixOf (now + clampDuration d)" by (intro unixOf_mono) simp
  have "unixOf (now + clampDuration d) \<le> unixOf (now + 14400 * 1000000000)"
    using c by (intro unixOf_mono) simp
  also have "\<dots> = unixOf now + 14400" by (rule unixOf_add)
  finally show "unixOf (now + clampDuration d) \<le> unixOf now + 14400" .
qed

lemma noWindow_inactive [simp]: "\<not> mw_active noWindow" "window_ok now noWindow"
  by (simp_all add: noWindow_def window_ok_def)

lemma gate_ok_later: "gate_ok st t g \<Longrightarrow> t \<le> now \<Longrightarrow> gate_ok st now g"
  using unixOf_mono [of t now] by (auto simp: gate_ok_def window_ok_def)

lemma set_window_ok:
  assumes "plain_store st" and "gate_ok st now g" and "window_ok now w"
  shows "gate_ok st now (publishChanged (gatePersist st (g\<lparr>ga_window := w\<rparr>)))"
proof (cases st)
  case None
  with assms show ?thesis by (simp add: gate_ok_def publishChanged_def gatePersist_def gateLoad_def)
next
  case (Some s)
  have "gt_get s (gt_set s w (ga_data g)) \<in> {Some w, gt_get s (ga_data g)}"
    using assms(1) Some by (simp add: plain_store_def)
  then show ?thesis
    using assms(2,3) Some
    by (auto simp: gate_ok_def publishChanged_def gatePersist_def gateLoad_def)
qed

lemma expire_ok: "plain_store st \<Longrightarrow> gate_ok st now g \<Longrightarrow> gate_ok st now (expireLocked st now g)"
  by (simp add: expireLocked_def Let_def set_window_ok)

lemma enter_ok:
  assumes "plain_store st" and "gate_ok st now g"
  shows "gate_ok st now (snd (gateEnter st now lease req g))"
proof -
  have "0 < unixOf now" using assms(2) by (simp add: gate_ok_def)
  then have "window_ok now \<lparr>mw_active = True, mw_lease = lease, mw_reason = en_reason req,
      mw_enteredBy = en_enteredBy req, mw_slots = en_slots req, mw_services = en_services req,
      mw_enteredAt = unixOf now, mw_expiresAt = unixOf (now + clampDuration (en_duration req))\<rparr>"
    using unixOf_clamp [of now "en_duration req"] by (simp add: window_ok_def)
  then show ?thesis
    using set_window_ok [OF assms(1) expire_ok [OF assms]] expire_ok [OF assms]
    by (simp add: gateEnter_def Let_def)
qed

lemma step_ok:
  assumes "plain_store st" and "gate_ok st now g"
  shows "gate_ok st now (gateStep st now e g)"
  using expire_ok [OF assms] set_window_ok [OF assms(1) expire_ok [OF assms]] enter_ok [OF assms]
  by (cases e) (simp_all add: gateStatus_def gateExit_def gateBlocked_def Let_def)

lemma reconcile_ok:
  assumes "plain_store st" and "gate_ok st now g"
  shows "gate_ok st now (reconcileOnBoot st g)"
  using set_window_ok [OF assms, of noWindow] assms(2)
  by (simp add: reconcileOnBoot_def Let_def) (simp add: gate_ok_def)

lemma boot_ok:
  assumes "plain_store st" and "unixOf now > 0" and "window_ok now (gateLoad st d)"
  shows "gate_ok st now (startMaintenanceGate st now claimed d)"
proof -
  have "gate_ok st now (newGate st d)" using assms by (simp add: gate_ok_def newGate_def)
  then show ?thesis
    using expire_ok [OF assms(1)] reconcile_ok [OF assms(1)]
    by (simp add: startMaintenanceGate_def gateStatus_def Let_def)
qed

lemma history_ok:
  assumes "gate_history st now g" and "plain_store st"
  shows "gate_ok st now g"
  using assms(1)
proof induction
  case (boot now d claimed)
  then show ?case by (intro boot_ok [OF assms(2)]) (auto simp: window_ok_def)
next
  case (event t g now e)
  then show ?case using step_ok [OF assms(2)] gate_ok_later by blast
next
  case (restart t g now claimed)
  have "gate_ok st now g" using gate_ok_later restart by blast
  then show ?case by (intro boot_ok [OF assms(2)]) (auto simp: gate_ok_def)
qed


section \<open>A window is closed only by its holder\<close>

text \<open>Events that leave a window with this lease alone: before its end, and no exit that
  is forced or carries the lease.\<close>

fun harmless :: "maint_window \<Rightarrow> time \<times> gate_event \<Rightarrow> bool" where
  "harmless w (now, EvExit lease force) = (unixOf now < mw_expiresAt w \<and> \<not> force \<and> lease \<noteq> mw_lease w)"
| "harmless w (now, e) = (unixOf now < mw_expiresAt w)"

lemma harmless_step:
  assumes "ga_window g = w" and "mw_active w" and "harmless w (now, e)"
  shows "gateStep st now e g = g"
proof -
  have "unixOf now < mw_expiresAt w" using assms(3) by (cases e) auto
  then have "expireLocked st now g = g" using assms(1) by (simp add: expireLocked_def Let_def)
  then show ?thesis
    using assms by (cases e) (simp_all add: gateStatus_def gateEnter_def gateExit_def gateBlocked_def Let_def)
qed


section \<open>Witnesses\<close>

definition sample_window :: maint_window where
  "sample_window = \<lparr>mw_active = True, mw_lease = ''mw-1'', mw_reason = ''rebuild'', mw_enteredBy = ''smith'',
     mw_slots = [''a1''], mw_services = [], mw_enteredAt = 100, mw_expiresAt = 200\<rparr>"

definition sample_gate :: "nat gate" where
  "sample_gate = \<lparr>ga_window = sample_window, ga_data = 0, ga_published = []\<rparr>"



end
