(* ===== verification/Go_Strings.thy ===== *)
theory Go_Strings
  imports Forge_Prelude "HOL-Library.Sublist"
begin

text \<open>
  The functions of Go's \<open>strings\<close> and \<open>path/filepath\<close> packages that the engine uses, over
  strings of ASCII characters: \<open>Split\<close> on one character, \<open>Join\<close>, \<open>TrimSpace\<close>, \<open>Fields\<close>, \<open>Cut\<close>,
  \<open>Contains\<close>, \<open>HasPrefix\<close> and \<open>HasSuffix\<close> (the library's \<open>prefix\<close> and \<open>suffix\<close>), \<open>Clean\<close> and \<open>Join\<close> of paths.
\<close>

section \<open>Splitting and joining\<close>

fun split_on :: "char \<Rightarrow> string \<Rightarrow> string list" where
  "split_on c [] = [[]]"
| "split_on c (x # xs) =
     (if x = c then [] # split_on c xs
      else case split_on c xs of [] \<Rightarrow> [[x]] | y # ys \<Rightarrow> (x # y) # ys)"

fun join_with :: "string \<Rightarrow> string list \<Rightarrow> string" where
  "join_with sep [] = []"
| "join_with sep [x] = x"
| "join_with sep (x # y # ys) = x @ sep @ join_with sep (y # ys)"

lemma split_on_not_Nil [simp]: "split_on c s \<noteq> []"
  by (cases s) (auto split: list.splits)

lemma split_on_elem: "l \<in> set (split_on c s) \<Longrightarrow> c \<notin> set l"
proof (induction s arbitrary: l)
  case (Cons x xs)
  show ?case
  proof (cases "split_on c xs")
    case (Cons y ys)
    with Cons.prems Cons.IH show ?thesis by (fastforce split: if_splits)
  qed simp
qed simp

lemma split_on_plain: "c \<notin> set s \<Longrightarrow> split_on c s = [s]"
  by (induction s) auto

lemma split_on_append: "c \<notin> set a \<Longrightarrow> split_on c (a @ c # b) = a # split_on c b"
  by (induction a) auto

lemma split_join:
  assumes "ls \<noteq> []" and "\<And>l. l \<in> set ls \<Longrightarrow> c \<notin> set l"
  shows "split_on c (join_with [c] ls) = ls"
  using assms
proof (induction "[c]" ls rule: join_with.induct)
  case (2 x)
  then show ?case by (simp add: split_on_plain)
next
  case (3 x y ys)
  then show ?case by (simp add: split_on_append)
qed simp

lemma split_join_newline:
  assumes "ls \<noteq> []" and "\<And>l. l \<in> set ls \<Longrightarrow> c \<notin> set l"
  shows "split_on c (join_with [c] ls @ [c]) = ls @ [[]]"
  using assms
proof (induction "[c]" ls rule: join_with.induct)
  case (2 x)
  then show ?case by (simp add: split_on_append)
next
  case (3 x y ys)
  then show ?case by (simp add: split_on_append)
qed simp

definition contains :: "string \<Rightarrow> string \<Rightarrow> bool" where
  "contains sub x = list_ex (\<lambda>i. prefix sub (drop i x)) [0..<Suc (length x)]"

section \<open>Numbers\<close>

text \<open>The decimal digits of a number that is not negative.\<close>

function decimal :: "int \<Rightarrow> string" where
  "decimal n = (if n < 10 then [char_of (48 + n)] else decimal (n div 10) @ [char_of (48 + n mod 10)])"
  by pat_completeness auto
termination by (relation "measure nat") auto

declare decimal.simps [simp del]

definition itoa :: "int \<Rightarrow> string" where
  "itoa i = (if i < 0 then CHR ''-'' # decimal (- i) else decimal i)"

section \<open>White space and cutting\<close>

definition is_space :: "char \<Rightarrow> bool" where
  "is_space c \<longleftrightarrow> c = CHR '' '' \<or> c = CHR 0x09 \<or> c = CHR 0x0A \<or> c = CHR 0x0B \<or> c = CHR 0x0C \<or> c = CHR 0x0D"

definition trim_space :: "string \<Rightarrow> string" where
  "trim_space s = rev (dropWhile is_space (rev (dropWhile is_space s)))"

text \<open>\<open>Fields\<close>: the words between white space.\<close>

fun str_fields_acc :: "string \<Rightarrow> string \<Rightarrow> string list" where
  "str_fields_acc [] acc = (if acc = [] then [] else [rev acc])"
| "str_fields_acc (c # cs) acc =
     (if is_space c then (if acc = [] then str_fields_acc cs [] else rev acc # str_fields_acc cs [])
      else str_fields_acc cs (c # acc))"

definition str_fields :: "string \<Rightarrow> string list" where
  "str_fields s = str_fields_acc s []"

definition trimmed :: "string \<Rightarrow> bool" where
  "trimmed s \<longleftrightarrow> s = [] \<or> \<not> is_space (hd s) \<and> \<not> is_space (last s)"

lemma trim_trimmed: "trimmed s \<Longrightarrow> trim_space s = s"
proof (cases s)
  case (Cons x xs)
  assume "trimmed s"
  then have "\<not> is_space (hd s)" "\<not> is_space (last s)" using Cons by (auto simp: trimmed_def)
  then have "dropWhile is_space s = s" "dropWhile is_space (rev s) = rev s"
    using Cons by (simp, metis dropWhile.simps(2) hd_rev list.exhaust_sel list.simps(3) rev_is_Nil_conv)
  then show ?thesis by (simp add: trim_space_def)
qed (simp add: trim_space_def)

lemma dropWhile_trimmed_head: "dropWhile P s = [] \<or> \<not> P (hd (dropWhile P s))"
  by (metis hd_dropWhile)

lemma trimmed_trim: "trimmed (trim_space s)"
proof -
  let ?a = "dropWhile is_space s" let ?b = "dropWhile is_space (rev ?a)"
  show ?thesis
  proof (cases "?b = []")
    case False
    have "\<not> is_space (hd ?b)" using False hd_dropWhile by blast
    then have l: "\<not> is_space (last (rev ?b))" using False by (simp add: last_rev)
    have "suffix ?b (rev ?a)" by (rule suffix_dropWhile)
    then obtain p where "rev ?a = p @ ?b" by (auto simp: suffix_def)
    then have a: "?a = rev ?b @ rev p" by (metis rev_append rev_rev_ident)
    then have "hd (rev ?b) = hd ?a" using hd_append2 [of "rev ?b" "rev p"] False
      by (metis rev_is_Nil_conv)
    moreover have "\<not> is_space (hd ?a)" using a False hd_dropWhile [of is_space s] by fastforce
    ultimately show ?thesis using l by (simp add: trim_space_def trimmed_def)
  qed (simp add: trim_space_def trimmed_def)
qed

text \<open>\<open>Cut\<close> at the first occurrence of a character.\<close>

definition cut :: "char \<Rightarrow> string \<Rightarrow> (string \<times> string) option" where
  "cut c s = (if c \<in> set s then Some (takeWhile (\<lambda>x. x \<noteq> c) s, tl (dropWhile (\<lambda>x. x \<noteq> c) s)) else None)"

lemma cut_append: "c \<notin> set k \<Longrightarrow> cut c (k @ c # v) = Some (k, v)"
  by (induction k) (auto simp: cut_def)

section \<open>Paths\<close>

fun clean_step :: "bool \<Rightarrow> string list \<Rightarrow> string \<Rightarrow> string list" where
  "clean_step rooted stack e =
     (if e = [] \<or> e = ''.'' then stack
      else if e = ''..'' then
        (case stack of
           [] \<Rightarrow> if rooted then [] else [e]
         | t # ts \<Rightarrow> if t = ''..'' then e # stack else ts)
      else e # stack)"

definition path_rooted :: "string \<Rightarrow> bool" where
  "path_rooted p = (case p of [] \<Rightarrow> False | c # _ \<Rightarrow> c = CHR ''/'')"

definition path_clean :: "string \<Rightarrow> string" where
  "path_clean p =
     (if p = [] then ''.''
      else let es = rev (foldl (clean_step (path_rooted p)) [] (split_on (CHR ''/'') p));
               body = join_with ''/'' es in
        if path_rooted p then CHR ''/'' # body
        else if es = [] then ''.'' else body)"

definition path_join :: "string \<Rightarrow> string \<Rightarrow> string" where
  "path_join a b = path_clean (a @ ''/'' @ b)"

text \<open>Joining a directory with a plain file name ends in that name.\<close>

definition plain_name :: "string \<Rightarrow> bool" where
  "plain_name e \<longleftrightarrow> e \<noteq> [] \<and> e \<noteq> ''.'' \<and> e \<noteq> ''..'' \<and> CHR ''/'' \<notin> set e"

lemma split_on_last: "c \<notin> set e \<Longrightarrow> split_on c (d @ c # e) = split_on c d @ [e]"
  by (induction d) (auto simp: split_on_plain split: list.splits)

lemma join_with_snoc: "\<exists>p. join_with sep (xs @ [e]) = p @ e"
proof (induction sep xs rule: join_with.induct)
  case (3 sep x y ys)
  then obtain p where "join_with sep (y # ys @ [e]) = p @ e" by auto
  then show ?case by auto
qed auto

lemma path_join_ends:
  assumes "plain_name e"
  shows "suffix e (path_join d e)"
proof -
  let ?p = "d @ ''/'' @ e"
  have "split_on (CHR ''/'') ?p = split_on (CHR ''/'') d @ [e]"
    using assms split_on_last [of "CHR ''/''" e d] by (simp add: plain_name_def)
  then obtain st where "foldl (clean_step (path_rooted ?p)) [] (split_on (CHR ''/'') ?p) = e # st"
    using assms by (simp add: plain_name_def)
  moreover obtain p where "join_with ''/'' (rev st @ [e]) = p @ e" using join_with_snoc by blast
  ultimately show ?thesis
    by (auto simp: path_join_def path_clean_def Let_def suffix_def)
qed

lemma path_clean_examples:
  "path_clean ''/models//a/../b.gguf'' = ''/models/b.gguf''"
  "path_clean ''../x/./y'' = ''../x/y''"
  by code_simp+

end
