(* ===== verification/Engine_State.thy ===== *)
theory Engine_State
  imports Engine_Ops Go_Strings
begin

text \<open>
  The engine's configuration, its view of the host, and its own state (config/config.go,
  engine/manager.go, engine/sysconfig.go, collector/sysconfig.go): which mode each slot holds,
  inferred from a slot's env file and reconciled with the states of the slot units.

  The host (systemd, the process table, the GPU counters, the file system) is a parameter: an
  abstract state with the operations the engine calls.  Readings that follow each other
  without a wait or a command in between see the same host.  The commands given to it are
  recorded in order.
\<close>

section \<open>Configuration\<close>

record service =
  sv_model :: string
  sv_alias :: string
  sv_context :: int
  sv_portRole :: string
  sv_backend :: string
  sv_llamaBin :: string
  sv_mmproj :: string
  sv_extraArgs :: "string list"
  sv_startupTimeout :: int

record mode_config =
  mc_default :: bool
  mc_type :: string
  mc_services :: "service list"
  mc_configID :: int

record slot_config =
  sc_unit :: unit_name
  sc_port :: int
  sc_order :: int

text \<open>A Go map is a list of entries, in one of its iteration orders.\<close>

record engine_config =
  ec_slots :: "(slot \<times> slot_config) list"
  ec_modes :: "(model \<times> mode_config) list"
  ec_modelsDir :: string
  ec_sysconfigDir :: string
  ec_stateDir :: string

definition slotOf :: "engine_config \<Rightarrow> slot \<Rightarrow> slot_config option" where
  "slotOf cfg s = map_of (ec_slots cfg) s"

definition modeOf :: "engine_config \<Rightarrow> model \<Rightarrow> mode_config option" where
  "modeOf cfg m = map_of (ec_modes cfg) m"

definition resolveModelPath :: "engine_config \<Rightarrow> string \<Rightarrow> string" where
  "resolveModelPath cfg p =
     (if p = [] \<or> ec_modelsDir cfg = [] then p
      else if path_rooted p then p
      else path_join (ec_modelsDir cfg) p)"

definition slotNames :: "engine_config \<Rightarrow> slot list" where
  "slotNames cfg = map fst (sort_key (\<lambda>(n, sc). (sc_order sc, n)) (ec_slots cfg))"

definition serviceUnit :: "engine_config \<Rightarrow> service \<Rightarrow> unit_name" where
  "serviceUnit cfg svc = (case slotOf cfg (sv_portRole svc) of None \<Rightarrow> [] | Some sc \<Rightarrow> sc_unit sc)"

definition canonicalUnits :: "engine_config \<Rightarrow> unit_name list" where
  "canonicalUnits cfg = remdups (filter (\<lambda>u. u \<noteq> []) (map (\<lambda>(n, sc). sc_unit sc) (ec_slots cfg)))"

definition modeUnits :: "engine_config \<Rightarrow> mode_config \<Rightarrow> unit_name list" where
  "modeUnits cfg mode = remdups (filter (\<lambda>u. u \<noteq> []) (map (serviceUnit cfg) (mc_services mode)))"

text \<open>The slot checks of \<open>Config.validate\<close>: a unit and a port each, no port twice.\<close>

fun validateSlots :: "(slot \<times> slot_config) list \<Rightarrow> int list \<Rightarrow> bool" where
  "validateSlots [] seen = True"
| "validateSlots ((n, sc) # rest) seen =
     (sc_unit sc \<noteq> [] \<and> sc_port sc \<noteq> 0 \<and> sc_port sc \<notin> set seen \<and>
      validateSlots rest (sc_port sc # seen))"

text \<open>
  A deployed configuration passes these checks; besides, its slot names are distinct (they are
  the keys of a map) and not empty, no two slots share a unit, and no slot is called
  \<open>all\<close>, which \<open>Unload\<close> reads as every slot.
\<close>

definition config_wf :: "engine_config \<Rightarrow> bool" where
  "config_wf cfg \<longleftrightarrow> validateSlots (ec_slots cfg) [] \<and> distinct (map fst (ec_slots cfg)) \<and>
     distinct (map (\<lambda>(n, sc). sc_unit sc) (ec_slots cfg)) \<and>
     [] \<notin> fst ` set (ec_slots cfg) \<and> ''all'' \<notin> fst ` set (ec_slots cfg)"

section \<open>The host\<close>

record gguf_meta =
  gg_blockCount :: int
  gg_embedding :: int
  gg_headCount :: int
  gg_headCountKV :: "int list"
  gg_keyLength :: int
  gg_valueLength :: int
  gg_keyLengthSWA :: int
  gg_valueLengthSWA :: int
  gg_slidingWindow :: int
  gg_swaPattern :: "bool list"
  gg_hybrid :: bool

record 'h host =
  ho_state :: "unit_name \<Rightarrow> 'h \<Rightarrow> unit_state option"  \<comment> \<open>None: the query failed\<close>
  ho_start :: "unit_name \<Rightarrow> 'h \<Rightarrow> bool \<times> 'h"
  ho_stop :: "unit_name \<Rightarrow> 'h \<Rightarrow> bool \<times> 'h"
  ho_mainPID :: "unit_name \<Rightarrow> 'h \<Rightarrow> int option"
  ho_pause :: "nat \<Rightarrow> 'h \<Rightarrow> 'h"  \<comment> \<open>virtual seconds\<close>
  ho_now :: "'h \<Rightarrow> time"
  ho_byComm :: "string \<Rightarrow> 'h \<Rightarrow> int list"
  ho_portArg :: "int \<Rightarrow> 'h \<Rightarrow> int option"
  ho_rss :: "int \<Rightarrow> 'h \<Rightarrow> int"
  ho_gpuMemory :: "int \<Rightarrow> 'h \<Rightarrow> int"
  ho_memAvailable :: "'h \<Rightarrow> int"
  ho_kill :: "int \<Rightarrow> 'h \<Rightarrow> 'h"
  ho_gttTotal :: "'h \<Rightarrow> int option"
  ho_gttUsed :: "'h \<Rightarrow> int option"
  ho_healthy :: "int \<Rightarrow> 'h \<Rightarrow> bool"
  ho_nctx :: "int \<Rightarrow> 'h \<Rightarrow> int option"
  ho_read :: "string \<Rightarrow> 'h \<Rightarrow> string option"
  ho_write :: "string \<Rightarrow> string \<Rightarrow> 'h \<Rightarrow> bool \<times> 'h"
  ho_weights :: "string \<Rightarrow> string \<Rightarrow> 'h \<Rightarrow> int"  \<comment> \<open>collector.WeightSetSizeBytes\<close>
  ho_gguf :: "string \<Rightarrow> 'h \<Rightarrow> gguf_meta option"
  ho_profile :: "model \<Rightarrow> 'h \<Rightarrow> int option"  \<comment> \<open>Deps.ProfileBytes\<close>
  ho_estimate :: "int \<Rightarrow> 'h \<Rightarrow> int option"  \<comment> \<open>Deps.WeightEstimateBytes\<close>
  ho_comfyBytes :: "('h \<Rightarrow> int) option"

datatype command = CmdStart unit_name | CmdStop unit_name | CmdKill int int  \<comment> \<open>port, pid\<close>

record 'h manager =
  mg_slots :: "slot \<rightharpoonup> slot_assignment"
  mg_cmds :: "command list"
  mg_host :: 'h

definition slotRec :: "'h manager \<Rightarrow> slot \<Rightarrow> slot_assignment" where
  "slotRec w s = assigned (mg_slots w) s"

section \<open>Env files\<close>

text \<open>The parse of a slot's env file (\<open>ReadSlotEnv\<close>).\<close>

definition env_line :: "string \<Rightarrow> (string \<times> string) option" where
  "env_line l =
     (let l = trim_space l in
      if l = [] \<or> hd l = CHR ''#'' then None
      else map_option (\<lambda>(k, v). (trim_space k, trim_space v)) (cut (CHR ''='') l))"

fun env_of :: "string list \<Rightarrow> (string \<rightharpoonup> string) \<Rightarrow> (string \<rightharpoonup> string)" where
  "env_of [] env = env"
| "env_of (l # ls) env =
     env_of ls (case env_line l of None \<Rightarrow> env | Some (k, v) \<Rightarrow> env(k \<mapsto> v))"

definition parseSlotEnv :: "string \<Rightarrow> (string \<rightharpoonup> string)" where
  "parseSlotEnv raw = env_of (split_on (CHR 0x0A) raw) Map.empty"

definition envPath :: "engine_config \<Rightarrow> slot \<Rightarrow> string" where
  "envPath cfg s = path_join (ec_sysconfigDir cfg) (''forge-'' @ s @ ''-env'')"

definition readSlotEnv :: "'h host \<Rightarrow> engine_config \<Rightarrow> slot \<Rightarrow> 'h \<Rightarrow> (string \<rightharpoonup> string)" where
  "readSlotEnv ho cfg s h =
     (case ho_read ho (envPath cfg s) h of None \<Rightarrow> Map.empty | Some raw \<Rightarrow> parseSlotEnv raw)"

text \<open>Reading a Go map of strings.\<close>

definition env_get :: "(string \<rightharpoonup> string) \<Rightarrow> string \<Rightarrow> string" where
  "env_get env k = (case env k of None \<Rightarrow> [] | Some v \<Rightarrow> v)"

definition inferSlotMode :: "engine_config \<Rightarrow> (string \<rightharpoonup> string) \<Rightarrow> model" where
  "inferSlotMode cfg env =
     (let alias = env_get env ''FORGE_MODEL_ALIAS''; path = env_get env ''FORGE_MODEL_PATH'';
          by_path = (if path = [] then []
            else case find (\<lambda>(n, mode). list_ex (\<lambda>sv. sv_model sv \<noteq> [] \<and> suffix (sv_model sv) path)
                   (mc_services mode)) (ec_modes cfg) of
                 None \<Rightarrow> [] | Some (n, mode) \<Rightarrow> n) in
      if alias = [] then by_path
      else case find (\<lambda>(n, mode). list_ex (\<lambda>sv. sv_alias sv = alias) (mc_services mode)) (ec_modes cfg) of
             Some (n, mode) \<Rightarrow> n
           | None \<Rightarrow> by_path)"

section \<open>Slot states\<close>

definition unit_gone :: "unit_state \<Rightarrow> bool" where
  "unit_gone u = (us_activeState u \<in> {''inactive'', ''failed'', ''dead''})"

text \<open>A unit missing from the map reads as the zero state: neither active nor gone.\<close>

definition reconcileRec ::
    "engine_config \<Rightarrow> (string \<rightharpoonup> string) \<Rightarrow> unit_state option \<Rightarrow> slot_assignment \<Rightarrow> slot_assignment" where
  "reconcileRec cfg env st a =
     (case st of None \<Rightarrow> a
      | Some u \<Rightarrow>
        if unit_active u then
          (if sa_mode a = [] then
             let inferred = inferSlotMode cfg env in
             if inferred \<noteq> [] then a\<lparr>sa_mode := inferred\<rparr> else a
           else a)
        else if sa_mode a \<noteq> [] \<and> unit_gone u then a\<lparr>sa_mode := []\<rparr>
        else a)"

definition slotStates ::
    "'h host \<Rightarrow> engine_config \<Rightarrow> (unit_name \<rightharpoonup> unit_state) \<Rightarrow> 'h manager
     \<Rightarrow> (slot \<rightharpoonup> slot_assignment) \<times> 'h manager" where
  "slotStates ho cfg units w =
     (let new = (\<lambda>s sc. reconcileRec cfg (readSlotEnv ho cfg s (mg_host w)) (units (sc_unit sc)) (slotRec w s));
          out = (\<lambda>s. map_option (new s) (slotOf cfg s))
      in (out, w\<lparr>mg_slots := mg_slots w ++ out\<rparr>))"

definition liveUnits :: "'h host \<Rightarrow> engine_config \<Rightarrow> 'h \<Rightarrow> (unit_name \<rightharpoonup> unit_state)" where
  "liveUnits ho cfg h u =
     (if list_ex (\<lambda>(n, sc). sc_unit sc = u) (ec_slots cfg) then ho_state ho u h else None)"

definition reconcileLive ::
    "'h host \<Rightarrow> engine_config \<Rightarrow> 'h manager \<Rightarrow> (slot \<rightharpoonup> slot_assignment) \<times> 'h manager" where
  "reconcileLive ho cfg w = slotStates ho cfg (liveUnits ho cfg (mg_host w)) w"

definition setTransition ::
    "slot \<Rightarrow> transition option \<Rightarrow> transition option \<Rightarrow> 'h manager \<Rightarrow> 'h manager" where
  "setTransition s l u w =
     (case mg_slots w s of None \<Rightarrow> w
      | Some a \<Rightarrow> w\<lparr>mg_slots := (mg_slots w)(s \<mapsto> a\<lparr>sa_loading := l, sa_unloading := u\<rparr>)\<rparr>)"

definition setSlotMode :: "slot \<Rightarrow> model \<Rightarrow> 'h manager \<Rightarrow> 'h manager" where
  "setSlotMode s m w =
     (case mg_slots w s of None \<Rightarrow> w
      | Some a \<Rightarrow> w\<lparr>mg_slots := (mg_slots w)(s \<mapsto> a\<lparr>sa_mode := m\<rparr>)\<rparr>)"

definition clearAllSlots :: "'h manager \<Rightarrow> 'h manager" where
  "clearAllSlots w = w\<lparr>mg_slots := (\<lambda>s. map_option (\<lambda>_. no_assignment) (mg_slots w s))\<rparr>"

definition newManager :: "'h host \<Rightarrow> engine_config \<Rightarrow> 'h \<Rightarrow> 'h manager" where
  "newManager ho cfg h =
     snd (reconcileLive ho cfg \<lparr>mg_slots = (\<lambda>s. map_option (\<lambda>_. no_assignment) (slotOf cfg s)),
       mg_cmds = [], mg_host = h\<rparr>)"

section \<open>The current mode\<close>

definition stateFilePath :: "engine_config \<Rightarrow> string" where
  "stateFilePath cfg = path_join (ec_stateDir cfg) ''current''"

text \<open>\<open>strings.Fields\<close>, first element or the empty string.\<close>

definition first_field :: "string \<Rightarrow> string" where
  "first_field s = takeWhile (\<lambda>c. \<not> is_space c) (dropWhile is_space s)"

definition recordedMode :: "'h host \<Rightarrow> engine_config \<Rightarrow> 'h \<Rightarrow> model" where
  "recordedMode ho cfg h =
     (case ho_read ho (stateFilePath cfg) h of None \<Rightarrow> [] | Some raw \<Rightarrow> first_field raw)"

text \<open>The time stamp of the line is the host's; the write replaces the file as a whole.\<close>

definition saveMode :: "'h host \<Rightarrow> engine_config \<Rightarrow> (time \<Rightarrow> string) \<Rightarrow> model \<Rightarrow> 'h manager \<Rightarrow> 'h manager" where
  "saveMode ho cfg rfc3339 m w =
     w\<lparr>mg_host := snd (ho_write ho (stateFilePath cfg)
        (m @ '' '' @ rfc3339 (ho_now ho (mg_host w)) @ [CHR 0x0A]) (mg_host w))\<rparr>"

definition unitActive :: "'h host \<Rightarrow> unit_name \<Rightarrow> 'h \<Rightarrow> bool" where
  "unitActive ho u h = (case ho_state ho u h of None \<Rightarrow> False | Some st \<Rightarrow> unit_active st)"

definition modeFullyActive :: "'h host \<Rightarrow> engine_config \<Rightarrow> mode_config \<Rightarrow> 'h \<Rightarrow> bool" where
  "modeFullyActive ho cfg mode h =
     (let expected = modeUnits cfg mode in
      list_all (\<lambda>u. unitActive ho u h) expected \<and>
      \<not> list_ex (\<lambda>u. u \<notin> set expected \<and> unitActive ho u h) (canonicalUnits cfg))"

definition currentMode ::
    "'h host \<Rightarrow> engine_config \<Rightarrow> (time \<Rightarrow> string) \<Rightarrow> 'h manager \<Rightarrow> model \<times> 'h manager" where
  "currentMode ho cfg rfc3339 w =
     (let h = mg_host w; recorded = recordedMode ho cfg h;
          trusted = (case modeOf cfg recorded of None \<Rightarrow> False
             | Some mode \<Rightarrow> recorded \<noteq> [] \<and> modeFullyActive ho cfg mode h) in
      if trusted then (recorded, w)
      else
        (let active = filter (\<lambda>u. unitActive ho u h) (canonicalUnits cfg) in
         case find (\<lambda>(n, mode). mc_type mode \<noteq> ''service'' \<and>
                length (modeUnits cfg mode) = length active \<and>
                list_all (\<lambda>u. u \<in> set active) (modeUnits cfg mode)) (ec_modes cfg) of
           Some (n, mode) \<Rightarrow> (n, saveMode ho cfg rfc3339 n w)
         | None \<Rightarrow> (if recorded \<noteq> [] then recorded else ''unknown'', w)))"

end
