(* ===== verification/Sample_Host.thy ===== *)
theory Sample_Host
  imports Engine_State
begin

text \<open>
  A small simulated host and a two-slot configuration, on which the properties of the engine
  are instantiated.  A started unit runs at once, a stopped one is dead at once; files are
  a map; no process holds memory.
\<close>

record sim =
  si_files :: "string \<rightharpoonup> string"
  si_units :: "unit_name \<rightharpoonup> unit_state"
  si_now :: time

definition unit_up :: unit_state where
  "unit_up = \<lparr>us_activeState = ''active'', us_subState = ''running'', us_gpuBytes = 0\<rparr>"

definition unit_down :: unit_state where
  "unit_down = \<lparr>us_activeState = ''inactive'', us_subState = ''dead'', us_gpuBytes = 0\<rparr>"

definition sim_host :: "sim host" where
  "sim_host = \<lparr>
     ho_state = (\<lambda>u h. Some (case si_units h u of None \<Rightarrow> unit_down | Some st \<Rightarrow> st)),
     ho_start = (\<lambda>u h. (True, h\<lparr>si_units := (si_units h)(u \<mapsto> unit_up)\<rparr>)),
     ho_stop = (\<lambda>u h. (True, h\<lparr>si_units := (si_units h)(u \<mapsto> unit_down)\<rparr>)),
     ho_mainPID = (\<lambda>u h. None), ho_pause = (\<lambda>n h. h\<lparr>si_now := si_now h + int n * nanos_per_second\<rparr>),
     ho_now = si_now, ho_byComm = (\<lambda>c h. []), ho_portArg = (\<lambda>p h. None), ho_rss = (\<lambda>p h. 0),
     ho_gpuMemory = (\<lambda>p h. 0), ho_memAvailable = (\<lambda>h. 107374182400), ho_kill = (\<lambda>p h. h),
     ho_gttTotal = (\<lambda>h. Some 128849018880), ho_gttUsed = (\<lambda>h. Some 0), ho_healthy = (\<lambda>p h. True),
     ho_nctx = (\<lambda>p h. Some 4096), ho_read = (\<lambda>p h. si_files h p),
     ho_write = (\<lambda>p c h. (True, h\<lparr>si_files := (si_files h)(p \<mapsto> c)\<rparr>)),
     ho_weights = (\<lambda>a b h. 10737418240), ho_gguf = (\<lambda>p h. None), ho_profile = (\<lambda>m h. None),
     ho_estimate = (\<lambda>i h. None), ho_comfyBytes = None\<rparr>"

definition sample_service :: "string \<Rightarrow> service" where
  "sample_service a = \<lparr>sv_model = ''/models/'' @ a @ ''.gguf'', sv_alias = a, sv_context = 4096,
     sv_portRole = ''a1'', sv_backend = ''vulkan'', sv_llamaBin = [], sv_mmproj = [],
     sv_extraArgs = [], sv_startupTimeout = 120\<rparr>"

definition sample_mode :: "string \<Rightarrow> mode_config" where
  "sample_mode a = \<lparr>mc_default = False, mc_type = [], mc_services = [sample_service a], mc_configID = 0\<rparr>"

definition sample_config :: engine_config where
  "sample_config = \<lparr>
     ec_slots = [(''a1'', \<lparr>sc_unit = ''forge-a1'', sc_port = 8080, sc_order = 1\<rparr>),
                 (''a2'', \<lparr>sc_unit = ''forge-a2'', sc_port = 8081, sc_order = 2\<rparr>)],
     ec_modes = [(''m1'', sample_mode ''m1''), (''m2'', sample_mode ''m2'')],
     ec_modelsDir = ''/models'', ec_sysconfigDir = ''/etc/sysconfig'', ec_stateDir = ''/var/lib/forge''\<rparr>"

definition sample_sim :: sim where
  "sample_sim = \<lparr>si_files = Map.empty, si_units = Map.empty, si_now = 5\<rparr>"

lemma sample_config_wf: "config_wf sample_config"
  by (simp add: config_wf_def sample_config_def)

end
