(* ===== verification/Kv_Cache.thy ===== *)
theory Kv_Cache
  imports Sample_Host
begin

text \<open>
  engine/kvcache.go: the weights-plus-KV-cache floor computed from GGUF metadata.  Bytes per
  cache element are 32nds (the code's floats are multiples of 1/32), so a sum is exact as long
  as it stays below the 53 bits of a float64.
\<close>

section \<open>Arguments\<close>

definition cacheBytes32 :: "string \<Rightarrow> int option" where
  "cacheBytes32 t = map_of [(''f32'', 128), (''f16'', 64), (''bf16'', 64), (''q8_0'', 34), (''q4_0'', 18),
     (''q4_1'', 20), (''q5_0'', 22), (''q5_1'', 24)] t"

fun parseCacheType :: "string \<Rightarrow> string list \<Rightarrow> string \<Rightarrow> string" where
  "parseCacheType flag (a # b # rest) cur = parseCacheType flag (b # rest) (if a = flag then b else cur)"
| "parseCacheType flag _ cur = cur"

definition parseCacheTypes :: "string list \<Rightarrow> string \<times> string" where
  "parseCacheTypes args = (parseCacheType ''--cache-type-k'' args ''f16'', parseCacheType ''--cache-type-v'' args ''f16'')"

definition hasFlag :: "string list \<Rightarrow> string \<Rightarrow> bool" where
  "hasFlag args name = list_ex (\<lambda>a. a = name) args"

text \<open>\<open>strconv.Atoi\<close>.\<close>

definition is_digit :: "char \<Rightarrow> bool" where
  "is_digit c \<longleftrightarrow> CHR ''0'' \<le> c \<and> c \<le> CHR ''9''"

definition digits_value :: "string \<Rightarrow> int option" where
  "digits_value s = (if s \<noteq> [] \<and> list_all is_digit s
     then Some (foldl (\<lambda>n c. 10 * n + (of_char c - 48)) 0 s) else None)"

definition atoi :: "string \<Rightarrow> int option" where
  "atoi s = (case s of [] \<Rightarrow> None
     | c # cs \<Rightarrow> if c = CHR ''-'' then map_option uminus (digits_value cs)
         else if c = CHR ''+'' then digits_value cs else digits_value s)"

definition positive_int :: "string \<Rightarrow> int option" where
  "positive_int s = (case atoi s of None \<Rightarrow> None | Some n \<Rightarrow> if n > 0 then Some n else None)"

definition afterPrefix :: "string \<Rightarrow> string \<Rightarrow> string option" where
  "afterPrefix p s = (if prefix p s then Some (drop (length p) s) else None)"

fun parseParallelArg :: "string list \<Rightarrow> int" where
  "parseParallelArg [] = 1"
| "parseParallelArg (a # rest) =
     (case (if a = ''--parallel'' then (case rest of [] \<Rightarrow> None | b # _ \<Rightarrow> positive_int b) else None) of
        Some n \<Rightarrow> n
      | None \<Rightarrow>
        (case Option.bind (afterPrefix ''--parallel='' a) positive_int of
           Some n \<Rightarrow> n | None \<Rightarrow> parseParallelArg rest))"

definition padTo256 :: "int \<Rightarrow> int" where
  "padTo256 n = ((n + 256 - 1) div 256) * 256"

section \<open>The estimate\<close>

definition headDim :: "int \<Rightarrow> gguf_meta \<Rightarrow> int" where
  "headDim len meta = (if len \<le> 0 \<and> gg_headCount meta > 0 \<and> gg_embedding meta > 0
     then gg_embedding meta div gg_headCount meta else len)"

definition windowCells :: "int \<Rightarrow> int \<Rightarrow> int" where
  "windowCells window nCtx =
     (if window \<le> 0 \<or> window > nCtx then nCtx
      else if padTo256 window > nCtx then nCtx else padTo256 window)"

definition layerBytes32 ::
    "gguf_meta \<Rightarrow> int \<Rightarrow> int \<Rightarrow> int \<Rightarrow> bool \<Rightarrow> int \<Rightarrow> int \<Rightarrow> nat \<Rightarrow> int" where
  "layerBytes32 meta nCtx k32 v32 swaFull keyLen valLen il =
     (let isSWA = (int (length (gg_swaPattern meta)) = gg_blockCount meta \<and> gg_swaPattern meta ! il);
          hdK = (if isSWA \<and> gg_keyLengthSWA meta > 0 then gg_keyLengthSWA meta else keyLen);
          hdV = (if isSWA \<and> gg_valueLengthSWA meta > 0 then gg_valueLengthSWA meta else valLen);
          cells = (if isSWA \<and> \<not> swaFull then windowCells (gg_slidingWindow meta) nCtx else nCtx)
      in cells * (gg_headCountKV meta ! il) * (hdK * k32 + hdV * v32))"

definition kvCacheBytes :: "gguf_meta \<Rightarrow> int \<Rightarrow> int \<Rightarrow> int \<Rightarrow> bool \<Rightarrow> int option" where
  "kvCacheBytes meta nCtx k32 v32 swaFull =
     (if gg_hybrid meta \<or> gg_blockCount meta \<le> 0 \<or> nCtx \<le> 0 then None
      else if int (length (gg_headCountKV meta)) \<noteq> gg_blockCount meta then None
      else
        let keyLen = headDim (gg_keyLength meta) meta; valLen = headDim (gg_valueLength meta) meta in
        if keyLen \<le> 0 \<or> valLen \<le> 0 then None
        else Some ((\<Sum>il \<leftarrow> [0 ..< nat (gg_blockCount meta)].
               layerBytes32 meta nCtx k32 v32 swaFull keyLen valLen il) div 32))"

definition modeWeightBytes :: "'h host \<Rightarrow> engine_config \<Rightarrow> model \<Rightarrow> 'h \<Rightarrow> int" where
  "modeWeightBytes ho cfg m h =
     (case modeOf cfg m of None \<Rightarrow> 0
      | Some mode \<Rightarrow>
        (case mc_services mode of [] \<Rightarrow> 0
         | svc # _ \<Rightarrow> ho_weights ho
             (if sv_model svc \<noteq> [] then resolveModelPath cfg (sv_model svc) else [])
             (if sv_mmproj svc \<noteq> [] then resolveModelPath cfg (sv_mmproj svc) else []) h))"

definition kvAwareNeedBytes :: "'h host \<Rightarrow> engine_config \<Rightarrow> model \<Rightarrow> 'h \<Rightarrow> int option" where
  "kvAwareNeedBytes ho cfg m h =
     (case modeOf cfg m of None \<Rightarrow> None
      | Some mode \<Rightarrow>
        (case mc_services mode of [] \<Rightarrow> None
         | svc # _ \<Rightarrow>
           if sv_model svc = [] then None
           else
             (case ho_gguf ho (resolveModelPath cfg (sv_model svc)) h of None \<Rightarrow> None
              | Some meta \<Rightarrow>
                let c = sv_context svc div parseParallelArg (sv_extraArgs svc);
                    nCtx = (if c \<le> 0 then sv_context svc else c);
                    (kName, vName) = parseCacheTypes (sv_extraArgs svc) in
                (case (cacheBytes32 kName, cacheBytes32 vName) of
                   (Some k32, Some v32) \<Rightarrow>
                     (case kvCacheBytes meta nCtx k32 v32 (hasFlag (sv_extraArgs svc) ''--swa-full'') of
                        None \<Rightarrow> None
                      | Some kv \<Rightarrow>
                        let w = modeWeightBytes ho cfg m h in
                        if w \<le> 0 then None else Some (w + kv))
                 | _ \<Rightarrow> None))))"

section \<open>Lemmas\<close>

lemma padTo256_bounds: "n \<le> padTo256 n \<and> padTo256 n < n + 256 \<and> 256 dvd padTo256 n"
proof -
  have "padTo256 n = n + 255 - (n + 255) mod 256"
    by (simp add: padTo256_def minus_mod_eq_div_mult)
  moreover have "0 \<le> (n + 255) mod 256" "(n + 255) mod 256 < 256" by simp_all
  ultimately have "n \<le> padTo256 n \<and> padTo256 n < n + 256" by linarith
  then show ?thesis by (simp add: padTo256_def)
qed

lemma windowCells_bounds: "0 < nCtx \<Longrightarrow> 0 < windowCells w nCtx \<and> windowCells w nCtx \<le> nCtx"
  using padTo256_bounds [of w] by (auto simp: windowCells_def)

lemma windowCells_covers: "0 < w \<Longrightarrow> w \<le> nCtx \<Longrightarrow> w \<le> windowCells w nCtx"
  using padTo256_bounds [of w] by (auto simp: windowCells_def)

lemma cacheBytes32_pos: "cacheBytes32 t = Some b \<Longrightarrow> 0 < b \<and> b \<le> 128"
  by (auto simp: cacheBytes32_def split: if_splits)

lemma parallel_pos: "1 \<le> parseParallelArg args"
  by (induction args) (auto simp: positive_int_def afterPrefix_def split: option.splits list.splits if_splits)

lemma layer_bounds:
  assumes "0 < nCtx" and "0 \<le> k32" and "0 \<le> v32" and "0 < keyLen" and "0 < valLen"
    and "0 \<le> gg_headCountKV meta ! il"
  shows "0 \<le> layerBytes32 meta nCtx k32 v32 swa keyLen valLen il"
    and "layerBytes32 meta nCtx k32 v32 swa keyLen valLen il \<le>
         layerBytes32 meta nCtx k32 v32 True keyLen valLen il"
proof -
  let ?hd = "\<lambda>a b. (if int (length (gg_swaPattern meta)) = gg_blockCount meta \<and> gg_swaPattern meta ! il \<and> 0 < a
    then a else b)"
  let ?m = "gg_headCountKV meta ! il *
    (?hd (gg_keyLengthSWA meta) keyLen * k32 + ?hd (gg_valueLengthSWA meta) valLen * v32)"
  have m: "0 \<le> ?m" using assms by (intro mult_nonneg_nonneg add_nonneg_nonneg) auto
  have eq: "\<exists>c. layerBytes32 meta nCtx k32 v32 s keyLen valLen il = c * ?m \<and> 0 \<le> c \<and> c \<le> nCtx \<and>
      (s \<longrightarrow> c = nCtx)" for s
    using windowCells_bounds [OF assms(1)] assms(1)
    by (intro exI [of _ "if (int (length (gg_swaPattern meta)) = gg_blockCount meta \<and>
          gg_swaPattern meta ! il) \<and> \<not> s then windowCells (gg_slidingWindow meta) nCtx else nCtx"])
      (simp add: layerBytes32_def Let_def mult.assoc less_imp_le)
  obtain c where c: "layerBytes32 meta nCtx k32 v32 swa keyLen valLen il = c * ?m" "0 \<le> c" "c \<le> nCtx"
    using eq by blast
  have full: "layerBytes32 meta nCtx k32 v32 True keyLen valLen il = nCtx * ?m" using eq [of True] by auto
  show "0 \<le> layerBytes32 meta nCtx k32 v32 swa keyLen valLen il"
    using c m by simp
  show "layerBytes32 meta nCtx k32 v32 swa keyLen valLen il \<le>
      layerBytes32 meta nCtx k32 v32 True keyLen valLen il"
    unfolding c full using c m by (intro mult_right_mono) auto
qed

lemma kvCache_windowed_le:
  assumes "kvCacheBytes meta n k32 v32 swa = Some b" and "0 \<le> k32" and "0 \<le> v32"
    and "\<And>x. x \<in> set (gg_headCountKV meta) \<Longrightarrow> 0 \<le> x"
  shows "\<exists>b'. kvCacheBytes meta n k32 v32 True = Some b' \<and> 0 \<le> b \<and> b \<le> b'"
proof -
  let ?K = "headDim (gg_keyLength meta) meta" let ?V = "headDim (gg_valueLength meta) meta"
  let ?ils = "[0 ..< nat (gg_blockCount meta)]"
  let ?sum = "\<lambda>s. \<Sum>il \<leftarrow> ?ils. layerBytes32 meta n k32 v32 s ?K ?V il"
  have g: "0 < n" "0 < ?K" "0 < ?V" "int (length (gg_headCountKV meta)) = gg_blockCount meta"
    and b: "b = ?sum swa div 32" and full: "kvCacheBytes meta n k32 v32 True = Some (?sum True div 32)"
    using assms(1) by (auto simp: kvCacheBytes_def Let_def split: if_splits)
  have heads: "0 \<le> gg_headCountKV meta ! il" if "il \<in> set ?ils" for il
    using that g(4) by (intro assms(4) nth_mem) auto
  have "?sum swa \<le> ?sum True"
    using layer_bounds(2) [OF g(1) assms(2,3) g(2,3) heads] by (intro sum_list_mono) blast
  moreover have "0 \<le> ?sum swa"
    using layer_bounds(1) [OF g(1) assms(2,3) g(2,3) heads] by (intro sum_list_nonneg) auto
  ultimately show ?thesis using b full by (simp add: zdiv_mono1)
qed

end
