(* ===== verification/Engine_Memory.thy ===== *)
theory Engine_Memory
  imports Kv_Cache
begin

text \<open>
  engine/memory.go: the live memory budget, the need estimate of a mode, and the
  eviction-aware fit check \<open>FitPlan\<close>.  Bytes are integers; the code's float64 figures are
  whole numbers of bytes below 2^53.
\<close>

section \<open>Identity and budget\<close>

definition weightIdentity :: "engine_config \<Rightarrow> model \<Rightarrow> string" where
  "weightIdentity cfg m =
     (case modeOf cfg m of None \<Rightarrow> []
      | Some mode \<Rightarrow>
        (case mc_services mode of [] \<Rightarrow> []
         | svc # _ \<Rightarrow>
           if sv_model svc = [] then []
           else path_clean (resolveModelPath cfg (sv_model svc)) @
             (if sv_mmproj svc \<noteq> [] then ''|'' @ path_clean (resolveModelPath cfg (sv_mmproj svc)) else [])))"

definition hostReserveBytes :: int where
  "hostReserveBytes = 8 * 2 ^ 30"

record budget =
  bu_total :: int
  bu_used :: int
  bu_free :: int

definition slotRSSBytes :: "'h host \<Rightarrow> engine_config \<Rightarrow> (slot \<rightharpoonup> slot_assignment) \<Rightarrow> 'h \<Rightarrow> int" where
  "slotRSSBytes ho cfg slots h =
     (let counted = (\<lambda>n. case slots n of None \<Rightarrow> False
            | Some a \<Rightarrow> sa_mode a \<noteq> [] \<and>
                (case modeOf cfg (sa_mode a) of None \<Rightarrow> False | Some mode \<Rightarrow> mc_services mode \<noteq> []));
          ports = map (\<lambda>(n, sc). sc_port sc) (filter (\<lambda>(n, sc). counted n) (ec_slots cfg)) in
      if ports = [] then 0
      else sum_list (map (\<lambda>pid. ho_rss ho pid h)
             (filter (\<lambda>pid. case ho_portArg ho pid h of None \<Rightarrow> False | Some p \<Rightarrow> p \<in> set ports)
               (ho_byComm ho ''llama-server'' h))))"

definition budgetFree :: "int \<Rightarrow> int \<Rightarrow> int \<Rightarrow> int" where
  "budgetFree tot used available =
     (let free = tot - used;
          capped = (if available > 0 \<and> free > available - hostReserveBytes
                    then available - hostReserveBytes else free)
      in if capped < 0 then 0 else capped)"

definition memoryBudget :: "'h host \<Rightarrow> engine_config \<Rightarrow> 'h manager \<Rightarrow> budget \<times> 'h manager" where
  "memoryBudget ho cfg w =
     (let h = mg_host w;
          tot = (case ho_gttTotal ho h of None \<Rightarrow> 0 | Some b \<Rightarrow> b);
          gtt = (case ho_gttUsed ho h of None \<Rightarrow> 0 | Some b \<Rightarrow> b);
          (slots, w') = reconcileLive ho cfg w;
          used = gtt + slotRSSBytes ho cfg slots h
      in (\<lparr>bu_total = tot, bu_used = used, bu_free = budgetFree tot used (ho_memAvailable ho h)\<rparr>, w'))"

section \<open>Need and footprints\<close>

definition atLeast_kv :: "int option \<Rightarrow> int \<Rightarrow> int" where
  "atLeast_kv kv b = (case kv of None \<Rightarrow> b | Some k \<Rightarrow> if k > b then k else b)"

text \<open>A figure from one of the estimators counts when it is positive.\<close>

definition positive :: "int option \<Rightarrow> int option" where
  "positive b = (case b of None \<Rightarrow> None | Some n \<Rightarrow> if n > 0 then Some n else None)"

definition modeNeedEstimate :: "'h host \<Rightarrow> engine_config \<Rightarrow> model \<Rightarrow> 'h \<Rightarrow> int option" where
  "modeNeedEstimate ho cfg m h =
     (case modeOf cfg m of None \<Rightarrow> None
      | Some mode \<Rightarrow>
        (case positive (ho_profile ho m h) of
           Some b \<Rightarrow> Some b
         | None \<Rightarrow>
           let kv = kvAwareNeedBytes ho cfg m h in
           (case (if mc_configID mode \<noteq> 0 then positive (ho_estimate ho (mc_configID mode) h) else None) of
              Some b \<Rightarrow> Some (atLeast_kv kv b)
            | None \<Rightarrow>
              let weight = modeWeightBytes ho cfg m h in
              if weight > 0 then Some (atLeast_kv kv weight) else kv)))"

definition liveSlotFootprintBytes :: "'h host \<Rightarrow> engine_config \<Rightarrow> slot \<Rightarrow> 'h \<Rightarrow> int" where
  "liveSlotFootprintBytes ho cfg s h =
     (case slotOf cfg s of None \<Rightarrow> 0
      | Some sc \<Rightarrow>
        if sc_unit sc = [] then 0
        else (case ho_mainPID ho (sc_unit sc) h of None \<Rightarrow> 0
              | Some pid \<Rightarrow> if pid = 0 then 0 else ho_gpuMemory ho pid h))"

definition slotFootprintBytes :: "'h host \<Rightarrow> engine_config \<Rightarrow> slot \<Rightarrow> 'h \<Rightarrow> int" where
  "slotFootprintBytes ho cfg s h =
     (let live = liveSlotFootprintBytes ho cfg s h in
      if live > 0 then live
      else let env = readSlotEnv ho cfg s h in
        ho_weights ho (env_get env ''FORGE_MODEL_PATH'') (env_get env ''FORGE_MMPROJ'') h)"

section \<open>The fit check\<close>

text \<open>Evict in order until the budget covers the need: the slots and the bytes recovered.\<close>

fun evictUntil :: "int \<Rightarrow> int \<Rightarrow> (slot \<times> int) list \<Rightarrow> slot list \<times> int" where
  "evictUntil need avail [] = ([], 0)"
| "evictUntil need avail ((s, f) # cs) =
     (if avail \<ge> need then ([], 0)
      else let (evict, recovered) = evictUntil need (avail + f) cs in (s # evict, f + recovered))"

definition first_or_none :: "slot list \<Rightarrow> slot" where
  "first_or_none xs = (case xs of [] \<Rightarrow> [] | x # _ \<Rightarrow> x)"

definition fitDecision ::
    "model \<Rightarrow> int \<Rightarrow> int \<Rightarrow> slot list \<Rightarrow> (slot \<times> int) list \<Rightarrow> int option \<Rightarrow> plan" where
  "fitDecision m need avail freeSlots loaded comfyProbe =
     (let base = \<lparr>p_fits = False, p_need = need, p_free = avail, p_slot = [], p_evict = [],
           p_evictComfy = False, p_comfyBytes = 0, p_message = MsgFitsNow\<rparr> in
      if need \<le> avail then base\<lparr>p_fits := True, p_slot := first_or_none freeSlots\<rparr>
      else
        (let (evict, slotBytes) = evictUntil need avail (sort_key (\<lambda>(s, f). (f, s)) loaded);
             comfyBytes = (if avail + slotBytes < need
               then (case comfyProbe of None \<Rightarrow> 0 | Some fp \<Rightarrow> if fp > 0 then fp else 0) else 0);
             recovered = slotBytes + comfyBytes in
         if avail + recovered \<ge> need then
           (if comfyBytes > 0 then
              (let p = base\<lparr>p_evict := evict, p_evictComfy := True, p_comfyBytes := comfyBytes,
                     p_message := MsgNeedsEvictedAndComfy evict\<rparr> in
               if evict \<noteq> [] then p\<lparr>p_slot := hd evict\<rparr>
               else if freeSlots \<noteq> [] then
                 p\<lparr>p_fits := True, p_slot := hd freeSlots, p_message := MsgFitsAfterComfy\<rparr>
               else p)
            else base\<lparr>p_evict := evict, p_slot := hd evict, p_message := MsgNeedsEvicted evict\<rparr>)
         else base\<lparr>p_message := MsgNotEnoughVRAM m need avail recovered (comfyBytes > 0)
           (comfyBytes = 0 \<and> (comfyProbe = None \<or> comfyProbe = Some 0))\<rparr>))"

definition slot_idle :: "slot_assignment \<Rightarrow> bool" where
  "slot_idle a \<longleftrightarrow> sa_mode a = [] \<and> sa_unloading a = None \<and> sa_loading a = None"

definition inFlightBytes ::
    "'h host \<Rightarrow> engine_config \<Rightarrow> model \<Rightarrow> (slot \<rightharpoonup> slot_assignment) \<Rightarrow> 'h \<Rightarrow> int" where
  "inFlightBytes ho cfg m slots h =
     sum_list (map (\<lambda>n.
       (case sa_loading (assigned slots n) of None \<Rightarrow> 0
        | Some t \<Rightarrow>
          if tn_mode t \<noteq> [] \<and> tn_mode t \<noteq> m then
            (case modeNeedEstimate ho cfg (tn_mode t) h of None \<Rightarrow> 0 | Some est \<Rightarrow> est)
          else 0)) (slotNames cfg))"

definition fitPlan :: "'h host \<Rightarrow> engine_config \<Rightarrow> model \<Rightarrow> 'h manager \<Rightarrow> (string + plan) \<times> 'h manager" where
  "fitPlan ho cfg m w =
     (let none = \<lparr>p_fits = False, p_need = 0, p_free = 0, p_slot = [], p_evict = [],
           p_evictComfy = False, p_comfyBytes = 0, p_message = MsgUnknownMode m\<rparr> in
      if modeOf cfg m = None then (Inr none, w)
      else
        (let h = mg_host w; (budget, w1) = memoryBudget ho cfg w in
         case modeNeedEstimate ho cfg m h of
           None \<Rightarrow> (Inr (none\<lparr>p_free := bu_free budget, p_message := MsgCannotSize m\<rparr>), w1)
         | Some need \<Rightarrow>
           (let (slots, w2) = reconcileLive ho cfg w1;
                names = slotNames cfg;
                freeSlots = filter (\<lambda>n. slot_idle (assigned slots n)) names;
                avail = bu_free budget - inFlightBytes ho cfg m slots h;
                loaded = map (\<lambda>n. (n, slotFootprintBytes ho cfg n h))
                  (filter (\<lambda>n. sa_mode (assigned slots n) \<noteq> []) names);
                comfy = map_option (\<lambda>f. f h) (ho_comfyBytes ho)
            in (Inr (fitDecision m need avail freeSlots loaded comfy), w2))))"

record can_fit =
  cf_fits :: bool
  cf_required :: int
  cf_free :: int
  cf_reason :: message

definition canFit :: "'h host \<Rightarrow> engine_config \<Rightarrow> model \<Rightarrow> 'h manager \<Rightarrow> (string + can_fit) \<times> 'h manager" where
  "canFit ho cfg m w =
     (case fitPlan ho cfg m w of
        (Inl e, w') \<Rightarrow> (Inl e, w')
      | (Inr p, w') \<Rightarrow>
        (Inr \<lparr>cf_fits = p_fits p, cf_required = p_need p, cf_free = p_free p,
              cf_reason = (if p_fits p then MsgNone else p_message p)\<rparr>, w'))"

section \<open>Lemmas\<close>

definition recoverable :: "(slot \<times> int) list \<Rightarrow> int" where
  "recoverable cs = sum_list (map snd cs)"

lemma recoverable_simps [simp]:
  "recoverable [] = 0" "recoverable (c # cs) = snd c + recoverable cs"
  "recoverable (xs @ ys) = recoverable xs + recoverable ys"
  by (simp_all add: recoverable_def)

text \<open>The evicted slots are a prefix of the candidates; it covers the need unless it is the whole
  list, and no shorter one does.\<close>

definition evict_split ::
    "int \<Rightarrow> int \<Rightarrow> (slot \<times> int) list \<Rightarrow> slot list \<Rightarrow> int \<Rightarrow> nat \<Rightarrow> bool" where
  "evict_split need avail cs evict r k \<longleftrightarrow>
     k \<le> length cs \<and> evict = map fst (take k cs) \<and> r = recoverable (take k cs) \<and>
     (need \<le> avail + r \<or> k = length cs) \<and> (\<forall>j < k. avail + recoverable (take j cs) < need)"

lemma evict_split_0: "need \<le> avail \<or> cs = [] \<Longrightarrow> evict_split need avail cs [] 0 0"
  by (auto simp: evict_split_def)

lemma evict_split_Suc:
  assumes k: "evict_split need (avail + f) cs evict r k" and less: "avail < need"
  shows "evict_split need avail ((s, f) # cs) (s # evict) (f + r) (Suc k)"
proof -
  have "avail + recoverable (take j ((s, f) # cs)) < need" if "j < Suc k" for j
  proof (cases j)
    case (Suc i)
    then have "avail + f + recoverable (take i cs) < need" using k that by (simp add: evict_split_def)
    with Suc show ?thesis by (simp add: add.assoc)
  qed (use less in simp)
  then show ?thesis using k by (auto simp: evict_split_def)
qed

lemma evictUntil_split:
  "evictUntil need avail cs = (evict, r) \<Longrightarrow> \<exists>k. evict_split need avail cs evict r k"
proof (induction cs arbitrary: avail evict r)
  case Nil
  then show ?case using evict_split_0 [of need avail "[]"] by auto
next
  case (Cons c cs)
  obtain s f where c: "c = (s, f)" by (rule prod.exhaust)
  show ?case
  proof (cases "need \<le> avail")
    case True
    with Cons.prems c show ?thesis using evict_split_0 [of need avail "c # cs"] by auto
  next
    case False
    obtain e' r' where e: "evictUntil need (avail + f) cs = (e', r')" by (rule prod.exhaust)
    from Cons.IH [OF e] obtain k where "evict_split need (avail + f) cs e' r' k" by blast
    then have "evict_split need avail (c # cs) (s # e') (f + r') (Suc k)"
      using evict_split_Suc False c by auto
    with False Cons.prems e c show ?thesis by auto
  qed
qed

lemma recoverable_nonneg: "(\<And>s f. (s, f) \<in> set cs \<Longrightarrow> 0 \<le> f) \<Longrightarrow> 0 \<le> recoverable cs"
  unfolding recoverable_def by (intro sum_list_nonneg) auto

lemma recoverable_sort [simp]: "recoverable (sort_key k cs) = recoverable cs"
proof -
  have "recoverable xs = sum_mset (image_mset snd (mset xs))" for xs :: "(slot \<times> int) list"
    by (simp add: recoverable_def sum_mset_sum_list [symmetric])
  then show ?thesis by simp
qed

lemma evict_not_Nil:
  assumes "evictUntil need avail cs = (evict, r)" and "avail < need" and "need \<le> avail + r"
  shows "evict \<noteq> []"
  using assms by (cases cs) (auto split: prod.splits)

lemma atLeast_kv_ge: "kv = Some k \<Longrightarrow> k \<le> atLeast_kv kv b" "b \<le> atLeast_kv kv b"
  by (simp_all add: atLeast_kv_def split: option.splits)

lemma budgetFree_bounds:
  "0 \<le> budgetFree t u a \<and> (budgetFree t u a > 0 \<longrightarrow> budgetFree t u a \<le> t - u \<and>
     (0 < a \<longrightarrow> budgetFree t u a + hostReserveBytes \<le> a))"
  by (auto simp: budgetFree_def Let_def)

definition comfy_gain :: "int option \<Rightarrow> int" where
  "comfy_gain c = (case c of None \<Rightarrow> 0 | Some fp \<Rightarrow> if fp > 0 then fp else 0)"

definition evict_order :: "(slot \<times> int) list \<Rightarrow> (slot \<times> int) list" where
  "evict_order loaded = sort_key (\<lambda>(s, f). (f, s)) loaded"

lemma recoverable_order [simp]: "recoverable (evict_order cs) = recoverable cs"
  by (simp add: evict_order_def)

lemma recoverable_take_le:
  assumes "\<And>s f. (s, f) \<in> set cs \<Longrightarrow> 0 \<le> f"
  shows "recoverable (take k cs) \<le> recoverable cs"
proof -
  have "0 \<le> recoverable (drop k cs)"
    using assms by (intro recoverable_nonneg) (blast dest: in_set_dropD)
  moreover have "recoverable cs = recoverable (take k cs) + recoverable (drop k cs)"
    by (metis append_take_drop_id recoverable_simps(3))
  ultimately show ?thesis by simp
qed

text \<open>What the decision is, by the outcome of the eviction scan.\<close>

lemma fitDecision_scan:
  assumes less: "avail < need" and p: "p = fitDecision m need avail free loaded comfy"
  shows "\<exists>evict r k. evict_split need avail (evict_order loaded) evict r k \<and>
    (need \<le> avail + r \<longrightarrow> evict \<noteq> [] \<and> p_evict p = evict \<and> \<not> p_evictComfy p \<and> \<not> p_fits p \<and>
       p_comfyBytes p = 0) \<and>
    (avail + r < need \<longrightarrow> need \<le> avail + r + comfy_gain comfy \<longrightarrow>
       p_evict p = evict \<and> p_evictComfy p \<and> p_comfyBytes p = comfy_gain comfy) \<and>
    (avail + r + comfy_gain comfy < need \<longrightarrow> p_evict p = [] \<and> \<not> p_evictComfy p \<and> \<not> p_fits p)"
proof -
  obtain evict r where e: "evictUntil need avail (evict_order loaded) = (evict, r)" by (rule prod.exhaust)
  then have e': "evictUntil need avail (sort_key (\<lambda>(s, f). (f, s)) loaded) = (evict, r)"
    by (simp add: evict_order_def)
  obtain k where k: "evict_split need avail (evict_order loaded) evict r k"
    using evictUntil_split [OF e] by blast
  have gain: "0 \<le> comfy_gain comfy" by (simp add: comfy_gain_def split: option.splits)
  have cg: "(case comfy of None \<Rightarrow> 0 | Some fp \<Rightarrow> if fp > 0 then fp else 0) = comfy_gain comfy"
    by (simp add: comfy_gain_def)
  note d = p [unfolded fitDecision_def e' Let_def split_conv cg]
  have "evict \<noteq> [] \<and> p_evict p = evict \<and> \<not> p_evictComfy p \<and> \<not> p_fits p \<and> p_comfyBytes p = 0"
    if c: "need \<le> avail + r"
    using evict_not_Nil [OF e less c] less c unfolding d by simp
  moreover have "p_evict p = evict \<and> p_evictComfy p \<and> p_comfyBytes p = comfy_gain comfy"
    if "avail + r < need" "need \<le> avail + r + comfy_gain comfy"
    using that less unfolding d by simp
  moreover have "p_evict p = [] \<and> \<not> p_evictComfy p \<and> \<not> p_fits p"
    if "avail + r + comfy_gain comfy < need"
    using that less gain unfolding d by simp
  ultimately show ?thesis using k by blast
qed

lemma fitDecision_fits:
  "need \<le> avail \<Longrightarrow> p_fits (fitDecision m need avail free loaded comfy) \<and>
     p_evict (fitDecision m need avail free loaded comfy) = [] \<and>
     \<not> p_evictComfy (fitDecision m need avail free loaded comfy)"
  by (simp add: fitDecision_def)

lemma split_short:
  assumes "evict_split need avail cs evict r k" and "avail + r < need"
  shows "r = recoverable cs"
  using assms by (auto simp: evict_split_def)

section \<open>Properties\<close>

text \<open>The eviction plan frees enough and no more than needed.  When a load does not fit, the
  slots the plan evicts are the smallest footprints first, together with what stopping
  ComfyUI frees they cover the need, and evicting one slot less would not.\<close>

theorem eviction_plan_minimal:
  assumes "avail < need" and "p = fitDecision m need avail free loaded comfy" and "p_evict p \<noteq> []"
  shows "\<exists>k. p_evict p = map fst (take (Suc k) (evict_order loaded)) \<and> k < length loaded \<and>
    need \<le> avail + recoverable (take (Suc k) (evict_order loaded)) + p_comfyBytes p \<and>
    avail + recoverable (take k (evict_order loaded)) < need"
proof -
  obtain evict r k where k: "evict_split need avail (evict_order loaded) evict r k"
    and full: "need \<le> avail + r \<Longrightarrow> p_evict p = evict \<and> p_comfyBytes p = 0"
    and comfy: "avail + r < need \<Longrightarrow> need \<le> avail + r + comfy_gain comfy \<Longrightarrow>
       p_evict p = evict \<and> p_comfyBytes p = comfy_gain comfy"
    and none: "avail + r + comfy_gain comfy < need \<Longrightarrow> p_evict p = []"
    using fitDecision_scan [OF assms(1,2)] by blast
  have e: "p_evict p = evict" and cover: "need \<le> avail + r + p_comfyBytes p"
    using full comfy none assms(3) by (metis add_0_right not_le)+
  have "length evict = k" and len: "k \<le> length loaded"
    using k by (auto simp: evict_split_def evict_order_def)
  with e assms(3) obtain j where j: "k = Suc j" by (cases k) auto
  show ?thesis
    using k j e cover len by (intro exI [of _ j]) (auto simp: evict_split_def)
qed

theorem eviction_plan_minimal_witness:
  "\<exists>k. [''a2''] = map fst (take (Suc k) (evict_order [(''a1'', 9), (''a2'', 5)])) \<and>
     10 \<le> (6 :: int) + recoverable (take (Suc k) (evict_order [(''a1'', 9), (''a2'', 5)])) + 0 \<and>
     6 + recoverable (take k (evict_order [(''a1'', 9), (''a2'', 5)])) < 10"
proof -
  have p: "p_evict (fitDecision ''m'' 10 6 [] [(''a1'', 9), (''a2'', 5)] None) = [''a2'']"
    "p_comfyBytes (fitDecision ''m'' 10 6 [] [(''a1'', 9), (''a2'', 5)] None) = 0"
    by (simp_all add: fitDecision_def)
  have "\<exists>k. p_evict (fitDecision ''m'' 10 6 [] [(''a1'', 9), (''a2'', 5)] None) =
      map fst (take (Suc k) (evict_order [(''a1'', 9), (''a2'', 5)])) \<and>
      k < length [(''a1'', 9 :: int), (''a2'', 5)] \<and>
      10 \<le> 6 + recoverable (take (Suc k) (evict_order [(''a1'', 9), (''a2'', 5)])) +
        p_comfyBytes (fitDecision ''m'' 10 6 [] [(''a1'', 9), (''a2'', 5)] None) \<and>
      6 + recoverable (take k (evict_order [(''a1'', 9), (''a2'', 5)])) < 10"
    by (rule eviction_plan_minimal [OF _ refl]) (simp_all add: p)
  then show ?thesis unfolding p by (elim exE conjE) (intro exI conjI)
qed

text \<open>C33: the fit check refuses only what cannot fit.  A plan without eviction and without stopping
  ComfyUI either fits right away, exactly when the need is within the available memory, or is
  the final refusal, exactly when evicting every loaded slot and stopping ComfyUI together
  would still leave too little.\<close>

theorem fit_refusal_exact:
  assumes "list_all (\<lambda>(s, f). 0 \<le> f) loaded" and "p = fitDecision m need avail free loaded comfy"
  shows "(p_fits p \<and> \<not> p_evictComfy p \<longleftrightarrow> need \<le> avail) \<and>
    (\<not> p_fits p \<and> p_evict p = [] \<and> \<not> p_evictComfy p \<longleftrightarrow>
       avail < need \<and> avail + recoverable loaded + comfy_gain comfy < need)"
proof (cases "need \<le> avail")
  case True
  then show ?thesis using fitDecision_fits [OF True] assms(2) by auto
next
  case False
  then have less: "avail < need" by simp
  have nonneg: "\<And>s f. (s, f) \<in> set loaded \<Longrightarrow> 0 \<le> f" using assms(1) by (auto simp: list_all_iff)
  obtain evict r k where k: "evict_split need avail (evict_order loaded) evict r k"
    and full: "need \<le> avail + r \<Longrightarrow> evict \<noteq> [] \<and> p_evict p = evict \<and> \<not> p_evictComfy p \<and> \<not> p_fits p"
    and comfy: "avail + r < need \<Longrightarrow> need \<le> avail + r + comfy_gain comfy \<Longrightarrow> p_evictComfy p"
    and none: "avail + r + comfy_gain comfy < need \<Longrightarrow> p_evict p = [] \<and> \<not> p_evictComfy p \<and> \<not> p_fits p"
    using fitDecision_scan [OF less assms(2)] by blast
  have gain: "0 \<le> comfy_gain comfy" by (simp add: comfy_gain_def split: option.splits)
  have "0 \<le> f" if "(s, f) \<in> set (evict_order loaded)" for s f
    using that nonneg by (simp add: evict_order_def)
  then have "r \<le> recoverable loaded"
    using k recoverable_take_le [of "evict_order loaded" k] by (simp add: evict_split_def)
  consider "need \<le> avail + r" | "avail + r < need" "need \<le> avail + r + comfy_gain comfy"
    | "avail + r + comfy_gain comfy < need" "avail + r < need" using gain by linarith
  then show ?thesis
  proof cases
    case 1
    then show ?thesis using full \<open>r \<le> recoverable loaded\<close> gain less by auto
  next
    case 2
    then show ?thesis using comfy split_short [OF k] less by auto
  next
    case 3
    then show ?thesis using none split_short [OF k] less by auto
  qed
qed

theorem fit_refusal_exact_witness:
  "\<not> p_fits (fitDecision ''m'' 100 6 [] [(''a1'', 9), (''a2'', 5)] (Some 7)) \<and>
   6 + recoverable [(''a1'', 9), (''a2'', 5)] + comfy_gain (Some 7) < 100"
  using fit_refusal_exact [OF _ refl, of "[(''a1'', 9), (''a2'', 5)]" "''m''" 100 6 "[]" "Some 7"]
  by (simp add: comfy_gain_def)

text \<open>No optimistic figure undercuts what the metadata shows.  Without a profiled measurement
  the need of a mode is at least the weights-plus-KV-cache floor whenever this is computable,
  and at least the curated figure of the catalog when there is one.\<close>

theorem need_covers_kv_floor:
  assumes "kvAwareNeedBytes ho cfg m h = Some k" and "positive (ho_profile ho m h) = None"
  shows "\<exists>n. modeNeedEstimate ho cfg m h = Some n \<and> k \<le> n \<and>
    (\<exists>mode. modeOf cfg m = Some mode \<and>
       (\<forall>b. mc_configID mode \<noteq> 0 \<and> positive (ho_estimate ho (mc_configID mode) h) = Some b \<longrightarrow> b \<le> n))"
proof -
  obtain mode where mode: "modeOf cfg m = Some mode"
    using assms(1) by (cases "modeOf cfg m") (auto simp: kvAwareNeedBytes_def)
  show ?thesis
    using assms atLeast_kv_ge(1) [OF assms(1)]
    by (auto simp: modeNeedEstimate_def mode Let_def atLeast_kv_def split: option.splits if_splits)
qed

text \<open>The free memory the fit check plans with is never negative, never more than the GPU
  counters leave, and always leaves 8 GiB of what the kernel reports available.\<close>

theorem budget_keeps_reserve:
  assumes "memoryBudget ho cfg w = (b, w')" and "0 < ho_memAvailable ho (mg_host w)"
  shows "0 \<le> bu_free b \<and> (bu_free b = 0 \<or> bu_free b \<le> bu_total b - bu_used b \<and>
     bu_free b + 8589934592 \<le> ho_memAvailable ho (mg_host w))"
  using assms budgetFree_bounds [of "bu_total b" "bu_used b" "ho_memAvailable ho (mg_host w)"]
  by (auto simp: memoryBudget_def Let_def hostReserveBytes_def split: prod.splits)

definition sample_gguf :: gguf_meta where
  "sample_gguf = \<lparr>gg_blockCount = 2, gg_embedding = 4096, gg_headCount = 32, gg_headCountKV = [8, 8],
     gg_keyLength = 128, gg_valueLength = 128, gg_keyLengthSWA = 0, gg_valueLengthSWA = 0,
     gg_slidingWindow = 1024, gg_swaPattern = [True, False], gg_hybrid = False\<rparr>"

definition kv_host :: "sim host" where
  "kv_host = sim_host\<lparr>ho_gguf := (\<lambda>p h. Some sample_gguf)\<rparr>"

lemma sample_kv: "kvAwareNeedBytes kv_host sample_config ''m1'' sample_sim = Some 10758389760"
  by (simp add: kvAwareNeedBytes_def modeOf_def sample_config_def sample_mode_def sample_service_def
      kv_host_def sim_host_def sample_gguf_def parseCacheTypes_def cacheBytes32_def hasFlag_def
      kvCacheBytes_def headDim_def layerBytes32_def windowCells_def padTo256_def modeWeightBytes_def
      Let_def upt_rec)

theorem need_covers_kv_floor_witness:
  "\<exists>n. modeNeedEstimate kv_host sample_config ''m1'' sample_sim = Some n \<and> 10758389760 \<le> n"
  using need_covers_kv_floor [OF sample_kv] by (auto simp: kv_host_def sim_host_def positive_def)

theorem budget_keeps_reserve_witness:
  "bu_free (fst (memoryBudget sim_host sample_config (newManager sim_host sample_config sample_sim)))
     \<le> 107374182400"
proof -
  obtain b w' where b: "memoryBudget sim_host sample_config (newManager sim_host sample_config sample_sim)
    = (b, w')" by (rule prod.exhaust)
  have avail: "ho_memAvailable sim_host h = 107374182400" for h by (simp add: sim_host_def)
  from budget_keeps_reserve [OF b] show ?thesis by (auto simp: b avail)
qed

text \<open>The KV-cache estimate is well behaved.  When it is computable it is not negative, and
  counting sliding-window layers by their window never exceeds the full-context figure.\<close>

theorem kv_estimate_bounds:
  assumes "kvCacheBytes meta n k32 v32 swa = Some b"
    and "cacheBytes32 kt = Some k32" and "cacheBytes32 vt = Some v32"
    and "list_all (\<lambda>x. 0 \<le> x) (gg_headCountKV meta)"
  shows "\<exists>b'. kvCacheBytes meta n k32 v32 True = Some b' \<and> 0 \<le> b \<and> b \<le> b'"
  using kvCache_windowed_le [OF assms(1)] cacheBytes32_pos [OF assms(2)] cacheBytes32_pos [OF assms(3)]
    assms(4) by (simp add: list_all_iff)

theorem kv_estimate_bounds_witness:
  "\<exists>b'. kvCacheBytes sample_gguf 4096 64 64 True = Some b' \<and> 0 \<le> (20971520 :: int) \<and> 20971520 \<le> b'"
proof (rule kv_estimate_bounds)
  show "kvCacheBytes sample_gguf 4096 64 64 False = Some 20971520"
    by (simp add: kvCacheBytes_def sample_gguf_def headDim_def layerBytes32_def windowCells_def
        padTo256_def Let_def upt_rec)
  show "cacheBytes32 ''f16'' = Some 64" by (simp add: cacheBytes32_def)
  then show "cacheBytes32 ''f16'' = Some 64" .
  show "list_all (\<lambda>x. 0 \<le> x) (gg_headCountKV sample_gguf)" by (simp add: sample_gguf_def)
qed

end
