(* ===== verification/Sysconfig.thy ===== *)
theory Sysconfig
  imports Sample_Host
begin

text \<open>
  engine/sysconfig.go: the env and args files a load writes for a slot's service, and what a
  restarted engine infers from them.
\<close>

section \<open>Writing\<close>

text \<open>The slot name pattern \<open>^[a-z0-9][a-z0-9-]{0,31}$\<close>.\<close>

definition lower_or_digit :: "char \<Rightarrow> bool" where
  "lower_or_digit c \<longleftrightarrow> CHR ''a'' \<le> c \<and> c \<le> CHR ''z'' \<or> CHR ''0'' \<le> c \<and> c \<le> CHR ''9''"

definition validSlotName :: "string \<Rightarrow> bool" where
  "validSlotName s =
     (case s of [] \<Rightarrow> False
      | c # cs \<Rightarrow> lower_or_digit c \<and> length cs \<le> 31 \<and> list_all (\<lambda>c. lower_or_digit c \<or> c = CHR ''-'') cs)"

fun show_nat :: "nat \<Rightarrow> string" where
  "show_nat n = (if n < 10 then [char_of (48 + n)] else show_nat (n div 10) @ [char_of (48 + n mod 10)])"

declare show_nat.simps [simp del]

definition show_int :: "int \<Rightarrow> string" where
  "show_int i = (if i < 0 then CHR ''-'' # show_nat (nat (- i)) else show_nat (nat i))"

definition preservedLine :: "string \<Rightarrow> string option" where
  "preservedLine l =
     (let l = trim_space l in
      if l = [] \<or> prefix ''#'' l then None
      else case cut (CHR ''='') l of None \<Rightarrow> None
        | Some (k, v) \<Rightarrow>
          let k = trim_space k in
          if \<not> prefix ''FORGE_'' k \<and> \<not> prefix ''FOUNDRY_'' k then Some l else None)"

definition preservedLines :: "string option \<Rightarrow> string list" where
  "preservedLines raw = (case raw of None \<Rightarrow> []
     | Some s \<Rightarrow> List.map_filter preservedLine (split_on (CHR 0x0A) s))"

definition serviceVars :: "engine_config \<Rightarrow> service \<Rightarrow> (string \<times> string) list" where
  "serviceVars cfg svc =
     [(''FORGE_MODEL_PATH'', resolveModelPath cfg (sv_model svc)),
      (''FORGE_MODEL_ALIAS'', sv_alias svc),
      (''FORGE_CONTEXT'', show_int (sv_context svc)),
      (''FORGE_MMPROJ'', if sv_mmproj svc = [] then [] else resolveModelPath cfg (sv_mmproj svc)),
      (''FORGE_BACKEND'', sv_backend svc)] @
     (if sv_llamaBin svc \<noteq> [] then [(''FORGE_LLAMA_BIN'', sv_llamaBin svc)] else [])"

definition var_line :: "string \<times> string \<Rightarrow> string" where
  "var_line kv = fst kv @ CHR ''='' # snd kv"

definition serviceLines :: "engine_config \<Rightarrow> service \<Rightarrow> string list" where
  "serviceLines cfg svc = map var_line (serviceVars cfg svc)"

definition argsPath :: "engine_config \<Rightarrow> slot \<Rightarrow> string" where
  "argsPath cfg s = path_join (ec_sysconfigDir cfg) (''forge-'' @ s @ ''-args'')"

datatype write_error = InvalidSlotName slot | WriteFailed string

definition writeServiceFiles ::
    "'h host \<Rightarrow> engine_config \<Rightarrow> slot \<Rightarrow> service \<Rightarrow> 'h \<Rightarrow> write_error option \<times> 'h" where
  "writeServiceFiles ho cfg s svc h =
     (if \<not> validSlotName s then (Some (InvalidSlotName s), h)
      else
        (let lines = serviceLines cfg svc @ preservedLines (ho_read ho (envPath cfg s) h);
             (ok, h1) = ho_write ho (envPath cfg s) (join_with [CHR 0x0A] lines @ [CHR 0x0A]) h in
         if \<not> ok then (Some (WriteFailed (envPath cfg s)), h1)
         else
           (let (ok2, h2) = ho_write ho (argsPath cfg s)
                  (join_with [CHR 0x0A] (sv_extraArgs svc) @ [CHR 0x0A]) h1 in
            if \<not> ok2 then (Some (WriteFailed (argsPath cfg s)), h2) else (None, h2))))"

section \<open>Reading back\<close>

lemma dropWhile_rev_keep: "\<not> P c \<Longrightarrow> dropWhile P (xs @ c # ys) = dropWhile P xs @ c # ys \<or>
    dropWhile P (xs @ c # ys) = c # ys"
  by (induction xs) auto

definition rtrim :: "string \<Rightarrow> string" where
  "rtrim s = rev (dropWhile is_space (rev s))"

lemma rtrim_keep:
  assumes "\<not> is_space c" shows "rtrim (k @ c # v) = k @ c # rtrim v"
proof -
  have "dropWhile is_space (rev v @ c # rev k) = dropWhile is_space (rev v) @ c # rev k"
    using assms by (induction "rev v" arbitrary: v) (simp, metis append_Cons dropWhile.simps(2) rev_swap)
  then show ?thesis by (simp add: rtrim_def)
qed

lemma trim_rtrim: "trim_space s = rtrim (dropWhile is_space s)"
  by (simp add: trim_space_def rtrim_def)

definition plain_key :: "string \<Rightarrow> bool" where
  "plain_key k \<longleftrightarrow> k \<noteq> [] \<and> CHR ''='' \<notin> set k \<and> hd k \<noteq> CHR ''#'' \<and> trimmed k"

lemma env_line_keyed:
  assumes "plain_key k"
  shows "\<exists>v'. env_line (k @ CHR ''='' # v) = Some (k, v') \<and> (trimmed v \<longrightarrow> v' = v)"
proof -
  obtain c cs where k: "k = c # cs" using assms by (cases k) (auto simp: plain_key_def)
  have "\<not> is_space c" using assms k by (simp add: plain_key_def trimmed_def)
  then have "dropWhile is_space (k @ CHR ''='' # v) = k @ CHR ''='' # v" using k by simp
  moreover have "\<not> is_space (CHR ''='')" by (simp add: is_space_def)
  ultimately have t: "trim_space (k @ CHR ''='' # v) = k @ CHR ''='' # rtrim v"
    by (simp add: trim_rtrim rtrim_keep)
  have "rtrim v = v" if "trimmed v"
    using trim_trimmed [OF that] that unfolding trim_rtrim trimmed_def
    by (metis dropWhile.simps(1) dropWhile_eq_self_iff)
  moreover have "cut (CHR ''='') (k @ CHR ''='' # rtrim v) = Some (k, rtrim v)"
    using assms by (intro cut_append) (simp add: plain_key_def)
  then have "env_line (k @ CHR ''='' # v) = Some (trim_space k, trim_space (rtrim v))"
    using assms unfolding env_line_def Let_def t by (simp add: plain_key_def)
  ultimately show ?thesis using trim_trimmed assms by (auto simp: plain_key_def)
qed

lemma env_of_append: "env_of (xs @ ys) env = env_of ys (env_of xs env)"
  by (induction xs arbitrary: env) auto

definition sets_key :: "string \<Rightarrow> string \<Rightarrow> bool" where
  "sets_key k l \<longleftrightarrow> (\<exists>v. env_line l = Some (k, v))"

lemma env_of_unset: "(\<And>l. l \<in> set ls \<Longrightarrow> \<not> sets_key k l) \<Longrightarrow> env_of ls env k = env k"
proof (induction ls arbitrary: env)
  case (Cons l ls)
  then have "\<not> sets_key k l" by simp
  then have "(case env_line l of None \<Rightarrow> env | Some (k', v) \<Rightarrow> env(k' \<mapsto> v)) k = env k"
    by (auto simp: sets_key_def split: option.splits)
  with Cons show ?case by simp
qed simp

lemma preserved_not_forge:
  assumes "preservedLine l = Some p" and "sets_key k p"
  shows "\<not> prefix ''FORGE_'' k"
proof -
  have p: "p = trim_space l" using assms(1)
    by (auto simp: preservedLine_def Let_def split: if_splits option.splits)
  have "trim_space p = p" unfolding p by (rule trim_trimmed [OF trimmed_trim])
  then show ?thesis
    using assms p by (auto simp: preservedLine_def sets_key_def env_line_def Let_def split: if_splits option.splits)
qed

lemma preserved_no_newline:
  assumes "p \<in> set (preservedLines raw)" shows "CHR 0x0A \<notin> set p"
proof -
  have ts: "set (trim_space l) \<subseteq> set l" for l
    unfolding trim_space_def by (metis (no_types, lifting) set_dropWhileD set_rev subsetI)
  with assms split_on_elem show ?thesis
    by (fastforce simp: preservedLines_def List.map_filter_def preservedLine_def Let_def
        split: option.splits if_splits)
qed

lemma last_suffix: "suffix e p \<Longrightarrow> e \<noteq> [] \<Longrightarrow> last p = last e"
  by (auto simp: suffix_def)

lemma paths_differ:
  assumes "validSlotName s" shows "envPath cfg s \<noteq> argsPath cfg s"
proof -
  have slash: "CHR ''/'' \<notin> set s"
    using assms by (auto simp: validSlotName_def lower_or_digit_def list_all_iff less_eq_char_def
        split: list.splits)
  have "suffix (''forge-'' @ s @ ''-env'') (envPath cfg s)"
    using slash unfolding envPath_def by (intro path_join_ends) (simp add: plain_name_def)
  moreover have "suffix (''forge-'' @ s @ ''-args'') (argsPath cfg s)"
    using slash unfolding argsPath_def by (intro path_join_ends) (simp add: plain_name_def)
  ultimately have "last (envPath cfg s) = CHR ''v''" "last (argsPath cfg s) = CHR ''s''"
    by (auto dest: last_suffix)
  then show ?thesis by auto
qed

text \<open>What the file system promises: a write is read back, and changes no other file.\<close>

definition files_ok :: "'h host \<Rightarrow> bool" where
  "files_ok ho \<longleftrightarrow> (\<forall>p c h h'. ho_write ho p c h = (True, h') \<longrightarrow>
     ho_read ho p h' = Some c \<and> (\<forall>q. q \<noteq> p \<longrightarrow> ho_read ho q h' = ho_read ho q h))"

definition one_line :: "engine_config \<Rightarrow> service \<Rightarrow> bool" where
  "one_line cfg svc \<longleftrightarrow> list_all (\<lambda>x. CHR 0x0A \<notin> set x)
     [resolveModelPath cfg (sv_model svc), sv_alias svc, resolveModelPath cfg (sv_mmproj svc),
      sv_backend svc, sv_llamaBin svc]"

lemma show_nat_plain: "CHR 0x0A \<notin> set (show_nat n)"
proof (induction n rule: show_nat.induct)
  case (1 n)
  have "char_of (48 + m) \<noteq> CHR 0x0A" if "m < 10" for m :: nat
  proof
    assume "char_of (48 + m) = CHR 0x0A"
    then have "of_char (char_of (48 + m)) = (of_char (CHR 0x0A) :: nat)" by simp
    then show False using that by simp
  qed
  then have ne: "CHR 0x0A \<noteq> char_of (48 + m)" if "m < 10" for m :: nat using that by metis
  show ?case
  proof (cases "n < 10")
    case True
    with ne [of n] show ?thesis by (subst show_nat.simps) (simp only: if_True set_simps singleton_iff not_False_eq_True)
  next
    case False
    then have "CHR 0x0A \<notin> set (show_nat (n div 10))" using 1 by simp
    moreover have "CHR 0x0A \<noteq> char_of (48 + n mod 10)" by (rule ne) simp
    ultimately show ?thesis
      using False by (subst show_nat.simps) (simp only: if_False set_append set_simps Un_iff singleton_iff simp_thms)
  qed
qed

lemma service_lines_plain:
  "one_line cfg svc \<Longrightarrow> l \<in> set (serviceLines cfg svc) \<Longrightarrow> CHR 0x0A \<notin> set l"
  using show_nat_plain
  by (auto simp: serviceLines_def serviceVars_def var_line_def one_line_def show_int_def split: if_splits)

lemma plain_forge_keys:
  "(k, v) \<in> set (serviceVars cfg svc) \<Longrightarrow> plain_key k"
  by (auto simp: serviceVars_def plain_key_def trimmed_def is_space_def split: if_splits)

lemma var_line_sets: "plain_key k \<Longrightarrow> sets_key key (var_line (k, v)) \<longleftrightarrow> key = k"
  using env_line_keyed [of k v] by (auto simp: sets_key_def var_line_def)

lemma written_alias:
  assumes al: "trimmed (sv_alias svc)"
    and rest: "\<And>l. l \<in> set rest \<Longrightarrow> \<not> sets_key ''FORGE_MODEL_ALIAS'' l"
  shows "env_of (serviceLines cfg svc @ rest) Map.empty ''FORGE_MODEL_ALIAS'' = Some (sv_alias svc)"
proof -
  let ?vs = "serviceVars cfg svc" let ?k = "''FORGE_MODEL_ALIAS''"
  have split: "?vs = take 1 ?vs @ (?k, sv_alias svc) # drop 2 ?vs"
    by (simp add: serviceVars_def)
  have nk: "?k \<notin> fst ` set (drop 2 ?vs)" by (auto simp: serviceVars_def)
  have "\<not> sets_key ?k (var_line kv)" if kv: "kv \<in> set (drop 2 ?vs)" for kv
  proof (cases kv)
    case (Pair k v)
    have "plain_key k" using plain_forge_keys in_set_dropD [OF kv] Pair by blast
    moreover have "?k \<noteq> k" using nk kv Pair by force
    ultimately show ?thesis unfolding Pair by (simp only: var_line_sets) simp
  qed
  then have "\<not> sets_key ?k l" if "l \<in> set (map var_line (drop 2 ?vs) @ rest)" for l
    using that rest unfolding set_append set_map by blast
  then have unset: "env_of (map var_line (drop 2 ?vs) @ rest) env ?k = env ?k" for env
    by (rule env_of_unset)
  have "plain_key ?k" by (simp add: plain_key_def trimmed_def is_space_def)
  then obtain v' where v': "env_line (var_line (?k, sv_alias svc)) = Some (?k, v')" "v' = sv_alias svc"
    using env_line_keyed [of ?k "sv_alias svc"] al by (auto simp: var_line_def)
  have "serviceLines cfg svc @ rest =
      map var_line (take 1 ?vs) @ var_line (?k, sv_alias svc) # map var_line (drop 2 ?vs) @ rest"
    unfolding serviceLines_def by (subst split) simp
  then show ?thesis using unset v' by (simp add: env_of_append)
qed

section \<open>The round trip\<close>

text \<open>After the service files of a slot were written for a service whose alias belongs to one mode
  only, and whatever other lines the env file had, the engine infers exactly this mode for the
  slot from the files.\<close>

lemma written_mode_inferred:
  assumes wr: "writeServiceFiles ho cfg s svc h = (None, h')" and fs: "files_ok ho"
    and plain_lines: "one_line cfg svc" and named: "sv_alias svc \<noteq> []" "trimmed (sv_alias svc)"
    and known: "(m, mode) \<in> set (ec_modes cfg)" "sv \<in> set (mc_services mode)" "sv_alias sv = sv_alias svc"
    and unique: "\<forall>(n, md) \<in> set (ec_modes cfg). \<forall>sv' \<in> set (mc_services md).
      sv_alias sv' = sv_alias svc \<longrightarrow> n = m"
  shows "inferSlotMode cfg (readSlotEnv ho cfg s h') = m"
proof -
  let ?keep = "preservedLines (ho_read ho (envPath cfg s) h)"
  let ?lines = "serviceLines cfg svc @ ?keep"
  let ?raw = "join_with [CHR 0x0A] ?lines @ [CHR 0x0A]"
  have valid: "validSlotName s" using wr by (simp add: writeServiceFiles_def split: if_splits)
  obtain h1 where w1: "ho_write ho (envPath cfg s) ?raw h = (True, h1)"
    and w2: "ho_write ho (argsPath cfg s) (join_with [CHR 0x0A] (sv_extraArgs svc) @ [CHR 0x0A]) h1 = (True, h')"
    using wr valid by (auto simp: writeServiceFiles_def Let_def split: if_splits prod.splits)
  have read: "ho_read ho (envPath cfg s) h' = Some ?raw"
    using w1 w2 fs paths_differ [OF valid, of cfg] by (auto simp: files_ok_def)
  have plain: "CHR 0x0A \<notin> set l" if "l \<in> set ?lines" for l
    using that service_lines_plain [OF plain_lines] preserved_no_newline by auto
  have "?lines \<noteq> []" by (simp add: serviceLines_def serviceVars_def)
  then have "parseSlotEnv ?raw = env_of (?lines @ [[]]) Map.empty"
    unfolding parseSlotEnv_def using split_join_newline [of ?lines "CHR 0x0A"] plain by metis
  also have "\<dots> = env_of ?lines Map.empty"
    by (simp add: env_of_append env_line_def trim_space_def)
  finally have env: "readSlotEnv ho cfg s h' = env_of ?lines Map.empty"
    using read by (simp add: readSlotEnv_def)
  have "\<not> sets_key ''FORGE_MODEL_ALIAS'' l" if "l \<in> set ?keep" for l
    using that preserved_not_forge
    by (fastforce simp: preservedLines_def List.map_filter_def split: option.splits)
  from written_alias [OF named(2) this, of ?keep cfg]
  have al: "env_get (readSlotEnv ho cfg s h') ''FORGE_MODEL_ALIAS'' = sv_alias svc"
    by (simp add: env env_get_def)
  let ?P = "\<lambda>(n, md). list_ex (\<lambda>sv'. sv_alias sv' = sv_alias svc) (mc_services md)"
  obtain n md where f: "find ?P (ec_modes cfg) = Some (n, md)"
    using known by (cases "find ?P (ec_modes cfg)") (auto simp: find_None_iff list_ex_iff)
  then have "n = m" using find_Some_prop [OF f] unique by (auto simp: list_ex_iff)
  with f named show ?thesis by (simp add: inferSlotMode_def al Let_def)
qed

end
