(* ===== verification/Lifecycle.thy ===== *)
theory Lifecycle
  imports Engine_Memory Sysconfig
begin

text \<open>
  engine/lifecycle.go: loading, unloading and switching, with the waits on systemd.  The
  lifecycle lock serialises these operations, so each is one function on the manager's state.
  Virtual seconds are those of the code.  Usage and history records, the chat template probe
  and the switch notification, all best effort, are left out, as is cancellation of the
  calling context.  The set of slots is the configuration's.
\<close>

section \<open>Commands\<close>

definition sysStart :: "'h host \<Rightarrow> unit_name \<Rightarrow> 'h manager \<Rightarrow> bool \<times> 'h manager" where
  "sysStart ho u w = (let (ok, h) = ho_start ho u (mg_host w) in
     (ok, w\<lparr>mg_cmds := mg_cmds w @ [CmdStart u], mg_host := h\<rparr>))"

definition sysStop :: "'h host \<Rightarrow> unit_name \<Rightarrow> 'h manager \<Rightarrow> bool \<times> 'h manager" where
  "sysStop ho u w = (let (ok, h) = ho_stop ho u (mg_host w) in
     (ok, w\<lparr>mg_cmds := mg_cmds w @ [CmdStop u], mg_host := h\<rparr>))"

definition onHost :: "('h \<Rightarrow> 'a \<times> 'h) \<Rightarrow> 'h manager \<Rightarrow> 'a \<times> 'h manager" where
  "onHost f w = (let (x, h) = f (mg_host w) in (x, w\<lparr>mg_host := h\<rparr>))"

section \<open>Waits\<close>

definition deactivatingWaitS :: int where
  "deactivatingWaitS = 330"

definition unit_stopped :: "unit_state option \<Rightarrow> bool" where
  "unit_stopped st = (case st of None \<Rightarrow> False
     | Some u \<Rightarrow> us_subState u \<in> {''dead'', ''failed'', ''inactive''} \<or>
         us_activeState u \<in> {''inactive'', ''failed''})"

function waitUnitGone :: "'h host \<Rightarrow> unit_name \<Rightarrow> int \<Rightarrow> int \<Rightarrow> 'h \<Rightarrow> bool \<times> 'h" where
  "waitUnitGone ho u timeout elapsed h =
     (if unit_stopped (ho_state ho u h) then (True, h)
      else if elapsed \<ge> timeout then (False, h)
      else waitUnitGone ho u timeout (elapsed + 2) (ho_pause ho 2 h))"
  by pat_completeness auto
termination by (relation "measure (\<lambda>(ho, u, timeout, elapsed, h). nat (timeout - elapsed))") auto

declare waitUnitGone.simps [simp del]

text \<open>\<open>Some elapsed\<close>: the process is up.\<close>

function waitProcessUp :: "'h host \<Rightarrow> unit_name \<Rightarrow> int \<Rightarrow> int \<Rightarrow> 'h \<Rightarrow> int option \<times> 'h" where
  "waitProcessUp ho u timeout elapsed h =
     (let sub = map_option us_subState (ho_state ho u h) in
      if sub = Some ''running'' then (Some elapsed, h)
      else if sub = Some ''failed'' \<or> sub = Some ''inactive'' \<or> sub = Some ''dead'' then (None, h)
      else if elapsed \<ge> timeout then (None, h)
      else waitProcessUp ho u timeout (elapsed + 2) (ho_pause ho 2 h))"
  by pat_completeness auto
termination by (relation "measure (\<lambda>(ho, u, timeout, elapsed, h). nat (timeout - elapsed))") auto

declare waitProcessUp.simps [simp del]

function waitHealthy :: "'h host \<Rightarrow> unit_name \<Rightarrow> int \<Rightarrow> int \<Rightarrow> int \<Rightarrow> 'h \<Rightarrow> bool \<times> 'h" where
  "waitHealthy ho u port deadline elapsed h =
     (if elapsed < deadline then
        (let sub = map_option us_subState (ho_state ho u h) in
         if sub \<in> {Some ''failed'', Some ''inactive'', Some ''dead'', Some ''auto-restart''} then (False, h)
         else if ho_healthy ho port h then (True, h)
         else waitHealthy ho u port deadline (elapsed + 3) (ho_pause ho 3 h))
      else (False, h))"
  by pat_completeness auto
termination by (relation "measure (\<lambda>(ho, u, port, deadline, elapsed, h). nat (deadline - elapsed))") auto

declare waitHealthy.simps [simp del]

definition waitServiceRunning ::
    "'h host \<Rightarrow> unit_name \<Rightarrow> int \<Rightarrow> service \<Rightarrow> 'h \<Rightarrow> bool \<times> 'h" where
  "waitServiceRunning ho u port svc h =
     (let timeout = (if sv_startupTimeout svc = 0 then 120 else sv_startupTimeout svc) in
      case waitProcessUp ho u timeout 0 h of
        (None, h') \<Rightarrow> (False, h')
      | (Some elapsed, h') \<Rightarrow>
        if port = 0 then (True, h') else waitHealthy ho u port (elapsed + timeout) elapsed h')"

definition verifiedContext :: "'h host \<Rightarrow> int \<Rightarrow> service \<Rightarrow> 'h \<Rightarrow> int" where
  "verifiedContext ho port svc h =
     (if sv_backend svc = ''vllm'' then sv_context svc
      else if port = 0 then 0
      else case ho_nctx ho port h of None \<Rightarrow> 0 | Some n \<Rightarrow> n)"

section \<open>Cleaning up\<close>

definition lingering :: "'h host \<Rightarrow> int list \<Rightarrow> 'h \<Rightarrow> (int \<times> int) list" where
  "lingering ho ports h = List.map_filter
     (\<lambda>pid. case ho_portArg ho pid h of None \<Rightarrow> None
        | Some p \<Rightarrow> if p \<in> set ports then Some (p, pid) else None)
     (ho_byComm ho ''llama-server'' h @ ho_byComm ho ''vllm'' h)"

definition killOne :: "'h host \<Rightarrow> 'h manager \<Rightarrow> int \<times> int \<Rightarrow> 'h manager" where
  "killOne ho w pp = (case pp of (port, pid) \<Rightarrow>
     w\<lparr>mg_cmds := mg_cmds w @ [CmdKill port pid], mg_host := ho_kill ho pid (mg_host w)\<rparr>)"

definition killLingering :: "'h host \<Rightarrow> int list \<Rightarrow> 'h manager \<Rightarrow> 'h manager" where
  "killLingering ho ports w =
     (let pids = lingering ho ports (mg_host w) in
      if ports = [] \<or> pids = [] then w
      else let w' = foldl (killOne ho) w pids in w'\<lparr>mg_host := ho_pause ho 1 (mg_host w')\<rparr>)"

definition gttBaseline :: int where
  "gttBaseline = 2 ^ 30"

text \<open>Whether the counter drained; the warning of the other case is a log line and a callback.\<close>

function drainLoop :: "'h host \<Rightarrow> int \<Rightarrow> int \<Rightarrow> 'h \<Rightarrow> bool \<times> 'h" where
  "drainLoop ho before elapsed h =
     (if elapsed < 20 then
        (let h' = ho_pause ho 2 h in
         case ho_gttUsed ho h' of
           None \<Rightarrow> drainLoop ho before (elapsed + 2) h'
         | Some now \<Rightarrow>
           if now < gttBaseline \<or> 20 * now < 3 * before then (True, h')
           else drainLoop ho before (elapsed + 2) h')
      else (False, h))"
  by pat_completeness auto
termination by (relation "measure (\<lambda>(ho, before, elapsed, h). nat (20 - elapsed))") auto

declare drainLoop.simps [simp del]

definition waitGTTDrain :: "'h host \<Rightarrow> 'h \<Rightarrow> bool \<times> 'h" where
  "waitGTTDrain ho h =
     (case ho_gttUsed ho h of None \<Rightarrow> (True, h)
      | Some before \<Rightarrow> if before < gttBaseline then (True, h) else drainLoop ho before 0 h)"

section \<open>Load\<close>

definition failed :: "message \<Rightarrow> op_result" where
  "failed msg = \<lparr>or_success = False, or_message = msg, or_nctx = 0\<rparr>"

definition succeeded :: "message \<Rightarrow> int \<Rightarrow> op_result" where
  "succeeded msg n = \<lparr>or_success = True, or_message = msg, or_nctx = n\<rparr>"

definition write_message :: "write_error \<Rightarrow> message" where
  "write_message e = (case e of InvalidSlotName s \<Rightarrow> MsgInvalidSlotName s | WriteFailed p \<Rightarrow> MsgWriteFailed p)"

text \<open>Another slot that holds this mode, or other modes with the same weights.\<close>

definition loadedElsewhere :: "engine_config \<Rightarrow> model \<Rightarrow> slot \<Rightarrow> 'h manager \<Rightarrow> slot option" where
  "loadedElsewhere cfg m s w =
     find (\<lambda>n. n \<noteq> s \<and> sa_mode (slotRec w n) = m \<and> sa_mode (slotRec w n) \<noteq> []) (map fst (ec_slots cfg))"

definition sibling :: "engine_config \<Rightarrow> model \<Rightarrow> slot \<Rightarrow> 'h manager \<Rightarrow> slot option" where
  "sibling cfg m s w =
     (if weightIdentity cfg m = [] then None
      else find (\<lambda>n. n \<noteq> s \<and> sa_mode (slotRec w n) \<noteq> [] \<and> sa_mode (slotRec w n) \<noteq> m \<and>
               weightIdentity cfg (sa_mode (slotRec w n)) = weightIdentity cfg m)
             (map fst (ec_slots cfg)))"

definition siblingGuard ::
    "'h host \<Rightarrow> engine_config \<Rightarrow> model \<Rightarrow> slot \<Rightarrow> 'h manager \<Rightarrow> message option \<times> 'h manager" where
  "siblingGuard ho cfg m s w =
     (case sibling cfg m s w of None \<Rightarrow> (None, w)
      | Some n \<Rightarrow>
        (case fitPlan ho cfg m w of
           (Inl e, w1) \<Rightarrow> (None, w1)
         | (Inr plan, w1) \<Rightarrow>
           if \<not> p_fits plan \<and> p_evict plan = [] \<and> \<not> p_evictComfy plan
           then (Some (MsgSameWeights m (sa_mode (slotRec w n)) n (p_message plan)), w1)
           else (None, w1)))"

text \<open>The old process must be gone first.\<close>

definition vacate ::
    "'h host \<Rightarrow> unit_name \<Rightarrow> 'h manager \<Rightarrow> message option \<times> 'h manager" where
  "vacate ho u w =
     (case ho_state ho u (mg_host w) of None \<Rightarrow> (None, w)
      | Some st \<Rightarrow>
        if unit_active st then
          (let (_, w1) = sysStop ho u w;
               (gone, w2) = onHost (waitUnitGone ho u 15 0) w1 in
           if gone then (None, w2)
           else let (gone', w3) = onHost (waitUnitGone ho u (deactivatingWaitS - 15) 0) w2 in
             if gone' then (None, w3) else (Some (MsgDidNotStop u), w3))
        else if unit_deactivating st then
          (let (gone, w1) = onHost (waitUnitGone ho u deactivatingWaitS 0) w in
           if gone then (None, w1) else (Some (MsgStillDeactivating u), w1))
        else (None, w))"

definition loadInto ::
    "'h host \<Rightarrow> engine_config \<Rightarrow> model \<Rightarrow> slot \<Rightarrow> slot_config \<Rightarrow> service \<Rightarrow> 'h manager
     \<Rightarrow> op_result \<times> 'h manager" where
  "loadInto ho cfg m s sc svc w =
     (let u = sc_unit sc; port = sc_port sc in
      case vacate ho u w of
        (Some msg, w1) \<Rightarrow> (failed msg, w1)
      | (None, w1) \<Rightarrow>
        (case onHost (writeServiceFiles ho cfg s svc) w1 of
           (Some e, w2) \<Rightarrow> (failed (write_message e), w2)
         | (None, w2) \<Rightarrow>
           (case sysStart ho u w2 of
              (False, w3) \<Rightarrow> (failed (MsgStartFailed u), w3)
            | (True, w3) \<Rightarrow>
              (case onHost (waitServiceRunning ho u port svc) w3 of
                 (False, w4) \<Rightarrow> (failed (MsgNotRunning u), snd (sysStop ho u w4))
               | (True, w4) \<Rightarrow>
                 (succeeded (MsgLoaded m s) (verifiedContext ho port svc (mg_host w4)),
                  setSlotMode s m w4)))))"

definition load ::
    "'h host \<Rightarrow> engine_config \<Rightarrow> model \<Rightarrow> slot \<Rightarrow> 'h manager \<Rightarrow> op_result \<times> 'h manager" where
  "load ho cfg m s w =
     (case slotOf cfg s of None \<Rightarrow> (failed (MsgSlotMustBe (slotNames cfg)), w)
      | Some sc \<Rightarrow>
        (case modeOf cfg m of None \<Rightarrow> (failed (MsgUnknownMode m), w)
         | Some mode \<Rightarrow>
           (case mc_services mode of [] \<Rightarrow> (failed (MsgNoServices m), w)
            | svc # _ \<Rightarrow>
              (case loadedElsewhere cfg m s w of
                 Some n \<Rightarrow> (failed (MsgAlreadyOn m n), w)
               | None \<Rightarrow>
                 (case siblingGuard ho cfg m s w of
                    (Some msg, w1) \<Rightarrow> (failed msg, w1)
                  | (None, w1) \<Rightarrow>
                    (let w2 = setTransition s (Some \<lparr>tn_mode = m, tn_startedAt = ho_now ho (mg_host w1)\<rparr>)
                           None w1;
                         (r, w3) = loadInto ho cfg m s sc (svc\<lparr>sv_portRole := s\<rparr>) w2
                     in (r, setTransition s None None w3)))))))"

section \<open>Unload\<close>

definition stopEach :: "'h host \<Rightarrow> unit_name list \<Rightarrow> 'h manager \<Rightarrow> 'h manager" where
  "stopEach ho us w = foldl (\<lambda>w u. snd (sysStop ho u w)) w us"

fun awaitEach :: "'h host \<Rightarrow> unit_name list \<Rightarrow> 'h manager \<Rightarrow> bool \<times> 'h manager" where
  "awaitEach ho [] w = (True, w)"
| "awaitEach ho (u # us) w =
     (let (gone, w1) = onHost (waitUnitGone ho u 5 0) w;
          (rest, w2) = awaitEach ho us w1 in (gone \<and> rest, w2))"

definition drainGTT :: "'h host \<Rightarrow> 'h manager \<Rightarrow> 'h manager" where
  "drainGTT ho w = snd (onHost (waitGTTDrain ho) w)"

definition stopAll :: "'h host \<Rightarrow> engine_config \<Rightarrow> 'h manager \<Rightarrow> bool \<times> 'h manager" where
  "stopAll ho cfg w =
     (let units = sort (canonicalUnits cfg);
          (ok, w2) = awaitEach ho units (stopEach ho units w)
      in (ok, drainGTT ho (killLingering ho (map (\<lambda>(n, sc). sc_port sc) (ec_slots cfg)) w2)))"

definition unloadAll :: "'h host \<Rightarrow> engine_config \<Rightarrow> 'h manager \<Rightarrow> op_result \<times> 'h manager" where
  "unloadAll ho cfg w =
     (let (_, w1) = stopAll ho cfg w in (succeeded MsgAllUnloaded 0, clearAllSlots w1))"

definition unload :: "'h host \<Rightarrow> engine_config \<Rightarrow> slot \<Rightarrow> 'h manager \<Rightarrow> op_result \<times> 'h manager" where
  "unload ho cfg s w =
     (if s = ''all'' then unloadAll ho cfg w
      else
        (case slotOf cfg s of None \<Rightarrow> (failed (MsgSlotMustBe (slotNames cfg)), w)
         | Some sc \<Rightarrow>
           (let u = sc_unit sc;
                w1 = setTransition s None
                  (Some \<lparr>tn_mode = sa_mode (slotRec w s), tn_startedAt = ho_now ho (mg_host w)\<rparr>) w;
                (_, w2) = sysStop ho u w1;
                (gone, w3) = onHost (waitUnitGone ho u deactivatingWaitS 0) w2 in
            if \<not> gone then (failed (MsgNotFreed u), setTransition s None None w3)
            else
              (let w4 = drainGTT ho (killLingering ho [sc_port sc] w3)
               in (succeeded (MsgUnloaded s) 0, setTransition s None None (setSlotMode s [] w4))))))"

end
