(* ===== verification/Engine_Provider.thy ===== *)
theory Engine_Provider
  imports Lifecycle Attempt
begin

text \<open>
  The manager provides the engine interface of the scheduler: the laws of \<open>slot_engine\<close> hold
  for it, and those of \<open>seamed_engine\<close> for it together with the ComfyUI seam the daemon wires
  (cmd/forge/main.go).  The configuration is one that is deployed: well-formed in the sense of
  \<open>config_wf\<close>, with a ComfyUI unit that is not a slot's.
\<close>

section \<open>Deployed configurations\<close>

typedef deployed = "{(cfg, comfy). config_wf cfg \<and> comfy \<notin> (\<lambda>(n, sc). sc_unit sc) ` set (ec_slots cfg)}"
  morphisms deployed_parts Deployed
proof
  show "(\<lparr>ec_slots = [], ec_modes = [], ec_modelsDir = [], ec_sysconfigDir = [], ec_stateDir = []\<rparr>, [])
    \<in> {(cfg, comfy). config_wf cfg \<and> comfy \<notin> (\<lambda>(n, sc). sc_unit sc) ` set (ec_slots cfg)}"
    by (simp add: config_wf_def)
qed

definition config_of :: "deployed \<Rightarrow> engine_config" where
  "config_of c = fst (deployed_parts c)"

definition comfyUnit :: "deployed \<Rightarrow> unit_name" where
  "comfyUnit c = snd (deployed_parts c)"

lemma config_of_wf: "config_wf (config_of c)"
  and comfyUnit_aux: "(s, sc) \<in> set (ec_slots (config_of c)) \<Longrightarrow> sc_unit sc \<noteq> comfyUnit c"
  using deployed_parts [of c] by (force simp: config_of_def comfyUnit_def)+

lemma deployed_parts_of [simp]:
  assumes "config_wf cfg" and "comfy \<notin> (\<lambda>(n, sc). sc_unit sc) ` set (ec_slots cfg)"
  shows "config_of (Deployed (cfg, comfy)) = cfg" and "comfyUnit (Deployed (cfg, comfy)) = comfy"
  using assms Deployed_inverse [of "(cfg, comfy)"] by (simp_all add: config_of_def comfyUnit_def)

lemma wf_slots:
  assumes "config_wf cfg"
  shows "distinct (map fst (ec_slots cfg))"
    and "slotOf cfg s = Some sc \<longleftrightarrow> (s, sc) \<in> set (ec_slots cfg)"
    and "''all'' \<notin> set (slotNames cfg)" and "[] \<notin> set (slotNames cfg)"
    and "s \<in> set (slotNames cfg) \<longleftrightarrow> slotOf cfg s \<noteq> None"
proof -
  show d: "distinct (map fst (ec_slots cfg))" using assms by (simp add: config_wf_def)
  then show l: "slotOf cfg s = Some sc \<longleftrightarrow> (s, sc) \<in> set (ec_slots cfg)" for s sc
    by (simp add: slotOf_def)
  have n: "set (slotNames cfg) = fst ` set (ec_slots cfg)" by (simp add: slotNames_def)
  show "''all'' \<notin> set (slotNames cfg)" "[] \<notin> set (slotNames cfg)"
    using assms by (simp_all add: n config_wf_def)
  show "s \<in> set (slotNames cfg) \<longleftrightarrow> slotOf cfg s \<noteq> None"
    unfolding n slotOf_def by (simp add: map_of_eq_None_iff)
qed

lemma validateSlots_ports:
  "validateSlots cs seen \<Longrightarrow> distinct (map (\<lambda>(n, sc). sc_port sc) cs) \<and>
     (\<forall>(n, sc) \<in> set cs. sc_port sc \<notin> set seen \<and> sc_unit sc \<noteq> [] \<and> sc_port sc \<noteq> 0)"
  by (induction cs seen rule: validateSlots.induct) auto

lemma wf_unit_unique:
  assumes "config_wf cfg" and "slotOf cfg s = Some a" and "slotOf cfg t = Some b"
    and "sc_unit a = sc_unit b \<or> sc_port a = sc_port b"
  shows "s = t"
proof -
  have ab: "(s, a) \<in> set (ec_slots cfg)" "(t, b) \<in> set (ec_slots cfg)"
    using assms(2,3) wf_slots(2) [OF assms(1)] by auto
  have "distinct (map (\<lambda>(n, sc). sc_unit sc) (ec_slots cfg))"
    "distinct (map (\<lambda>(n, sc). sc_port sc) (ec_slots cfg))"
    using assms(1) validateSlots_ports [of "ec_slots cfg" "[]"] by (simp_all add: config_wf_def)
  then have "inj_on (\<lambda>(n, sc). sc_unit sc) (set (ec_slots cfg))"
    "inj_on (\<lambda>(n, sc). sc_port sc) (set (ec_slots cfg))" by (simp_all add: distinct_map)
  then have "(s, a) = (t, b)"
    using assms(4) inj_onD [OF _ _ ab, of "\<lambda>(n, sc). sc_unit sc"]
      inj_onD [OF _ _ ab, of "\<lambda>(n, sc). sc_port sc"] by auto
  then show ?thesis by simp
qed

section \<open>The manager's view for the scheduler\<close>

definition managerOps :: "'h host \<Rightarrow> engine_config \<Rightarrow> 'h manager engine_ops" where
  "managerOps ho cfg = \<lparr>eo_slots = (\<lambda>_. slotNames cfg), eo_slotStates = slotStates ho cfg,
     eo_fitPlan = fitPlan ho cfg, eo_load = load ho cfg, eo_unload = unload ho cfg,
     eo_footprintMB = None\<rparr>"

definition slotMode :: "'h manager \<Rightarrow> slot \<Rightarrow> model" where
  "slotMode w s = sa_mode (slotRec w s)"

text \<open>The slots whose unit was told to stop, or a process on whose port was killed.\<close>

definition disturbed :: "engine_config \<Rightarrow> 'h manager \<Rightarrow> slot set" where
  "disturbed cfg w = {s. \<exists>sc. slotOf cfg s = Some sc \<and>
     (CmdStop (sc_unit sc) \<in> set (mg_cmds w) \<or> (\<exists>pid. CmdKill (sc_port sc) pid \<in> set (mg_cmds w)))}"

definition shows_gone :: "engine_config \<Rightarrow> (unit_name \<rightharpoonup> unit_state) \<Rightarrow> slot \<Rightarrow> bool" where
  "shows_gone cfg units s = (\<exists>sc st. slotOf cfg s = Some sc \<and> units (sc_unit sc) = Some st \<and> unit_gone st)"

definition running_on :: "'h host \<Rightarrow> engine_config \<Rightarrow> 'h manager \<Rightarrow> slot \<Rightarrow> bool" where
  "running_on ho cfg w s = (\<not> shows_gone cfg (\<lambda>u. ho_state ho u (mg_host w)) s)"

definition recs_complete :: "engine_config \<Rightarrow> 'h manager \<Rightarrow> bool" where
  "recs_complete cfg w \<longleftrightarrow> (\<forall>s. slotOf cfg s \<noteq> None \<longrightarrow> mg_slots w s \<noteq> None)"

section \<open>What the operations issue\<close>

definition allowed :: "unit_name set \<Rightarrow> int set \<Rightarrow> command \<Rightarrow> bool" where
  "allowed U P c = (case c of CmdStart u \<Rightarrow> True | CmdStop u \<Rightarrow> u \<in> U | CmdKill p _ \<Rightarrow> p \<in> P)"

definition issued :: "unit_name set \<Rightarrow> int set \<Rightarrow> 'h manager \<Rightarrow> 'h manager \<Rightarrow> bool" where
  "issued U P w w' \<longleftrightarrow> (\<exists>cs. mg_cmds w' = mg_cmds w @ cs \<and> (\<forall>c \<in> set cs. allowed U P c)) \<and>
     dom (mg_slots w) \<subseteq> dom (mg_slots w')"

lemma issued_refl [intro]: "mg_cmds w' = mg_cmds w \<Longrightarrow> dom (mg_slots w) \<subseteq> dom (mg_slots w') \<Longrightarrow>
    issued U P w w'"
  by (auto simp: issued_def)

lemma issued_trans [trans]: "issued U P w w' \<Longrightarrow> issued U P w' w'' \<Longrightarrow> issued U P w w''"
  unfolding issued_def by (metis (no_types, lifting) Un_iff append_assoc set_append subset_trans)

lemma setTransition_simps [simp]:
  "mg_cmds (setTransition s l u w) = mg_cmds w" "mg_host (setTransition s l u w) = mg_host w"
  "dom (mg_slots (setTransition s l u w)) = dom (mg_slots w)"
  "slotMode (setTransition s l u w) t = slotMode w t"
  by (auto simp: setTransition_def slotMode_def slotRec_def assigned_def split: option.splits)

lemma setSlotMode_simps [simp]:
  "mg_cmds (setSlotMode s m w) = mg_cmds w" "mg_host (setSlotMode s m w) = mg_host w"
  "dom (mg_slots (setSlotMode s m w)) = dom (mg_slots w)"
  by (auto simp: setSlotMode_def split: option.splits)

lemma setSlotMode_mode:
  "slotMode (setSlotMode s m w) t = (if t = s \<and> mg_slots w s \<noteq> None then m else slotMode w t)"
  by (auto simp: setSlotMode_def slotMode_def slotRec_def assigned_def split: option.splits)

lemma onHost_simps:
  assumes "onHost f w = (x, w')"
  shows "mg_cmds w' = mg_cmds w" and "mg_slots w' = mg_slots w" and "f (mg_host w) = (x, mg_host w')"
  using assms by (auto simp: onHost_def Let_def split: prod.splits)

lemma sysStop_issued: "sysStop ho u w = (ok, w') \<Longrightarrow> u \<in> U \<Longrightarrow> issued U P w w' \<and> mg_slots w' = mg_slots w"
  by (auto simp: sysStop_def issued_def allowed_def Let_def split: prod.splits)

lemma sysStart_issued: "sysStart ho u w = (ok, w') \<Longrightarrow> issued U P w w' \<and> mg_slots w' = mg_slots w"
  by (auto simp: sysStart_def issued_def allowed_def Let_def split: prod.splits)

lemma onHost_issued: "onHost f w = (x, w') \<Longrightarrow> issued U P w w' \<and> mg_slots w' = mg_slots w"
  using onHost_simps [of f w x w'] by auto

lemma killOne_issued: "port \<in> P \<Longrightarrow> issued U P w (killOne ho w (port, pid))"
  by (simp add: killOne_def issued_def allowed_def)

lemma kill_all_issued:
  "(\<And>pp. pp \<in> set pps \<Longrightarrow> fst pp \<in> P) \<Longrightarrow> issued U P w (foldl (killOne ho) w pps)"
proof (induction pps arbitrary: w)
  case (Cons pp pps)
  obtain p pid where pp: "pp = (p, pid)" by (rule prod.exhaust)
  have "issued U P w (killOne ho w pp)" using Cons.prems [of pp] by (simp add: pp killOne_issued)
  also have "issued U P (killOne ho w pp) (foldl (killOne ho) (killOne ho w pp) pps)"
    using Cons by simp
  finally show ?case by simp
qed (simp add: issued_refl)

lemma lingering_ports: "pp \<in> set (lingering ho ports h) \<Longrightarrow> fst pp \<in> set ports"
  by (auto simp: lingering_def List.map_filter_def split: option.splits if_splits)

lemma killLingering_issued: "set ports \<subseteq> P \<Longrightarrow> issued U P w (killLingering ho ports w)"
proof -
  assume P: "set ports \<subseteq> P"
  have "issued U P w (foldl (killOne ho) w (lingering ho ports (mg_host w)))"
    by (rule kill_all_issued) (rule subsetD [OF P], erule lingering_ports)
  then show ?thesis by (auto simp: killLingering_def Let_def issued_def)
qed

lemma killOne_slots: "mg_slots (foldl (killOne ho) w pps) = mg_slots w"
  by (induction pps arbitrary: w) (auto simp: killOne_def split: prod.splits)

lemma killLingering_slots [simp]: "mg_slots (killLingering ho ports w) = mg_slots w"
  by (simp add: killLingering_def Let_def killOne_slots)

lemma drainGTT_simps [simp]:
  "mg_cmds (drainGTT ho w) = mg_cmds w" "mg_slots (drainGTT ho w) = mg_slots w"
  by (simp_all add: drainGTT_def onHost_def Let_def split: prod.splits)

lemma issued_marks [simp]:
  "issued U P w (setTransition s l u w') \<longleftrightarrow> issued U P w w'"
  "issued U P w (setSlotMode s m w') \<longleftrightarrow> issued U P w w'"
  "issued U P (setTransition s l u w) w' \<longleftrightarrow> issued U P w w'"
  by (simp_all add: issued_def)

lemma vacate_issued:
  assumes "vacate ho u w = (e, w')" and "u \<in> U"
  shows "issued U P w w' \<and> mg_slots w' = mg_slots w"
proof -
  have wait: "issued U P v v' \<and> mg_slots v' = mg_slots v" if "onHost f v = (x, v')" for f v x v'
    using onHost_issued [OF that] by simp
  obtain ok w1 where w1: "sysStop ho u w = (ok, w1)" by (rule prod.exhaust)
  obtain g w2 where w2: "onHost (waitUnitGone ho u 15 0) w1 = (g, w2)" by (rule prod.exhaust)
  obtain g3 w3 where w3: "onHost (waitUnitGone ho u (deactivatingWaitS - 15) 0) w2 = (g3, w3)"
    by (rule prod.exhaust)
  obtain g4 w4 where w4: "onHost (waitUnitGone ho u deactivatingWaitS 0) w = (g4, w4)"
    by (rule prod.exhaust)
  have s1: "issued U P w w1" "mg_slots w1 = mg_slots w" using sysStop_issued [OF w1 assms(2)] by auto
  have s2: "issued U P w w2" "mg_slots w2 = mg_slots w"
    using issued_trans [OF s1(1)] wait [OF w2] s1(2) by auto
  have s3: "issued U P w w3" "mg_slots w3 = mg_slots w"
    using issued_trans [OF s2(1)] wait [OF w3] s2(2) by auto
  have "w' \<in> {w, w2, w3, w4}"
    using assms(1) w1 w2 w3 w4
    by (auto simp: vacate_def Let_def split: option.splits if_splits)
  then show ?thesis using s2 s3 wait [OF w4] by auto
qed

text \<open>The manager after \<open>loadInto\<close>: its commands, its records, and the mode when it succeeded.\<close>

lemma loadInto_issued:
  assumes "loadInto ho cfg m s sc svc w = (r, w')" and "sc_unit sc \<in> U"
  shows "issued U P w w'"
    and "or_success r \<Longrightarrow> mg_slots w s \<noteq> None \<Longrightarrow> slotMode w' s = m"
proof -
  obtain e1 w1 where w1: "vacate ho (sc_unit sc) w = (e1, w1)" by (rule prod.exhaust)
  obtain e2 w2 where w2: "onHost (writeServiceFiles ho cfg s svc) w1 = (e2, w2)" by (rule prod.exhaust)
  obtain b3 w3 where w3: "sysStart ho (sc_unit sc) w2 = (b3, w3)" by (rule prod.exhaust)
  obtain b4 w4 where w4: "onHost (waitServiceRunning ho (sc_unit sc) (sc_port sc) svc) w3 = (b4, w4)"
    by (rule prod.exhaust)
  obtain b5 w5 where w5: "sysStop ho (sc_unit sc) w4 = (b5, w5)" by (rule prod.exhaust)
  have i1: "issued U P w w1" "mg_slots w1 = mg_slots w" using vacate_issued [OF w1 assms(2)] by auto
  have i2: "issued U P w w2" "mg_slots w2 = mg_slots w"
    using issued_trans [OF i1(1)] onHost_issued [OF w2] i1(2) by auto
  have i3: "issued U P w w3" "mg_slots w3 = mg_slots w"
    using issued_trans [OF i2(1)] sysStart_issued [OF w3] i2(2) by auto
  have i4: "issued U P w w4" "mg_slots w4 = mg_slots w"
    using issued_trans [OF i3(1)] onHost_issued [OF w4] i3(2) by auto
  have i5: "issued U P w w5" using issued_trans [OF i4(1)] sysStop_issued [OF w5 assms(2)] by auto
  have cases: "w' \<in> {w1, w2, w3, w5} \<and> \<not> or_success r \<or> w' = setSlotMode s m w4"
    using assms(1) w1 w2 w3 w4 w5
    by (auto simp: loadInto_def Let_def failed_def split: option.splits bool.splits)
  then show "issued U P w w'" using i1(1) i2(1) i3(1) i4(1) i5 by auto
  show "slotMode w' s = m" if "or_success r" "mg_slots w s \<noteq> None"
    using cases that i4(2) by (auto simp: setSlotMode_mode)
qed

lemma slotStates_eq:
  assumes "slotStates ho cfg units w = (occ, w')"
  shows "w' = w\<lparr>mg_slots := mg_slots w ++ occ\<rparr>"
    and "occ s = map_option (\<lambda>sc. reconcileRec cfg (readSlotEnv ho cfg s (mg_host w))
           (units (sc_unit sc)) (slotRec w s)) (slotOf cfg s)"
  using assms by (auto simp: slotStates_def Let_def)

lemma states_issued:
  assumes "slotStates ho cfg units w = (occ, w')"
  shows "issued U P w w'" and "mg_host w' = mg_host w" and "mg_cmds w' = mg_cmds w"
  unfolding slotStates_eq(1) [OF assms] by (simp_all add: issued_def)

lemma memoryBudget_states:
  assumes "memoryBudget ho cfg w = (b, w')"
  shows "\<exists>occ. slotStates ho cfg (liveUnits ho cfg (mg_host w)) w = (occ, w')"
  using assms by (auto simp: memoryBudget_def reconcileLive_def Let_def split: prod.splits)

text \<open>A fit plan reads: the manager it leaves is one or two reports of the live units later.\<close>

lemma fitPlan_states:
  assumes "fitPlan ho cfg m w = (p, w')"
  obtains "w' = w" | occ where "slotStates ho cfg (liveUnits ho cfg (mg_host w)) w = (occ, w')"
  | occ w1 occ' where "slotStates ho cfg (liveUnits ho cfg (mg_host w)) w = (occ, w1)"
      "slotStates ho cfg (liveUnits ho cfg (mg_host w)) w1 = (occ', w')"
proof (cases "modeOf cfg m")
  case None
  with assms that(1) show ?thesis by (simp add: fitPlan_def)
next
  case (Some mode)
  obtain b w1 where b: "memoryBudget ho cfg w = (b, w1)" by (rule prod.exhaust)
  obtain occ where occ: "slotStates ho cfg (liveUnits ho cfg (mg_host w)) w = (occ, w1)"
    using memoryBudget_states [OF b] by blast
  obtain occ' w2 where occ': "slotStates ho cfg (liveUnits ho cfg (mg_host w)) w1 = (occ', w2)"
    by (rule prod.exhaust)
  have "reconcileLive ho cfg w1 = (occ', w2)"
    using occ' states_issued(2) [OF occ] by (simp add: reconcileLive_def)
  then have "w' = w1 \<or> w' = w2"
    using assms Some b by (auto simp: fitPlan_def Let_def split: option.splits)
  then show ?thesis using that(2,3) occ occ' by blast
qed

lemma fitPlan_issued:
  assumes "fitPlan ho cfg m w = (p, w')"
  shows "issued U P w w'" and "mg_host w' = mg_host w" and "mg_cmds w' = mg_cmds w"
proof -
  have "issued U P w w' \<and> mg_host w' = mg_host w \<and> mg_cmds w' = mg_cmds w"
    using assms
  proof (cases rule: fitPlan_states)
    case 1
    then show ?thesis by auto
  next
    case (2 occ)
    then show ?thesis using states_issued by blast
  next
    case (3 occ w1 occ')
    have "issued U P w w1" "issued U P w1 w'" using states_issued 3 by blast+
    then show ?thesis
      using issued_trans states_issued(2,3) [OF 3(1)] states_issued(2,3) [OF 3(2)] by metis
  qed
  then show "issued U P w w'" "mg_host w' = mg_host w" "mg_cmds w' = mg_cmds w" by auto
qed

lemma siblingGuard_issued:
  assumes "siblingGuard ho cfg m s w = (e, w')"
  shows "issued U P w w'"
proof (cases "sibling cfg m s w")
  case (Some n)
  obtain p w1 where p: "fitPlan ho cfg m w = (p, w1)" by (rule prod.exhaust)
  have "w' = w1"
    using assms Some p by (auto simp: siblingGuard_def split: sum.splits if_splits)
  then show ?thesis using fitPlan_issued(1) [OF p] by simp
qed (use assms in \<open>auto simp: siblingGuard_def\<close>)

lemma load_cases:
  assumes "load ho cfg m s w = (r, w')"
  obtains (refused) "w' = w" "\<not> or_success r"
  | (guarded) e where "siblingGuard ho cfg m s w = (Some e, w')" "\<not> or_success r"
  | (loaded) sc svc w1 w3 mode svcs where "slotOf cfg s = Some sc" "siblingGuard ho cfg m s w = (None, w1)"
      "loadInto ho cfg m s sc (svc\<lparr>sv_portRole := s\<rparr>)
         (setTransition s (Some \<lparr>tn_mode = m, tn_startedAt = ho_now ho (mg_host w1)\<rparr>) None w1) = (r, w3)"
      "w' = setTransition s None None w3" "modeOf cfg m = Some mode" "mc_services mode = svc # svcs"
proof -
  obtain e w1 where g: "siblingGuard ho cfg m s w = (e, w1)" by (rule prod.exhaust)
  have "w' = w \<and> \<not> or_success r \<or> (\<exists>msg. e = Some msg \<and> w' = w1 \<and> \<not> or_success r) \<or>
      e = None \<and> (\<exists>sc svc w3 mode svcs. modeOf cfg m = Some mode \<and> mc_services mode = svc # svcs \<and> slotOf cfg s = Some sc \<and> loadInto ho cfg m s sc (svc\<lparr>sv_portRole := s\<rparr>)
         (setTransition s (Some \<lparr>tn_mode = m, tn_startedAt = ho_now ho (mg_host w1)\<rparr>) None w1) = (r, w3) \<and>
         w' = setTransition s None None w3)"
    using assms g
    by (auto simp: load_def failed_def split: option.splits list.splits prod.splits)
  then show ?thesis using that g by blast
qed

lemma load_issued:
  assumes "load ho cfg m s w = (r, w')"
    and "\<And>sc. slotOf cfg s = Some sc \<Longrightarrow> sc_unit sc \<in> U"
  shows "issued U P w w'"
    and "or_success r \<Longrightarrow> mg_slots w s \<noteq> None \<Longrightarrow> slotMode w' s = m"
proof -
  have *: "issued U P w w' \<and> (or_success r \<longrightarrow> mg_slots w s \<noteq> None \<longrightarrow> slotMode w' s = m)"
    using assms(1)
  proof (cases rule: load_cases)
    case refused
    then show ?thesis by auto
  next
    case (guarded e)
    then show ?thesis using siblingGuard_issued by blast
  next
    case (loaded sc svc w1 w3 mode svcs)
    have i: "issued U P w w1" by (rule siblingGuard_issued [OF loaded(2)])
    have j: "issued U P w1 w3" using loadInto_issued(1) [OF loaded(3) assms(2) [OF loaded(1)]] by simp
    have "slotMode w3 s = m" if "or_success r" "mg_slots w s \<noteq> None"
    proof (rule loadInto_issued(2) [OF loaded(3) _ that(1)])
      have "s \<in> dom (mg_slots w1)" using i that(2) by (auto simp: issued_def)
      then show "mg_slots (setTransition s (Some \<lparr>tn_mode = m, tn_startedAt = ho_now ho (mg_host w1)\<rparr>)
          None w1) s \<noteq> None"
        using setTransition_simps(3) by blast
    qed (rule UNIV_I)
    then show ?thesis using issued_trans [OF i j] loaded(4) by simp
  qed
  then show "issued U P w w'" "or_success r \<Longrightarrow> mg_slots w s \<noteq> None \<Longrightarrow> slotMode w' s = m" by auto
qed

lemma stopEach_issued: "set us \<subseteq> U \<Longrightarrow> issued U P w (stopEach ho us w)"
proof (induction us arbitrary: w)
  case (Cons u us)
  obtain ok w1 where w1: "sysStop ho u w = (ok, w1)" by (rule prod.exhaust)
  have "issued U P w w1" using sysStop_issued [OF w1] Cons.prems by simp
  also have "issued U P w1 (stopEach ho us w1)" using Cons by simp
  finally show ?case using w1 by (simp add: stopEach_def)
qed (simp add: stopEach_def issued_refl)

lemma awaitEach_issued: "awaitEach ho us w = (ok, w') \<Longrightarrow> issued U P w w'"
proof (induction us arbitrary: w w' ok)
  case (Cons u us)
  obtain g w1 where w1: "onHost (waitUnitGone ho u 5 0) w = (g, w1)" by (rule prod.exhaust)
  obtain g2 w2 where w2: "awaitEach ho us w1 = (g2, w2)" by (rule prod.exhaust)
  have "issued U P w w1" using onHost_issued [OF w1] by simp
  also have "issued U P w1 w2" by (rule Cons.IH [OF w2])
  finally show ?case using Cons.prems w1 w2 by simp
qed (auto intro: issued_refl)

lemma issued_clear [simp]:
  "issued U P w (killLingering ho [] w') = issued U P w w'"
  "issued U P w (drainGTT ho w') = issued U P w w'"
  by (simp_all add: issued_def killLingering_def Let_def)

lemma stopAll_dom: "stopAll ho cfg w = (ok, w') \<Longrightarrow> issued UNIV UNIV w w'"
proof -
  assume *: "stopAll ho cfg w = (ok, w')"
  define us where "us = sort (canonicalUnits cfg)"
  obtain b w2 where w2: "awaitEach ho us (stopEach ho us w) = (b, w2)" by (rule prod.exhaust)
  have "issued UNIV UNIV w w2"
    using issued_trans [OF stopEach_issued awaitEach_issued [OF w2]] by simp
  also have "issued UNIV UNIV w2 (killLingering ho (map (\<lambda>(n, sc). sc_port sc) (ec_slots cfg)) w2)"
    by (rule killLingering_issued) simp
  finally show ?thesis using * w2 by (auto simp: stopAll_def us_def Let_def)
qed

lemma unload_dom: "unload ho cfg s w = (r, w') \<Longrightarrow> dom (mg_slots w) \<subseteq> dom (mg_slots w')"
  and unload_slot:
    "unload ho cfg s w = (r, w') \<Longrightarrow> s \<noteq> ''all'' \<Longrightarrow>
     (\<And>sc. slotOf cfg s = Some sc \<Longrightarrow> sc_unit sc \<in> U \<and> sc_port sc \<in> P) \<Longrightarrow> issued U P w w'"
  and unload_mode:
    "unload ho cfg s w = (r, w') \<Longrightarrow> s \<noteq> ''all'' \<Longrightarrow> or_success r \<Longrightarrow> slotMode w' s = []"
proof -
  have main: "issued U P w w' \<and> (or_success r \<longrightarrow> slotMode w' s = [])"
    if u: "unload ho cfg s w = (r, w')" and s: "s \<noteq> ''all''"
      and UP: "\<And>sc. slotOf cfg s = Some sc \<Longrightarrow> sc_unit sc \<in> U \<and> sc_port sc \<in> P" for U P
  proof (cases "slotOf cfg s")
    case None
    with u s show ?thesis by (auto simp: unload_def failed_def)
  next
    case (Some sc)
    define w1 where "w1 = setTransition s None
      (Some \<lparr>tn_mode = sa_mode (slotRec w s), tn_startedAt = ho_now ho (mg_host w)\<rparr>) w"
    obtain ok w2 where w2: "sysStop ho (sc_unit sc) w1 = (ok, w2)" by (rule prod.exhaust)
    obtain g w3 where w3: "onHost (waitUnitGone ho (sc_unit sc) deactivatingWaitS 0) w2 = (g, w3)"
      by (rule prod.exhaust)
    define w4 where "w4 = drainGTT ho (killLingering ho [sc_port sc] w3)"
    have i1: "issued U P w w1" by (simp add: w1_def issued_refl)
    have i3: "issued U P w w3"
      using issued_trans [OF i1] issued_trans sysStop_issued [OF w2] onHost_issued [OF w3] UP [OF Some]
      by metis
    have i4: "issued U P w w4"
      unfolding w4_def using issued_trans [OF i3 killLingering_issued] UP [OF Some] by simp
    have cases: "w' = setTransition s None None w3 \<and> \<not> or_success r \<or>
        w' = setTransition s None None (setSlotMode s [] w4)"
      using u s Some w2 w3 by (auto simp: unload_def Let_def failed_def w1_def [symmetric] w4_def split: if_splits)
    have "slotMode (setSlotMode s [] w4) s = []"
      by (simp add: setSlotMode_mode) (simp add: slotMode_def slotRec_def assigned_def no_assignment_def)
    then show ?thesis using cases i3 i4 by auto
  qed
  show "issued U P w w'" if "unload ho cfg s w = (r, w')" "s \<noteq> ''all''"
    "\<And>sc. slotOf cfg s = Some sc \<Longrightarrow> sc_unit sc \<in> U \<and> sc_port sc \<in> P"
    using main [OF that] by blast
  show "slotMode w' s = []" if "unload ho cfg s w = (r, w')" "s \<noteq> ''all''" "or_success r"
    using main [OF that(1,2), of UNIV UNIV] that(3) by blast
  show "dom (mg_slots w) \<subseteq> dom (mg_slots w')" if u: "unload ho cfg s w = (r, w')"
  proof (cases "s = ''all''")
    case True
    obtain ok w1 where w1: "stopAll ho cfg w = (ok, w1)" by (rule prod.exhaust)
    have "w' = clearAllSlots w1" using u True w1 by (simp add: unload_def unloadAll_def)
    moreover have "dom (mg_slots (clearAllSlots w1)) = dom (mg_slots w1)"
      by (auto simp: clearAllSlots_def)
    ultimately show ?thesis using stopAll_dom [OF w1] by (simp add: issued_def)
  next
    case False
    then show ?thesis using main [OF u False, of UNIV UNIV] by (simp add: issued_def)
  qed
qed

section \<open>The interpretation\<close>

lemma disturbed_issued:
  assumes i: "issued {sc_unit sc} {sc_port sc} w w'" and wf: "config_wf cfg" and s: "slotOf cfg s = Some sc"
  shows "disturbed cfg w' \<subseteq> insert s (disturbed cfg w)"
proof
  fix t assume "t \<in> disturbed cfg w'"
  then obtain b where b: "slotOf cfg t = Some b"
    "CmdStop (sc_unit b) \<in> set (mg_cmds w') \<or> (\<exists>pid. CmdKill (sc_port b) pid \<in> set (mg_cmds w'))"
    by (auto simp: disturbed_def)
  obtain cs where cs: "mg_cmds w' = mg_cmds w @ cs" "\<forall>c \<in> set cs. allowed {sc_unit sc} {sc_port sc} c"
    using i by (auto simp: issued_def)
  show "t \<in> insert s (disturbed cfg w)"
  proof (cases "sc_unit b = sc_unit sc \<or> sc_port b = sc_port sc")
    case True
    then show ?thesis using wf_unit_unique [OF wf b(1) s] by simp
  next
    case False
    then have "CmdStop (sc_unit b) \<notin> set cs" "CmdKill (sc_port b) pid \<notin> set cs" for pid
      using cs(2) by (auto simp: allowed_def)
    then show ?thesis using b cs(1) by (auto simp: disturbed_def)
  qed
qed

lemma disturbed_same: "mg_cmds w' = mg_cmds w \<Longrightarrow> disturbed cfg w' = disturbed cfg w"
  by (simp add: disturbed_def)

lemma running_same: "mg_host w' = mg_host w \<Longrightarrow> running_on ho cfg w' = running_on ho cfg w"
  by (rule ext) (simp add: running_on_def)

lemma reconcile_keeps_mode:
  "sa_mode a \<noteq> [] \<Longrightarrow> (\<And>u. st = Some u \<Longrightarrow> \<not> unit_gone u) \<Longrightarrow> sa_mode (reconcileRec cfg env st a) = sa_mode a"
  by (auto simp: reconcileRec_def Let_def split: option.splits)

lemma states_mode:
  assumes "slotStates ho cfg units w = (occ, w')"
  shows "slotMode w' s = (case occ s of None \<Rightarrow> slotMode w s | Some a \<Rightarrow> sa_mode a)"
  unfolding slotStates_eq(1) [OF assms]
  by (simp add: slotMode_def slotRec_def assigned_def map_add_def split: option.splits)

lemma states_keep_mode:
  assumes "slotStates ho cfg units w = (occ, w')" and "\<not> shows_gone cfg units s" and "slotMode w s \<noteq> []"
  shows "slotMode w' s = slotMode w s"
proof (cases "slotOf cfg s")
  case None
  then show ?thesis using states_mode [OF assms(1)] slotStates_eq(2) [OF assms(1)] by simp
next
  case (Some sc)
  have "sa_mode (reconcileRec cfg (readSlotEnv ho cfg s (mg_host w)) (units (sc_unit sc)) (slotRec w s))
      = slotMode w s"
    using assms(2,3) Some unfolding slotMode_def
    by (intro reconcile_keeps_mode) (auto simp: shows_gone_def)
  then show ?thesis using states_mode [OF assms(1)] slotStates_eq(2) [OF assms(1)] Some by simp
qed

lemma live_gone:
  "shows_gone cfg (liveUnits ho cfg (mg_host w)) s \<longleftrightarrow> \<not> running_on ho cfg w s"
proof -
  have "liveUnits ho cfg h (sc_unit sc) = ho_state ho (sc_unit sc) h" if "slotOf cfg s = Some sc" for sc h
    using map_of_SomeD [OF that [unfolded slotOf_def]]
    by (auto simp: liveUnits_def list_ex_iff intro!: bexI [of _ "(s, sc)"])
  then show ?thesis by (auto simp: shows_gone_def running_on_def)
qed

lemma plan_keep_mode:
  assumes "fitPlan ho cfg m w = (p, w')" and "running_on ho cfg w s" and "slotMode w s \<noteq> []"
  shows "slotMode w' s = slotMode w s"
  using assms(1)
proof (cases rule: fitPlan_states)
  case (2 occ)
  then show ?thesis using states_keep_mode assms(2,3) live_gone by metis
next
  case (3 occ w1 occ')
  then show ?thesis using states_keep_mode assms(2,3) live_gone by metis
qed simp

lemma evictUntil_subset: "set (fst (evictUntil need avail cs)) \<subseteq> fst ` set cs"
  by (induction need avail cs rule: evictUntil.induct) (auto split: prod.splits)

lemma fitDecision_known: "set (p_evict (fitDecision m need avail free loaded comfy)) \<subseteq> fst ` set loaded"
  using evictUntil_subset [of need avail "sort_key (\<lambda>(s, f). (f, s)) loaded"]
  by (auto simp: fitDecision_def Let_def split: prod.splits)

lemma fitPlan_known:
  assumes "fitPlan ho cfg m w = (Inr p, w')"
  shows "set (p_evict p) \<subseteq> set (slotNames cfg)"
proof (cases "p_evict p = []")
  case False
  with assms obtain need avail free occ comfy where p: "p = fitDecision m need avail free
      (map (\<lambda>n. (n, slotFootprintBytes ho cfg n (mg_host w)))
        (filter (\<lambda>n. sa_mode (assigned occ n) \<noteq> []) (slotNames cfg))) comfy"
    by (auto simp: fitPlan_def Let_def split: if_splits prod.splits option.splits)
  show ?thesis using fitDecision_known [of m need avail free _ comfy] unfolding p by fastforce
qed simp

interpretation mgr: slot_engine "managerOps ho (config_of c)" slotMode "disturbed (config_of c)"
    "running_on ho (config_of c)" "\<lambda>units s. \<not> shows_gone (config_of c) units s" "recs_complete (config_of c)"
  for ho :: "'h host" and c
proof
  let ?cfg = "config_of c" and ?ops = "managerOps ho (config_of c)"
  note wf = config_of_wf [of c]
  fix w w' :: "'h manager" and units occ s m p and q :: plan and r
  show "''all'' \<notin> set (eo_slots ?ops w)" using wf_slots(3) [OF wf] by (simp add: managerOps_def)
  {
    assume "eo_slotStates ?ops units w = (occ, w')"
    then have st: "slotStates ho ?cfg units w = (occ, w')" by (simp add: managerOps_def)
    show "s \<in> set (eo_slots ?ops w) \<Longrightarrow> sa_mode (assigned occ s) = slotMode w' s"
      using wf_slots(5) [OF wf] states_mode [OF st, of s] slotStates_eq(2) [OF st, of s]
      by (auto simp: managerOps_def assigned_def split: option.splits)
    show "assigned occ s \<noteq> no_assignment \<Longrightarrow> s \<in> set (eo_slots ?ops w)"
      using wf_slots(5) [OF wf, of s] slotStates_eq(2) [OF st, of s]
      by (auto simp: managerOps_def assigned_def split: option.splits)
    show "\<not> shows_gone ?cfg units s \<Longrightarrow> slotMode w s \<noteq> [] \<Longrightarrow> slotMode w' s = slotMode w s"
      by (rule states_keep_mode [OF st])
    show "disturbed ?cfg w' = disturbed ?cfg w \<and> running_on ho ?cfg w' = running_on ho ?cfg w \<and>
        eo_slots ?ops w' = eo_slots ?ops w"
      by (simp add: managerOps_def disturbed_same [OF states_issued(3) [OF st]] running_same [OF states_issued(2) [OF st]])
    show "recs_complete ?cfg w \<Longrightarrow> recs_complete ?cfg w'"
      using states_issued(1) [OF st, of UNIV UNIV] by (auto simp: recs_complete_def issued_def)
  }
  {
    assume "eo_fitPlan ?ops m w = (Inr q, w')"
    then show "set (p_evict q) \<subseteq> set (eo_slots ?ops w)"
      using fitPlan_known by (simp add: managerOps_def)
  }
  {
    assume "eo_fitPlan ?ops m w = (p, w')"
    then have st: "fitPlan ho ?cfg m w = (p, w')" by (simp add: managerOps_def)
    show "running_on ho ?cfg w s \<Longrightarrow> slotMode w s \<noteq> [] \<Longrightarrow> slotMode w' s = slotMode w s"
      by (rule plan_keep_mode [OF st])
    show "disturbed ?cfg w' = disturbed ?cfg w \<and> running_on ho ?cfg w' = running_on ho ?cfg w \<and>
        eo_slots ?ops w' = eo_slots ?ops w"
      by (simp add: managerOps_def disturbed_same [OF fitPlan_issued(3) [OF st]] running_same [OF fitPlan_issued(2) [OF st]])
    show "recs_complete ?cfg w \<Longrightarrow> recs_complete ?cfg w'"
      using fitPlan_issued(1) [OF st, of UNIV UNIV] by (auto simp: recs_complete_def issued_def)
  }
  {
    assume "eo_load ?ops m s w = (r, w')"
    then have ld: "load ho ?cfg m s w = (r, w')" by (simp add: managerOps_def)
    show "recs_complete ?cfg w \<Longrightarrow> recs_complete ?cfg w'"
      using load_issued(1) [OF ld, of UNIV UNIV] by (auto simp: recs_complete_def issued_def)
    show "disturbed ?cfg w' \<subseteq> insert s (disturbed ?cfg w)"
    proof (cases "slotOf ?cfg s")
      case None
      have "issued {} {} w w'" by (rule load_issued(1) [OF ld]) (simp add: None)
      then have "disturbed ?cfg w' \<subseteq> disturbed ?cfg w"
        by (auto simp: issued_def disturbed_def allowed_def split: command.splits)
      then show ?thesis by blast
    next
      case (Some sc)
      have "issued {sc_unit sc} {sc_port sc} w w'" by (rule load_issued(1) [OF ld]) (simp add: Some)
      then show ?thesis by (rule disturbed_issued [OF _ wf Some])
    qed
    show "recs_complete ?cfg w \<Longrightarrow> or_success r \<Longrightarrow> slotMode w' s = m"
    proof -
      assume good: "recs_complete ?cfg w" and suc: "or_success r"
      have "slotOf ?cfg s \<noteq> None" using ld suc by (cases rule: load_cases) auto
      then show ?thesis
        using load_issued(2) [OF ld, of UNIV] good suc by (auto simp: recs_complete_def)
    qed
  }
  {
    assume "eo_unload ?ops s w = (r, w')"
    then have un: "unload ho ?cfg s w = (r, w')" by (simp add: managerOps_def)
    show "recs_complete ?cfg w \<Longrightarrow> recs_complete ?cfg w'"
      using unload_dom [OF un] by (auto simp: recs_complete_def)
    show "or_success r \<Longrightarrow> s \<noteq> ''all'' \<Longrightarrow> slotMode w' s = []" using unload_mode [OF un] by blast
    show "disturbed ?cfg w' \<subseteq> insert s (disturbed ?cfg w)" if "s \<noteq> ''all''"
    proof (cases "slotOf ?cfg s")
      case None
      have "issued {} {} w w'" by (rule unload_slot [OF un that]) (simp add: None)
      then have "disturbed ?cfg w' \<subseteq> disturbed ?cfg w"
        by (auto simp: issued_def disturbed_def allowed_def split: command.splits)
      then show ?thesis by blast
    next
      case (Some sc)
      have "issued {sc_unit sc} {sc_port sc} w w'" by (rule unload_slot [OF un that]) (simp add: Some)
      then show ?thesis by (rule disturbed_issued [OF _ wf Some])
    qed
  }
qed

section \<open>The ComfyUI seam\<close>

text \<open>
  \<open>newComfyUISeam\<close> of the daemon.  The queue probe over HTTP is a parameter: the URL that is
  configured, and the numbers of running and pending workflows or the error of the probe.
\<close>

definition comfyIdle ::
    "('h \<Rightarrow> string) \<Rightarrow> (string \<Rightarrow> 'h \<Rightarrow> string + nat \<times> nat) \<Rightarrow> 'h manager \<Rightarrow> bool \<times> string" where
  "comfyIdle url queue w =
     (let h = mg_host w in
      if url h = [] then (False, ''no ComfyUI URL configured'')
      else
        (case queue (url h) h of
           Inl err \<Rightarrow> (False, ''queue probe failed ('' @ err @ '')'')
         | Inr (running, pending) \<Rightarrow>
           if running > 0 \<or> pending > 0 then (False, ''a workflow is queued or running'') else (True, [])))"

definition comfyStop :: "'h host \<Rightarrow> unit_name \<Rightarrow> 'h manager \<Rightarrow> string option \<times> 'h manager" where
  "comfyStop ho u w =
     (if u = [] then (Some ''no ComfyUI unit configured'', w)
      else let (done, w') = sysStop ho u w in (if done then None else Some ''stop failed'', w'))"

definition comfySeam ::
    "'h host \<Rightarrow> unit_name \<Rightarrow> ('h \<Rightarrow> string) \<Rightarrow> (string \<Rightarrow> 'h \<Rightarrow> string + nat \<times> nat) \<Rightarrow> 'h manager comfy_seam" where
  "comfySeam ho u url queue = \<lparr>cs_unit = Some u, cs_idle = Some (comfyIdle url queue), cs_stop = Some (comfyStop ho u)\<rparr>"

interpretation mgr_comfy: seamed_engine "managerOps ho (config_of c)" slotMode "disturbed (config_of c)"
    "running_on ho (config_of c)" "\<lambda>units s. \<not> shows_gone (config_of c) units s" "recs_complete (config_of c)"
    "Some (comfySeam ho (comfyUnit c) url queue)"
  for ho :: "'h host" and c url queue
proof
  fix cm stop e and w w' :: "'h manager"
  assume "Some (comfySeam ho (comfyUnit c) url queue) = Some cm" "cs_stop cm = Some stop" "stop w = (e, w')"
  then have st: "comfyStop ho (comfyUnit c) w = (e, w')" by (auto simp: comfySeam_def)
  show "disturbed (config_of c) w' = disturbed (config_of c) w \<and>
    (recs_complete (config_of c) w \<longrightarrow> recs_complete (config_of c) w')"
  proof (cases "comfyUnit c = []")
    case True
    with st show ?thesis by (simp add: comfyStop_def)
  next
    case False
    obtain ok w1 where w1: "sysStop ho (comfyUnit c) w = (ok, w1)" by (rule prod.exhaust)
    then have eq: "w' = w1" using st False by (simp add: comfyStop_def)
    have "mg_slots w1 = mg_slots w" "mg_cmds w1 = mg_cmds w @ [CmdStop (comfyUnit c)]"
      using w1 by (auto simp: sysStop_def split: prod.splits)
    moreover have "sc_unit sc \<noteq> comfyUnit c" if "slotOf (config_of c) s = Some sc" for s sc
      using comfyUnit_aux wf_slots(2) [OF config_of_wf] that by blast
    ultimately show ?thesis by (auto simp: eq disturbed_def recs_complete_def)
  qed
qed

end
