(* ===== verification/Switch.thy ===== *)
theory Switch
  imports Lifecycle
begin

text \<open>
  engine/lifecycle.go, the operations on the whole engine: switching to a mode, restarting the
  current one, the boot, and the start and stop of auxiliary units.  As in \<open>Lifecycle\<close> each is
  one function on the manager's state; a restart, which takes the lock twice, is modelled
  without another operation in between.
\<close>

section \<open>Switching\<close>

text \<open>The env files of every service that runs in a slot; the first error ends the switch.\<close>

fun writeAll :: "'h host \<Rightarrow> engine_config \<Rightarrow> service list \<Rightarrow> 'h manager \<Rightarrow> write_error option \<times> 'h manager" where
  "writeAll ho cfg [] w = (None, w)"
| "writeAll ho cfg (svc # svcs) w =
     (if slotOf cfg (sv_portRole svc) = None then writeAll ho cfg svcs w
      else (case onHost (writeServiceFiles ho cfg (sv_portRole svc) svc) w of
              (Some e, w1) \<Rightarrow> (Some e, w1)
            | (None, w1) \<Rightarrow> writeAll ho cfg svcs w1))"

fun startAll :: "'h host \<Rightarrow> unit_name list \<Rightarrow> 'h manager \<Rightarrow> bool \<times> 'h manager" where
  "startAll ho [] w = (True, w)"
| "startAll ho (u # us) w =
     (case sysStart ho u w of
        (False, w1) \<Rightarrow> (False, w1)
      | (True, w1) \<Rightarrow> startAll ho us w1)"

text \<open>Waiting for each service: \<open>Inl\<close> the unit that did not come up, \<open>Inr\<close> the first
  context size a server reported.\<close>

fun verifyAll ::
    "'h host \<Rightarrow> engine_config \<Rightarrow> model \<Rightarrow> service list \<Rightarrow> int \<Rightarrow> 'h manager
     \<Rightarrow> (unit_name + int) \<times> 'h manager" where
  "verifyAll ho cfg m [] verified w = (Inr verified, w)"
| "verifyAll ho cfg m (svc # svcs) verified w =
     (let u = serviceUnit cfg svc;
          port = (case slotOf cfg (sv_portRole svc) of None \<Rightarrow> 0 | Some sc \<Rightarrow> sc_port sc) in
      if u = [] then verifyAll ho cfg m svcs verified w
      else
        (case onHost (waitServiceRunning ho u port svc) w of
           (False, w1) \<Rightarrow> (Inl u, snd (sysStop ho u w1))
         | (True, w1) \<Rightarrow>
           let actual = verifiedContext ho port svc (mg_host w1) in
           verifyAll ho cfg m svcs (if verified = 0 then actual else verified)
             (setSlotMode (sv_portRole svc) m w1)))"

definition modeNames :: "engine_config \<Rightarrow> model list" where
  "modeNames cfg = sort (map fst (ec_modes cfg))"

definition bringUp ::
    "'h host \<Rightarrow> engine_config \<Rightarrow> (time \<Rightarrow> string) \<Rightarrow> model \<Rightarrow> mode_config \<Rightarrow> 'h manager
     \<Rightarrow> op_result \<times> 'h manager" where
  "bringUp ho cfg rfc3339 m mode w =
     (case writeAll ho cfg (mc_services mode) w of
        (Some e, w1) \<Rightarrow> (failed (write_message e), w1)
      | (None, w1) \<Rightarrow>
        (case startAll ho (filter (\<lambda>u. u \<noteq> []) (map (serviceUnit cfg) (mc_services mode))) w1 of
           (False, w2) \<Rightarrow> (failed (MsgStartServicesFailed m), w2)
         | (True, w2) \<Rightarrow>
           (case verifyAll ho cfg m (mc_services mode) 0 w2 of
              (Inl u, w3) \<Rightarrow> (failed (MsgNotRunning u), w3)
            | (Inr n, w3) \<Rightarrow> (succeeded (MsgSwitched m) n, saveMode ho cfg rfc3339 m w3))))"

definition switchMode ::
    "'h host \<Rightarrow> engine_config \<Rightarrow> (time \<Rightarrow> string) \<Rightarrow> model \<Rightarrow> 'h manager \<Rightarrow> op_result \<times> 'h manager" where
  "switchMode ho cfg rfc3339 m w =
     (case modeOf cfg m of None \<Rightarrow> (failed (MsgUnknownMode m), w)
      | Some mode \<Rightarrow>
        (let (current, w1) = currentMode ho cfg rfc3339 w in
         if current = m \<and> modeFullyActive ho cfg mode (mg_host w1)
         then (succeeded (MsgAlreadyIn m) 0, w1)
         else
           (case stopAll ho cfg w1 of
              (False, w2) \<Rightarrow> (failed MsgNoCleanStop, w2)
            | (True, w2) \<Rightarrow> bringUp ho cfg rfc3339 m mode (clearAllSlots w2))))"

definition restart ::
    "'h host \<Rightarrow> engine_config \<Rightarrow> (time \<Rightarrow> string) \<Rightarrow> 'h manager \<Rightarrow> op_result \<times> 'h manager" where
  "restart ho cfg rfc3339 w =
     (let (current, w1) = currentMode ho cfg rfc3339 w in
      if current = ''unknown'' then (failed MsgCannotRestart, w1)
      else if current = ''unloaded'' then (succeeded MsgNothingToRestart 0, w1)
      else
        (case stopAll ho cfg w1 of
           (False, w2) \<Rightarrow> (failed MsgNoCleanStop, w2)
         | (True, w2) \<Rightarrow> switchMode ho cfg rfc3339 current (clearAllSlots w2)))"

definition bootTarget :: "engine_config \<Rightarrow> model" where
  "bootTarget cfg = (case find (\<lambda>(n, mode). mc_default mode) (ec_modes cfg) of
     None \<Rightarrow> ''unloaded'' | Some (n, mode) \<Rightarrow> n)"

definition boot ::
    "'h host \<Rightarrow> engine_config \<Rightarrow> (time \<Rightarrow> string) \<Rightarrow> 'h manager \<Rightarrow> op_result \<times> 'h manager" where
  "boot ho cfg rfc3339 w = switchMode ho cfg rfc3339 (bootTarget cfg) w"

section \<open>Auxiliary units\<close>

datatype unit_error = EmptyUnit | SlotUnit unit_name | SystemdError unit_name

definition guardAuxUnit :: "engine_config \<Rightarrow> unit_name \<Rightarrow> unit_error option" where
  "guardAuxUnit cfg u =
     (if u = [] then Some EmptyUnit
      else if list_ex (\<lambda>(n, sc). sc_unit sc = u) (ec_slots cfg) then Some (SlotUnit u)
      else None)"

definition startUnit :: "'h host \<Rightarrow> engine_config \<Rightarrow> unit_name \<Rightarrow> 'h manager \<Rightarrow> unit_error option \<times> 'h manager" where
  "startUnit ho cfg u w =
     (case guardAuxUnit cfg u of Some e \<Rightarrow> (Some e, w)
      | None \<Rightarrow> let (done, w') = sysStart ho u w in (if done then None else Some (SystemdError u), w'))"

definition stopUnit :: "'h host \<Rightarrow> engine_config \<Rightarrow> unit_name \<Rightarrow> 'h manager \<Rightarrow> unit_error option \<times> 'h manager" where
  "stopUnit ho cfg u w =
     (case guardAuxUnit cfg u of Some e \<Rightarrow> (Some e, w)
      | None \<Rightarrow> let (done, w') = sysStop ho u w in (if done then None else Some (SystemdError u), w'))"

end
