(* ===== verification/Gated_Engine.thy ===== *)
theory Gated_Engine
  imports Maintenance Engine_Provider Switch
begin

text \<open>
  maintenance/engine_wrap.go: the engine behind the maintenance gate.  Every operation that
  changes it is refused while a window is open; reading passes through.  The scheduler works
  on this wrapped engine.  The laws of an engine carry over to the wrapped one, so that the
  lemmas on load attempts apply to what the daemon runs.
\<close>

section \<open>The wrapped operations\<close>

record ('w, 'd) gated =
  gd_engine :: 'w
  gd_gate :: "'d gate"

text \<open>A gated call: \<open>clock\<close> is the gate's, \<open>ctx\<close> the lease the calling context carries.\<close>

definition gateCall ::
    "'d gate_store option \<Rightarrow> ('w \<Rightarrow> time) \<Rightarrow> string option \<Rightarrow> (string \<Rightarrow> 'r) \<Rightarrow> ('w \<Rightarrow> 'r \<times> 'w)
     \<Rightarrow> ('w, 'd) gated \<Rightarrow> 'r \<times> ('w, 'd) gated" where
  "gateCall st clock ctx refuse call g =
     (case gateBlocked st (clock (gd_engine g)) ctx (gd_gate g) of
        (Some reason, gate) \<Rightarrow> (refuse reason, g\<lparr>gd_gate := gate\<rparr>)
      | (None, gate) \<Rightarrow>
        let (r, w) = call (gd_engine g) in (r, g\<lparr>gd_engine := w, gd_gate := gate\<rparr>))"

definition maintenanceRefusal :: "string \<Rightarrow> op_result" where
  "maintenanceRefusal reason = failed (MsgMaintenance reason)"

text \<open>A read: it may change the engine's own records, not the gate.\<close>

definition passThrough :: "('w \<Rightarrow> 'r \<times> 'w) \<Rightarrow> ('w, 'd) gated \<Rightarrow> 'r \<times> ('w, 'd) gated" where
  "passThrough call g = (let (r, w) = call (gd_engine g) in (r, g\<lparr>gd_engine := w\<rparr>))"

text \<open>The wrapped engine has no method \<open>SlotFootprintMB\<close>.\<close>

definition gatedOps ::
    "'d gate_store option \<Rightarrow> ('w \<Rightarrow> time) \<Rightarrow> string option \<Rightarrow> 'w engine_ops \<Rightarrow> ('w, 'd) gated engine_ops" where
  "gatedOps st clock ctx ops = \<lparr>
     eo_slots = (\<lambda>g. eo_slots ops (gd_engine g)),
     eo_slotStates = (\<lambda>units. passThrough (eo_slotStates ops units)),
     eo_fitPlan = (\<lambda>m. passThrough (eo_fitPlan ops m)),
     eo_load = (\<lambda>m s. gateCall st clock ctx maintenanceRefusal (eo_load ops m s)),
     eo_unload = (\<lambda>s. gateCall st clock ctx maintenanceRefusal (eo_unload ops s)),
     eo_footprintMB = None\<rparr>"

definition gatedSwitchMode where
  "gatedSwitchMode st clock ctx ho cfg rfc3339 m = gateCall st clock ctx maintenanceRefusal (switchMode ho cfg rfc3339 m)"

definition gatedRestart where
  "gatedRestart st clock ctx ho cfg rfc3339 = gateCall st clock ctx maintenanceRefusal (restart ho cfg rfc3339)"

datatype gated_error = Blocked string | UnitError unit_error

definition gatedStartUnit where
  "gatedStartUnit st clock ctx ho cfg u =
     gateCall st clock ctx (\<lambda>reason. Some (Blocked reason))
       (\<lambda>w. let (e, w') = startUnit ho cfg u w in (map_option UnitError e, w'))"

definition gatedStopUnit where
  "gatedStopUnit st clock ctx ho cfg u =
     gateCall st clock ctx (\<lambda>reason. Some (Blocked reason))
       (\<lambda>w. let (e, w') = stopUnit ho cfg u w in (map_option UnitError e, w'))"

text \<open>The seam stops ComfyUI through systemd, not through the wrapped engine.\<close>

definition liftSeam :: "'w comfy_seam \<Rightarrow> ('w, 'd) gated comfy_seam" where
  "liftSeam c = \<lparr>cs_unit = cs_unit c, cs_idle = map_option (\<lambda>f g. f (gd_engine g)) (cs_idle c),
     cs_stop = map_option passThrough (cs_stop c)\<rparr>"

section \<open>The laws carry over\<close>

lemma passThrough_eq: "passThrough call g = (r, g') \<longleftrightarrow>
    (\<exists>w. call (gd_engine g) = (r, w) \<and> g' = g\<lparr>gd_engine := w\<rparr>)"
  by (auto simp: passThrough_def split: prod.splits)

lemma gateCall_cases:
  assumes "gateCall st clock ctx refuse call g = (r, g')"
  obtains (refused) reason where "r = refuse reason" "gd_engine g' = gd_engine g"
  | (passed) "call (gd_engine g) = (r, gd_engine g')"
  using assms by (auto simp: gateCall_def split: prod.splits option.splits)

locale gated_engine = seamed_engine ops mode_of touched alive shown ok seam
  for ops :: "'w engine_ops" and mode_of and touched and alive and shown and ok and seam +
  fixes st :: "'d gate_store option" and clock :: "'w \<Rightarrow> time" and ctx :: "string option"

sublocale gated_engine \<subseteq> gated: seamed_engine "gatedOps st clock ctx ops"
    "\<lambda>g. mode_of (gd_engine g)" "\<lambda>g. touched (gd_engine g)" "\<lambda>g. alive (gd_engine g)" shown
    "\<lambda>g. ok (gd_engine g)" "map_option liftSeam seam"
proof
  fix g g' :: "('w, 'd) gated" and units occ s m p and q :: plan and r and cm stop e
  show "''all'' \<notin> set (eo_slots (gatedOps st clock ctx ops) g)"
    using no_all by (simp add: gatedOps_def)
  {
    assume "eo_slotStates (gatedOps st clock ctx ops) units g = (occ, g')"
    then have st: "eo_slotStates ops units (gd_engine g) = (occ, gd_engine g')"
      by (auto simp: gatedOps_def passThrough_eq)
    show "s \<in> set (eo_slots (gatedOps st clock ctx ops) g) \<Longrightarrow> sa_mode (assigned occ s) = mode_of (gd_engine g') s"
      using states_report [OF st] by (simp add: gatedOps_def)
    show "assigned occ s \<noteq> no_assignment \<Longrightarrow> s \<in> set (eo_slots (gatedOps st clock ctx ops) g)"
      using states_known [OF st] by (simp add: gatedOps_def)
    show "shown units s \<Longrightarrow> mode_of (gd_engine g) s \<noteq> [] \<Longrightarrow> mode_of (gd_engine g') s = mode_of (gd_engine g) s"
      by (rule states_keep [OF st])
    show "touched (gd_engine g') = touched (gd_engine g) \<and> alive (gd_engine g') = alive (gd_engine g) \<and>
        eo_slots (gatedOps st clock ctx ops) g' = eo_slots (gatedOps st clock ctx ops) g"
      using states_quiet [OF st] by (simp add: gatedOps_def)
    show "ok (gd_engine g) \<Longrightarrow> ok (gd_engine g')" by (rule states_ok [OF st])
  }
  {
    assume "eo_fitPlan (gatedOps st clock ctx ops) m g = (Inr q, g')"
    then have "eo_fitPlan ops m (gd_engine g) = (Inr q, gd_engine g')"
      by (auto simp: gatedOps_def passThrough_eq)
    from plan_known [OF this] show "set (p_evict q) \<subseteq> set (eo_slots (gatedOps st clock ctx ops) g)"
      by (simp add: gatedOps_def)
  }
  {
    assume "eo_fitPlan (gatedOps st clock ctx ops) m g = (p, g')"
    then have st: "eo_fitPlan ops m (gd_engine g) = (p, gd_engine g')"
      by (auto simp: gatedOps_def passThrough_eq)
    show "alive (gd_engine g) s \<Longrightarrow> mode_of (gd_engine g) s \<noteq> [] \<Longrightarrow>
        mode_of (gd_engine g') s = mode_of (gd_engine g) s"
      by (rule plan_keep [OF st])
    show "touched (gd_engine g') = touched (gd_engine g) \<and> alive (gd_engine g') = alive (gd_engine g) \<and>
        eo_slots (gatedOps st clock ctx ops) g' = eo_slots (gatedOps st clock ctx ops) g"
      using plan_quiet [OF st] by (simp add: gatedOps_def)
    show "ok (gd_engine g) \<Longrightarrow> ok (gd_engine g')" by (rule plan_ok [OF st])
  }
  {
    assume "eo_load (gatedOps st clock ctx ops) m s g = (r, g')"
    then have call: "gateCall st clock ctx maintenanceRefusal (eo_load ops m s) g = (r, g')" by (simp add: gatedOps_def)
    show "ok (gd_engine g) \<Longrightarrow> ok (gd_engine g')"
      using call load_keeps by (cases rule: gateCall_cases) auto
    show "ok (gd_engine g) \<Longrightarrow> or_success r \<Longrightarrow> mode_of (gd_engine g') s = m"
      using call load_ok by (cases rule: gateCall_cases) (auto simp: maintenanceRefusal_def failed_def)
    show "touched (gd_engine g') \<subseteq> insert s (touched (gd_engine g))"
      using call load_quiet by (cases rule: gateCall_cases) auto
  }
  {
    assume "eo_unload (gatedOps st clock ctx ops) s g = (r, g')"
    then have call: "gateCall st clock ctx maintenanceRefusal (eo_unload ops s) g = (r, g')" by (simp add: gatedOps_def)
    show "ok (gd_engine g) \<Longrightarrow> ok (gd_engine g')"
      using call unload_keeps by (cases rule: gateCall_cases) auto
    show "or_success r \<Longrightarrow> s \<noteq> ''all'' \<Longrightarrow> mode_of (gd_engine g') s = []"
      using call unload_ok by (cases rule: gateCall_cases) (auto simp: maintenanceRefusal_def failed_def)
    show "s \<noteq> ''all'' \<Longrightarrow> touched (gd_engine g') \<subseteq> insert s (touched (gd_engine g))"
      using call unload_quiet by (cases rule: gateCall_cases) auto
  }
  assume "map_option liftSeam seam = Some cm" "cs_stop cm = Some stop" "stop g = (e, g')"
  then obtain c0 stop0 where "seam = Some c0" "cs_stop c0 = Some stop0"
    "stop0 (gd_engine g) = (e, gd_engine g')"
    by (auto simp: liftSeam_def passThrough_eq)
  from stop_quiet [OF this]
  show "touched (gd_engine g') = touched (gd_engine g) \<and> (ok (gd_engine g) \<longrightarrow> ok (gd_engine g'))" .
qed

interpretation wrapped: gated_engine "managerOps ho (config_of c)" slotMode "disturbed (config_of c)"
    "running_on ho (config_of c)" "\<lambda>units s. \<not> shows_gone (config_of c) units s" "recs_complete (config_of c)"
    "Some (comfySeam ho (comfyUnit c) url queue)" st clock ctx
  for ho :: "'h host" and c url queue and st :: "'d gate_store option" and clock ctx
  by unfold_locales

end
