(* ===== verification/Engine_Props.thy ===== *)
theory Engine_Props
  imports Switch Engine_Provider
begin

text \<open>
  What the engine's operations achieve: the wait for a unit to go is exact, an unload frees a
  slot only when its unit was seen stopped, a switch leaves exactly the target's services
  recorded, and a mode that was loaded is recognised again after a restart of the daemon.
\<close>

section \<open>Waiting for a unit to go\<close>

text \<open>The polls happen after 0, 2, 4, ... virtual seconds, the last one at the first even
  second that is not before the time limit.\<close>

definition after_polls :: "'h host \<Rightarrow> nat \<Rightarrow> 'h \<Rightarrow> 'h" where
  "after_polls ho n h = (ho_pause ho 2 ^^ n) h"

lemma after_polls_0 [simp]: "after_polls ho 0 h = h"
  by (simp add: after_polls_def)

lemma after_polls_Suc: "after_polls ho (Suc n) h = after_polls ho n (ho_pause ho 2 h)"
  by (simp add: after_polls_def funpow_swap1)

definition stopped_after :: "'h host \<Rightarrow> unit_name \<Rightarrow> nat \<Rightarrow> 'h \<Rightarrow> bool" where
  "stopped_after ho u n h = unit_stopped (ho_state ho u (after_polls ho n h))"

lemma waitUnitGone_polls:
  "waitUnitGone ho u limit elapsed h = (gone, h') \<Longrightarrow> N = nat ((limit - elapsed + 1) div 2) \<Longrightarrow>
   (\<exists>n \<le> N. h' = after_polls ho n h \<and> (\<forall>k < n. \<not> stopped_after ho u k h) \<and>
     gone = stopped_after ho u n h \<and> (\<not> gone \<longrightarrow> n = N))"
proof (induction ho u limit elapsed h arbitrary: gone h' N rule: waitUnitGone.induct)
  case (1 ho u limit elapsed h)
  show ?case
  proof (cases "unit_stopped (ho_state ho u h)")
    case True
    with 1(2) have "gone" "h' = h" by (subst (asm) waitUnitGone.simps, simp)+
    with True show ?thesis by (intro exI [of _ 0]) (simp add: stopped_after_def)
  next
    case running: False
    show ?thesis
    proof (cases "limit \<le> elapsed")
      case True
      with 1(2) running have "\<not> gone" "h' = h" by (subst (asm) waitUnitGone.simps, simp)+
      moreover have "N = 0" using True 1(3) by simp
      ultimately show ?thesis using running by (intro exI [of _ 0]) (simp add: stopped_after_def)
    next
      case False
      have rec: "waitUnitGone ho u limit (elapsed + 2) (ho_pause ho 2 h) = (gone, h')"
        using 1(2) running False by (subst (asm) waitUnitGone.simps) simp
      have N: "N = Suc (nat ((limit - (elapsed + 2) + 1) div 2))" using 1(3) False by simp
      obtain n where n: "n \<le> nat ((limit - (elapsed + 2) + 1) div 2)"
        "h' = after_polls ho n (ho_pause ho 2 h)" "\<forall>k < n. \<not> stopped_after ho u k (ho_pause ho 2 h)"
        "gone = stopped_after ho u n (ho_pause ho 2 h)"
        "\<not> gone \<longrightarrow> n = nat ((limit - (elapsed + 2) + 1) div 2)"
        using 1(1) [OF running False rec refl] by blast
      have "\<not> stopped_after ho u k h" if "k < Suc n" for k
        using that n(3) running by (cases k) (auto simp: stopped_after_def after_polls_Suc)
      then show ?thesis
        using n N by (intro exI [of _ "Suc n"]) (simp add: stopped_after_def after_polls_Suc)
    qed
  qed
qed

text \<open>Waiting for a unit to stop always ends, and its answer is exact.  Within a time limit
  of \<open>2 * n\<close> seconds the engine reports the unit gone if and only if one of the \<open>n + 1\<close> polls
  it makes shows it stopped; it then returns at the first such poll, and otherwise after the
  last one.\<close>

theorem waitUnitGone_exact:
  "waitUnitGone ho u (2 * int n) 0 h =
     (case find (\<lambda>k. stopped_after ho u k h) [0..<Suc n] of
        Some k \<Rightarrow> (True, after_polls ho k h)
      | None \<Rightarrow> (False, after_polls ho n h))"
proof -
  obtain gone h' where w: "waitUnitGone ho u (2 * int n) 0 h = (gone, h')" by (rule prod.exhaust)
  have N: "n = nat ((2 * int n - 0 + 1) div 2)" by simp
  obtain m where m: "m \<le> n" "h' = after_polls ho m h" "\<forall>k < m. \<not> stopped_after ho u k h"
    "gone = stopped_after ho u m h" "\<not> gone \<longrightarrow> m = n"
    using waitUnitGone_polls [OF w N] by blast
  have parts: "[0..<Suc n] = [0..<m] @ m # [Suc m..<Suc n]"
    using m(1) upt_add_eq_append [of 0 m "Suc n - m"] upt_conv_Cons [of m "Suc n"] by simp
  have none: "find (\<lambda>k. stopped_after ho u k h) [0..<m] = None" using m(3) by (simp add: find_None_iff)
  have app: "find P (xs @ y # ys) = (if P y then Some y else find P ys)" if "find P xs = None"
    for P :: "nat \<Rightarrow> bool" and xs y ys using that by (induction xs) (auto split: if_splits)
  have F: "find (\<lambda>k. stopped_after ho u k h) [0..<Suc n] = (if gone then Some m else None)"
  proof (cases gone)
    case True
    then show ?thesis unfolding parts app [OF none] m(4) [symmetric] by simp
  next
    case False
    then show ?thesis using m(5) unfolding parts app [OF none] m(4) [symmetric] by simp
  qed
  show ?thesis using m(2,5) unfolding w F by (cases gone) auto
qed

section \<open>Unloading\<close>

lemma waitUnitGone_330:
  "fst (waitUnitGone ho u deactivatingWaitS 0 h) \<longleftrightarrow> (\<exists>k \<le> 165. stopped_after ho u k h)"
proof -
  obtain g h' where w: "waitUnitGone ho u deactivatingWaitS 0 h = (g, h')" by (rule prod.exhaust)
  have N: "165 = nat ((deactivatingWaitS - 0 + 1) div 2)" by (simp add: deactivatingWaitS_def)
  obtain n where n: "n \<le> 165" "\<forall>k < n. \<not> stopped_after ho u k h" "g = stopped_after ho u n h"
    "\<not> g \<longrightarrow> n = 165"
    using waitUnitGone_polls [OF w N] by blast
  have "g \<longleftrightarrow> (\<exists>k \<le> 165. stopped_after ho u k h)"
    using n by (metis le_neq_implies_less)
  then show ?thesis by (simp add: w)
qed

text \<open>C24: an unload never frees a slot whose unit may still be running.  It succeeds exactly when
  one of the 166 polls of its 330 seconds after the stop command showed the unit stopped; only
  then the slot's mode is cleared.  Otherwise the slot keeps its mode.  No other slot's
  record changes.\<close>

theorem unload_frees_only_stopped:
  assumes "unload ho cfg s w = (r, w')" and "s \<noteq> ''all''" and "slotOf cfg s = Some sc"
  shows "(or_success r \<longleftrightarrow>
      (\<exists>k \<le> 165. stopped_after ho (sc_unit sc) k (snd (ho_stop ho (sc_unit sc) (mg_host w))))) \<and>
    slotMode w' = (slotMode w)(s := if or_success r then [] else slotMode w s)"
proof -
  let ?u = "sc_unit sc"
  define w1 where "w1 = setTransition s None
    (Some \<lparr>tn_mode = sa_mode (slotRec w s), tn_startedAt = ho_now ho (mg_host w)\<rparr>) w"
  obtain ok w2 where w2: "sysStop ho ?u w1 = (ok, w2)" by (rule prod.exhaust)
  obtain g w3 where w3: "onHost (waitUnitGone ho ?u deactivatingWaitS 0) w2 = (g, w3)" by (rule prod.exhaust)
  have h2: "mg_host w2 = snd (ho_stop ho ?u (mg_host w))" "mg_slots w2 = mg_slots w1"
    using w2 by (auto simp: sysStop_def w1_def split: prod.splits)
  have g: "g \<longleftrightarrow> (\<exists>k \<le> 165. stopped_after ho ?u k (snd (ho_stop ho ?u (mg_host w))))"
    using onHost_simps(3) [OF w3] waitUnitGone_330 [of ho ?u "mg_host w2"] by (simp add: h2)
  have m3: "slotMode w3 = slotMode w"
  proof (rule ext)
    fix t
    have "slotMode w3 t = slotMode w1 t"
      using onHost_simps(2) [OF w3] h2(2) by (simp add: slotMode_def slotRec_def)
    then show "slotMode w3 t = slotMode w t" by (simp add: w1_def)
  qed
  define w4 where "w4 = drainGTT ho (killLingering ho [sc_port sc] w3)"
  have m4: "slotMode w4 = slotMode w" using m3 by (simp add: w4_def slotMode_def slotRec_def fun_eq_iff)
  have res: "(r, w') = (if g then (succeeded (MsgUnloaded s) 0, setTransition s None None (setSlotMode s [] w4))
      else (failed (MsgNotFreed ?u), setTransition s None None w3))"
    using assms w2 w3 by (cases g) (simp_all add: unload_def Let_def w1_def [symmetric] w4_def)
  have clear: "slotMode (setSlotMode s [] w4) t = (if t = s then [] else slotMode w t)" for t
  proof (cases "t = s \<and> mg_slots w4 s = None")
    case True
    then have "slotMode w4 s = []" by (simp add: slotMode_def slotRec_def assigned_def no_assignment_def)
    then show ?thesis using True by (simp add: setSlotMode_mode)
  next
    case False
    then show ?thesis using m4 by (auto simp: setSlotMode_mode)
  qed
  show ?thesis
  proof (cases g)
    case True
    then have rw: "r = succeeded (MsgUnloaded s) 0" "w' = setTransition s None None (setSlotMode s [] w4)"
      using res by simp_all
    have "slotMode w' = (slotMode w)(s := [])" by (rule ext) (simp add: rw clear)
    then show ?thesis using True g rw(1) by (simp add: succeeded_def)
  next
    case False
    then have rw: "r = failed (MsgNotFreed ?u)" "w' = setTransition s None None w3"
      using res by simp_all
    have "slotMode w' = slotMode w" by (rule ext) (simp add: rw m3)
    then show ?thesis using False g rw(1) by (simp add: failed_def)
  qed
qed

theorem unload_frees_only_stopped_witness:
  "slotMode (snd (unload sim_host sample_config ''a1'' (newManager sim_host sample_config sample_sim))) ''a1'' = []"
proof -
  let ?w = "newManager sim_host sample_config sample_sim"
  obtain r w' where u: "unload sim_host sample_config ''a1'' ?w = (r, w')" by (rule prod.exhaust)
  have s: "slotOf sample_config ''a1'' = Some \<lparr>sc_unit = ''forge-a1'', sc_port = 8080, sc_order = 1\<rparr>"
    by (simp add: slotOf_def sample_config_def)
  have "stopped_after sim_host ''forge-a1'' 0 (snd (ho_stop sim_host ''forge-a1'' h))" for h
    by (simp add: stopped_after_def sim_host_def unit_stopped_def unit_down_def)
  then have "\<exists>k \<le> 165. stopped_after sim_host ''forge-a1'' k (snd (ho_stop sim_host ''forge-a1'' (mg_host ?w)))"
    by blast
  with unload_frees_only_stopped [OF u _ s] show ?thesis by (simp add: u)
qed

text \<open>Unloading every slot is not held to this rule: it waits five seconds per unit, then clears
  every record and reports success, whatever the wait has shown.  A host on which stopped
  units stay in deactivation shows it.\<close>

definition stubborn_host :: "sim host" where
  "stubborn_host = sim_host\<lparr>ho_stop := (\<lambda>u h. (True, h\<lparr>si_units := (si_units h)(u \<mapsto>
     \<lparr>us_activeState = ''deactivating'', us_subState = ''stop-sigterm'', us_gpuBytes = 0\<rparr>)\<rparr>)),
     ho_pause := (\<lambda>n h. h)\<rparr>"

definition one_slot_config :: engine_config where
  "one_slot_config = sample_config\<lparr>ec_slots := [(''a1'', \<lparr>sc_unit = ''forge-a1'', sc_port = 8080, sc_order = 1\<rparr>)]\<rparr>"

definition loaded_manager :: "sim manager" where
  "loaded_manager = \<lparr>mg_slots = [''a1'' \<mapsto> no_assignment\<lparr>sa_mode := ''m1''\<rparr>], mg_cmds = [],
     mg_host = sample_sim\<lparr>si_units := [''forge-a1'' \<mapsto> unit_up]\<rparr>\<rparr>"

lemma stubborn_pause [simp]: "ho_pause stubborn_host n h = h"
  by (simp add: stubborn_host_def)

lemma stubborn_polls: "after_polls stubborn_host n h = h"
  by (induction n arbitrary: h) (simp_all add: after_polls_Suc)

lemma stubborn_wait:
  assumes "\<not> unit_stopped (ho_state stubborn_host u h)"
  shows "waitUnitGone stubborn_host u limit 0 h = (False, h)"
proof -
  obtain g h' where w: "waitUnitGone stubborn_host u limit 0 h = (g, h')" by (rule prod.exhaust)
  show ?thesis using waitUnitGone_polls [OF w refl] assms w by (auto simp: stopped_after_def stubborn_polls)
qed

lemma unload_all_clears_running_slots:
  "\<exists>w'. unload stubborn_host one_slot_config ''all'' loaded_manager = (succeeded MsgAllUnloaded 0, w') \<and>
     slotMode w' ''a1'' = [] \<and>
     map_option us_activeState (ho_state stubborn_host ''forge-a1'' (mg_host w')) = Some ''deactivating''"
proof -
  let ?st = "\<lparr>us_activeState = ''deactivating'', us_subState = ''stop-sigterm'', us_gpuBytes = 0\<rparr>"
  let ?h = "sample_sim\<lparr>si_units := [''forge-a1'' \<mapsto> ?st]\<rparr>"
  have u: "sort (canonicalUnits one_slot_config) = [''forge-a1'']"
    by (simp add: canonicalUnits_def one_slot_config_def)
  have running: "\<not> unit_stopped (ho_state stubborn_host ''forge-a1'' ?h)"
    by (simp add: stubborn_host_def sim_host_def unit_stopped_def)
  have "stopEach stubborn_host [''forge-a1''] loaded_manager =
      loaded_manager\<lparr>mg_cmds := [CmdStop ''forge-a1''], mg_host := ?h\<rparr>"
    by (simp add: stopEach_def sysStop_def stubborn_host_def loaded_manager_def sample_sim_def)
  moreover have "awaitEach stubborn_host [''forge-a1''] (loaded_manager\<lparr>mg_cmds := [CmdStop ''forge-a1''], mg_host := ?h\<rparr>) =
      (False, loaded_manager\<lparr>mg_cmds := [CmdStop ''forge-a1''], mg_host := ?h\<rparr>)"
    using stubborn_wait [OF running, of 5] by (simp add: onHost_def)
  moreover have "drainGTT stubborn_host (killLingering stubborn_host ps w) = w" for ps and w :: "sim manager"
    by (simp add: killLingering_def lingering_def drainGTT_def waitGTTDrain_def onHost_def stubborn_host_def
        sim_host_def gttBaseline_def List.map_filter_def)
  ultimately have "stopAll stubborn_host one_slot_config loaded_manager =
      (False, loaded_manager\<lparr>mg_cmds := [CmdStop ''forge-a1''], mg_host := ?h\<rparr>)"
    unfolding stopAll_def u by (simp add: Let_def)
  then show ?thesis
    by (simp add: unload_def unloadAll_def clearAllSlots_def slotMode_def slotRec_def assigned_def
        loaded_manager_def no_assignment_def stubborn_host_def sim_host_def)
qed

section \<open>Loading and restarting the daemon\<close>

text \<open>Commands and waits leave the files alone.\<close>

definition steady_files :: "'h host \<Rightarrow> bool" where
  "steady_files ho \<longleftrightarrow> (\<forall>p h u n. ho_read ho p (snd (ho_start ho u h)) = ho_read ho p h \<and>
     ho_read ho p (ho_pause ho n h) = ho_read ho p h)"

definition same_files :: "'h host \<Rightarrow> 'h \<Rightarrow> 'h \<Rightarrow> bool" where
  "same_files ho h h' \<longleftrightarrow> (\<forall>p. ho_read ho p h' = ho_read ho p h)"

lemma pause_files: "steady_files ho \<Longrightarrow> same_files ho (ho_pause ho n h) h' \<Longrightarrow> same_files ho h h'"
  by (simp add: steady_files_def same_files_def)

lemma same_files_refl [simp]: "same_files ho h h"
  by (simp add: same_files_def)

lemma waitProcessUp_files:
  "steady_files ho \<Longrightarrow> waitProcessUp ho u limit elapsed h = (e, h') \<Longrightarrow> same_files ho h h'"
proof (induction ho u limit elapsed h arbitrary: e h' rule: waitProcessUp.induct)
  case (1 ho u limit elapsed h)
  show ?case
    using 1 by (subst (asm) (2) waitProcessUp.simps)
      (auto simp: Let_def split: if_splits intro: pause_files [OF 1(2), of 2])
qed

lemma waitHealthy_files:
  "steady_files ho \<Longrightarrow> waitHealthy ho u port deadline elapsed h = (b, h') \<Longrightarrow> same_files ho h h'"
proof (induction ho u port deadline elapsed h arbitrary: b h' rule: waitHealthy.induct)
  case (1 ho u port deadline elapsed h)
  show ?case
    using 1 by (subst (asm) (2) waitHealthy.simps)
      (auto simp: Let_def split: if_splits intro: pause_files [OF 1(2), of 3])
qed

lemma waitServiceRunning_files:
  assumes "steady_files ho" and "waitServiceRunning ho u port svc h = (b, h')"
  shows "same_files ho h h'"
proof -
  obtain e h1 where p: "waitProcessUp ho u (if sv_startupTimeout svc = 0 then 120 else sv_startupTimeout svc) 0 h
      = (e, h1)" by (rule prod.exhaust)
  have f1: "same_files ho h h1" by (rule waitProcessUp_files [OF assms(1) p])
  have "h' = h1 \<or> (\<exists>d t. waitHealthy ho u port d t h1 = (b, h'))"
    using assms(2) p by (auto simp: waitServiceRunning_def Let_def split: option.splits if_splits)
  then have "same_files ho h1 h'" using waitHealthy_files [OF assms(1)] by auto
  with f1 show ?thesis by (simp add: same_files_def)
qed

lemma loadInto_files:
  assumes "loadInto ho cfg m s sc svc w = (r, w')" and "or_success r" and "steady_files ho"
  obtains h h' where "writeServiceFiles ho cfg s svc h = (None, h')" "same_files ho h' (mg_host w')"
proof -
  obtain e1 w1 where w1: "vacate ho (sc_unit sc) w = (e1, w1)" by (rule prod.exhaust)
  obtain e2 w2 where w2: "onHost (writeServiceFiles ho cfg s svc) w1 = (e2, w2)" by (rule prod.exhaust)
  obtain b3 w3 where w3: "sysStart ho (sc_unit sc) w2 = (b3, w3)" by (rule prod.exhaust)
  obtain b4 w4 where w4: "onHost (waitServiceRunning ho (sc_unit sc) (sc_port sc) svc) w3 = (b4, w4)"
    by (rule prod.exhaust)
  have ok: "e2 = None" "w' = setSlotMode s m w4"
    using assms(1,2) w1 w2 w3 w4
    by (auto simp: loadInto_def Let_def failed_def split: option.splits bool.splits)
  have "mg_host w3 = snd (ho_start ho (sc_unit sc) (mg_host w2))"
    using w3 by (auto simp: sysStart_def split: prod.splits)
  then have "same_files ho (mg_host w2) (mg_host w3)" using assms(3) by (simp add: same_files_def steady_files_def)
  moreover have "same_files ho (mg_host w3) (mg_host w4)"
    by (rule waitServiceRunning_files [OF assms(3) onHost_simps(3) [OF w4]])
  ultimately have "same_files ho (mg_host w2) (mg_host w')" using ok(2) by (simp add: same_files_def)
  then show ?thesis using that onHost_simps(3) [OF w2] ok(1) by blast
qed

lemma readSlotEnv_same: "same_files ho h h' \<Longrightarrow> readSlotEnv ho cfg s h' = readSlotEnv ho cfg s h"
  by (simp add: readSlotEnv_def same_files_def)

lemma newManager_mode:
  assumes "slotOf cfg s = Some sc" and "ho_state ho (sc_unit sc) h = Some st" and "unit_active st"
  shows "slotMode (newManager ho cfg h) s = inferSlotMode cfg (readSlotEnv ho cfg s h)"
proof -
  have live: "liveUnits ho cfg h (sc_unit sc) = Some st"
    using map_of_SomeD [OF assms(1) [unfolded slotOf_def]] assms(2)
    by (auto simp: liveUnits_def list_ex_iff intro!: bexI [of _ "(s, sc)"])
  show ?thesis
    using assms(1,3) live
    by (simp add: newManager_def reconcileLive_def slotStates_def Let_def slotMode_def slotRec_def
        assigned_def map_add_def reconcileRec_def no_assignment_def)
qed

text \<open>C32: a restart of the daemon does not lose a loaded model.  After a successful load into a
  slot, of a mode whose service has an alias no other mode uses, a manager started afresh on
  the same host takes the slot to hold exactly this mode, from the files the load wrote, as
  long as the slot's unit is active.\<close>

theorem restart_recovers_loaded_mode:
  assumes load: "load ho cfg m s w = (r, w')" "or_success r"
    and host: "files_ok ho" "steady_files ho"
    and mode: "modeOf cfg m = Some mode" "mc_services mode = svc # svcs"
    and svc: "one_line cfg svc" "sv_alias svc \<noteq> []" "trimmed (sv_alias svc)"
    and unique: "\<forall>(n, md) \<in> set (ec_modes cfg). \<forall>sv' \<in> set (mc_services md).
      sv_alias sv' = sv_alias svc \<longrightarrow> n = m"
    and active: "slotOf cfg s = Some sc" "ho_state ho (sc_unit sc) (mg_host w') = Some st" "unit_active st"
  shows "slotMode (newManager ho cfg (mg_host w')) s = m"
  using load(1)
proof (cases rule: load_cases)
  case (loaded sc' svc' w1 w3 mode' svcs')
  have svc': "svc' = svc" using loaded mode by simp
  let ?svc = "svc\<lparr>sv_portRole := s\<rparr>"
  obtain h h' where wr: "writeServiceFiles ho cfg s ?svc h = (None, h')"
    and same: "same_files ho h' (mg_host w3)"
    using loadInto_files [OF loaded(3) load(2) host(2)] svc' by metis
  have "inferSlotMode cfg (readSlotEnv ho cfg s h') = m"
  proof (rule written_mode_inferred [OF wr host(1)])
    show "one_line cfg ?svc" using svc(1) by (simp add: one_line_def)
    show "sv_alias ?svc \<noteq> []" "trimmed (sv_alias ?svc)" using svc by simp_all
    show "(m, mode) \<in> set (ec_modes cfg)" using mode(1) by (simp add: modeOf_def map_of_SomeD)
    show "svc \<in> set (mc_services mode)" "sv_alias svc = sv_alias ?svc" using mode(2) by simp_all
    show "\<forall>(n, md) \<in> set (ec_modes cfg). \<forall>sv' \<in> set (mc_services md). sv_alias sv' = sv_alias ?svc \<longrightarrow> n = m"
      using unique by simp
  qed
  moreover have "mg_host w' = mg_host w3" using loaded(4) by simp
  ultimately show ?thesis using newManager_mode [OF active] readSlotEnv_same [OF same] by simp
qed (use load(2) in auto)

definition idle_manager :: "sim manager" where
  "idle_manager = \<lparr>mg_slots = [''a1'' \<mapsto> no_assignment, ''a2'' \<mapsto> no_assignment], mg_cmds = [],
     mg_host = sample_sim\<rparr>"

lemma idle_mode [simp]: "sa_mode (slotRec idle_manager n) = []"
  by (simp add: slotRec_def assigned_def idle_manager_def no_assignment_def)

lemma sim_up:
  assumes "si_units h u = Some unit_up" and "sv_startupTimeout svc > 0"
  shows "waitServiceRunning sim_host u port svc h = (True, h)"
proof -
  have st: "ho_state sim_host u h = Some unit_up" using assms(1) by (simp add: sim_host_def)
  have healthy: "ho_healthy sim_host port h" by (simp add: sim_host_def)
  have "waitProcessUp sim_host u (sv_startupTimeout svc) 0 h = (Some 0, h)"
    by (subst waitProcessUp.simps) (simp add: st unit_up_def)
  moreover have "waitHealthy sim_host u port (sv_startupTimeout svc) 0 h = (True, h)"
    using assms(2) by (subst waitHealthy.simps) (simp add: st unit_up_def healthy)
  ultimately show ?thesis using assms(2) by (simp add: waitServiceRunning_def)
qed

lemma sample_load:
  "\<exists>r w'. load sim_host sample_config ''m1'' ''a1'' idle_manager = (r, w') \<and> or_success r \<and>
     ho_state sim_host ''forge-a1'' (mg_host w') = Some unit_up"
proof -
  let ?sc = "\<lparr>sc_unit = ''forge-a1'', sc_port = 8080, sc_order = 1\<rparr>"
  let ?svc = "(sample_service ''m1'')\<lparr>sv_portRole := ''a1''\<rparr>"
  define w2 where "w2 = setTransition ''a1'' (Some \<lparr>tn_mode = ''m1'', tn_startedAt = ho_now sim_host (mg_host idle_manager)\<rparr>)
    None idle_manager"
  have s: "slotOf sample_config ''a1'' = Some ?sc" "modeOf sample_config ''m1'' = Some (sample_mode ''m1'')"
    "mc_services (sample_mode ''m1'') = [sample_service ''m1'']"
    by (simp_all add: slotOf_def modeOf_def sample_config_def sample_mode_def)
  have no_find: "find (\<lambda>n. False) xs = None" for xs :: "slot list" by (induction xs) simp_all
  have g: "loadedElsewhere sample_config ''m1'' ''a1'' idle_manager = None"
    "siblingGuard sim_host sample_config ''m1'' ''a1'' idle_manager = (None, idle_manager)"
    by (simp_all add: loadedElsewhere_def siblingGuard_def sibling_def no_find)
  have h2: "mg_host w2 = sample_sim" by (simp add: w2_def idle_manager_def)
  have v: "vacate sim_host ''forge-a1'' w2 = (None, w2)"
    by (simp add: vacate_def h2 sim_host_def sample_sim_def unit_active_def unit_deactivating_def unit_down_def)
  obtain h3 where h3: "writeServiceFiles sim_host sample_config ''a1'' ?svc sample_sim = (None, h3)"
    by (simp add: writeServiceFiles_def validSlotName_def lower_or_digit_def less_eq_char_def sim_host_def Let_def)
  define w3 where "w3 = w2\<lparr>mg_host := h3\<rparr>"
  define w4 where "w4 = w3\<lparr>mg_cmds := mg_cmds w3 @ [CmdStart ''forge-a1''],
    mg_host := h3\<lparr>si_units := (si_units h3)(''forge-a1'' \<mapsto> unit_up)\<rparr>\<rparr>"
  have up: "si_units (mg_host w4) ''forge-a1'' = Some unit_up" by (simp add: w4_def)
  have wr: "onHost (writeServiceFiles sim_host sample_config ''a1'' ?svc) w2 = (None, w3)"
    by (simp add: onHost_def h2 h3 w3_def)
  have stt: "sysStart sim_host ''forge-a1'' w3 = (True, w4)"
    by (simp add: sysStart_def w4_def w3_def sim_host_def)
  have wt: "onHost (waitServiceRunning sim_host ''forge-a1'' 8080 ?svc) w4 = (True, w4)"
    using sim_up [OF up, of ?svc 8080] by (simp add: onHost_def sample_service_def)
  have "loadInto sim_host sample_config ''m1'' ''a1'' ?sc ?svc w2 =
      (succeeded (MsgLoaded ''m1'' ''a1'') (verifiedContext sim_host 8080 ?svc (mg_host w4)),
       setSlotMode ''a1'' ''m1'' w4)"
    using v wr stt wt by (simp add: loadInto_def Let_def)
  then have "load sim_host sample_config ''m1'' ''a1'' idle_manager =
      (succeeded (MsgLoaded ''m1'' ''a1'') (verifiedContext sim_host 8080 ?svc (mg_host w4)),
       setTransition ''a1'' None None (setSlotMode ''a1'' ''m1'' w4))"
    using s g unfolding load_def by (simp add: w2_def [symmetric])
  moreover have "ho_state sim_host ''forge-a1'' (mg_host w4) = Some unit_up"
    using up by (simp add: sim_host_def)
  ultimately show ?thesis by (simp add: succeeded_def)
qed

theorem restart_recovers_loaded_mode_witness:
  "slotMode (newManager sim_host sample_config
     (mg_host (snd (load sim_host sample_config ''m1'' ''a1'' idle_manager)))) ''a1'' = ''m1''"
proof -
  obtain r w' where l: "load sim_host sample_config ''m1'' ''a1'' idle_manager = (r, w')" "or_success r"
    "ho_state sim_host ''forge-a1'' (mg_host w') = Some unit_up" using sample_load by blast
  have "slotMode (newManager sim_host sample_config (mg_host w')) ''a1'' = ''m1''"
  proof (rule restart_recovers_loaded_mode [OF l(1,2)])
    show "files_ok sim_host" "steady_files sim_host" by (simp_all add: files_ok_def steady_files_def sim_host_def)
    show "modeOf sample_config ''m1'' = Some (sample_mode ''m1'')"
      "mc_services (sample_mode ''m1'') = [sample_service ''m1'']"
      "slotOf sample_config ''a1'' = Some \<lparr>sc_unit = ''forge-a1'', sc_port = 8080, sc_order = 1\<rparr>"
      by (simp_all add: slotOf_def modeOf_def sample_config_def sample_mode_def)
    show "ho_state sim_host (sc_unit \<lparr>sc_unit = ''forge-a1'', sc_port = 8080, sc_order = 1\<rparr>) (mg_host w') = Some unit_up"
      using l(3) by simp
    show "unit_active unit_up" by (simp add: unit_active_def unit_up_def)
  qed (auto simp: one_line_def resolveModelPath_def sample_service_def sample_config_def sample_mode_def
      path_rooted_def trimmed_def is_space_def)
  then show ?thesis by (simp add: l(1))
qed

section \<open>Switching\<close>

lemma writeAll_slots: "writeAll ho cfg svcs w = (e, w') \<Longrightarrow> mg_slots w' = mg_slots w"
proof (induction svcs arbitrary: w)
  case (Cons svc svcs)
  obtain x w1 where w1: "onHost (writeServiceFiles ho cfg (sv_portRole svc) svc) w = (x, w1)"
    by (rule prod.exhaust)
  show ?case
    using Cons.prems Cons.IH [of w] Cons.IH [of w1] onHost_simps(2) [OF w1] w1
    by (auto split: if_splits option.splits)
qed simp

lemma startAll_slots: "startAll ho us w = (b, w') \<Longrightarrow> mg_slots w' = mg_slots w"
proof (induction us arbitrary: w)
  case (Cons u us)
  obtain x w1 where w1: "sysStart ho u w = (x, w1)" by (rule prod.exhaust)
  have "mg_slots w1 = mg_slots w" using w1 by (auto simp: sysStart_def split: prod.splits)
  then show ?case using Cons.prems Cons.IH [of w1] w1 by (auto split: bool.splits)
qed simp

lemma verifyAll_modes:
  assumes "verifyAll ho cfg m svcs n w = (Inr n', w')"
  shows "mg_slots w' s = map_option (\<lambda>a. if \<exists>svc \<in> set svcs. sv_portRole svc = s \<and> serviceUnit cfg svc \<noteq> []
      then a\<lparr>sa_mode := m\<rparr> else a) (mg_slots w s)"
  using assms
proof (induction svcs arbitrary: n w)
  case Nil
  then show ?case by (simp add: option.map_ident)
next
  case (Cons svc svcs)
  show ?case
  proof (cases "serviceUnit cfg svc = []")
    case True
    have "verifyAll ho cfg m svcs n w = (Inr n', w')" using Cons.prems True by simp
    from Cons.IH [OF this] show ?thesis using True by auto
  next
    case False
    obtain b w1 where w1: "onHost (waitServiceRunning ho (serviceUnit cfg svc)
        (case slotOf cfg (sv_portRole svc) of None \<Rightarrow> 0 | Some sc \<Rightarrow> sc_port sc) svc) w = (b, w1)"
      by (rule prod.exhaust)
    have b: b using Cons.prems False w1 by (auto simp: Let_def split: bool.splits)
    obtain n1 where "verifyAll ho cfg m svcs n1 (setSlotMode (sv_portRole svc) m w1) = (Inr n', w')"
      using Cons.prems False w1 b by (simp add: Let_def)
    from Cons.IH [OF this] have ih: "mg_slots w' s = map_option (\<lambda>a. if \<exists>svc \<in> set svcs. sv_portRole svc = s \<and>
        serviceUnit cfg svc \<noteq> [] then a\<lparr>sa_mode := m\<rparr> else a) (mg_slots (setSlotMode (sv_portRole svc) m w1) s)" .
    have "mg_slots (setSlotMode (sv_portRole svc) m w1) s =
        (if s = sv_portRole svc then map_option (\<lambda>a. a\<lparr>sa_mode := m\<rparr>) (mg_slots w s) else mg_slots w s)"
      using onHost_simps(2) [OF w1] by (auto simp: setSlotMode_def split: option.splits)
    then show ?thesis using ih False by (auto simp: option.map_comp comp_def intro!: option.map_cong)
  qed
qed

text \<open>after a successful switch the records show exactly the target.  Every slot a service
  of the mode runs in holds the mode, and every other slot is recorded as empty, whatever was
  loaded before.\<close>

theorem switch_exact:
  assumes sw: "switchMode ho cfg rfc3339 m w = (r, w')" and fine: "or_success r" "or_message r = MsgSwitched m"
    and mode: "modeOf cfg m = Some mode" and wf: "config_wf cfg" and recs: "recs_complete cfg w"
  shows "list_all (\<lambda>s. slotMode w' s = (if s \<in> sv_portRole ` set (mc_services mode) then m else []))
    (slotNames cfg)"
proof -
  obtain c w1 where w1: "currentMode ho cfg rfc3339 w = (c, w1)" by (rule prod.exhaust)
  obtain b w2 where w2: "stopAll ho cfg w1 = (b, w2)" by (rule prod.exhaust)
  have s1: "mg_slots w1 = mg_slots w"
    using w1 by (auto simp: currentMode_def saveMode_def Let_def split: if_splits option.splits prod.splits)
  have up: "bringUp ho cfg rfc3339 m mode (clearAllSlots w2) = (r, w')"
    using sw fine mode w1 w2
    by (auto simp: switchMode_def failed_def succeeded_def split: if_splits bool.splits)
  obtain e w3 where w3: "writeAll ho cfg (mc_services mode) (clearAllSlots w2) = (e, w3)" by (rule prod.exhaust)
  obtain b4 w4 where w4: "startAll ho (filter (\<lambda>u. u \<noteq> []) (map (serviceUnit cfg) (mc_services mode))) w3
      = (b4, w4)" by (rule prod.exhaust)
  obtain v w5 where w5: "verifyAll ho cfg m (mc_services mode) 0 w4 = (v, w5)" by (rule prod.exhaust)
  obtain n where v: "v = Inr n" and w': "w' = saveMode ho cfg rfc3339 m w5"
    using up w3 w4 w5 fine(1)
    by (auto simp: bringUp_def failed_def split: option.splits bool.splits sum.splits)
  have s4: "mg_slots w4 s = map_option (\<lambda>_. no_assignment) (mg_slots w2 s)" for s
    using startAll_slots [OF w4] writeAll_slots [OF w3] by (simp add: clearAllSlots_def)
  have "slotMode w' s = (if s \<in> sv_portRole ` set (mc_services mode) then m else [])"
    if s: "s \<in> set (slotNames cfg)" for s
  proof -
    obtain sc where sc: "slotOf cfg s = Some sc" using s wf_slots(5) [OF wf] by blast
    have "sc_unit sc \<noteq> []"
      using validateSlots_ports [of "ec_slots cfg" "[]"] wf sc wf_slots(2) [OF wf] by (auto simp: config_wf_def)
    then have unit: "serviceUnit cfg svc \<noteq> []" if "sv_portRole svc = s" for svc
      using that sc by (simp add: serviceUnit_def)
    have "mg_slots w2 s \<noteq> None"
      using stopAll_dom [OF w2] recs sc s1 by (auto simp: recs_complete_def issued_def)
    then obtain a where a: "mg_slots w2 s = Some a" by blast
    have "mg_slots w' s = Some (if \<exists>svc \<in> set (mc_services mode). sv_portRole svc = s
        then no_assignment\<lparr>sa_mode := m\<rparr> else no_assignment)"
      using verifyAll_modes [OF w5 [unfolded v], of s] s4 [of s] a unit w' by (auto simp: saveMode_def)
    then show ?thesis by (auto simp: slotMode_def slotRec_def assigned_def no_assignment_def)
  qed
  then show ?thesis by (simp add: list_all_iff)
qed

lemma sim_stop_all:
  "\<exists>w'. stopAll sim_host sample_config w = (True, w')"
proof -
  let ?down = "\<lambda>h. h\<lparr>si_units := (si_units h)(''forge-a1'' \<mapsto> unit_down, ''forge-a2'' \<mapsto> unit_down)\<rparr>"
  have u: "sort (canonicalUnits sample_config) = [''forge-a1'', ''forge-a2'']"
    by (simp add: canonicalUnits_def sample_config_def less_eq_char_def less_char_def)
  define w1 where "w1 = stopEach sim_host [''forge-a1'', ''forge-a2''] w"
  have h1: "mg_host w1 = ?down (mg_host w)"
    by (simp add: w1_def stopEach_def sysStop_def sim_host_def)
  have stopped: "unit_stopped (ho_state sim_host n (mg_host w1))" if "n = ''forge-a1'' \<or> n = ''forge-a2''" for n
    using that by (auto simp: h1 sim_host_def unit_stopped_def unit_down_def)
  have gone: "onHost (waitUnitGone sim_host n 5 0) w1 = (True, w1)" if "n = ''forge-a1'' \<or> n = ''forge-a2''" for n
    using stopped [OF that] by (simp add: onHost_def waitUnitGone.simps)
  have "awaitEach sim_host [''forge-a1'', ''forge-a2''] w1 = (True, w1)"
    by (simp add: gone)
  then show ?thesis by (simp add: stopAll_def u w1_def [symmetric])
qed

lemma sample_switch:
  "\<exists>n w'. switchMode sim_host sample_config (\<lambda>t. []) ''m1'' idle_manager = (succeeded (MsgSwitched ''m1'') n, w')"
proof -
  let ?svc = "sample_service ''m1''" and ?rfc = "\<lambda>t :: time. [] :: string"
  let ?sc = "\<lparr>sc_unit = ''forge-a1'', sc_port = 8080, sc_order = 1\<rparr>"
  have role: "sv_portRole ?svc = ''a1''" by (simp add: sample_service_def)
  have s: "slotOf sample_config ''a1'' = Some ?sc"
    "modeOf sample_config ''m1'' = Some (sample_mode ''m1'')" "mc_services (sample_mode ''m1'') = [?svc]"
    "serviceUnit sample_config ?svc = ''forge-a1''"
    by (simp_all add: slotOf_def modeOf_def sample_config_def sample_mode_def serviceUnit_def role)
  obtain c w1 where c: "currentMode sim_host sample_config ?rfc idle_manager = (c, w1)" by (rule prod.exhaust)
  have "recordedMode sim_host sample_config (mg_host idle_manager) = []"
    by (simp add: recordedMode_def sim_host_def idle_manager_def sample_sim_def)
  moreover have "\<not> unitActive sim_host n (mg_host idle_manager)" for n
    by (simp add: unitActive_def sim_host_def idle_manager_def sample_sim_def unit_active_def unit_down_def)
  ultimately have "c \<noteq> ''m1''"
    using c by (auto simp: currentMode_def modeOf_def sample_config_def sample_mode_def modeUnits_def
        serviceUnit_def slotOf_def role Let_def split: if_splits)
  obtain w2 where w2: "stopAll sim_host sample_config w1 = (True, w2)" using sim_stop_all by blast
  define w3 where "w3 = clearAllSlots w2"
  obtain h4 where h4: "writeServiceFiles sim_host sample_config ''a1'' ?svc (mg_host w3) = (None, h4)"
    by (simp add: writeServiceFiles_def validSlotName_def lower_or_digit_def less_eq_char_def sim_host_def Let_def)
  define w4 where "w4 = w3\<lparr>mg_host := h4\<rparr>"
  define w5 where "w5 = w4\<lparr>mg_cmds := mg_cmds w4 @ [CmdStart ''forge-a1''],
    mg_host := h4\<lparr>si_units := (si_units h4)(''forge-a1'' \<mapsto> unit_up)\<rparr>\<rparr>"
  have up: "si_units (mg_host w5) ''forge-a1'' = Some unit_up" by (simp add: w5_def)
  have wr: "writeAll sim_host sample_config [?svc] w3 = (None, w4)"
    by (simp add: role s onHost_def h4 w4_def)
  have st: "sysStart sim_host ''forge-a1'' w4 = (True, w5)"
    by (simp add: sysStart_def w5_def w4_def sim_host_def)
  have wt: "onHost (waitServiceRunning sim_host ''forge-a1'' 8080 ?svc) w5 = (True, w5)"
    using sim_up [OF up, of ?svc 8080] by (simp add: onHost_def sample_service_def)
  have "\<exists>n w'. bringUp sim_host sample_config ?rfc ''m1'' (sample_mode ''m1'') w3 =
      (succeeded (MsgSwitched ''m1'') n, w')"
    using wr st wt by (simp add: bringUp_def s role Let_def del: writeAll.simps) blast
  then show ?thesis
    using \<open>c \<noteq> ''m1''\<close> c w2 by (simp add: switchMode_def s w3_def [symmetric])
qed

theorem switch_exact_witness:
  "slotMode (snd (switchMode sim_host sample_config (\<lambda>t. []) ''m1'' idle_manager)) ''a1'' = ''m1'' \<and>
   slotMode (snd (switchMode sim_host sample_config (\<lambda>t. []) ''m1'' idle_manager)) ''a2'' = []"
proof -
  obtain n w' where sw: "switchMode sim_host sample_config (\<lambda>t. []) ''m1'' idle_manager =
    (succeeded (MsgSwitched ''m1'') n, w')" using sample_switch by blast
  have mode: "modeOf sample_config ''m1'' = Some (sample_mode ''m1'')"
    by (simp add: modeOf_def sample_config_def)
  have recs: "recs_complete sample_config idle_manager"
    by (auto simp: recs_complete_def idle_manager_def slotOf_def sample_config_def split: if_splits)
  have "sv_portRole ` set (mc_services (sample_mode ''m1'')) = {''a1''}"
    by (simp add: sample_mode_def sample_service_def)
  moreover have "set (slotNames sample_config) = {''a1'', ''a2''}"
    by (simp add: slotNames_def) (simp add: sample_config_def)
  ultimately show ?thesis
    using switch_exact [OF sw _ _ mode sample_config_wf recs]
    by (simp add: sw succeeded_def list_all_iff)
qed

end
