(* ===== verification/Deployed_Props.thy ===== *)
theory Deployed_Props
  imports Gated_Engine Engine_Props
begin

text \<open>
  Properties of the parts together, as the daemon wires them: the scheduler's load attempt on
  the manager behind the maintenance gate, with the ComfyUI seam.
\<close>

definition spares :: "slot_config \<Rightarrow> command \<Rightarrow> bool" where
  "spares sc cmd = (case cmd of CmdStart u \<Rightarrow> True | CmdStop u \<Rightarrow> u \<noteq> sc_unit sc | CmdKill p pid \<Rightarrow> p \<noteq> sc_port sc)"

lemma spares_iff:
  assumes "slotOf cfg s = Some sc"
  shows "list_all (spares sc) (mg_cmds w) \<longleftrightarrow> s \<notin> disturbed cfg w"
proof
  show "s \<notin> disturbed cfg w" if "list_all (spares sc) (mg_cmds w)"
    using that assms by (auto simp: list_all_iff disturbed_def spares_def)
  show "list_all (spares sc) (mg_cmds w)" if "s \<notin> disturbed cfg w"
    using that assms by (auto simp: list_all_iff disturbed_def spares_def split: command.splits)
qed

lemma gateCall_blocked:
  "gateBlocked st (clock (gd_engine g)) ctx (gd_gate g) = (Some reason, gate) \<Longrightarrow>
   gateCall st clock ctx refuse call g = (refuse reason, g\<lparr>gd_gate := gate\<rparr>)"
  by (simp add: gateCall_def)

section \<open>Properties\<close>

text \<open>C2: a load request never takes down a model under an active reservation.  Whatever the
  scheduler decides to evict for a request, it issues no stop of the unit and no kill on the
  port of a slot that holds a reserved model, provided this unit is not already gone, on the
  snapshot the decision is based on and on the host.\<close>

theorem reserved_model_not_stopped:
  assumes att: "attemptLoad dp snap now req cfg res horizon wd = (out, wd')"
    and engine: "dp_engine dp = gatedOps st clock ctx (managerOps ho (config_of c))"
    and comfy: "dp_comfy dp = Some (liftSeam (comfySeam ho (comfyUnit c) url queue))"
    and slot: "slotOf (config_of c) s = Some sc"
    and held: "slotMode (gd_engine (wo_engine wd)) s = m" "m \<noteq> []"
    and res: "r \<in> set res" "r_model r = m" "in_window r now"
    and seen: "\<not> shows_gone (config_of c) (sn_units snap) s"
      "running_on ho (config_of c) (gd_engine (wo_engine wd)) s"
    and none: "mg_cmds (gd_engine (wo_engine wd)) = []"
  shows "list_all (spares sc) (mg_cmds (gd_engine (wo_engine wd')))"
proof -
  have s: "s \<in> set (slotNames (config_of c))" using wf_slots(5) [OF config_of_wf] slot by simp
  then have "s \<noteq> []" using wf_slots(4) [OF config_of_wf] by metis
  have comfy': "dp_comfy dp = map_option liftSeam (Some (comfySeam ho (comfyUnit c) url queue))"
    using comfy by simp
  have "s \<notin> disturbed (config_of c) (gd_engine (wo_engine wd'))"
  proof (rule wrapped.gated.attempt_spares [OF att engine comfy'])
    show "s \<in> set (eo_slots (gatedOps st clock ctx (managerOps ho (config_of c))) (wo_engine wd))"
      using s by (simp add: gatedOps_def managerOps_def)
    show "s \<notin> disturbed (config_of c) (gd_engine (wo_engine wd))" using none by (simp add: disturbed_def)
  qed (use \<open>s \<noteq> []\<close> held res seen in simp_all)
  then show ?thesis by (simp add: spares_iff [OF slot])
qed

text \<open>C6: the answer of a load attempt is true.  When an attempt reports success in a slot, the
  manager has the requested model recorded in this slot.\<close>

theorem success_means_loaded:
  assumes att: "attemptLoad dp snap now req cfg res horizon wd = (out, wd')"
    and engine: "dp_engine dp = gatedOps st clock ctx (managerOps ho (config_of c))"
    and comfy: "dp_comfy dp = Some (liftSeam (comfySeam ho (comfyUnit c) url queue))"
    and recs: "recs_complete (config_of c) (gd_engine (wo_engine wd))"
    and req: "er_model req \<noteq> []" "er_targetSlot req \<in> insert [] (set (slotNames (config_of c)))"
    and success: "lo_success out"
  shows "slotMode (gd_engine (wo_engine wd')) (lo_slot out) = er_model req"
proof -
  have comfy': "dp_comfy dp = map_option liftSeam (Some (comfySeam ho (comfyUnit c) url queue))"
    using comfy by simp
  show ?thesis
    by (rule wrapped.gated.attempt_success [OF att engine comfy' _ success req(1)])
      (use recs req in \<open>simp_all add: gatedOps_def managerOps_def\<close>)
qed

text \<open>C8: the host is quiet during maintenance.  While the gate refuses a caller, none of the six
  changing operations does anything to the engine, and each reports the refusal.\<close>

theorem maintenance_quiet_host:
  assumes "fst (gateBlocked st (clock (gd_engine g)) ctx (gd_gate g)) = Some reason"
  shows "(let (r, g') = eo_load (gatedOps st clock ctx ops) m s g in gd_engine g' = gd_engine g \<and> r = maintenanceRefusal reason) \<and>
    (let (r, g') = eo_unload (gatedOps st clock ctx ops) s g in gd_engine g' = gd_engine g \<and> r = maintenanceRefusal reason) \<and>
    (let (r, g') = gatedSwitchMode st clock ctx ho cfg rfc3339 m g in gd_engine g' = gd_engine g \<and> r = maintenanceRefusal reason) \<and>
    (let (r, g') = gatedRestart st clock ctx ho cfg rfc3339 g in gd_engine g' = gd_engine g \<and> r = maintenanceRefusal reason) \<and>
    (let (e, g') = gatedStartUnit st clock ctx ho cfg u g in gd_engine g' = gd_engine g \<and> e = Some (Blocked reason)) \<and>
    (let (e, g') = gatedStopUnit st clock ctx ho cfg u g in gd_engine g' = gd_engine g \<and> e = Some (Blocked reason))"
proof -
  obtain gate where b: "gateBlocked st (clock (gd_engine g)) ctx (gd_gate g) = (Some reason, gate)"
    using assms by (metis prod.collapse)
  show ?thesis
    by (simp add: gatedOps_def gatedSwitchMode_def gatedRestart_def gatedStartUnit_def gatedStopUnit_def
        gateCall_blocked [of st clock g ctx reason gate, OF b])
qed

section \<open>Witnesses\<close>

text \<open>The two-slot configuration, with model m1 loaded in slot a1 and reserved until second 100.\<close>

definition sample_deployed :: deployed where
  "sample_deployed = Deployed (sample_config, ''comfyui'')"

lemma sample_parts: "config_of sample_deployed = sample_config" "comfyUnit sample_deployed = ''comfyui''"
  using deployed_parts_of [OF sample_config_wf, of "''comfyui''"]
  by (auto simp: sample_deployed_def sample_config_def)

definition sample_deps :: "((sim manager, nat) gated, nat) deps" where
  "sample_deps = \<lparr>
     dp_engine = gatedOps None (\<lambda>w. ho_now sim_host (mg_host w)) None (managerOps sim_host (config_of sample_deployed)),
     dp_sched = None, dp_settings = None,
     dp_comfy = Some (liftSeam (comfySeam sim_host (comfyUnit sample_deployed) (\<lambda>h. []) (\<lambda>u h. Inl []))),
     dp_routeSync = False, dp_maintenance = None, dp_fallback = defaultConfig\<rparr>"

definition busy_manager :: "sim manager" where
  "busy_manager = \<lparr>mg_slots = [''a1'' \<mapsto> no_assignment\<lparr>sa_mode := ''m1''\<rparr>, ''a2'' \<mapsto> no_assignment],
     mg_cmds = [], mg_host = sample_sim\<lparr>si_units := [''forge-a1'' \<mapsto> unit_up]\<rparr>\<rparr>"

definition busy_world :: "((sim manager, nat) gated, nat) world" where
  "busy_world = \<lparr>wo_engine = \<lparr>gd_engine = busy_manager, gd_gate = newGate None 0\<rparr>, wo_store = 0, wo_routes = []\<rparr>"

definition attempt_snapshot :: snapshot where
  "attempt_snapshot = \<lparr>sn_takenAt = 0, sn_units = [''forge-a1'' \<mapsto> unit_up], sn_slots = Map.empty,
     sn_gttTotal = None, sn_inferenceRSS = None\<rparr>"

definition sample_reservation :: reservation where
  "sample_reservation = \<lparr>r_label = ''r'', r_model = ''m1'', r_start = 0, r_end = 100, r_scope = [], r_bay = [],
     r_createdBy = ''human'', r_allowReschedule = True, r_allowCancellation = True\<rparr>"

definition sample_request :: "model \<Rightarrow> slot \<Rightarrow> ensure_request" where
  "sample_request m s = \<lparr>er_model = m, er_requestedBy = [], er_targetSlot = s, er_smallJob = False, er_priority = 0\<rparr>"

lemma sample_slot: "slotOf sample_config ''a1'' = Some \<lparr>sc_unit = ''forge-a1'', sc_port = 8080, sc_order = 1\<rparr>"
  by (simp add: slotOf_def sample_config_def)

theorem reserved_model_not_stopped_witness:
  "CmdStop ''forge-a1'' \<notin> set (mg_cmds (gd_engine (wo_engine (snd (attemptLoad sample_deps attempt_snapshot 50
     (sample_request ''m2'' ''a1'') defaultConfig [sample_reservation] 0 busy_world)))))"
proof -
  obtain out wd' where att: "attemptLoad sample_deps attempt_snapshot 50 (sample_request ''m2'' ''a1'') defaultConfig
    [sample_reservation] 0 busy_world = (out, wd')" by (rule prod.exhaust)
  have "list_all (spares \<lparr>sc_unit = ''forge-a1'', sc_port = 8080, sc_order = 1\<rparr>) (mg_cmds (gd_engine (wo_engine wd')))"
  proof (rule reserved_model_not_stopped [OF att])
    show "dp_engine sample_deps = gatedOps None (\<lambda>w. ho_now sim_host (mg_host w)) None
        (managerOps sim_host (config_of sample_deployed))"
      "dp_comfy sample_deps = Some (liftSeam (comfySeam sim_host (comfyUnit sample_deployed) (\<lambda>h. []) (\<lambda>u h. Inl [])))"
      by (simp_all add: sample_deps_def)
    show "slotOf (config_of sample_deployed) ''a1'' = Some \<lparr>sc_unit = ''forge-a1'', sc_port = 8080, sc_order = 1\<rparr>"
      by (simp add: sample_parts sample_slot)
    show "slotMode (gd_engine (wo_engine busy_world)) ''a1'' = ''m1''" "mg_cmds (gd_engine (wo_engine busy_world)) = []"
      by (simp_all add: busy_world_def busy_manager_def slotMode_def slotRec_def assigned_def)
    show "sample_reservation \<in> set [sample_reservation]" "r_model sample_reservation = ''m1''"
      "in_window sample_reservation 50" by (simp_all add: sample_reservation_def in_window_def)
    show "\<not> shows_gone (config_of sample_deployed) (sn_units attempt_snapshot) ''a1''"
      "running_on sim_host (config_of sample_deployed) (gd_engine (wo_engine busy_world)) ''a1''"
      by (simp_all add: sample_parts shows_gone_def running_on_def sample_slot attempt_snapshot_def busy_world_def
          busy_manager_def sim_host_def unit_gone_def unit_up_def)
  qed simp
  then show ?thesis by (auto simp: att list_all_iff spares_def)
qed

text \<open>A request for the model that is loaded: the attempt finds it.\<close>

lemma sample_found:
  "lo_success (fst (attemptLoad sample_deps attempt_snapshot 50 (sample_request ''m1'' ''a1'') defaultConfig [] 0 busy_world))"
proof -
  let ?u = "[''forge-a1'' \<mapsto> unit_up]"
  obtain occ w' where st: "slotStates sim_host sample_config ?u busy_manager = (occ, w')" by (rule prod.exhaust)
  have "occ ''a1'' = Some (reconcileRec sample_config (readSlotEnv sim_host sample_config ''a1'' (mg_host busy_manager))
      (Some unit_up) (slotRec busy_manager ''a1''))"
    using slotStates_eq(2) [OF st, of "''a1''"] by (simp add: sample_slot)
  also have "\<dots> = Some (no_assignment\<lparr>sa_mode := ''m1''\<rparr>)"
    by (simp add: reconcileRec_def unit_active_def unit_up_def slotRec_def assigned_def busy_manager_def)
  finally have "usable occ ''m1'' ''a1''"
    by (simp add: usable_def assigned_def no_assignment_def)
  then show ?thesis
    using st by (simp add: attemptLoad_def findLoaded_def occupancy_def sample_deps_def gatedOps_def passThrough_def
        managerOps_def sample_parts attempt_snapshot_def busy_world_def sample_request_def)
qed

theorem success_means_loaded_witness:
  "slotMode (gd_engine (wo_engine (snd (attemptLoad sample_deps attempt_snapshot 50 (sample_request ''m1'' ''a1'')
     defaultConfig [] 0 busy_world)))) (lo_slot (fst (attemptLoad sample_deps attempt_snapshot 50
       (sample_request ''m1'' ''a1'') defaultConfig [] 0 busy_world))) = ''m1''"
proof -
  obtain out wd' where att: "attemptLoad sample_deps attempt_snapshot 50 (sample_request ''m1'' ''a1'') defaultConfig
    [] 0 busy_world = (out, wd')" by (rule prod.exhaust)
  have "slotMode (gd_engine (wo_engine wd')) (lo_slot out) = er_model (sample_request ''m1'' ''a1'')"
  proof (rule success_means_loaded [OF att])
    show "dp_engine sample_deps = gatedOps None (\<lambda>w. ho_now sim_host (mg_host w)) None
        (managerOps sim_host (config_of sample_deployed))"
      "dp_comfy sample_deps = Some (liftSeam (comfySeam sim_host (comfyUnit sample_deployed) (\<lambda>h. []) (\<lambda>u h. Inl [])))"
      by (simp_all add: sample_deps_def)
    show "recs_complete (config_of sample_deployed) (gd_engine (wo_engine busy_world))"
      by (auto simp: recs_complete_def sample_parts slotOf_def sample_config_def busy_world_def busy_manager_def
          split: if_splits)
    have "''a1'' \<in> set (slotNames sample_config)" using wf_slots(5) [OF sample_config_wf] sample_slot by simp
    then show "er_targetSlot (sample_request ''m1'' ''a1'') \<in> insert [] (set (slotNames (config_of sample_deployed)))"
      by (simp add: sample_request_def sample_parts)
    show "lo_success out" using sample_found by (simp add: att)
  qed (simp add: sample_request_def)
  moreover have "er_model (sample_request ''m1'' ''a1'') = ''m1''" by (simp add: sample_request_def)
  ultimately show ?thesis unfolding att by simp
qed

definition closed_gate :: "(sim manager, nat) gated" where
  "closed_gate = \<lparr>gd_engine = busy_manager, gd_gate = sample_gate\<lparr>ga_window := sample_window\<lparr>mw_expiresAt := 0\<rparr>\<rparr>\<rparr>"

theorem maintenance_quiet_host_witness:
  "gd_engine (snd (eo_unload (gatedOps None (\<lambda>w. 0) None (managerOps sim_host sample_config)) ''a1'' closed_gate)) =
     busy_manager"
proof -
  have "fst (gateBlocked None 0 None (gd_gate closed_gate)) = Some ''rebuild''"
    by (simp add: gateBlocked_def expireLocked_def closed_gate_def sample_window_def leaseFromContext_def Let_def)
  note b = this
  obtain r g' where u: "eo_unload (gatedOps None (\<lambda>w. 0) None (managerOps sim_host sample_config)) ''a1'' closed_gate
    = (r, g')" by (rule prod.exhaust)
  have "let (r, g') = eo_unload (gatedOps None (\<lambda>w. 0) None (managerOps sim_host sample_config)) ''a1'' closed_gate
    in gd_engine g' = gd_engine closed_gate \<and> r = maintenanceRefusal ''rebuild''"
    using maintenance_quiet_host [where st = None and clock = "\<lambda>w. 0" and g = closed_gate and ctx = None and
        reason = "''rebuild''" and ops = "managerOps sim_host sample_config" and s = "''a1''", OF b] by blast
  then have "gd_engine g' = gd_engine closed_gate" by (simp only: u Let_def prod.case)
  then show ?thesis unfolding u by (simp add: closed_gate_def)
qed

text \<open>The seam bypasses the gate: a window does not keep ComfyUI from being stopped.\<close>

lemma comfy_stop_ignores_maintenance:
  "\<exists>stop e g'. cs_stop (liftSeam (comfySeam sim_host ''comfyui'' (\<lambda>h. []) (\<lambda>u h. Inl []))) = Some stop \<and>
     fst (gateBlocked None 0 None (gd_gate closed_gate)) \<noteq> None \<and>
     stop closed_gate = (e, g') \<and> mg_cmds (gd_engine g') = [CmdStop ''comfyui'']"
proof -
  have "gateBlocked None 0 None (gd_gate closed_gate) = (Some ''rebuild'', gd_gate closed_gate)"
    by (simp add: gateBlocked_def expireLocked_def closed_gate_def sample_window_def leaseFromContext_def Let_def)
  then show ?thesis
    by (simp add: liftSeam_def comfySeam_def passThrough_def comfyStop_def sysStop_def closed_gate_def
        busy_manager_def sim_host_def)
qed

end
