(* ===== verification/Cron.thy ===== *)
theory Cron
  imports Kv_Cache
begin

text \<open>
  cron/cron.go: parsing of five-field cron expressions and the next fire time.  The calendar is
  that of Go's \<open>time\<close> package, computed from the zero time (Monday, January 1 of year 1).  The
  location is one with a fixed offset from UTC of a number of minutes; changes to and from
  daylight saving time are not modelled.
\<close>

section \<open>The calendar\<close>

definition leap :: "nat \<Rightarrow> bool" where
  "leap y \<longleftrightarrow> y mod 4 = 0 \<and> (y mod 100 \<noteq> 0 \<or> y mod 400 = 0)"

definition year_len :: "nat \<Rightarrow> nat" where
  "year_len y = (if leap y then 366 else 365)"

definition month_len :: "nat \<Rightarrow> nat \<Rightarrow> nat" where
  "month_len y m = (if m = 2 then (if leap y then 29 else 28)
     else if m \<in> {4, 6, 9, 11} then 30 else 31)"

lemma year_len_pos [simp]: "0 < year_len y"
  by (simp add: year_len_def)

lemma month_len_pos [simp]: "0 < month_len y m"
  by (simp add: month_len_def)

function year_from :: "nat \<Rightarrow> nat \<Rightarrow> nat \<times> nat" where
  "year_from y d = (if d < year_len y then (y, d) else year_from (y + 1) (d - year_len y))"
  by pat_completeness auto
termination
proof (relation "measure (\<lambda>(y, d). d)")
  fix y d :: nat
  assume "\<not> d < year_len y"
  moreover have "0 < year_len y" by simp
  ultimately show "((y + 1, d - year_len y), y, d) \<in> measure (\<lambda>(y, d). d)"
    by (simp only: in_measure prod.case)
qed simp

declare year_from.simps [simp del]

function month_from :: "nat \<Rightarrow> nat \<Rightarrow> nat \<Rightarrow> nat \<times> nat" where
  "month_from y m d = (if m \<ge> 12 \<or> d < month_len y m then (m, d + 1)
     else month_from y (m + 1) (d - month_len y m))"
  by pat_completeness auto
termination by (relation "measure (\<lambda>(y, m, d). 12 - m)") auto

declare month_from.simps [simp del]

text \<open>Year, month and day of month of a day counted from January 1 of year 1.\<close>

definition civil :: "nat \<Rightarrow> nat \<times> nat \<times> nat" where
  "civil day = (let (y, d) = year_from 1 day; (m, dm) = month_from y 1 d in (y, m, dm))"

text \<open>0 is Sunday.\<close>

definition weekday :: "nat \<Rightarrow> nat" where
  "weekday day = (day + 1) mod 7"

lemma year_from_range: "year_from y d = (y', d') \<Longrightarrow> d' < year_len y'"
proof (induction y d rule: year_from.induct)
  case (1 y d)
  show ?case
  proof (cases "d < year_len y")
    case True
    with 1(2) show ?thesis by (subst (asm) year_from.simps) auto
  next
    case False
    with 1 show ?thesis by (subst (asm) (2) year_from.simps) auto
  qed
qed

lemma year_from_same: "year_from y d = (y', d') \<Longrightarrow> d' + k < year_len y' \<Longrightarrow> year_from y (d + k) = (y', d' + k)"
proof (induction y d rule: year_from.induct)
  case (1 y d)
  show ?case
  proof (cases "d < year_len y")
    case True
    with 1(2) have "y' = y" "d' = d" by (subst (asm) year_from.simps, simp)+
    with 1(3) show ?thesis by (subst year_from.simps) simp
  next
    case False
    have "year_from (y + 1) (d - year_len y) = (y', d')" using 1(2) False by (subst (asm) year_from.simps) simp
    from 1(1) [OF False this 1(3)] False show ?thesis by (subst year_from.simps) simp
  qed
qed

definition rest_len :: "nat \<Rightarrow> nat \<Rightarrow> nat" where
  "rest_len y m = sum_list (map (month_len y) [m..<13])"

lemma rest_len_step: "m < 13 \<Longrightarrow> rest_len y m = month_len y m + rest_len y (Suc m)"
  by (simp add: rest_len_def upt_conv_Cons)

lemma rest_len_year: "rest_len y 1 = year_len y"
  by (simp add: rest_len_step) (simp add: rest_len_def month_len_def year_len_def)

lemma month_from_range:
  "month_from y m d = (m', dm) \<Longrightarrow> d < rest_len y m \<Longrightarrow> m \<le> 12 \<Longrightarrow>
   1 \<le> dm \<and> dm \<le> month_len y m' \<and> m \<le> m' \<and> m' \<le> 12"
proof (induction y m d rule: month_from.induct)
  case (1 y m d)
  show ?case
  proof (cases "m \<ge> 12 \<or> d < month_len y m")
    case True
    with 1(2) have "m' = m" "dm = d + 1" by (subst (asm) month_from.simps, simp)+
    moreover have "d < month_len y m"
      using True 1(3,4) rest_len_step [of 12 y] by (auto simp: rest_len_def)
    ultimately show ?thesis using 1(4) by simp
  next
    case False
    have "month_from y (m + 1) (d - month_len y m) = (m', dm)"
      using 1(2) False by (subst (asm) month_from.simps) simp
    note rec = 1(1) [OF False this]
    have r: "rest_len y m = month_len y m + rest_len y (m + 1)" using rest_len_step [of m y] False by simp
    have "d - month_len y m < rest_len y (m + 1)" using r 1(3) False by linarith
    from rec [OF this] show ?thesis using False r by simp
  qed
qed

lemma month_from_same:
  "month_from y m d = (m', dm) \<Longrightarrow> dm + k \<le> month_len y m' \<Longrightarrow> month_from y m (d + k) = (m', dm + k)"
proof (induction y m d rule: month_from.induct)
  case (1 y m d)
  show ?case
  proof (cases "m \<ge> 12 \<or> d < month_len y m")
    case True
    with 1(2) have "m' = m" "dm = d + 1" by (subst (asm) month_from.simps, simp)+
    with True 1(3) show ?thesis by (subst month_from.simps) auto
  next
    case False
    have "month_from y (m + 1) (d - month_len y m) = (m', dm)"
      using 1(2) False by (subst (asm) month_from.simps) simp
    from 1(1) [OF False this 1(3)] False show ?thesis by (subst month_from.simps) simp
  qed
qed

lemma month_from_offset:
  "month_from y m d = (m', dm) \<Longrightarrow> d < rest_len y m \<Longrightarrow> m \<le> 12 \<Longrightarrow>
   d + 1 + rest_len y m' = dm + rest_len y m"
proof (induction y m d rule: month_from.induct)
  case (1 y m d)
  show ?case
  proof (cases "m \<ge> 12 \<or> d < month_len y m")
    case True
    with 1(2) have "m' = m" "dm = d + 1" by (subst (asm) month_from.simps, simp)+
    then show ?thesis by simp
  next
    case False
    have "month_from y (m + 1) (d - month_len y m) = (m', dm)"
      using 1(2) False by (subst (asm) month_from.simps) simp
    note rec = 1(1) [OF False this]
    have r: "rest_len y m = month_len y m + rest_len y (m + 1)" using rest_len_step [of m y] False by simp
    have "d - month_len y m < rest_len y (m + 1)" using r 1(3) False by linarith
    from rec [OF this] show ?thesis using False r by linarith
  qed
qed

lemma civil_range:
  assumes "civil day = (y, m, dm)"
  shows "1 \<le> m \<and> m \<le> 12 \<and> 1 \<le> dm \<and> dm \<le> month_len y m"
proof -
  obtain d where yd: "year_from 1 day = (y, d)" "month_from y 1 d = (m, dm)"
    using assms by (auto simp: civil_def split: prod.splits)
  then show ?thesis using month_from_range [OF yd(2)] year_from_range [OF yd(1)] rest_len_year by simp
qed

text \<open>A month does not begin before day 0.\<close>

lemma month_from_le: "month_from y m d = (m', dm) \<Longrightarrow> dm \<le> d + 1"
proof (induction y m d rule: month_from.induct)
  case (1 y m d)
  show ?case
  proof (cases "m \<ge> 12 \<or> d < month_len y m")
    case True
    with 1(2) show ?thesis by (subst (asm) month_from.simps) auto
  next
    case False
    have "month_from y (m + 1) (d - month_len y m) = (m', dm)"
      using 1(2) False by (subst (asm) month_from.simps) simp
    from 1(1) [OF False this] show ?thesis by linarith
  qed
qed

lemma year_from_le: "year_from y d = (y', d') \<Longrightarrow> d' \<le> d"
proof (induction y d rule: year_from.induct)
  case (1 y d)
  show ?case
  proof (cases "d < year_len y")
    case True
    with 1(2) show ?thesis by (subst (asm) year_from.simps) auto
  next
    case False
    have "year_from (y + 1) (d - year_len y) = (y', d')" using 1(2) False by (subst (asm) year_from.simps) simp
    from 1(1) [OF False this] show ?thesis by simp
  qed
qed

lemma civil_day_pos:
  assumes "civil day = (y, m, dm)"
  shows "dm \<le> day + 1"
proof -
  obtain d where yd: "year_from 1 day = (y, d)" "month_from y 1 d = (m, dm)"
    using assms by (auto simp: civil_def split: prod.splits)
  then show ?thesis using month_from_le [OF yd(2)] year_from_le [OF yd(1)] by simp
qed

text \<open>The later days of a month.\<close>

lemma civil_same_month:
  assumes "civil day = (y, m, dm)" and "dm + k \<le> month_len y m"
  shows "civil (day + k) = (y, m, dm + k)"
proof -
  obtain d where yd: "year_from 1 day = (y, d)" "month_from y 1 d = (m, dm)"
    using assms(1) by (auto simp: civil_def split: prod.splits)
  have mk: "month_from y 1 (d + k) = (m, dm + k)" by (rule month_from_same [OF yd(2) assms(2)])
  have r: "d < rest_len y 1" using year_from_range [OF yd(1)] rest_len_year by simp
  have "m < 13" using month_from_range [OF yd(2) r] by simp
  then have "d + k < year_len y"
    using month_from_offset [OF yd(2) r] assms(2) rest_len_step [of m y] rest_len_year [of y] by simp
  then have "year_from 1 (day + k) = (y, d + k)" by (rule year_from_same [OF yd(1)])
  with mk show ?thesis by (simp add: civil_def)
qed

section \<open>Expressions\<close>

record schedule =
  sc_minute :: "int list"
  sc_hour :: "int list"
  sc_dom :: "int list"
  sc_mon :: "int list"
  sc_dow :: "int list"
  sc_domStar :: bool
  sc_dowStar :: bool

datatype cron_error =
    WantFiveFields nat
  | FieldError nat field_error  \<comment> \<open>the index of the field\<close>
and field_error = EmptyTerm | BadStep string | BadRange string | RangeBounds string | BadValue string | ValueBounds int

text \<open>The values a term marks, in steps.\<close>

function steps :: "int \<Rightarrow> int \<Rightarrow> int \<Rightarrow> int list" where
  "steps lo hi n = (if lo > hi \<or> n \<le> 0 then [] else lo # steps (lo + n) hi n)"
  by pat_completeness auto
termination by (relation "measure (\<lambda>(lo, hi, n). nat (hi - lo + 1))") auto

declare steps.simps [simp del]

lemma steps_range: "v \<in> set (steps lo hi n) \<Longrightarrow> lo \<le> v \<and> v \<le> hi"
proof (induction lo hi n rule: steps.induct)
  case (1 lo hi n)
  then show ?case by (subst (asm) (2) steps.simps) (fastforce split: if_splits)
qed

lemma steps_one: "v \<in> set (steps lo hi 1) \<longleftrightarrow> lo \<le> v \<and> v \<le> hi"
  by (induction lo hi "1 :: int" rule: steps.induct) (subst steps.simps, auto)

text \<open>A term without its step: the bounds, and whether it is the bare star.\<close>

definition parseRange :: "string \<Rightarrow> int \<Rightarrow> int \<Rightarrow> field_error + int \<times> int \<times> bool" where
  "parseRange part lo hi =
     (if part = ''*'' then Inr (lo, hi, True)
      else case cut (CHR ''-'') part of
        Some (x, y) \<Rightarrow>
          (case (atoi x, atoi y) of
             (Some a, Some b) \<Rightarrow>
               if a < lo \<or> b > hi \<or> a > b then Inl (RangeBounds part) else Inr (a, b, False)
           | _ \<Rightarrow> Inl (BadRange part))
      | None \<Rightarrow>
          (case atoi part of None \<Rightarrow> Inl (BadValue part)
           | Some v \<Rightarrow> if v < lo \<or> v > hi then Inl (ValueBounds v) else Inr (v, v, False)))"

definition parseTerm :: "string \<Rightarrow> int \<Rightarrow> int \<Rightarrow> field_error + int list \<times> bool" where
  "parseTerm trm lo hi =
     (if trm = [] then Inl EmptyTerm
      else case (case cut (CHR ''/'') trm of None \<Rightarrow> Inr (trm, 1)
                 | Some (part, s) \<Rightarrow>
                   (case positive_int s of None \<Rightarrow> Inl (BadStep s) | Some n \<Rightarrow> Inr (part, n))) of
             Inl e \<Rightarrow> Inl e
           | Inr (part, n) \<Rightarrow>
             (case parseRange part lo hi of Inl e \<Rightarrow> Inl e
              | Inr (a, b, star) \<Rightarrow> Inr (steps a b n, star)))"

fun parseTerms :: "string list \<Rightarrow> int \<Rightarrow> int \<Rightarrow> field_error + int list \<times> bool" where
  "parseTerms [] lo hi = Inr ([], True)"
| "parseTerms (t # ts) lo hi =
     (case parseTerm t lo hi of Inl e \<Rightarrow> Inl e
      | Inr (vs, star) \<Rightarrow>
        (case parseTerms ts lo hi of Inl e \<Rightarrow> Inl e
         | Inr (ws, rest) \<Rightarrow> Inr (vs @ ws, star \<and> rest)))"

definition parseField :: "string \<Rightarrow> int \<Rightarrow> int \<Rightarrow> field_error + int list \<times> bool" where
  "parseField field lo hi = parseTerms (split_on (CHR '','') field) lo hi"

definition parseCron :: "string \<Rightarrow> cron_error + schedule" where
  "parseCron expr =
     (case str_fields expr of
        [a, b, c, d, e] \<Rightarrow>
          (case parseField a 0 59 of Inl err \<Rightarrow> Inl (FieldError 0 err)
           | Inr (mins, _) \<Rightarrow>
          (case parseField b 0 23 of Inl err \<Rightarrow> Inl (FieldError 1 err)
           | Inr (hours, _) \<Rightarrow>
          (case parseField c 1 31 of Inl err \<Rightarrow> Inl (FieldError 2 err)
           | Inr (doms, domStar) \<Rightarrow>
          (case parseField d 1 12 of Inl err \<Rightarrow> Inl (FieldError 3 err)
           | Inr (mons, _) \<Rightarrow>
          (case parseField e 0 6 of Inl err \<Rightarrow> Inl (FieldError 4 err)
           | Inr (dows, dowStar) \<Rightarrow>
             Inr \<lparr>sc_minute = mins, sc_hour = hours, sc_dom = doms, sc_mon = mons, sc_dow = dows,
                  sc_domStar = domStar, sc_dowStar = dowStar\<rparr>)))))
      | fs \<Rightarrow> Inl (WantFiveFields (length fs)))"

section \<open>Fire times\<close>

definition dayMatches :: "schedule \<Rightarrow> nat \<Rightarrow> bool" where
  "dayMatches s day =
     (let (y, m, dm) = civil day;
          domOK = int dm \<in> set (sc_dom s); dowOK = int (weekday day) \<in> set (sc_dow s) in
      if sc_domStar s \<and> sc_dowStar s then True
      else if sc_domStar s then dowOK
      else if sc_dowStar s then domOK
      else domOK \<or> dowOK)"

text \<open>Minutes of local time; \<open>off\<close> is the offset of the location in minutes.\<close>

definition minute_time :: "int \<Rightarrow> nat \<Rightarrow> time" where
  "minute_time off t = (int t - off) * nanos_per_minute"

definition month_matches :: "schedule \<Rightarrow> nat \<Rightarrow> bool" where
  "month_matches s day = (let (y, m, dm) = civil day in int m \<in> set (sc_mon s))"

text \<open>The first day of the following month.\<close>

definition next_month :: "nat \<Rightarrow> nat" where
  "next_month day = (let (y, m, dm) = civil day in day - (dm - 1) + month_len y m)"

lemma next_month_later: "day < next_month day"
proof -
  obtain y m dm where c: "civil day = (y, m, dm)" by (rule prod_cases3)
  show ?thesis using civil_range [OF c] by (simp add: next_month_def c) linarith
qed

lemma minute_time_less: "t < t' \<Longrightarrow> minute_time off t < minute_time off t'"
  by (simp add: minute_time_def)

lemma next_hour_later: "t < (t div 60 + 1) * (60 :: nat)"
  by (metis add.commute div_mult_mod_eq mod_less_divisor mult.commute mult_Suc_right nat_add_left_cancel_less
      plus_1_eq_Suc zero_less_numeral)

lemma later_day: "t div 1440 < d \<Longrightarrow> t < d * (1440 :: nat)"
  by (simp add: less_mult_imp_div_less div_less_iff_less_mult)

function nextMinute :: "schedule \<Rightarrow> int \<Rightarrow> time \<Rightarrow> nat \<Rightarrow> nat option" where
  "nextMinute s off limit t =
     (if minute_time off t < limit then
        (let day = t div 1440 in
         if \<not> month_matches s day then nextMinute s off limit (next_month day * 1440)
         else if \<not> dayMatches s day then nextMinute s off limit ((day + 1) * 1440)
         else if int (t div 60 mod 24) \<notin> set (sc_hour s) then nextMinute s off limit ((t div 60 + 1) * 60)
         else if int (t mod 60) \<notin> set (sc_minute s) then nextMinute s off limit (t + 1)
         else Some t)
      else None)"
  by pat_completeness auto
termination
proof (relation "measure (\<lambda>(s, off, limit, t). nat (limit - minute_time off t))")
  have *: "nat (limit - minute_time off t') < nat (limit - minute_time off t)"
    if "minute_time off t < limit" "t < t'" for off limit t t'
    using that minute_time_less [OF that(2), of off] by simp
  fix s :: schedule and off limit :: int and t x :: nat
  assume a: "minute_time off t < limit" and x: "x = t div 1440"
  show "((s, off, limit, next_month x * 1440), s, off, limit, t) \<in> measure (\<lambda>(s, off, limit, t). nat (limit - minute_time off t))"
    using *[OF a] later_day [of t "next_month x"] next_month_later [of x] x by simp
  show "((s, off, limit, (x + 1) * 1440), s, off, limit, t) \<in> measure (\<lambda>(s, off, limit, t). nat (limit - minute_time off t))"
    using *[OF a] later_day [of t "x + 1"] x by simp
  show "((s, off, limit, (t div 60 + 1) * 60), s, off, limit, t) \<in> measure (\<lambda>(s, off, limit, t). nat (limit - minute_time off t))"
    using *[OF a] next_hour_later [of t] by simp
  show "((s, off, limit, t + 1), s, off, limit, t) \<in> measure (\<lambda>(s, off, limit, t). nat (limit - minute_time off t))"
    using *[OF a, of "t + 1"] by simp
qed simp

declare nextMinute.simps [simp del]

definition maxHorizon :: duration where
  "maxHorizon = 5 * 365 * 24 * 3600 * 1000000000"

definition localMinute :: "int \<Rightarrow> time \<Rightarrow> nat" where
  "localMinute off t = nat (t div nanos_per_minute + off)"

text \<open>\<open>Next\<close>: the zero time when there is none within the horizon.\<close>

definition nextFire :: "schedule \<Rightarrow> int \<Rightarrow> time \<Rightarrow> time" where
  "nextFire s off after =
     (case nextMinute s off (after + maxHorizon) (localMinute off after + 1) of
        None \<Rightarrow> 0 | Some t \<Rightarrow> minute_time off t)"

section \<open>The next fire time is the least\<close>

definition fires :: "schedule \<Rightarrow> nat \<Rightarrow> bool" where
  "fires s t = (month_matches s (t div 1440) \<and> dayMatches s (t div 1440) \<and>
     int (t div 60 mod 24) \<in> set (sc_hour s) \<and> int (t mod 60) \<in> set (sc_minute s))"

text \<open>The search skips only minutes at which the schedule does not fire.\<close>

lemma skip_month:
  assumes "\<not> month_matches s (t div 1440)" and "t \<le> k" and "k < next_month (t div 1440) * 1440"
  shows "\<not> fires s k"
proof -
  obtain y m dm where c: "civil (t div 1440) = (y, m, dm)" by (rule prod_cases3)
  have r: "1 \<le> dm" "dm \<le> month_len y m" using civil_range [OF c] by auto
  have "t div 1440 \<le> k div 1440" using assms(2) by (rule div_le_mono)
  then obtain j where j: "k div 1440 = t div 1440 + j" using le_Suc_ex by blast
  have "k div 1440 < next_month (t div 1440)" using assms(3) by (simp add: less_mult_imp_div_less)
  then have "t div 1440 + j < t div 1440 - (dm - 1) + month_len y m" by (simp add: next_month_def c j)
  then have "dm + j \<le> month_len y m" using r civil_day_pos [OF c] by linarith
  then have "civil (k div 1440) = (y, m, dm + j)" using civil_same_month [OF c] j by simp
  then show ?thesis using assms(1) c by (simp add: fires_def month_matches_def)
qed

lemma skip_day:
  assumes "\<not> dayMatches s (t div 1440)" and "t \<le> k" and "k < (t div 1440 + 1) * 1440"
  shows "\<not> fires s k"
proof -
  have "k div 1440 = t div 1440"
    using assms(2,3) by (metis div_le_mono less_Suc_eq_le less_mult_imp_div_less Suc_eq_plus1 order_antisym)
  then show ?thesis using assms(1) by (simp add: fires_def)
qed

lemma skip_hour:
  assumes "int (t div 60 mod 24) \<notin> set (sc_hour s)" and "t \<le> k" and "k < (t div 60 + 1) * 60"
  shows "\<not> fires s k"
proof -
  have "k div 60 = t div 60"
    using assms(2,3) by (metis div_le_mono less_Suc_eq_le less_mult_imp_div_less Suc_eq_plus1 order_antisym)
  then show ?thesis using assms(1) by (simp add: fires_def)
qed

lemma nextMinute_least:
  "(\<forall>k. t \<le> k \<and> minute_time off k < limit \<and>
      (case nextMinute s off limit t of None \<Rightarrow> True | Some n \<Rightarrow> k < n) \<longrightarrow> \<not> fires s k) \<and>
   (\<forall>n. nextMinute s off limit t = Some n \<longrightarrow> t \<le> n \<and> minute_time off n < limit \<and> fires s n)"
proof (induction s off limit t rule: nextMinute.induct)
  case (1 s off limit t)
  let ?day = "t div 1440"
  have step: ?case if e: "nextMinute s off limit t = nextMinute s off limit t'" and later: "t < t'"
    and skip: "\<And>k. t \<le> k \<Longrightarrow> k < t' \<Longrightarrow> \<not> fires s k"
    and ih: "(\<forall>k. t' \<le> k \<and> minute_time off k < limit \<and>
      (case nextMinute s off limit t' of None \<Rightarrow> True | Some n \<Rightarrow> k < n) \<longrightarrow> \<not> fires s k) \<and>
      (\<forall>n. nextMinute s off limit t' = Some n \<longrightarrow> t' \<le> n \<and> minute_time off n < limit \<and> fires s n)" for t'
  proof (intro conjI allI impI)
    fix k assume k: "t \<le> k \<and> minute_time off k < limit \<and>
      (case nextMinute s off limit t of None \<Rightarrow> True | Some n \<Rightarrow> k < n)"
    show "\<not> fires s k"
    proof (cases "k < t'")
      case True
      then show ?thesis using skip k by blast
    next
      case False
      then have "t' \<le> k" by simp
      then show ?thesis using ih k unfolding e by blast
    qed
  next
    fix n assume "nextMinute s off limit t = Some n"
    then show "t \<le> n" "minute_time off n < limit" "fires s n" using ih later unfolding e by force+
  qed
  show ?case
  proof (cases "minute_time off t < limit")
    case False
    then have "nextMinute s off limit t = None" by (subst nextMinute.simps) simp
    moreover have "\<not> minute_time off k < limit" if "t \<le> k" for k
      using False that minute_time_less [of t k off] by (cases "t = k") auto
    ultimately show ?thesis by auto
  next
    case lim: True
    consider (month) "\<not> month_matches s ?day" | (day) "month_matches s ?day" "\<not> dayMatches s ?day"
      | (hour) "month_matches s ?day" "dayMatches s ?day" "int (t div 60 mod 24) \<notin> set (sc_hour s)"
      | (minute) "month_matches s ?day" "dayMatches s ?day" "int (t div 60 mod 24) \<in> set (sc_hour s)"
          "int (t mod 60) \<notin> set (sc_minute s)"
      | (hit) "fires s t" by (auto simp: fires_def)
    then show ?thesis
    proof cases
      case month
      have e: "nextMinute s off limit t = nextMinute s off limit (next_month ?day * 1440)"
        using lim month by (subst nextMinute.simps) simp
      show ?thesis
        by (rule step [OF e later_day [OF next_month_later] skip_month [OF month] 1(1) [OF lim refl month]])
    next
      case day
      have e: "nextMinute s off limit t = nextMinute s off limit ((?day + 1) * 1440)"
        using lim day by (subst nextMinute.simps) simp
      have nm: "\<not> \<not> month_matches s ?day" using day by simp
      show ?thesis
        by (rule step [OF e later_day skip_day [OF day(2)] 1(2) [OF lim refl nm day(2)]]) simp
    next
      case hour
      have e: "nextMinute s off limit t = nextMinute s off limit ((t div 60 + 1) * 60)"
        using lim hour by (subst nextMinute.simps) simp
      have nm: "\<not> \<not> month_matches s ?day" "\<not> \<not> dayMatches s ?day" using hour by simp_all
      show ?thesis
        by (rule step [OF e next_hour_later skip_hour [OF hour(3)] 1(3) [OF lim refl nm hour(3)]])
    next
      case minute
      have e: "nextMinute s off limit t = nextMinute s off limit (t + 1)"
        using lim minute by (subst nextMinute.simps) simp
      have nm: "\<not> \<not> month_matches s ?day" "\<not> \<not> dayMatches s ?day"
        "\<not> int (t div 60 mod 24) \<notin> set (sc_hour s)" using minute by simp_all
      have skip: "\<not> fires s k" if "t \<le> k" "k < t + 1" for k
        using that minute(4) by (simp add: fires_def le_less_Suc_eq)
      show ?thesis by (rule step [OF e _ skip 1(4) [OF lim refl nm minute(4)]]) simp_all
    next
      case hit
      then have "nextMinute s off limit t = Some t"
        using lim by (subst nextMinute.simps) (simp add: fires_def)
      then show ?thesis using hit lim by auto
    qed
  qed
qed

lemma localMinute_minute_time: "localMinute off (minute_time off n) = n"
  by (simp add: localMinute_def minute_time_def)

lemma minute_time_whole:
  "t mod nanos_per_minute = 0 \<Longrightarrow> 0 \<le> t div nanos_per_minute + off \<Longrightarrow> minute_time off (localMinute off t) = t"
  by (simp add: localMinute_def minute_time_def) (metis add.right_neutral mult.commute mult_div_mod_eq)

lemma after_minute: "a div nanos_per_minute < q \<Longrightarrow> a < q * nanos_per_minute"
  by (simp add: div_less_iff_less_mult)

lemma minute_after: "a < t \<Longrightarrow> t mod nanos_per_minute = 0 \<Longrightarrow> a div nanos_per_minute < t div nanos_per_minute"
proof -
  assume "a < t" and m: "t mod nanos_per_minute = 0"
  moreover have "t = t div nanos_per_minute * nanos_per_minute" using div_mult_mod_eq [of t nanos_per_minute] m by simp
  ultimately have "a < t div nanos_per_minute * nanos_per_minute" by simp
  then show ?thesis by (simp only: div_less_iff_less_mult)
qed

lemma minute_later:
  assumes "0 \<le> after div nanos_per_minute + off" and "localMinute off after + 1 \<le> k"
  shows "after < minute_time off k"
  unfolding minute_time_def
proof (rule after_minute)
  show "after div nanos_per_minute < int k - off"
    using assms by (simp add: localMinute_def nat_le_iff)
qed

lemma next_fire_hit:
  assumes "0 \<le> after" and "0 \<le> after div nanos_per_minute + off"
  shows "nextFire s off after = 0 \<or> after < nextFire s off after \<and> nextFire s off after < after + maxHorizon \<and>
    nextFire s off after mod nanos_per_minute = 0 \<and> fires s (localMinute off (nextFire s off after))"
proof -
  let ?limit = "after + maxHorizon" and ?m = "localMinute off after + 1" and ?n = "nextFire s off after"
  show ?thesis
  proof (cases "nextMinute s off ?limit ?m")
    case None
    then show ?thesis by (simp add: nextFire_def)
  next
    case (Some x)
    have n: "?n = minute_time off x" using Some by (simp add: nextFire_def)
    have x: "?m \<le> x" "minute_time off x < ?limit" "fires s x"
      using nextMinute_least [of ?m off ?limit s] Some by blast+
    have "?n mod nanos_per_minute = 0" unfolding n minute_time_def by (rule mod_mult_self2_is_0)
    moreover have "after < ?n" "?n < ?limit" using x minute_later [OF assms(2) x(1)] n by auto
    moreover have "localMinute off ?n = x" unfolding n by (rule localMinute_minute_time)
    ultimately show ?thesis using x(3) by simp
  qed
qed

section \<open>Properties\<close>


definition hourly :: schedule where
  "hourly = \<lparr>sc_minute = [30], sc_hour = steps 0 23 1, sc_dom = steps 1 31 1, sc_mon = steps 1 12 1,
     sc_dow = steps 0 6 1, sc_domStar = True, sc_dowStar = True\<rparr>"

lemma hourly_fires: "fires hourly t \<longleftrightarrow> t mod 60 = 30"
proof -
  obtain y m dm where c: "civil (t div 1440) = (y, m, dm)" by (rule prod_cases3)
  have "int m \<in> set (steps 1 12 1)" using civil_range [OF c] by (simp add: steps_one)
  moreover have "int (t div 60 mod 24) \<in> set (steps 0 23 1)" by (simp add: steps_one)
  ultimately show ?thesis
    using c by (auto simp: fires_def month_matches_def dayMatches_def hourly_def)
qed


text \<open>A parsed cron expression stays in the ranges of its fields, so that every value is an
  index of the 60-entry tables of the code, and no value of an expression is silently lost:
  each of its five fields has at least one value.\<close>

definition in_field :: "int \<Rightarrow> int \<Rightarrow> int list \<Rightarrow> bool" where
  "in_field lo hi vs \<longleftrightarrow> vs \<noteq> [] \<and> list_all (\<lambda>v. lo \<le> v \<and> v \<le> hi) vs"

lemma parseTerm_range:
  "parseTerm t lo hi = Inr (vs, star) \<Longrightarrow> lo \<le> hi \<Longrightarrow> in_field lo hi vs"
proof -
  assume p: "parseTerm t lo hi = Inr (vs, star)" and le: "lo \<le> hi"
  obtain part n a b where r: "parseRange part lo hi = Inr (a, b, star)" and vs: "vs = steps a b n" and n: "0 < n"
    using p by (auto simp: parseTerm_def positive_int_def split: if_splits option.splits sum.splits prod.splits)
  have ab: "lo \<le> a" "b \<le> hi" "a \<le> b"
    using r le by (auto simp: parseRange_def split: if_splits option.splits prod.splits)
  have "steps a b n \<noteq> []" using ab(3) n by (subst steps.simps) simp
  then show ?thesis unfolding in_field_def vs list_all_iff using steps_range ab by fastforce
qed

lemma parseTerms_range:
  "parseTerms ts lo hi = Inr (vs, star) \<Longrightarrow> lo \<le> hi \<Longrightarrow> ts \<noteq> [] \<Longrightarrow> in_field lo hi vs"
proof (induction ts arbitrary: vs star)
  case (Cons t ts)
  obtain us su ws sw where p: "parseTerm t lo hi = Inr (us, su)" "parseTerms ts lo hi = Inr (ws, sw)" "vs = us @ ws"
    using Cons.prems(1) by (auto split: sum.splits prod.splits)
  have u: "in_field lo hi us" by (rule parseTerm_range [OF p(1) Cons.prems(2)])
  show ?case
  proof (cases "ts = []")
    case True
    then show ?thesis using p u by simp
  next
    case False
    then show ?thesis using Cons.IH [OF p(2) Cons.prems(2)] u p(3) by (simp add: in_field_def)
  qed
qed simp

lemma parseField_range: "parseField f lo hi = Inr (vs, star) \<Longrightarrow> lo \<le> hi \<Longrightarrow> in_field lo hi vs"
  unfolding parseField_def by (rule parseTerms_range) (simp, simp, rule split_on_not_Nil)

theorem parsed_in_range:
  assumes "parseCron expr = Inr s"
  shows "in_field 0 59 (sc_minute s) \<and> in_field 0 23 (sc_hour s) \<and> in_field 1 31 (sc_dom s) \<and>
    in_field 1 12 (sc_mon s) \<and> in_field 0 6 (sc_dow s)"
proof -
  obtain a b c d e where f: "str_fields expr = [a, b, c, d, e]"
    using assms by (auto simp: parseCron_def split: list.splits)
  obtain sm sh smo where p: "parseField a 0 59 = Inr (sc_minute s, sm)" "parseField b 0 23 = Inr (sc_hour s, sh)"
    "parseField c 1 31 = Inr (sc_dom s, sc_domStar s)" "parseField d 1 12 = Inr (sc_mon s, smo)"
    "parseField e 0 6 = Inr (sc_dow s, sc_dowStar s)"
    using assms f by (auto simp: parseCron_def split: sum.splits prod.splits)
  show ?thesis
    using parseField_range [OF p(1)] parseField_range [OF p(2)] parseField_range [OF p(3)]
      parseField_range [OF p(4)] parseField_range [OF p(5)] by simp
qed

text \<open>A schedule on every second day of the month, at midnight.\<close>

lemma second_day_parsed:
  "parseCron ''0 0 */2 * *'' = Inr \<lparr>sc_minute = [0], sc_hour = [0], sc_dom = steps 1 31 2, sc_mon = steps 1 12 1,
     sc_dow = steps 0 6 1, sc_domStar = True, sc_dowStar = True\<rparr>"
  by (simp add: parseCron_def str_fields_def is_space_def parseField_def parseTerm_def parseRange_def cut_def
      positive_int_def atoi_def digits_value_def is_digit_def less_eq_char_def steps.simps [of 0 0] steps.simps [of 1 0])

theorem parsed_in_range_witness:
  "in_field 1 31 (steps 1 31 2) \<and> in_field 0 6 (steps 0 6 1)"
  using parsed_in_range [OF second_day_parsed] by simp

text \<open>The step of a starred day field is lost: the code takes the field for a bare star, and the
  schedule fires at midnight of every day.\<close>

lemma star_step_fires_daily:
  assumes "parseCron ''0 0 */2 * *'' = Inr s"
  shows "fires s (day * 1440)"
proof -
  obtain y m dm where c: "civil day = (y, m, dm)" by (rule prod_cases3)
  have "int m \<in> set (steps 1 12 1)"
    using civil_range [OF c] by (simp add: steps_one)
  then show ?thesis
    using assms c unfolding second_day_parsed
    by (auto simp: fires_def month_matches_def dayMatches_def)
qed

end
