(* ===== verification/Jobs.thy ===== *)
theory Jobs
  imports Cron Sched_Ops
begin

text \<open>
  The scheduled loads: the table scheduler_jobs (store/scheduler_jobs.go with its migration),
  the runner that fires them (sched/jobs.go) and the API's operations on them
  (httpapi/scheduler_job_handlers.go, from the decoded body to the answer; HTTP encoding,
  authorisation and auditing are left out).  Times pass through a REAL column: the round trip
  through a float64 is a parameter.  Errors of the database are the values of \<open>store_err\<close>; the
  table itself is modelled without them.
\<close>

section \<open>The table\<close>

record job =
  jb_id :: int
  jb_name :: string
  jb_cron :: string
  jb_config :: model
  jb_slot :: slot
  jb_enabled :: bool
  jb_lastRun :: time
  jb_nextRun :: time
  jb_createdBy :: string
  jb_createdAt :: time

datatype job_error = JobNotFound | JobNameTaken | JobStoreErr string

record 'd job_ops =
  jo_list :: "'d \<Rightarrow> job_error + job list"
  jo_get :: "int \<Rightarrow> 'd \<Rightarrow> job_error + job"
  jo_create :: "job \<Rightarrow> 'd \<Rightarrow> (job_error + int) \<times> 'd"
  jo_update :: "job \<Rightarrow> 'd \<Rightarrow> job_error option \<times> 'd"
  jo_delete :: "int \<Rightarrow> 'd \<Rightarrow> job_error option \<times> 'd"
  jo_setRunTimes :: "int \<Rightarrow> time \<Rightarrow> time \<Rightarrow> 'd \<Rightarrow> job_error option \<times> 'd"

text \<open>
  What \<open>realOf\<close> and \<open>timeOfReal\<close> make of a time: the zero time stays, whole seconds of the
  range of \<open>UnixNano\<close> after 1970 are exact, other times are close.
\<close>

definition real_range :: "time \<Rightarrow> bool" where
  "real_range t \<longleftrightarrow> timeOf 0 < t \<and> t < timeOf 9223372036"

definition real_trip :: "(time \<Rightarrow> time) \<Rightarrow> bool" where
  "real_trip rt \<longleftrightarrow> rt 0 = 0 \<and> (\<forall>t. real_range t \<longrightarrow> rt t \<noteq> 0 \<and> abs (rt t - t) < 1000000000 \<and>
     (t mod 1000000000 = 0 \<longrightarrow> rt t = t))"

definition jobsList :: "job list \<Rightarrow> job list" where
  "jobsList db = sort_key jb_name db"

definition jobsGet :: "int \<Rightarrow> job list \<Rightarrow> job_error + job" where
  "jobsGet i db = (case find (\<lambda>j. jb_id j = i) db of None \<Rightarrow> Inl JobNotFound | Some j \<Rightarrow> Inr j)"

text \<open>The row id is one more than the largest; the run times of a new row are NULL.\<close>

definition jobsCreate :: "(time \<Rightarrow> time) \<Rightarrow> job \<Rightarrow> job list \<Rightarrow> (job_error + int) \<times> job list" where
  "jobsCreate rt j db =
     (if jb_name j \<in> jb_name ` set db then (Inl JobNameTaken, db)
      else let i = Max (insert 0 (jb_id ` set db)) + 1 in
        (Inr i, db @ [j\<lparr>jb_id := i, jb_lastRun := 0, jb_nextRun := 0, jb_createdAt := rt (jb_createdAt j)\<rparr>]))"

definition jobsUpdate :: "job \<Rightarrow> job list \<Rightarrow> job_error option \<times> job list" where
  "jobsUpdate j db =
     (if jb_id j \<notin> jb_id ` set db then (Some JobNotFound, db)
      else if list_ex (\<lambda>k. jb_id k \<noteq> jb_id j \<and> jb_name k = jb_name j) db then (Some JobNameTaken, db)
      else (None, map (\<lambda>k. if jb_id k = jb_id j then k\<lparr>jb_name := jb_name j, jb_cron := jb_cron j,
          jb_config := jb_config j, jb_slot := jb_slot j, jb_enabled := jb_enabled j\<rparr> else k) db))"

definition jobsDelete :: "int \<Rightarrow> job list \<Rightarrow> job_error option \<times> job list" where
  "jobsDelete i db =
     (if i \<notin> jb_id ` set db then (Some JobNotFound, db) else (None, filter (\<lambda>j. jb_id j \<noteq> i) db))"

definition jobsSetRunTimes :: "(time \<Rightarrow> time) \<Rightarrow> int \<Rightarrow> time \<Rightarrow> time \<Rightarrow> job list \<Rightarrow> job_error option \<times> job list" where
  "jobsSetRunTimes rt i l n db =
     (None, map (\<lambda>k. if jb_id k = i then k\<lparr>jb_lastRun := rt l, jb_nextRun := rt n\<rparr> else k) db)"

definition jobsOps :: "(time \<Rightarrow> time) \<Rightarrow> job list job_ops" where
  "jobsOps rt = \<lparr>jo_list = (\<lambda>db. Inr (jobsList db)), jo_get = jobsGet, jo_create = jobsCreate rt,
     jo_update = jobsUpdate, jo_delete = jobsDelete, jo_setRunTimes = jobsSetRunTimes rt\<rparr>"

section \<open>The runner\<close>

definition cronRequestedBy :: "string \<Rightarrow> string" where
  "cronRequestedBy name = ''cron:'' @ name"

definition jobRequest :: "job \<Rightarrow> ensure_request" where
  "jobRequest j = \<lparr>er_model = jb_config j, er_requestedBy = cronRequestedBy (jb_name j),
     er_targetSlot = jb_slot j, er_smallJob = False, er_priority = 0\<rparr>"

text \<open>\<open>now.AddDate(100, 0, 0)\<close>: the days of the hundred years from here on; a 29th of February
  becomes a 1st of March where there is none.\<close>

definition hundredYears :: "nat \<Rightarrow> nat" where
  "hundredYears day = (let (y, m, dm) = civil day in
     sum_list (map year_len (if m \<le> 2 then [y..<y + 100] else [y + 1..<y + 101])))"

definition farFuture :: "int \<Rightarrow> time \<Rightarrow> time" where
  "farFuture off now = now + int (hundredYears (localMinute off now div 1440)) * 86400000000000"

definition computeNext :: "int \<Rightarrow> job \<Rightarrow> time \<Rightarrow> time" where
  "computeNext off j now =
     (case parseCron (jb_cron j) of Inl e \<Rightarrow> farFuture off now
      | Inr s \<Rightarrow> let n = nextFire s off now in if n = 0 then farFuture off now else n)"

definition job_due :: "time \<Rightarrow> job \<Rightarrow> bool" where
  "job_due now j \<longleftrightarrow> jb_enabled j \<and> jb_nextRun j \<noteq> 0 \<and> jb_nextRun j \<le> now"

text \<open>The state is the store's and that of the load entry point; its answer is only logged.\<close>

definition fireJob ::
    "'d job_ops \<Rightarrow> (ensure_request \<Rightarrow> 'e \<Rightarrow> 'e) \<Rightarrow> int \<Rightarrow> time \<Rightarrow> 'd \<times> 'e \<Rightarrow> job \<Rightarrow> 'd \<times> 'e" where
  "fireJob ops ensure off now de j =
     (let n = computeNext off j now; e = ensure (jobRequest j) (snd de)
      in (snd (jo_setRunTimes ops (jb_id j) now n (fst de)), e))"

definition tickOnce ::
    "'d job_ops \<Rightarrow> (ensure_request \<Rightarrow> 'e \<Rightarrow> 'e) \<Rightarrow> int \<Rightarrow> time \<Rightarrow> 'd \<times> 'e \<Rightarrow> 'd \<times> 'e" where
  "tickOnce ops ensure off now de =
     (case jo_list ops (fst de) of Inl err \<Rightarrow> de
      | Inr js \<Rightarrow> foldl (\<lambda>de j. if \<not> job_due now j then de else fireJob ops ensure off now de j) de js)"

definition advanceMissed :: "'d job_ops \<Rightarrow> int \<Rightarrow> time \<Rightarrow> 'd \<Rightarrow> 'd" where
  "advanceMissed ops off now d =
     (case jo_list ops d of Inl err \<Rightarrow> d
      | Inr js \<Rightarrow> foldl (\<lambda>d j.
          if \<not> job_due now j then d
          else (case parseCron (jb_cron j) of Inl err \<Rightarrow> d
                | Inr s \<Rightarrow> snd (jo_setRunTimes ops (jb_id j) (jb_lastRun j) (nextFire s off now) d))) d js)"

section \<open>The API\<close>

record job_body =
  bo_name :: string
  bo_cron :: string
  bo_config :: model
  bo_slot :: slot
  bo_enabled :: "bool option"

datatype field = FieldName | FieldCron | FieldConfig | FieldSlot

datatype field_problem = Required | TooLong | Unparsable cron_error | UnknownConfig model | NotASlot

definition validateJob :: "model set option \<Rightarrow> job_body \<Rightarrow> (field \<times> field_problem) list" where
  "validateJob configs b =
     (if trim_space (bo_name b) = [] then [(FieldName, Required)]
      else if length (bo_name b) > 64 then [(FieldName, TooLong)] else []) @
     (if trim_space (bo_cron b) = [] then [(FieldCron, Required)]
      else (case parseCron (bo_cron b) of Inl e \<Rightarrow> [(FieldCron, Unparsable e)] | Inr s \<Rightarrow> [])) @
     (if trim_space (bo_config b) = [] then [(FieldConfig, Required)]
      else (case configs of None \<Rightarrow> []
            | Some cs \<Rightarrow> if bo_config b \<notin> cs then [(FieldConfig, UnknownConfig (bo_config b))] else [])) @
     (if bo_slot b \<noteq> [] \<and> bo_slot b \<notin> {''a1'', ''a2'', ''a3'', ''a4''} then [(FieldSlot, NotASlot)] else [])"

definition nextFireOf :: "int \<Rightarrow> string \<Rightarrow> time \<Rightarrow> time" where
  "nextFireOf off expr now = (case parseCron expr of Inl e \<Rightarrow> 0 | Inr s \<Rightarrow> nextFire s off now)"

datatype job_answer =
    Invalid "(field \<times> field_problem) list"
  | Created int "job option"
  | Updated "job option"
  | Deleted
  | Ran bool
  | StoreError job_error

text \<open>A time written after the row, best effort, unless it is zero.\<close>

definition schedule_row :: "'d job_ops \<Rightarrow> int \<Rightarrow> time \<Rightarrow> time \<Rightarrow> 'd \<Rightarrow> 'd" where
  "schedule_row ops i l n d = (if n = 0 then d else snd (jo_setRunTimes ops i l n d))"

definition found_job :: "job_error + job \<Rightarrow> job option" where
  "found_job r = (case r of Inl e \<Rightarrow> None | Inr j \<Rightarrow> Some j)"

definition createJob ::
    "'d job_ops \<Rightarrow> model set option \<Rightarrow> int \<Rightarrow> time \<Rightarrow> string \<Rightarrow> job_body \<Rightarrow> 'd \<Rightarrow> job_answer \<times> 'd" where
  "createJob ops configs off now caller b d =
     (if validateJob configs b \<noteq> [] then (Invalid (validateJob configs b), d)
      else
        (case jo_create ops \<lparr>jb_id = 0, jb_name = trim_space (bo_name b), jb_cron = trim_space (bo_cron b),
              jb_config = bo_config b, jb_slot = bo_slot b,
              jb_enabled = (case bo_enabled b of None \<Rightarrow> True | Some e \<Rightarrow> e),
              jb_lastRun = 0, jb_nextRun = 0, jb_createdBy = caller, jb_createdAt = now\<rparr> d of
           (Inl e, d1) \<Rightarrow> (StoreError e, d1)
         | (Inr i, d1) \<Rightarrow>
           let d2 = schedule_row ops i 0 (nextFireOf off (trim_space (bo_cron b)) now) d1
           in (Created i (found_job (jo_get ops i d2)), d2)))"

definition updateJob ::
    "'d job_ops \<Rightarrow> model set option \<Rightarrow> int \<Rightarrow> time \<Rightarrow> int \<Rightarrow> job_body \<Rightarrow> 'd \<Rightarrow> job_answer \<times> 'd" where
  "updateJob ops configs off now i b d =
     (if validateJob configs b \<noteq> [] then (Invalid (validateJob configs b), d)
      else
        (case jo_get ops i d of
           Inl e \<Rightarrow> (StoreError e, d)
         | Inr existing \<Rightarrow>
           (let j = existing\<lparr>jb_name := trim_space (bo_name b), jb_cron := trim_space (bo_cron b),
                  jb_config := bo_config b, jb_slot := bo_slot b,
                  jb_enabled := (case bo_enabled b of None \<Rightarrow> True | Some e \<Rightarrow> e)\<rparr> in
            case jo_update ops j d of
              (Some e, d1) \<Rightarrow> (StoreError e, d1)
            | (None, d1) \<Rightarrow>
              let d2 = schedule_row ops i (jb_lastRun j) (nextFireOf off (jb_cron j) now) d1
              in (Updated (found_job (jo_get ops i d2)), d2))))"

definition deleteJob :: "'d job_ops \<Rightarrow> int \<Rightarrow> 'd \<Rightarrow> job_answer \<times> 'd" where
  "deleteJob ops i d =
     (case jo_delete ops i d of (Some e, d1) \<Rightarrow> (StoreError e, d1) | (None, d1) \<Rightarrow> (Deleted, d1))"

text \<open>Firing by hand; the requester carries a suffix.\<close>

definition runNow ::
    "'d job_ops \<Rightarrow> (ensure_request \<Rightarrow> 'e \<Rightarrow> bool \<times> 'e) \<Rightarrow> int \<Rightarrow> time \<Rightarrow> int \<Rightarrow> 'd \<times> 'e \<Rightarrow> job_answer \<times> 'd \<times> 'e" where
  "runNow ops ensure off now i de =
     (case jo_get ops i (fst de) of
        Inl e \<Rightarrow> (StoreError e, de)
      | Inr j \<Rightarrow>
        (let req = (jobRequest j)\<lparr>er_requestedBy := cronRequestedBy (jb_name j) @ ''-manual''\<rparr>;
             (loaded, e) = ensure req (snd de)
         in (Ran loaded, snd (jo_setRunTimes ops i now (nextFireOf off (jb_cron j) now) (fst de)), e)))"

end
