(* ===== verification/Jobs_Props.thy ===== *)
theory Jobs_Props
  imports Jobs
begin

text \<open>
  The scheduled loads do what they promise: the laws of the job table, the runner's lemmas over
  them, and the properties on the SQL table.
\<close>

section \<open>The laws of the table and the runner\<close>

text \<open>A job after it was fired; \<open>stored\<close> is what the table makes of a time.\<close>

definition firedJob :: "(time \<Rightarrow> time) \<Rightarrow> int \<Rightarrow> time \<Rightarrow> job \<Rightarrow> job" where
  "firedJob stored off now j =
     j\<lparr>jb_lastRun := stored now, jb_nextRun := stored (computeNext off j now)\<rparr>"

locale job_store =
  fixes ops :: "'d job_ops"
    and rows :: "'d \<Rightarrow> (int \<rightharpoonup> job)"
    and stored :: "time \<Rightarrow> time"
    and ok :: "'d \<Rightarrow> bool"
  assumes listed:
      "ok d \<Longrightarrow> jo_list ops d = Inr js \<Longrightarrow>
       distinct (map jb_id js) \<and> (\<forall>j. j \<in> set js \<longleftrightarrow> rows d (jb_id j) = Some j)"
    and set_times:
      "ok d \<Longrightarrow> jo_setRunTimes ops i l n d = (None, d') \<Longrightarrow>
       ok d' \<and> rows d' = (rows d)(i := map_option (\<lambda>j. j\<lparr>jb_lastRun := stored l, jb_nextRun := stored n\<rparr>) (rows d i))"
    and keyed: "ok d \<Longrightarrow> rows d i = Some j \<Longrightarrow> jb_id j = i"
begin

lemma fire_all:
  assumes "distinct (map jb_id js)" and "\<And>j. j \<in> set js \<Longrightarrow> rows d (jb_id j) = Some j" and "ok d"
    and writes: "\<And>i l n d. ok d \<Longrightarrow> fst (jo_setRunTimes ops i l n d) = None"
    and run: "foldl (\<lambda>de j. if \<not> job_due now j then de else fireJob ops ensure off now de j) (d, e) js = (d', e')"
  shows "ok d' \<and> e' = foldl (\<lambda>e r. ensure r e) e (map jobRequest (filter (job_due now) js)) \<and>
    rows d' = (\<lambda>i. case find (\<lambda>j. jb_id j = i \<and> job_due now j) js of None \<Rightarrow> rows d i | Some j \<Rightarrow> Some (firedJob stored off now j))"
  using assms(1-3,5)
proof (induction js arbitrary: d e)
  case (Cons j js)
  show ?case
  proof (cases "job_due now j")
    case False
    then have "find (\<lambda>k. jb_id k = i \<and> job_due now k) (j # js) = find (\<lambda>k. jb_id k = i \<and> job_due now k) js" for i
      by auto
    then show ?thesis using Cons.IH [of d e] Cons.prems False by simp
  next
    case True
    obtain d1 where d1: "jo_setRunTimes ops (jb_id j) now (computeNext off j now) d = (None, d1)"
      using writes [OF Cons.prems(3)] by (metis prod.collapse)
    have r1: "ok d1" "rows d1 = (rows d)(jb_id j \<mapsto> firedJob stored off now j)"
      using set_times [OF Cons.prems(3) d1] Cons.prems(2) [of j] by (auto simp: firedJob_def)
    have fire: "fireJob ops ensure off now (d, e) j = (d1, ensure (jobRequest j) e)"
      by (simp add: fireJob_def d1)
    have run': "foldl (\<lambda>de j. if \<not> job_due now j then de else fireJob ops ensure off now de j)
        (d1, ensure (jobRequest j) e) js = (d', e')" using Cons.prems(4) True fire by simp
    have there: "rows d1 (jb_id k) = Some k" if "k \<in> set js" for k
      using r1(2) Cons.prems(1,2) that by (auto simp: image_iff)
    have ih: "ok d' \<and> e' = foldl (\<lambda>e r. ensure r e) (ensure (jobRequest j) e) (map jobRequest (filter (job_due now) js)) \<and>
      rows d' = (\<lambda>i. case find (\<lambda>j. jb_id j = i \<and> job_due now j) js of None \<Rightarrow> rows d1 i | Some j \<Rightarrow> Some (firedJob stored off now j))"
      using Cons.IH [OF _ there r1(1) run'] Cons.prems(1) by simp
    have other: "find (\<lambda>k. jb_id k = jb_id j \<and> job_due now k) js = None"
      using Cons.prems(1) by (auto simp: find_None_iff image_iff)
    have "rows d' i = (case find (\<lambda>k. jb_id k = i \<and> job_due now k) (j # js) of None \<Rightarrow> rows d i
        | Some k \<Rightarrow> Some (firedJob stored off now k))" for i
      using ih True other r1(2) by (cases "i = jb_id j") (simp_all split: option.splits)
    then show ?thesis using ih True by auto
  qed
qed simp

text \<open>One tick: the requests of the due jobs, in the order of the list, and their new times.\<close>

lemma tick_effect:
  assumes "ok d" and "jo_list ops d = Inr js"
    and writes: "\<And>i l n d. ok d \<Longrightarrow> fst (jo_setRunTimes ops i l n d) = None"
    and "tickOnce ops ensure off now (d, e) = (d', e')"
  shows "ok d' \<and> e' = foldl (\<lambda>e r. ensure r e) e (map jobRequest (filter (job_due now) js)) \<and>
    (\<forall>i. rows d' i = map_option (\<lambda>j. if job_due now j then firedJob stored off now j else j) (rows d i))"
proof -
  have l: "distinct (map jb_id js)" "\<And>j. j \<in> set js \<longleftrightarrow> rows d (jb_id j) = Some j"
    using listed [OF assms(1,2)] by auto
  have run: "foldl (\<lambda>de j. if \<not> job_due now j then de else fireJob ops ensure off now de j) (d, e) js = (d', e')"
    using assms(2,4) by (simp add: tickOnce_def)
  have f: "ok d' \<and> e' = foldl (\<lambda>e r. ensure r e) e (map jobRequest (filter (job_due now) js)) \<and>
    rows d' = (\<lambda>i. case find (\<lambda>j. jb_id j = i \<and> job_due now j) js of None \<Rightarrow> rows d i | Some j \<Rightarrow> Some (firedJob stored off now j))"
    using fire_all [OF l(1) _ assms(1) writes run] l(2) by blast
  have "(case find (\<lambda>j. jb_id j = i \<and> job_due now j) js of None \<Rightarrow> rows d i | Some j \<Rightarrow> Some (firedJob stored off now j)) =
      map_option (\<lambda>j. if job_due now j then firedJob stored off now j else j) (rows d i)" for i
  proof (cases "find (\<lambda>j. jb_id j = i \<and> job_due now j) js")
    case None
    show ?thesis
    proof (cases "rows d i")
      case (Some j)
      have "\<not> job_due now j"
        using None Some l(2) keyed [OF assms(1)] by (auto simp: find_None_iff)
      then show ?thesis using None Some by simp
    qed (simp add: None)
  next
    case (Some j)
    then have "j \<in> set js \<and> jb_id j = i \<and> job_due now j" by (rule find_Some_prop)
    then have "rows d i = Some j" "job_due now j" using l(2) by auto
    then show ?thesis using Some by simp
  qed
  then show ?thesis using f by simp
qed

end

section \<open>The SQL table\<close>

definition jobs_wf :: "job list \<Rightarrow> bool" where
  "jobs_wf db \<longleftrightarrow> distinct (map jb_id db) \<and> distinct (map jb_name db)"

definition jobRow :: "job list \<Rightarrow> int \<Rightarrow> job option" where
  "jobRow db i = map_of (map (\<lambda>j. (jb_id j, j)) db) i"

lemma jobRow_iff: "distinct (map jb_id db) \<Longrightarrow> jobRow db i = Some j \<longleftrightarrow> j \<in> set db \<and> jb_id j = i"
  by (auto simp: jobRow_def comp_def dest!: map_of_SomeD)

lemma jobRow_map:
  "(\<And>k. jb_id (f k) = jb_id k) \<Longrightarrow> jobRow (map f db) i = map_option f (jobRow db i)"
  by (induction db) (auto simp: jobRow_def)

lemma jobRow_id: "jobRow db i = Some j \<Longrightarrow> jb_id j = i"
  by (auto simp: jobRow_def dest!: map_of_SomeD)

interpretation sql: job_store "jobsOps rt" jobRow rt jobs_wf for rt
proof
  fix d d' js i l n j
  assume wf: "jobs_wf d"
  show "jo_list (jobsOps rt) d = Inr js \<Longrightarrow>
      distinct (map jb_id js) \<and> (\<forall>j. j \<in> set js \<longleftrightarrow> jobRow d (jb_id j) = Some j)"
    using wf by (auto simp: jobsOps_def jobsList_def jobs_wf_def jobRow_iff distinct_map_sort_key)
  show "jobRow d i = Some j \<Longrightarrow> jb_id j = i" by (rule jobRow_id)
  assume "jo_setRunTimes (jobsOps rt) i l n d = (None, d')"
  then have d': "d' = map (\<lambda>k. if jb_id k = i then k\<lparr>jb_lastRun := rt l, jb_nextRun := rt n\<rparr> else k) d"
    by (simp add: jobsOps_def jobsSetRunTimes_def)
  have "jobRow d' = (jobRow d)(i := map_option (\<lambda>j. j\<lparr>jb_lastRun := rt l, jb_nextRun := rt n\<rparr>) (jobRow d i))"
  proof (rule ext)
    fix k
    have "jobRow d' k = map_option (\<lambda>k. if jb_id k = i then k\<lparr>jb_lastRun := rt l, jb_nextRun := rt n\<rparr> else k) (jobRow d k)"
      unfolding d' by (rule jobRow_map) simp
    then show "jobRow d' k = ((jobRow d)(i := map_option (\<lambda>j. j\<lparr>jb_lastRun := rt l, jb_nextRun := rt n\<rparr>) (jobRow d i))) k"
      using jobRow_id [of d k] by (cases "jobRow d k") auto
  qed
  moreover have "jobs_wf d'" using wf by (simp add: d' jobs_wf_def comp_def if_distrib cong: if_cong)
  ultimately show "jobs_wf d' \<and> jobRow d' = (jobRow d)(i := map_option (\<lambda>j. j\<lparr>jb_lastRun := rt l, jb_nextRun := rt n\<rparr>) (jobRow d i))"
    by simp
qed

section \<open>Fire times lie ahead\<close>

definition clock_ok :: "int \<Rightarrow> time \<Rightarrow> bool" where
  "clock_ok off now \<longleftrightarrow> timeOf 0 < now \<and> now < timeOf 6000000000 \<and> abs off \<le> 1440"

lemma clock_ok_next:
  assumes "clock_ok off now"
  shows "nextFire s off now = 0 \<or> now < nextFire s off now \<and> nextFire s off now < now + maxHorizon \<and>
    nextFire s off now mod 1000000000 = 0"
proof -
  have "1440 \<le> now div nanos_per_minute"
    using assms by (simp add: clock_ok_def timeOf_def unix_epoch_def) linarith
  then have nn: "0 \<le> now" "0 \<le> now div nanos_per_minute + off"
    using assms by (auto simp: clock_ok_def timeOf_def unix_epoch_def)
  obtain x where x: "nextFire s off now = 0 \<or> nextFire s off now = minute_time off x"
    by (cases "nextMinute s off (now + maxHorizon) (localMinute off now + 1)") (auto simp: nextFire_def)
  have "minute_time off x mod 1000000000 = 0"
  proof -
    have "minute_time off x = (int x - off) * 60 * 1000000000" by (simp add: minute_time_def)
    then show ?thesis by (simp only: mod_mult_self2_is_0)
  qed
  moreover have "nextFire s off now = 0 \<or> now < nextFire s off now \<and> nextFire s off now < now + maxHorizon"
    using next_fire_hit [OF nn, of s] by blast
  ultimately show ?thesis using x by auto
qed

lemma hundredYears_bounds: "36500 \<le> hundredYears day \<and> hundredYears day \<le> 36600"
proof -
  have b: "100 * 365 \<le> sum_list (map year_len [y..<y + 100]) \<and> sum_list (map year_len [y..<y + 100]) \<le> 100 * 366"
    for y
  proof -
    have l: "length xs * 365 \<le> sum_list (map year_len xs) \<and> sum_list (map year_len xs) \<le> length xs * 366" for xs
      by (induction xs) (auto simp: year_len_def)
    from l [of "[y..<y + 100]"] show ?thesis by simp
  qed
  obtain y m dm where c: "civil day = (y, m, dm)" by (rule prod_cases3)
  have "[y + 1..<y + 101] = [y + 1..<y + 1 + 100]" by (simp add: add.commute)
  then show ?thesis using b [of y] b [of "y + 1"] by (simp only: hundredYears_def c prod.case Let_def split: if_split) simp
qed

lemma computeNext_ahead:
  assumes "clock_ok off now" and "real_trip rt"
  shows "now < rt (computeNext off j now)"
proof -
  have far: "now + 36500 * 86400000000000 \<le> farFuture off now \<and> farFuture off now \<le> now + 36600 * 86400000000000"
    using hundredYears_bounds [of "localMinute off now div 1440"] by (simp add: farFuture_def)
  have now: "timeOf 0 < now" "now < timeOf 6000000000" using assms(1) by (auto simp: clock_ok_def)
  consider s where "computeNext off j now = nextFire s off now" "nextFire s off now \<noteq> 0"
    | "computeNext off j now = farFuture off now"
  proof (cases "parseCron (jb_cron j)")
    case (Inl e)
    then show ?thesis using that(2) by (simp add: computeNext_def)
  next
    case (Inr s)
    then show ?thesis using that(1) [of s] that(2) by (cases "nextFire s off now = 0") (simp_all add: computeNext_def)
  qed
  then show ?thesis
  proof cases
    case 1
    have n: "now < nextFire s off now" "nextFire s off now < now + maxHorizon" "nextFire s off now mod 1000000000 = 0"
      using clock_ok_next [OF assms(1), of s] 1(2) by auto
    then have "real_range (nextFire s off now)"
      using now by (simp add: real_range_def timeOf_def maxHorizon_def unix_epoch_def)
    then show ?thesis using assms(2) n 1(1) by (simp add: real_trip_def)
  next
    case 2
    have "real_range (farFuture off now)"
      using now far by (simp add: real_range_def timeOf_def unix_epoch_def)
    then have "abs (rt (farFuture off now) - farFuture off now) < 1000000000"
      using assms(2) by (simp add: real_trip_def)
    then show ?thesis using far unfolding 2 abs_less_iff by linarith
  qed
qed

section \<open>Properties\<close>

lemma collect_requests: "foldl (\<lambda>e r. e @ [r]) e rs = e @ rs"
  by (induction rs arbitrary: e) simp_all


text \<open>a job that was accepted is scheduled.  When the API answers that a job was created, the
  row read back has the name, expression, model and slot of the request, without surrounding
  blanks, and its next run is the next fire time of its expression, which lies ahead, or none
  when there is none within five years.\<close>

theorem created_job_scheduled:
  assumes "createJob (jobsOps rt) configs off now caller b db = (Created i (Some j), db')"
    and "real_trip rt" and "clock_ok off now" and "jobs_wf db"
  shows "jobs_wf db' \<and> j \<in> set db' \<and> jb_id j = i \<and> jb_name j = trim_space (bo_name b) \<and>
    jb_cron j = trim_space (bo_cron b) \<and> jb_config j = bo_config b \<and> jb_slot j = bo_slot b \<and>
    jb_lastRun j = 0 \<and> jb_nextRun j = nextFireOf off (jb_cron j) now \<and> (jb_nextRun j = 0 \<or> now < jb_nextRun j)"
proof -
  define new where "new = \<lparr>jb_id = 0, jb_name = trim_space (bo_name b), jb_cron = trim_space (bo_cron b),
    jb_config = bo_config b, jb_slot = bo_slot b, jb_enabled = (case bo_enabled b of None \<Rightarrow> True | Some e \<Rightarrow> e),
    jb_lastRun = 0, jb_nextRun = 0, jb_createdBy = caller, jb_createdAt = now\<rparr>"
  define n where "n = nextFireOf off (trim_space (bo_cron b)) now"
  obtain db1 where c: "jobsCreate rt new db = (Inr i, db1)"
    and db': "db' = schedule_row (jobsOps rt) i 0 n db1" and j: "jobsGet i db' = Inr j"
    using assms(1)
    by (auto simp: createJob_def jobsOps_def new_def [symmetric] n_def found_job_def Let_def
        split: if_splits sum.splits prod.splits)
  define row where "row = new\<lparr>jb_id := i, jb_createdAt := rt now\<rparr>"
  have names: "jb_name new \<notin> jb_name ` set db" and i: "i = Max (insert 0 (jb_id ` set db)) + 1"
    and db1: "db1 = db @ [row]"
    using c by (auto simp: jobsCreate_def Let_def row_def new_def split: if_splits)
  have fresh: "k < i" if "k \<in> jb_id ` set db" for k
    unfolding i using that Max_ge [of "insert 0 (jb_id ` set db)" k] by simp
  have wf1: "jobs_wf db1"
    using assms(4) names fresh by (auto simp: jobs_wf_def db1 row_def new_def)
  have n_ok: "rt n = n" "n = 0 \<or> now < n"
  proof -
    have cases: "n = 0 \<or> (\<exists>s. n = nextFire s off now)" by (auto simp: n_def nextFireOf_def split: sum.splits)
    then have nx: "n = 0 \<or> now < n \<and> n < now + maxHorizon \<and> n mod 1000000000 = 0"
      using clock_ok_next [OF assms(3)] by metis
    then have "n = 0 \<or> real_range n"
      using assms(3) by (auto simp: real_range_def clock_ok_def timeOf_def maxHorizon_def unix_epoch_def)
    then show "rt n = n" "n = 0 \<or> now < n" using assms(2) nx by (auto simp: real_trip_def)
  qed
  define row' where "row' = row\<lparr>jb_nextRun := n\<rparr>"
  have old: "jb_id k \<noteq> i" if "k \<in> set db" for k using fresh [of "jb_id k"] that by auto
  have "map (\<lambda>k. if jb_id k = i then k\<lparr>jb_lastRun := rt 0, jb_nextRun := rt n\<rparr> else k) db1 = db @ [row']"
  proof -
    have "map (\<lambda>k. if jb_id k = i then k\<lparr>jb_lastRun := rt 0, jb_nextRun := rt n\<rparr> else k) db = db"
      using old by (intro map_idI) auto
    then show ?thesis using n_ok(1) assms(2) by (simp add: db1 row'_def row_def new_def real_trip_def)
  qed
  then have db'': "db' = db @ [row']"
    by (cases "n = 0")
      (auto simp: db' schedule_row_def jobsOps_def jobsSetRunTimes_def db1 row'_def row_def new_def)
  have "find (\<lambda>k. jb_id k = i) db = None" using old by (auto simp: find_None_iff)
  then have "find (\<lambda>k. jb_id k = i) db' = Some row'"
    unfolding db'' by (induction db) (auto simp: row'_def row_def split: if_splits)
  then have jr: "j = row'" using j by (simp add: jobsGet_def)
  have "jobs_wf db'" using wf1 by (simp add: db'' db1 jobs_wf_def row'_def)
  then show ?thesis using n_ok db'' by (simp add: jr row'_def row_def new_def n_def)
qed

text \<open>Every operation keeps ids and names unique.\<close>

lemma setRunTimes_wf: "jobs_wf db \<Longrightarrow> jobs_wf (snd (jo_setRunTimes (jobsOps rt) i l n db))"
  by (simp add: jobsOps_def jobsSetRunTimes_def jobs_wf_def comp_def if_distrib cong: if_cong)

lemma schedule_row_wf: "jobs_wf db \<Longrightarrow> jobs_wf (schedule_row (jobsOps rt) i l n db)"
  by (simp add: schedule_row_def setRunTimes_wf)

lemma jobsCreate_wf: "jobs_wf db \<Longrightarrow> jobs_wf (snd (jobsCreate rt j db))"
proof -
  assume wf: "jobs_wf db"
  define i where "i = Max (insert 0 (jb_id ` set db)) + 1"
  have "k < i" if "k \<in> jb_id ` set db" for k
    unfolding i_def using that Max_ge [of "insert 0 (jb_id ` set db)" k] by simp
  then have "i \<notin> jb_id ` set db" by blast
  then show ?thesis using wf unfolding jobsCreate_def i_def [symmetric] by (simp add: jobs_wf_def)
qed

lemma rename_distinct:
  assumes "distinct (map jb_id db)" and "distinct (map jb_name db)"
    and "\<not> list_ex (\<lambda>k. jb_id k \<noteq> i \<and> jb_name k = n) db"
    and "\<And>k. jb_name (f k) = n"
  shows "distinct (map (\<lambda>k. jb_name (if jb_id k = i then f k else k)) db)"
  using assms(1-3)
proof (induction db)
  case (Cons k db)
  have ne: "jb_name (if jb_id k = i then f k else k) \<noteq> jb_name (if jb_id l = i then f l else l)" if "l \<in> set db" for l
  proof -
    have "jb_id l \<noteq> jb_id k" using Cons.prems(1) that by (auto simp: image_iff)
    then show ?thesis using Cons.prems that assms(4) by (auto simp: list_ex_iff)
  qed
  have "distinct (map (\<lambda>k. jb_name (if jb_id k = i then f k else k)) db)"
    using Cons.IH Cons.prems by simp
  moreover have "jb_name (if jb_id k = i then f k else k) \<notin>
      set (map (\<lambda>k. jb_name (if jb_id k = i then f k else k)) db)"
    using ne by (metis (no_types, lifting) imageE list.set_map)
  ultimately show ?case by (simp only: list.map distinct.simps) simp
qed simp

lemma jobsUpdate_wf: "jobs_wf db \<Longrightarrow> jobs_wf (snd (jobsUpdate j db))"
proof -
  assume wf: "jobs_wf db"
  let ?f = "\<lambda>k. k\<lparr>jb_name := jb_name j, jb_cron := jb_cron j, jb_config := jb_config j, jb_slot := jb_slot j,
    jb_enabled := jb_enabled j\<rparr>"
  show ?thesis
  proof (cases "jb_id j \<notin> jb_id ` set db \<or> list_ex (\<lambda>k. jb_id k \<noteq> jb_id j \<and> jb_name k = jb_name j) db")
    case True
    then show ?thesis using wf by (auto simp: jobsUpdate_def)
  next
    case False
    then have "distinct (map (\<lambda>k. jb_name (if jb_id k = jb_id j then ?f k else k)) db)"
      using wf by (intro rename_distinct [where n = "jb_name j"]) (auto simp: jobs_wf_def)
    then show ?thesis using False wf
      by (simp add: jobsUpdate_def jobs_wf_def comp_def if_distrib [of jb_id] cong: if_cong)
  qed
qed

lemma advance_wf: "jobs_wf db \<Longrightarrow> jobs_wf (advanceMissed (jobsOps rt) off now db)"
proof -
  have "jobs_wf d \<Longrightarrow> jobs_wf (foldl (\<lambda>d j. if \<not> job_due now j then d
      else (case parseCron (jb_cron j) of Inl err \<Rightarrow> d
        | Inr s \<Rightarrow> snd (jo_setRunTimes (jobsOps rt) (jb_id j) (jb_lastRun j) (nextFire s off now) d))) d js)" for d js
    by (induction js arbitrary: d) (auto split: sum.splits intro: setRunTimes_wf)
  then show "jobs_wf db \<Longrightarrow> ?thesis" by (simp add: advanceMissed_def split: sum.splits)
qed

text \<open>The job table stays well-formed.  Creating, updating and deleting a job, firing one by
  hand, a tick of the runner and the advance of missed runs at the start keep ids and names
  unique, whatever they are given.\<close>

theorem jobs_stay_wf:
  assumes "jobs_wf db"
  shows "jobs_wf (snd (createJob (jobsOps rt) configs off now caller b db)) \<and>
    jobs_wf (snd (updateJob (jobsOps rt) configs off now i b db)) \<and>
    jobs_wf (snd (deleteJob (jobsOps rt) i db)) \<and>
    jobs_wf (fst (snd (runNow (jobsOps rt) run off now i (db, e)))) \<and>
    jobs_wf (fst (tickOnce (jobsOps rt) ensure off now (db, e))) \<and>
    jobs_wf (advanceMissed (jobsOps rt) off now db)"
proof -
  have "jobs_wf (snd (createJob (jobsOps rt) configs off now caller b db))"
  proof -
    have u: "jobs_wf d" if "jo_create (jobsOps rt) j db = (x, d)" for j x d
      using jobsCreate_wf [OF assms, of rt j] that by (simp add: jobsOps_def)
    show ?thesis
      using assms u schedule_row_wf by (auto simp: createJob_def Let_def split: sum.splits prod.splits)
  qed
  moreover have "jobs_wf (snd (updateJob (jobsOps rt) configs off now i b db))"
  proof -
    have u: "jobs_wf d" if "jo_update (jobsOps rt) j db = (x, d)" for j x d
      using jobsUpdate_wf [OF assms, of j] that by (simp add: jobsOps_def)
    show ?thesis
      using assms u schedule_row_wf by (auto simp: updateJob_def Let_def split: sum.splits prod.splits option.splits)
  qed
  moreover have "jobs_wf (snd (deleteJob (jobsOps rt) i db))"
  proof -
    have "jobs_wf (filter (\<lambda>j. jb_id j \<noteq> i) db)" using assms by (simp add: jobs_wf_def distinct_map_filter)
    then show ?thesis using assms by (simp add: deleteJob_def jobsOps_def jobsDelete_def)
  qed
  moreover have "jobs_wf (fst (snd (runNow (jobsOps rt) run off now i (db, e))))"
    using assms setRunTimes_wf by (auto simp: runNow_def Let_def split: sum.splits prod.splits)
  moreover have "jobs_wf (fst (tickOnce (jobsOps rt) ensure off now (db, e)))"
  proof -
    have writes: "\<And>i l n d. jobs_wf d \<Longrightarrow> fst (jo_setRunTimes (jobsOps rt) i l n d) = None"
      by (simp add: jobsOps_def jobsSetRunTimes_def)
    have "jo_list (jobsOps rt) db = Inr (jobsList db)" by (simp add: jobsOps_def)
    from sql.tick_effect [OF assms this writes] show ?thesis by (metis prod.collapse)
  qed
  ultimately show ?thesis using advance_wf [OF assms] by blast
qed

text \<open>A job whose next run could not be written when it was created is never fired: neither a tick
  nor the advance at the start touches it.\<close>

lemma unscheduled_never_fires:
  assumes "jobs_wf db" and "jobRow db i = Some j" and "jb_nextRun j = 0"
    and "tickOnce (jobsOps rt) (\<lambda>r e. e @ [r]) off now (db, e) = (db', e')"
  shows "jobRow db' i = Some j"
proof -
  have writes: "\<And>i l n d. jobs_wf d \<Longrightarrow> fst (jo_setRunTimes (jobsOps rt) i l n d) = None"
    by (simp add: jobsOps_def jobsSetRunTimes_def)
  have "jo_list (jobsOps rt) db = Inr (jobsList db)" by (simp add: jobsOps_def)
  from sql.tick_effect [OF assms(1) this writes assms(4)] show ?thesis
    using assms(2,3) by (simp add: job_due_def)
qed

lemma unscheduled_not_advanced:
  assumes "list_all (\<lambda>j. jb_nextRun j = 0) db"
  shows "advanceMissed (jobsOps rt) off now db = db"
proof -
  have "list_all (\<lambda>j. jb_nextRun j = 0) js \<Longrightarrow> foldl (\<lambda>d j. if \<not> job_due now j then d
      else (case parseCron (jb_cron j) of Inl err \<Rightarrow> d
        | Inr s \<Rightarrow> snd (jo_setRunTimes (jobsOps rt) (jb_id j) (jb_lastRun j) (nextFire s off now) d))) d js = d" for d js
    by (induction js arbitrary: d) (auto simp: job_due_def)
  moreover have "list_all (\<lambda>j. jb_nextRun j = 0) (jobsList db)" using assms by (simp add: jobsList_def list_all_iff)
  moreover have "jo_list (jobsOps rt) db = Inr (jobsList db)" by (simp add: jobsOps_def)
  ultimately show ?thesis by (simp add: advanceMissed_def)
qed

section \<open>Witnesses\<close>

lemma identity_trip: "real_trip (\<lambda>t. t)"
  by (auto simp: real_trip_def real_range_def timeOf_def unix_epoch_def)

lemma sample_clock: "clock_ok 0 (timeOf 1000)"
  by (simp add: clock_ok_def timeOf_def)

definition sample_job :: job where
  "sample_job = \<lparr>jb_id = 1, jb_name = ''nightly'', jb_cron = ''0 0 */2 * *'', jb_config = ''m1'', jb_slot = [],
     jb_enabled = True, jb_lastRun = 0, jb_nextRun = timeOf 900, jb_createdBy = [], jb_createdAt = timeOf 1\<rparr>"

lemma sample_jobs_wf: "jobs_wf [sample_job]"
  by (simp add: jobs_wf_def)


definition sample_body :: job_body where
  "sample_body = \<lparr>bo_name = ''nightly'', bo_cron = ''0 0 */2 * *'', bo_config = ''m1'', bo_slot = [], bo_enabled = None\<rparr>"

theorem created_job_scheduled_witness:
  "\<exists>j db'. createJob (jobsOps (\<lambda>t. t)) None 0 (timeOf 1000) [] sample_body [] = (Created 1 (Some j), db') \<and>
     jb_name j = ''nightly'' \<and> (jb_nextRun j = 0 \<or> timeOf 1000 < jb_nextRun j)"
proof -
  have v: "validateJob None sample_body = []"
    by (simp add: validateJob_def sample_body_def second_day_parsed trim_space_def is_space_def)
  have trim: "trim_space (bo_name sample_body) = ''nightly''"
    by (simp add: sample_body_def trim_space_def is_space_def)
  have "\<exists>j db'. createJob (jobsOps (\<lambda>t. t)) None 0 (timeOf 1000) [] sample_body [] = (Created 1 (Some j), db')"
    by (cases "nextFireOf 0 (trim_space (bo_cron sample_body)) (timeOf 1000) = 0")
      (simp_all add: createJob_def v jobsOps_def jobsCreate_def schedule_row_def jobsSetRunTimes_def jobsGet_def
        found_job_def Let_def)
  then obtain j db' where c: "createJob (jobsOps (\<lambda>t. t)) None 0 (timeOf 1000) [] sample_body [] = (Created 1 (Some j), db')"
    by blast
  have "jobs_wf []" by (simp add: jobs_wf_def)
  from created_job_scheduled [OF c identity_trip sample_clock this] show ?thesis
    using c trim by (intro exI [of _ j] exI [of _ db']) (elim conjE, intro conjI, assumption, simp, assumption)
qed

theorem jobs_stay_wf_witness:
  "jobs_wf (snd (updateJob (jobsOps (\<lambda>t. t)) None 0 (timeOf 1000) 1 sample_body [sample_job]))"
  by (rule jobs_stay_wf [OF sample_jobs_wf, THEN conjunct2, THEN conjunct1])

end
