(* ===== verification/Auth_Tokens.thy ===== *)
theory Auth_Tokens
  imports Go_Strings "HOL-Library.Word"
begin

text \<open>
  authz/authz.go, authz/assurance.go and the encodings of authz/authorizer.go: roles, assurance
  levels, identities and the grammar of bearer tokens.  Kinds, roles and levels are the code's
  strings, because rows of the database may hold any.  Random bytes are parameters; their
  encodings (hexadecimal and unpadded URL-safe base64) are modelled.
\<close>

section \<open>Roles and assurance\<close>

definition roleRank :: "string \<Rightarrow> nat option" where
  "roleRank r = (if r = ''viewer'' then Some 0 else if r = ''operator'' then Some 1
     else if r = ''admin'' then Some 2 else None)"

definition roleAllows :: "string \<Rightarrow> string \<Rightarrow> bool" where
  "roleAllows r need = (case (roleRank r, roleRank need) of (Some g, Some w) \<Rightarrow> w \<le> g | _ \<Rightarrow> False)"

definition validRole :: "string \<Rightarrow> bool" where
  "validRole r \<longleftrightarrow> r = ''viewer'' \<or> r = ''operator'' \<or> r = ''admin''"

definition assuranceRank :: "string \<Rightarrow> nat option" where
  "assuranceRank a = (if a = ''network'' then Some 0 else if a = ''password'' then Some 1
     else if a = ''totp'' then Some 1 else if a = ''passkey'' then Some 2 else None)"

definition atLeast :: "string \<Rightarrow> string \<Rightarrow> bool" where
  "atLeast a m = (case (assuranceRank a, assuranceRank m) of (Some g, Some w) \<Rightarrow> w \<le> g | _ \<Rightarrow> False)"

definition validAssurance :: "string \<Rightarrow> bool" where
  "validAssurance a \<longleftrightarrow> assuranceRank a \<noteq> None"

lemma roleAllows_trans: "roleAllows a b \<Longrightarrow> roleAllows b c \<Longrightarrow> roleAllows a c"
  by (auto simp: roleAllows_def split: option.splits)

lemma atLeast_trans: "atLeast a b \<Longrightarrow> atLeast b c \<Longrightarrow> atLeast a c"
  by (auto simp: atLeast_def split: option.splits)

lemma no_role [simp]: "\<not> roleAllows [] need"
  by (simp add: roleAllows_def roleRank_def)

section \<open>Identities\<close>

record identity =
  id_name :: string
  id_role :: string
  id_keyID :: string
  id_kind :: string
  id_display :: string
  id_assurance :: string
  id_assuranceAt :: time
  id_principal :: string

section \<open>Encodings of random bytes\<close>

definition hex_digits :: string where
  "hex_digits = ''0123456789abcdef''"

definition hex_encode :: "8 word list \<Rightarrow> string" where
  "hex_encode bs = concat (map (\<lambda>b. [hex_digits ! (unat b div 16), hex_digits ! (unat b mod 16)]) bs)"

definition url_alphabet :: string where
  "url_alphabet = ''ABCDEFGHIJKLMNOPQRSTUVWXYZabcdefghijklmnopqrstuvwxyz0123456789-_''"

definition url_char :: "nat \<Rightarrow> char" where
  "url_char n = url_alphabet ! (n mod 64)"

fun rawURLEncode :: "8 word list \<Rightarrow> string" where
  "rawURLEncode [] = []"
| "rawURLEncode [a] = (let n = unat a * 16 in [url_char (n div 64), url_char n])"
| "rawURLEncode [a, b] =
     (let n = (unat a * 256 + unat b) * 4 in [url_char (n div 4096), url_char (n div 64), url_char n])"
| "rawURLEncode (a # b # c # bs) =
     (let n = (unat a * 256 + unat b) * 256 + unat c
      in [url_char (n div 262144), url_char (n div 4096), url_char (n div 64), url_char n] @ rawURLEncode bs)"

text \<open>\<open>None\<close> is a failure of the random source.\<close>

definition randToken :: "8 word list option \<Rightarrow> string option" where
  "randToken bytes = map_option rawURLEncode bytes"

section \<open>Bearer tokens\<close>

definition token_hex :: "char \<Rightarrow> bool" where
  "token_hex c \<longleftrightarrow> c \<in> set hex_digits"

definition secret_char :: "char \<Rightarrow> bool" where
  "secret_char c \<longleftrightarrow> c \<in> set url_alphabet"

definition token_kinds :: "string list" where
  "token_kinds = [''foundry'', ''forge'', ''router'', ''mcp'']"

definition formatToken :: "string \<Rightarrow> string \<Rightarrow> string \<Rightarrow> string" where
  "formatToken kind keyid secret = ''sk-'' @ kind @ ''-'' @ keyid @ ''-'' @ secret"

text \<open>The match of the token grammar after its kind.\<close>

definition parseRest :: "string \<Rightarrow> (string \<times> string) option" where
  "parseRest s =
     (let keyid = take 12 s; r = drop 12 s in
      if length keyid = 12 \<and> list_all token_hex keyid \<and> take 1 r = ''-'' \<and> list_all secret_char (drop 1 r) \<and>
         16 \<le> length (drop 1 r) \<and> length (drop 1 r) \<le> 128
      then Some (keyid, drop 1 r) else None)"

fun parseKinds :: "string list \<Rightarrow> string \<Rightarrow> (string \<times> string \<times> string) option" where
  "parseKinds [] s = None"
| "parseKinds (k # ks) s =
     (let p = ''sk-'' @ k @ ''-'' in
      if take (length p) s = p
      then (case parseRest (drop (length p) s) of None \<Rightarrow> None | Some (i, x) \<Rightarrow> Some (k, i, x))
      else parseKinds ks s)"

definition parseToken :: "string \<Rightarrow> (string \<times> string \<times> string) option" where
  "parseToken token =
     (case parseKinds token_kinds (trim_space token) of
        None \<Rightarrow> None
      | Some (k, i, x) \<Rightarrow> Some (if k = ''foundry'' then ''forge'' else k, i, x))"

section \<open>Minted tokens parse\<close>

lemma length_hex_encode: "length (hex_encode bs) = 2 * length bs"
  by (induction bs) (simp_all add: hex_encode_def)

lemma hex_encode_digits: "list_all token_hex (hex_encode bs)"
proof (induction bs)
  case (Cons b bs)
  have "unat b div 16 < length hex_digits" "unat b mod 16 < length hex_digits"
    using unsigned_less [where 'a = nat, of b] by (simp_all add: hex_digits_def)
  then have "hex_digits ! (unat b div 16) \<in> set hex_digits" "hex_digits ! (unat b mod 16) \<in> set hex_digits"
    by (simp_all only: nth_mem)
  with Cons show ?case by (simp add: hex_encode_def token_hex_def)
qed (simp add: hex_encode_def)

lemma url_char_in: "secret_char (url_char n)"
proof -
  have "n mod 64 < length url_alphabet" by (simp add: url_alphabet_def)
  then show ?thesis unfolding secret_char_def url_char_def by (rule nth_mem)
qed

lemma rawURLEncode_chars: "list_all secret_char (rawURLEncode bs)"
  by (induction bs rule: rawURLEncode.induct) (simp_all add: Let_def url_char_in)

lemma length_rawURLEncode: "length (rawURLEncode bs) = (4 * length bs + 2) div 3"
  by (induction bs rule: rawURLEncode.induct) (simp_all add: Let_def)

lemma token_chars:
  "token_hex c \<Longrightarrow> \<not> is_space c" "secret_char c \<Longrightarrow> \<not> is_space c"
  by (auto simp: token_hex_def secret_char_def hex_digits_def url_alphabet_def is_space_def)

lemma parseRest_format:
  assumes "length i = 12" "list_all token_hex i" "list_all secret_char x" "16 \<le> length x" "length x \<le> 128"
  shows "parseRest (i @ ''-'' @ x) = Some (i, x)"
  using assms by (simp add: parseRest_def)

lemma parseRest_Some:
  assumes "parseRest s = Some (i, x)"
  shows "s = i @ ''-'' @ x \<and> length i = 12 \<and> list_all token_hex i \<and> list_all secret_char x \<and>
    16 \<le> length x \<and> length x \<le> 128"
proof -
  let ?r = "drop 12 s"
  have c: "length i = 12 \<and> list_all token_hex i \<and> take 1 ?r = ''-'' \<and> list_all secret_char x \<and>
    16 \<le> length x \<and> length x \<le> 128" and ix: "i = take 12 s" "x = drop 1 ?r"
    using assms unfolding parseRest_def Let_def by (auto simp del: take_eq_Nil split: if_splits)
  have "s = take 12 s @ take 1 ?r @ drop 1 ?r" by (simp only: append_take_drop_id)
  then show ?thesis using c ix by metis
qed

lemma parseKinds_format:
  assumes "parseRest r = Some (i, x)" and "k \<in> set token_kinds"
  shows "parseKinds token_kinds (''sk-'' @ k @ ''-'' @ r) = Some (k, i, x)"
  using assms by (auto simp: token_kinds_def)

lemma take_prefix: "take (length p) s = p \<Longrightarrow> s = p @ drop (length p) s"
  by (metis append_take_drop_id)

lemma parseKinds_Some:
  "parseKinds ks s = Some (k, i, x) \<Longrightarrow> k \<in> set ks \<and> (\<exists>r. s = ''sk-'' @ k @ ''-'' @ r \<and> parseRest r = Some (i, x))"
proof (induction ks)
  case (Cons a ks)
  show ?case
  proof (cases "take (length (''sk-'' @ a @ ''-'')) s = ''sk-'' @ a @ ''-''")
    case True
    then have "parseRest (drop (length (''sk-'' @ a @ ''-'')) s) = Some (i, x)" "k = a"
      using Cons.prems by (auto split: option.splits)
    then show ?thesis using take_prefix [OF True] by auto
  next
    case False
    then show ?thesis using Cons by auto
  qed
qed simp

lemma format_trimmed:
  assumes "secret \<noteq> []" "list_all secret_char secret"
  shows "trim_space (formatToken kind keyid secret) = formatToken kind keyid secret"
proof (rule trim_trimmed)
  have "\<not> is_space (last secret)"
    using assms token_chars(2) by (simp add: list_all_iff)
  then show "trimmed (formatToken kind keyid secret)"
    using assms(1) by (simp add: trimmed_def formatToken_def is_space_def)
qed

text \<open>What is accepted as a token.\<close>

definition token_wf :: "string \<Rightarrow> string \<Rightarrow> bool" where
  "token_wf i x \<longleftrightarrow> length i = 12 \<and> list_all token_hex i \<and> list_all secret_char x \<and> 16 \<le> length x \<and> length x \<le> 128"

lemma parse_format:
  assumes "token_wf i x" and "k \<in> {''forge'', ''router'', ''mcp''}"
  shows "parseToken (formatToken k i x) = Some (k, i, x)"
proof -
  have x: "x \<noteq> []" "list_all secret_char x" using assms(1) by (auto simp: token_wf_def)
  have r: "parseRest (i @ ''-'' @ x) = Some (i, x)"
    using assms(1) unfolding token_wf_def by (elim conjE) (rule parseRest_format)
  have k: "k \<in> set token_kinds" "k \<noteq> ''foundry''" using assms(2) by (auto simp: token_kinds_def)
  have "parseKinds token_kinds (trim_space (formatToken k i x)) = Some (k, i, x)"
    unfolding format_trimmed [OF x] unfolding formatToken_def by (rule parseKinds_format [OF r k(1)])
  then show ?thesis using k(2) by (simp add: parseToken_def)
qed

lemma minted_wf: "length kb = 6 \<Longrightarrow> length sb = 32 \<Longrightarrow> token_wf (hex_encode kb) (rawURLEncode sb)"
  by (simp add: token_wf_def length_hex_encode hex_encode_digits rawURLEncode_chars length_rawURLEncode)

lemma parse_Some:
  assumes "parseToken token = Some (k, i, x)"
  shows "token_wf i x \<and> k \<in> {''forge'', ''router'', ''mcp''} \<and>
    (trim_space token = formatToken k i x \<or> k = ''forge'' \<and> trim_space token = formatToken ''foundry'' i x)"
proof -
  obtain k' where k': "parseKinds token_kinds (trim_space token) = Some (k', i, x)"
    "k = (if k' = ''foundry'' then ''forge'' else k')"
    using assms by (auto simp: parseToken_def split: option.splits)
  from parseKinds_Some [OF k'(1)] obtain r
    where r: "k' \<in> set token_kinds" "trim_space token = ''sk-'' @ k' @ ''-'' @ r" "parseRest r = Some (i, x)" by blast
  show ?thesis using r parseRest_Some [OF r(3)] k'(2) by (auto simp: token_wf_def formatToken_def token_kinds_def)
qed

text \<open>Bearer tokens survive printing and parsing.  A token formatted from freshly drawn bytes
  parses back to its kind, key id and secret, also between blanks; and whatever parses is, after
  trimming, such a token, up to the legacy prefix of dashboard tokens.\<close>

theorem token_roundtrip:
  "(\<forall>kb sb. length kb = 6 \<and> length sb = 32 \<and> k \<in> {''forge'', ''router'', ''mcp''} \<longrightarrow>
      parseToken ('' '' @ formatToken k (hex_encode kb) (rawURLEncode sb)) =
        Some (k, hex_encode kb, rawURLEncode sb)) \<and>
   (\<forall>token i x. parseToken token = Some (k, i, x) \<longrightarrow>
      parseToken (formatToken k i x) = Some (k, i, x) \<and>
      trim_space token \<in> {formatToken k i x, formatToken ''foundry'' i x})"
proof (intro conjI allI impI)
  fix kb sb :: "8 word list"
  assume a: "length kb = 6 \<and> length sb = 32 \<and> k \<in> {''forge'', ''router'', ''mcp''}"
  let ?t = "formatToken k (hex_encode kb) (rawURLEncode sb)"
  have "trim_space ('' '' @ ?t) = trim_space ?t" by (simp add: trim_space_def is_space_def)
  then have "parseToken ('' '' @ ?t) = parseToken ?t" by (simp add: parseToken_def)
  then show "parseToken ('' '' @ ?t) = Some (k, hex_encode kb, rawURLEncode sb)"
    using a parse_format [OF minted_wf] by simp
next
  fix token i x assume p: "parseToken token = Some (k, i, x)"
  show "parseToken (formatToken k i x) = Some (k, i, x)" using parse_Some [OF p] parse_format by blast
  show "trim_space token \<in> {formatToken k i x, formatToken ''foundry'' i x}" using parse_Some [OF p] by blast
qed

lemma url_zero: "url_char 0 = CHR ''A''"
  by (simp add: url_char_def url_alphabet_def)

lemma encode_zeros: "rawURLEncode (replicate (3 * n) 0 @ [0, 0]) = replicate (4 * n + 3) CHR ''A''"
proof (induction n)
  case (Suc n)
  have "replicate (3 * Suc n) (0 :: 8 word) @ [0, 0] = 0 # 0 # 0 # replicate (3 * n) 0 @ [0, 0]"
    "replicate (4 * Suc n + 3) CHR ''A'' = ''AAAA'' @ replicate (4 * n + 3) CHR ''A''"
    by (simp_all add: numeral_eq_Suc)
  with Suc show ?case by (simp add: url_zero)
qed (simp add: url_zero numeral_3_eq_3)

lemma zero_secret: "rawURLEncode (replicate 32 0) = replicate 43 CHR ''A''"
proof -
  have "replicate (30 + 2) (0 :: 8 word) = replicate 30 0 @ [0, 0]"
    unfolding replicate_add by (simp add: numeral_2_eq_2)
  then show ?thesis using encode_zeros [of 10] by simp
qed

theorem token_roundtrip_witness:
  "parseToken ('' '' @ formatToken ''mcp'' (hex_encode [255, 1, 2, 3, 4, 160]) (rawURLEncode (replicate 32 0))) =
     Some (''mcp'', ''ff01020304a0'', replicate 43 CHR ''A'')"
proof -
  have h: "hex_encode [255, 1, 2, 3, 4, 160] = ''ff01020304a0''"
    by (simp add: hex_encode_def hex_digits_def)
  have "length [255, 1, 2, 3, 4, 160 :: 8 word] = 6 \<and> length (replicate 32 (0 :: 8 word)) = 32 \<and>
    ''mcp'' \<in> {''forge'', ''router'', ''mcp''}" by simp
  from token_roundtrip [THEN conjunct1, THEN spec, THEN spec, THEN mp, OF this] show ?thesis
    unfolding h zero_secret .
qed

end
