(* ===== verification/Auth_Store.thy ===== *)
theory Auth_Store
  imports Sched_Store Auth_Tokens
begin

text \<open>
  The tables behind the authentication: users, sessions, API keys, recovery codes, TOTP
  secrets, identity links and the settings entry of the policy (store/users.go, sessions.go,
  keys.go, recovery_codes.go, totp.go, identity_links.go, settings.go with migrations 0001,
  0004, 0005, 0065, 0068, 0069).  A row is the code's record with its times cut to whole
  seconds, as they come back; the zero time is NULL.  CHECK, UNIQUE and FOREIGN KEY constraints
  are guards.  \<open>ad_down\<close> stands for a failing database.
\<close>

section \<open>Rows\<close>

record user =
  us_id :: int
  us_username :: string
  us_hash :: string
  us_role :: string
  us_createdAt :: time
  us_disabled :: bool

record session =
  se_id :: string
  se_userID :: int
  se_csrf :: string
  se_createdAt :: time
  se_expiresAt :: time
  se_lastSeenAt :: time
  se_remoteAddr :: string
  se_userAgent :: string
  se_assurance :: string
  se_assuranceAt :: time
  se_principal :: string

record api_key =
  ak_id :: string
  ak_kind :: string
  ak_name :: string
  ak_hash :: string
  ak_role :: string
  ak_display :: string
  ak_boundIP :: string
  ak_createdAt :: time
  ak_lastUsedAt :: time
  ak_revokedAt :: time
  ak_expiresAt :: time

record recovery_code =
  rv_id :: int
  rv_userID :: int
  rv_hash :: string
  rv_createdAt :: time
  rv_usedAt :: time

record totp_secret =
  tp_userID :: int
  tp_secret :: string
  tp_confirmed :: bool
  tp_createdAt :: time

record identity_link =
  li_provider :: string
  li_principal :: string
  li_userID :: int
  li_createdAt :: time

text \<open>The JSON text of a settings entry, as the policy store decodes it.\<close>

datatype setting = JsonMap "(string \<times> string) list" | JsonNull | JsonOther string

record auth_db =
  ad_down :: bool
  ad_users :: "user list"
  ad_sessions :: "session list"
  ad_keys :: "api_key list"
  ad_recovery :: "recovery_code list"
  ad_recovery_seq :: int
  ad_totp :: "totp_secret list"
  ad_links :: "identity_link list"
  ad_settings :: "(string \<times> setting) list"

definition nullable :: "time \<Rightarrow> time" where
  "nullable t = (if is_zero t then 0 else to_seconds t)"

section \<open>Users\<close>

definition known_role :: "string \<Rightarrow> bool" where
  "known_role r \<longleftrightarrow> r \<in> {''viewer'', ''operator'', ''admin''}"

definition usersCreate :: "time \<Rightarrow> user \<Rightarrow> auth_db \<Rightarrow> (store_err + int) \<times> auth_db" where
  "usersCreate clock u d =
     (if ad_down d \<or> us_username u \<in> us_username ` set (ad_users d) \<or> \<not> known_role (us_role u)
      then (Inl sql_error, d)
      else let i = Max (insert 0 (us_id ` set (ad_users d))) + 1 in
        (Inr i, d\<lparr>ad_users := ad_users d @ [u\<lparr>us_id := i, us_createdAt := to_seconds (orNow clock (us_createdAt u))\<rparr>]\<rparr>))"

definition usersByUsername :: "string \<Rightarrow> auth_db \<Rightarrow> store_err + user" where
  "usersByUsername name d =
     (if ad_down d then Inl sql_error
      else case find (\<lambda>u. us_username u = name) (ad_users d) of None \<Rightarrow> Inl StoreNotFound | Some u \<Rightarrow> Inr u)"

definition usersList :: "auth_db \<Rightarrow> store_err + user list" where
  "usersList d = (if ad_down d then Inl sql_error else Inr (sort_key us_id (ad_users d)))"

text \<open>Deleting a user cascades.\<close>

definition usersDelete :: "int \<Rightarrow> auth_db \<Rightarrow> store_err option \<times> auth_db" where
  "usersDelete i d =
     (if ad_down d then (Some sql_error, d)
      else if i \<notin> us_id ` set (ad_users d) then (Some StoreNotFound, d)
      else (None, d\<lparr>ad_users := filter (\<lambda>u. us_id u \<noteq> i) (ad_users d),
        ad_sessions := filter (\<lambda>s. se_userID s \<noteq> i) (ad_sessions d),
        ad_recovery := filter (\<lambda>c. rv_userID c \<noteq> i) (ad_recovery d),
        ad_totp := filter (\<lambda>t. tp_userID t \<noteq> i) (ad_totp d),
        ad_links := filter (\<lambda>l. li_userID l \<noteq> i) (ad_links d)\<rparr>))"

section \<open>Sessions\<close>

definition sessionsCreate :: "time \<Rightarrow> session \<Rightarrow> auth_db \<Rightarrow> store_err option \<times> auth_db" where
  "sessionsCreate clock s d =
     (if ad_down d \<or> se_id s \<in> se_id ` set (ad_sessions d) \<or> se_userID s \<notin> us_id ` set (ad_users d)
      then (Some sql_error, d)
      else (None, d\<lparr>ad_sessions := ad_sessions d @ [s\<lparr>
        se_assurance := (if se_assurance s = [] then ''password'' else se_assurance s),
        se_createdAt := to_seconds (orNow clock (se_createdAt s)), se_expiresAt := to_seconds (se_expiresAt s),
        se_lastSeenAt := nullable (se_lastSeenAt s), se_assuranceAt := nullable (se_assuranceAt s)\<rparr>]\<rparr>))"

definition sessionsGet :: "string \<Rightarrow> auth_db \<Rightarrow> store_err + session" where
  "sessionsGet i d =
     (if ad_down d then Inl sql_error
      else case find (\<lambda>s. se_id s = i) (ad_sessions d) of None \<Rightarrow> Inl StoreNotFound | Some s \<Rightarrow> Inr s)"

definition sessionsTouch :: "string \<Rightarrow> time \<Rightarrow> auth_db \<Rightarrow> store_err option \<times> auth_db" where
  "sessionsTouch i t d =
     (if ad_down d then (Some sql_error, d)
      else if i \<notin> se_id ` set (ad_sessions d) then (Some StoreNotFound, d)
      else (None, d\<lparr>ad_sessions :=
        map (\<lambda>s. if se_id s = i then s\<lparr>se_lastSeenAt := to_seconds t\<rparr> else s) (ad_sessions d)\<rparr>))"

definition sessionsDelete :: "string \<Rightarrow> auth_db \<Rightarrow> store_err option \<times> auth_db" where
  "sessionsDelete i d =
     (if ad_down d then (Some sql_error, d)
      else (None, d\<lparr>ad_sessions := filter (\<lambda>s. se_id s \<noteq> i) (ad_sessions d)\<rparr>))"

definition sessionsDeleteExpired :: "time \<Rightarrow> auth_db \<Rightarrow> (store_err + nat) \<times> auth_db" where
  "sessionsDeleteExpired now d =
     (if ad_down d then (Inl sql_error, d)
      else let left = filter (\<lambda>s. \<not> unixOf (se_expiresAt s) \<le> unixOf now) (ad_sessions d)
        in (Inr (length (ad_sessions d) - length left), d\<lparr>ad_sessions := left\<rparr>))"

definition elevateSession ::
    "string \<Rightarrow> string \<Rightarrow> string \<Rightarrow> string \<Rightarrow> time \<Rightarrow> auth_db \<Rightarrow> store_err option \<times> auth_db" where
  "elevateSession oldID newID csrf assurance t d =
     (if ad_down d then (Some sql_error, d)
      else if oldID \<notin> se_id ` set (ad_sessions d) then (Some StoreNotFound, d)
      else if newID \<noteq> oldID \<and> newID \<in> se_id ` set (ad_sessions d) then (Some sql_error, d)
      else (None, d\<lparr>ad_sessions := map (\<lambda>s. if se_id s = oldID
        then s\<lparr>se_id := newID, se_csrf := csrf, se_assurance := assurance, se_assuranceAt := to_seconds t\<rparr>
        else s) (ad_sessions d)\<rparr>))"

section \<open>API keys\<close>

definition keysCreate :: "time \<Rightarrow> api_key \<Rightarrow> auth_db \<Rightarrow> store_err option \<times> auth_db" where
  "keysCreate clock k d =
     (if ad_down d \<or> ak_id k \<in> ak_id ` set (ad_keys d) \<or>
         ak_kind k \<notin> {''forge'', ''foundry'', ''router'', ''mcp''} \<or> ak_role k \<noteq> [] \<and> \<not> known_role (ak_role k)
      then (Some sql_error, d)
      else (None, d\<lparr>ad_keys := ad_keys d @ [k\<lparr>ak_createdAt := to_seconds (orNow clock (ak_createdAt k)),
        ak_lastUsedAt := nullable (ak_lastUsedAt k), ak_revokedAt := nullable (ak_revokedAt k),
        ak_expiresAt := nullable (ak_expiresAt k)\<rparr>]\<rparr>))"

definition keysGet :: "string \<Rightarrow> auth_db \<Rightarrow> store_err + api_key" where
  "keysGet i d =
     (if ad_down d then Inl sql_error
      else case find (\<lambda>k. ak_id k = i) (ad_keys d) of None \<Rightarrow> Inl StoreNotFound | Some k \<Rightarrow> Inr k)"

definition keysList :: "string \<Rightarrow> auth_db \<Rightarrow> store_err + api_key list" where
  "keysList kind d =
     (if ad_down d then Inl sql_error
      else Inr (sort_key (\<lambda>k. (ak_createdAt k, ak_id k)) (filter (\<lambda>k. kind = [] \<or> ak_kind k = kind) (ad_keys d))))"

definition keysRevoke :: "time \<Rightarrow> string \<Rightarrow> auth_db \<Rightarrow> store_err option \<times> auth_db" where
  "keysRevoke clock i d =
     (if ad_down d then (Some sql_error, d)
      else if i \<notin> ak_id ` set (ad_keys d) then (Some StoreNotFound, d)
      else (None, d\<lparr>ad_keys := map (\<lambda>k. if ak_id k = i \<and> is_zero (ak_revokedAt k)
        then k\<lparr>ak_revokedAt := to_seconds clock\<rparr> else k) (ad_keys d)\<rparr>))"

definition keysTouchUsed :: "string \<Rightarrow> time \<Rightarrow> auth_db \<Rightarrow> store_err option \<times> auth_db" where
  "keysTouchUsed i t d =
     (if ad_down d then (Some sql_error, d)
      else if i \<notin> ak_id ` set (ad_keys d) then (Some StoreNotFound, d)
      else (None, d\<lparr>ad_keys :=
        map (\<lambda>k. if ak_id k = i then k\<lparr>ak_lastUsedAt := to_seconds t\<rparr> else k) (ad_keys d)\<rparr>))"

section \<open>Recovery codes\<close>

text \<open>\<open>Save\<close> is one transaction; ids are drawn from a sequence.\<close>

definition recoverySave :: "time \<Rightarrow> recovery_code list \<Rightarrow> auth_db \<Rightarrow> store_err option \<times> auth_db" where
  "recoverySave clock cs d =
     (if cs = [] then (None, d)
      else if ad_down d \<or> \<not> list_all (\<lambda>c. rv_userID c \<in> us_id ` set (ad_users d)) cs then (Some sql_error, d)
      else (None, d\<lparr>ad_recovery := ad_recovery d @ map (\<lambda>(i, c). c\<lparr>rv_id := ad_recovery_seq d + 1 + int i,
          rv_createdAt := to_seconds (orNow clock (rv_createdAt c)), rv_usedAt := nullable (rv_usedAt c)\<rparr>)
          (zip [0..<length cs] cs),
        ad_recovery_seq := ad_recovery_seq d + int (length cs)\<rparr>))"

definition recoveryListByUser :: "int \<Rightarrow> auth_db \<Rightarrow> store_err + recovery_code list" where
  "recoveryListByUser u d =
     (if ad_down d then Inl sql_error else Inr (sort_key rv_id (filter (\<lambda>c. rv_userID c = u) (ad_recovery d))))"

definition recoveryMarkUsed :: "int \<Rightarrow> time \<Rightarrow> auth_db \<Rightarrow> store_err option \<times> auth_db" where
  "recoveryMarkUsed i t d =
     (if ad_down d then (Some sql_error, d)
      else if \<not> list_ex (\<lambda>c. rv_id c = i \<and> is_zero (rv_usedAt c)) (ad_recovery d) then (Some StoreNotFound, d)
      else (None, d\<lparr>ad_recovery := map (\<lambda>c. if rv_id c = i \<and> is_zero (rv_usedAt c)
        then c\<lparr>rv_usedAt := to_seconds t\<rparr> else c) (ad_recovery d)\<rparr>))"

definition recoveryDeleteAll :: "int \<Rightarrow> auth_db \<Rightarrow> store_err option \<times> auth_db" where
  "recoveryDeleteAll u d =
     (if ad_down d then (Some sql_error, d)
      else (None, d\<lparr>ad_recovery := filter (\<lambda>c. rv_userID c \<noteq> u) (ad_recovery d)\<rparr>))"

section \<open>TOTP secrets, links, settings\<close>

definition totpSave :: "time \<Rightarrow> totp_secret \<Rightarrow> auth_db \<Rightarrow> store_err option \<times> auth_db" where
  "totpSave clock s d =
     (if ad_down d \<or> tp_userID s \<notin> us_id ` set (ad_users d) then (Some sql_error, d)
      else let row = s\<lparr>tp_createdAt := to_seconds (orNow clock (tp_createdAt s))\<rparr>
        in (None, d\<lparr>ad_totp := upsert tp_userID (\<lambda>_. row) row (ad_totp d)\<rparr>))"

definition totpGet :: "int \<Rightarrow> auth_db \<Rightarrow> store_err + totp_secret" where
  "totpGet u d =
     (if ad_down d then Inl sql_error
      else case find (\<lambda>t. tp_userID t = u) (ad_totp d) of None \<Rightarrow> Inl StoreNotFound | Some t \<Rightarrow> Inr t)"

definition totpConfirm :: "int \<Rightarrow> auth_db \<Rightarrow> store_err option \<times> auth_db" where
  "totpConfirm u d =
     (if ad_down d then (Some sql_error, d)
      else if u \<notin> tp_userID ` set (ad_totp d) then (Some StoreNotFound, d)
      else (None, d\<lparr>ad_totp := map (\<lambda>t. if tp_userID t = u then t\<lparr>tp_confirmed := True\<rparr> else t) (ad_totp d)\<rparr>))"

definition totpDelete :: "int \<Rightarrow> auth_db \<Rightarrow> store_err option \<times> auth_db" where
  "totpDelete u d =
     (if ad_down d then (Some sql_error, d)
      else if u \<notin> tp_userID ` set (ad_totp d) then (Some StoreNotFound, d)
      else (None, d\<lparr>ad_totp := filter (\<lambda>t. tp_userID t \<noteq> u) (ad_totp d)\<rparr>))"

definition link_key :: "identity_link \<Rightarrow> string \<times> string" where
  "link_key l = (li_provider l, li_principal l)"

definition linksCreate :: "time \<Rightarrow> identity_link \<Rightarrow> auth_db \<Rightarrow> store_err option \<times> auth_db" where
  "linksCreate clock l d =
     (if ad_down d \<or> li_userID l \<notin> us_id ` set (ad_users d) then (Some sql_error, d)
      else let row = l\<lparr>li_createdAt := to_seconds (orNow clock (li_createdAt l))\<rparr>
        in (None, d\<lparr>ad_links := upsert link_key (\<lambda>_. row) row (ad_links d)\<rparr>))"

definition linksDelete :: "string \<Rightarrow> string \<Rightarrow> auth_db \<Rightarrow> store_err option \<times> auth_db" where
  "linksDelete pv pr d =
     (if ad_down d then (Some sql_error, d)
      else if (pv, pr) \<notin> link_key ` set (ad_links d) then (Some StoreNotFound, d)
      else (None, d\<lparr>ad_links := filter (\<lambda>l. link_key l \<noteq> (pv, pr)) (ad_links d)\<rparr>))"

definition linksLookup :: "string \<Rightarrow> string \<Rightarrow> auth_db \<Rightarrow> store_err + int" where
  "linksLookup pv pr d =
     (if ad_down d then Inl sql_error
      else case find (\<lambda>l. link_key l = (pv, pr)) (ad_links d) of
        None \<Rightarrow> Inl StoreNotFound | Some l \<Rightarrow> Inr (li_userID l))"

definition settingsGet :: "string \<Rightarrow> auth_db \<Rightarrow> store_err + setting" where
  "settingsGet k d =
     (if ad_down d then Inl sql_error
      else case map_of (ad_settings d) k of None \<Rightarrow> Inl StoreNotFound | Some v \<Rightarrow> Inr v)"

definition settingsSet :: "string \<Rightarrow> setting \<Rightarrow> auth_db \<Rightarrow> store_err option \<times> auth_db" where
  "settingsSet k v d =
     (if ad_down d then (Some sql_error, d)
      else (None, d\<lparr>ad_settings := upsert fst (\<lambda>_. (k, v)) (k, v) (ad_settings d)\<rparr>))"

section \<open>A small database\<close>

text \<open>One administrator and nothing else, for the instances of the properties.\<close>

definition sample_auth_db :: auth_db where
  "sample_auth_db = \<lparr>ad_down = False, ad_users = [\<lparr>us_id = 1, us_username = ''ann'', us_hash = ''#pw-of-ann'',
     us_role = ''admin'', us_createdAt = 0, us_disabled = False\<rparr>], ad_sessions = [], ad_keys = [],
     ad_recovery = [], ad_recovery_seq = 0, ad_totp = [], ad_links = [], ad_settings = []\<rparr>"

end
