(* ===== verification/Auth_Policy.thy ===== *)
theory Auth_Policy
  imports Auth_Store
begin

text \<open>
  authz/policy.go: the policy matrix that maps a resource to the least assurance a session
  needs, its storage in the settings, and its evaluation with the step-up lifetime.  A map of
  the code is an association list.
\<close>

definition allResources :: "string list" where
  "allResources = [''page.dashboard'', ''page.console'', ''page.scheduling'', ''page.compression'',
     ''page.settings'', ''area.settings.security'', ''area.settings.provider_keys'',
     ''action.model.load_unload'', ''action.compressor.teardown'', ''action.reservation.write'',
     ''action.model.profile'', ''area.settings.system'', ''action.system.restart'',
     ''action.smith.execute'', ''page.smith'', ''action.smith.autonomy'', ''action.model.download'']"

definition defaultPolicy :: "(string \<times> string) list" where
  "defaultPolicy = [(''page.dashboard'', ''network''), (''page.console'', ''network''),
     (''page.scheduling'', ''network''), (''page.compression'', ''network''),
     (''page.settings'', ''password''), (''area.settings.security'', ''password''),
     (''area.settings.provider_keys'', ''password''), (''action.model.load_unload'', ''network''),
     (''action.compressor.teardown'', ''password''), (''action.reservation.write'', ''network''),
     (''action.model.profile'', ''password''), (''area.settings.system'', ''password''),
     (''action.system.restart'', ''password''), (''action.smith.execute'', ''password''),
     (''page.smith'', ''network''), (''action.smith.autonomy'', ''password''),
     (''action.model.download'', ''network'')]"

definition validResource :: "string \<Rightarrow> bool" where
  "validResource k \<longleftrightarrow> k \<in> set allResources"

datatype policy_problem = UnknownResource | UnknownFactor

definition validatePolicy :: "(string \<times> string) list \<Rightarrow> (string \<times> policy_problem) list" where
  "validatePolicy p = List.map_filter (\<lambda>(k, v).
     if \<not> validResource k then Some (k, UnknownResource)
     else if \<not> validAssurance v then Some (k, UnknownFactor) else None) p"

section \<open>The store\<close>

text \<open>\<open>PolicyPanic\<close>: a stored \<open>null\<close> leaves a nil map, and the merge with the defaults writes to it.\<close>

datatype policy_error = PolicySeed store_err | PolicyLoad store_err | PolicyParse | PolicyPanic

definition policy_key :: string where
  "policy_key = ''auth.policy''"

definition policySave :: "(string \<times> string) list \<Rightarrow> auth_db \<Rightarrow> store_err option \<times> auth_db" where
  "policySave p d = settingsSet policy_key (JsonMap p) d"

definition mergeDefaults :: "(string \<times> string) list \<Rightarrow> (string \<times> string) list" where
  "mergeDefaults p = p @ filter (\<lambda>(k, v). k \<notin> fst ` set p) defaultPolicy"

definition policyLoad :: "auth_db \<Rightarrow> (policy_error + (string \<times> string) list) \<times> auth_db" where
  "policyLoad d =
     (case settingsGet policy_key d of
        Inl StoreNotFound \<Rightarrow>
          (case policySave defaultPolicy d of
             (Some e, d1) \<Rightarrow> (Inl (PolicySeed e), d1)
           | (None, d1) \<Rightarrow> (Inr defaultPolicy, d1))
      | Inl e \<Rightarrow> (Inl (PolicyLoad e), d)
      | Inr (JsonMap p) \<Rightarrow> (Inr (mergeDefaults p), d)
      | Inr JsonNull \<Rightarrow> (Inl PolicyPanic, d)
      | Inr (JsonOther s) \<Rightarrow> (Inl PolicyParse, d))"

section \<open>Evaluation\<close>

definition defaultStepUpTTL :: duration where
  "defaultStepUpTTL = 15 * nanos_per_minute"

datatype decision_reason = NoDecisionReason | NetworkIdentityRequired | StepUpRequired | StepUpExpired

record decision =
  de_allowed :: bool
  de_required :: string
  de_resource :: string
  de_reason :: decision_reason

definition evaluate ::
    "(string \<times> string) list \<Rightarrow> duration \<Rightarrow> time \<Rightarrow> string \<Rightarrow> string \<Rightarrow> time \<Rightarrow> decision" where
  "evaluate p ttl now resource a at =
     (let m = (case map_of p resource of None \<Rightarrow> ''network'' | Some v \<Rightarrow> v);
          answer = (\<lambda>ok reason. \<lparr>de_allowed = ok, de_required = m, de_resource = resource, de_reason = reason\<rparr>) in
      if m = ''network'' then
        (if atLeast a ''network'' then answer True NoDecisionReason else answer False NetworkIdentityRequired)
      else if \<not> atLeast a m then answer False StepUpRequired
      else if 0 < ttl \<and> \<not> is_zero at \<and> ttl < time_sub now at then answer False StepUpExpired
      else answer True NoDecisionReason)"

text \<open>\<open>NewPolicyEvaluator\<close> replaces a zero lifetime.\<close>

definition stepUpTTL :: "duration \<Rightarrow> duration" where
  "stepUpTTL ttl = (if ttl = 0 then defaultStepUpTTL else ttl)"

section \<open>Lemmas\<close>

lemma default_covers: "validResource k \<longleftrightarrow> k \<in> fst ` set defaultPolicy"
  by (auto simp: validResource_def allResources_def defaultPolicy_def)

lemma default_valid: "validatePolicy defaultPolicy = []"
  by (simp add: validatePolicy_def defaultPolicy_def validResource_def allResources_def validAssurance_def
      assuranceRank_def)

lemma map_of_merge:
  "map_of (mergeDefaults p) k = (case map_of p k of Some v \<Rightarrow> Some v | None \<Rightarrow> map_of defaultPolicy k)"
proof (cases "map_of p k")
  case None
  then have "k \<notin> fst ` set p" by (simp add: map_of_eq_None_iff)
  then have "map_of (filter (\<lambda>(k, v). k \<notin> fst ` set p) xs) k = map_of xs k" for xs
    by (induction xs) force+
  then show ?thesis using None by (simp add: mergeDefaults_def map_add_def)
qed (simp add: mergeDefaults_def map_add_def split: option.splits)

lemma evaluate_required:
  "de_required (evaluate p ttl now resource a at) = (case map_of p resource of None \<Rightarrow> ''network'' | Some v \<Rightarrow> v)"
  by (simp add: evaluate_def Let_def)

lemma evaluate_allowed:
  "de_allowed (evaluate p ttl now resource a at) \<longleftrightarrow>
     (let m = de_required (evaluate p ttl now resource a at) in
      atLeast a m \<and> (m = ''network'' \<or> ttl \<le> 0 \<or> is_zero at \<or> time_sub now at \<le> ttl))"
  by (auto simp: evaluate_def Let_def)

end
