(* ===== verification/Rate_Limit.thy ===== *)
theory Rate_Limit
  imports Forge_Prelude "HOL-Library.AList"
begin

text \<open>
  authz/ratelimit.go: failed attempts per client address, counted in windows that start with
  the first failure.  The map of entries is an association list with distinct keys.  The mutex
  makes \<open>TooMany\<close> and \<open>Fail\<close> atomic each; the clock is a parameter.
\<close>

record rl_entry =
  rl_count :: int
  rl_resetAt :: time

record rate_limiter =
  rl_limit :: int
  rl_window :: duration
  rl_entries :: "(string \<times> rl_entry) list"

definition newRateLimiter :: "int \<Rightarrow> duration \<Rightarrow> rate_limiter" where
  "newRateLimiter limit window = \<lparr>rl_limit = limit, rl_window = window, rl_entries = []\<rparr>"

definition tooMany :: "time \<Rightarrow> string \<Rightarrow> rate_limiter \<Rightarrow> bool" where
  "tooMany now ip r =
     (case map_of (rl_entries r) ip of None \<Rightarrow> False
      | Some e \<Rightarrow> \<not> rl_resetAt e < now \<and> rl_limit r \<le> rl_count e)"

definition pruneLocked :: "time \<Rightarrow> rate_limiter \<Rightarrow> rate_limiter" where
  "pruneLocked now r =
     (if length (rl_entries r) < 1024 then r
      else r\<lparr>rl_entries := filter (\<lambda>(ip, e). \<not> rl_resetAt e < now) (rl_entries r)\<rparr>)"

definition rateFail :: "time \<Rightarrow> string \<Rightarrow> rate_limiter \<Rightarrow> rate_limiter" where
  "rateFail now ip r =
     (case map_of (rl_entries r) ip of
        None \<Rightarrow> pruneLocked now (r\<lparr>rl_entries :=
          AList.update ip \<lparr>rl_count = 1, rl_resetAt = now + rl_window r\<rparr> (rl_entries r)\<rparr>)
      | Some e \<Rightarrow>
          if rl_resetAt e < now
          then pruneLocked now (r\<lparr>rl_entries :=
            AList.update ip \<lparr>rl_count = 1, rl_resetAt = now + rl_window r\<rparr> (rl_entries r)\<rparr>)
          else r\<lparr>rl_entries := AList.update ip (e\<lparr>rl_count := rl_count e + 1\<rparr>) (rl_entries r)\<rparr>)"

section \<open>The entry that counts\<close>

text \<open>The entry of an address while its window lasts; afterwards it is as good as absent.\<close>

definition liveEntry :: "time \<Rightarrow> string \<Rightarrow> rate_limiter \<Rightarrow> rl_entry option" where
  "liveEntry now ip r =
     (case map_of (rl_entries r) ip of None \<Rightarrow> None | Some e \<Rightarrow> if rl_resetAt e < now then None else Some e)"

definition limiter_wf :: "rate_limiter \<Rightarrow> bool" where
  "limiter_wf r \<longleftrightarrow> distinct (map fst (rl_entries r)) \<and> 0 < rl_limit r \<and> 0 \<le> rl_window r \<and>
     (\<forall>ip e. map_of (rl_entries r) ip = Some e \<longrightarrow> 0 < rl_count e)"

lemma new_limiter_wf: "0 < l \<Longrightarrow> 0 \<le> w \<Longrightarrow> limiter_wf (newRateLimiter l w)"
  by (simp add: limiter_wf_def newRateLimiter_def)

lemma tooMany_live: "tooMany now ip r \<longleftrightarrow> (\<exists>e. liveEntry now ip r = Some e \<and> rl_limit r \<le> rl_count e)"
  by (auto simp: tooMany_def liveEntry_def split: option.splits)

lemma prune_fields [simp]:
  "rl_limit (pruneLocked now r) = rl_limit r" "rl_window (pruneLocked now r) = rl_window r"
  by (simp_all add: pruneLocked_def)

lemma fail_fields [simp]:
  "rl_limit (rateFail now ip r) = rl_limit r" "rl_window (rateFail now ip r) = rl_window r"
  by (simp_all add: rateFail_def split: option.splits)

lemma map_of_filter_snd:
  "distinct (map fst xs) \<Longrightarrow>
   map_of (filter (\<lambda>(k, v). P v) xs) k = (case map_of xs k of None \<Rightarrow> None | Some v \<Rightarrow> if P v then Some v else None)"
proof (induction xs)
  case (Cons x xs)
  moreover have "k \<notin> fst ` set xs \<Longrightarrow> map_of xs k = None" by (simp add: map_of_eq_None_iff)
  ultimately show ?case by (cases x) (auto split: option.splits)
qed simp

lemma prune_wf: "limiter_wf r \<Longrightarrow> limiter_wf (pruneLocked now r)"
  by (auto simp: limiter_wf_def pruneLocked_def distinct_map_filter map_of_filter_snd split: option.splits if_splits)

lemma update_wf:
  "limiter_wf r \<Longrightarrow> 0 < rl_count e \<Longrightarrow> limiter_wf (r\<lparr>rl_entries := AList.update ip e (rl_entries r)\<rparr>)"
  by (simp add: limiter_wf_def distinct_update update_conv')

lemma limiter_count: "limiter_wf r \<Longrightarrow> map_of (rl_entries r) ip = Some e \<Longrightarrow> 0 < rl_count e"
  by (simp add: limiter_wf_def)

lemma fail_wf: "limiter_wf r \<Longrightarrow> limiter_wf (rateFail now ip r)"
  by (auto simp: rateFail_def intro!: prune_wf update_wf split: option.splits) (frule (1) limiter_count, simp)

lemma prune_live:
  assumes "limiter_wf r" and "now \<le> later"
  shows "liveEntry later ip (pruneLocked now r) = liveEntry later ip r"
  using assms map_of_filter_snd [of "rl_entries r" "\<lambda>e. \<not> rl_resetAt e < now" ip]
  by (auto simp: liveEntry_def pruneLocked_def limiter_wf_def split: option.splits)

lemma liveEntry_update:
  "liveEntry later ip (r\<lparr>rl_entries := AList.update ip' e (rl_entries r)\<rparr>) =
     (if ip = ip' then (if rl_resetAt e < later then None else Some e) else liveEntry later ip r)"
  by (simp add: liveEntry_def update_conv')

lemma fail_live:
  assumes "limiter_wf r" and "now \<le> later"
  shows "liveEntry later ip (rateFail now ip' r) =
    (if ip \<noteq> ip' then liveEntry later ip r
     else let e = (case liveEntry now ip r of None \<Rightarrow> \<lparr>rl_count = 1, rl_resetAt = now + rl_window r\<rparr>
                   | Some e \<Rightarrow> e\<lparr>rl_count := rl_count e + 1\<rparr>)
          in if rl_resetAt e < later then None else Some e)"
  using assms
  by (auto simp: rateFail_def prune_live update_wf liveEntry_update liveEntry_def [of now] Let_def split: option.splits)

lemma live_later: "now \<le> later \<Longrightarrow> liveEntry later ip r = Some e \<Longrightarrow> liveEntry now ip r = Some e"
  by (auto simp: liveEntry_def split: option.splits if_splits)

section \<open>Guesses in a history\<close>

text \<open>
  A history of failing attempts: each is rejected at once when there were too many, and
  otherwise evaluated and counted as a failure.  \<open>guesses\<close> counts those of one address that
  were evaluated.
\<close>

fun guesses :: "string \<Rightarrow> (time \<times> string) list \<Rightarrow> rate_limiter \<Rightarrow> nat" where
  "guesses ip [] r = 0"
| "guesses ip ((now, a) # es) r =
     (if tooMany now a r then guesses ip es r
      else (if a = ip then 1 else 0) + guesses ip es (rateFail now a r))"

lemma guesses_in_window:
  assumes "limiter_wf r" and "sorted (map fst es)" and "\<forall>(t, a) \<in> set es. t \<le> rl_resetAt e \<and> now \<le> t"
    and "liveEntry now ip r = Some e" and "0 \<le> rl_count e"
  shows "int (guesses ip es r) \<le> max 0 (rl_limit r - rl_count e)"
  using assms
proof (induction es arbitrary: r e now)
  case (Cons x es)
  obtain t a where x: "x = (t, a)" by (cases x)
  have t: "t \<le> rl_resetAt e" "now \<le> t" using Cons.prems(3) x by auto
  have live: "liveEntry t ip r = Some e"
    using Cons.prems(4) t by (auto simp: liveEntry_def split: option.splits if_splits)
  have es: "\<forall>(u, b) \<in> set es. u \<le> rl_resetAt e \<and> t \<le> u" "sorted (map fst es)"
    using Cons.prems(2,3) x by (auto simp: case_prod_unfold)
  show ?case
  proof (cases "tooMany t a r")
    case True
    then show ?thesis using Cons.IH [OF Cons.prems(1) es(2) es(1) live Cons.prems(5)] x by simp
  next
    case False
    let ?r = "rateFail t a r"
    have wf: "limiter_wf ?r" by (rule fail_wf [OF Cons.prems(1)])
    show ?thesis
    proof (cases "a = ip")
      case True
      let ?e = "e\<lparr>rl_count := rl_count e + 1\<rparr>"
      have "liveEntry t ip ?r = Some ?e"
        using fail_live [OF Cons.prems(1), of t t ip a] live t True by simp
      from Cons.IH [OF wf es(2) _ this] show ?thesis
        using es(1) Cons.prems(5) False live True x by (auto simp: tooMany_live)
    next
      case False
      have "liveEntry t ip ?r = Some e"
        using fail_live [OF Cons.prems(1), of t t ip a] live False by simp
      from Cons.IH [OF wf es(2) es(1) this Cons.prems(5)] show ?thesis
        using x \<open>\<not> tooMany t a r\<close> False by simp
    qed
  qed
qed simp

lemma guesses_in_span:
  assumes "limiter_wf r" and "sorted (map fst es)"
    and "\<forall>(t, a) \<in> set es. now \<le> t \<and> start \<le> t \<and> t \<le> start + rl_window r"
  shows "int (guesses ip es r) \<le>
    (case liveEntry now ip r of None \<Rightarrow> 0 | Some e \<Rightarrow> max 0 (rl_limit r - rl_count e)) + rl_limit r"
  using assms
proof (induction es arbitrary: r now)
  case Nil
  then show ?case by (simp add: limiter_wf_def split: option.splits)
next
  case (Cons x es)
  obtain t a where x: "x = (t, a)" by (cases x)
  have t: "now \<le> t" "start \<le> t" using Cons.prems(3) x by auto
  have es: "sorted (map fst es)" and
    later: "\<forall>(u, b) \<in> set es. t \<le> u \<and> start \<le> u \<and> u \<le> start + rl_window r"
    using Cons.prems(2,3) x by (auto simp: case_prod_unfold)
  have wf: "limiter_wf (rateFail t a r)" by (rule fail_wf [OF Cons.prems(1)])
  have mono: "(case liveEntry t ip r of None \<Rightarrow> 0 | Some e \<Rightarrow> max 0 (rl_limit r - rl_count e)) \<le>
    (case liveEntry now ip r of None \<Rightarrow> 0 | Some e \<Rightarrow> max 0 (rl_limit r - rl_count e))"
    using live_later [OF t(1), of ip r] by (cases "liveEntry t ip r") (auto split: option.splits)
  note rest = Cons.IH [OF wf es, unfolded fail_fields, OF later]
  consider (rejected) "tooMany t a r" | (other) "\<not> tooMany t a r" "a \<noteq> ip"
    | (first) "\<not> tooMany t a r" "a = ip" "liveEntry t ip r = None"
    | (counted) e where "\<not> tooMany t a r" "a = ip" "liveEntry t ip r = Some e"
    by (cases "liveEntry t ip r") blast+
  then show ?case
  proof cases
    case rejected
    then show ?thesis using Cons.IH [OF Cons.prems(1) es later] mono x by simp
  next
    case other
    then have "liveEntry t ip (rateFail t a r) = liveEntry t ip r"
      using fail_live [OF Cons.prems(1), of t t ip a] by simp
    then show ?thesis using rest other mono x by simp
  next
    case first
    let ?e = "\<lparr>rl_count = 1, rl_resetAt = t + rl_window r\<rparr>"
    have live: "liveEntry t ip (rateFail t a r) = Some ?e"
      using fail_live [OF Cons.prems(1), of t t ip a] first Cons.prems(1) by (simp add: limiter_wf_def)
    have "\<forall>(u, b) \<in> set es. u \<le> rl_resetAt ?e \<and> t \<le> u" using later t(2) by fastforce
    from guesses_in_window [OF wf es this live] show ?thesis
      using first mono x Cons.prems(1) by (simp add: limiter_wf_def)
  next
    case (counted e)
    have "liveEntry t ip (rateFail t a r) = Some (e\<lparr>rl_count := rl_count e + 1\<rparr>)"
      using fail_live [OF Cons.prems(1), of t t ip a] counted
      by (auto simp: liveEntry_def split: option.splits if_splits)
    moreover have "rl_count e < rl_limit r" using counted by (auto simp: tooMany_live)
    ultimately show ?thesis using rest counted mono x by simp
  qed
qed

end
