(* ===== verification/Authorizer.thy ===== *)
theory Authorizer
  imports Auth_Policy Rate_Limit
begin

text \<open>
  authz/authorizer.go and authz/stepup.go: logins, sessions, bearer keys, the first-run setup.
  The password hasher is a parameter: \<open>verify\<close> for the comparison of an encoded hash with a
  secret (\<open>None\<close> is an error) and, per call, \<open>hash\<close> with the salt it draws; random bytes are
  arguments (\<open>None\<close> is a failing source).  Each operation reads the clock once and is one
  function on the state: the rate limiter, the table of recent touches and the database.
\<close>

section \<open>State\<close>

datatype auth_error =
    ErrUnauthenticated
  | ErrRateLimited
  | AuthStore store_err
  | AuthRand
  | AuthHash
  | ErrMintRole
  | ErrMintNoRole
  | ErrMintKind
  | ErrMintName
  | ErrSetupDone
  | ErrUsernameRequired
  | ErrInvalidRole
  | ErrPasswordLength

record authorizer =
  au_limiter :: rate_limiter
  au_sessionTTL :: duration
  au_touchEvery :: duration
  au_lastTouch :: "(string \<times> time) list"
  au_db :: auth_db

definition maxSecretLen :: nat where
  "maxSecretLen = 1024"

definition newAuthorizer :: "auth_db \<Rightarrow> authorizer" where
  "newAuthorizer d = \<lparr>au_limiter = newRateLimiter 10 nanos_per_minute,
     au_sessionTTL = 7 * 24 * 60 * nanos_per_minute, au_touchEvery = nanos_per_minute,
     au_lastTouch = [], au_db = d\<rparr>"

definition onDb :: "(auth_db \<Rightarrow> 'r \<times> auth_db) \<Rightarrow> authorizer \<Rightarrow> 'r \<times> authorizer" where
  "onDb f a = (let (r, d) = f (au_db a) in (r, a\<lparr>au_db := d\<rparr>))"

definition countFail :: "time \<Rightarrow> string \<Rightarrow> authorizer \<Rightarrow> authorizer" where
  "countFail now ip a = a\<lparr>au_limiter := rateFail now ip (au_limiter a)\<rparr>"

text \<open>\<open>touch\<close>: at most one write per key and period; the write's result is dropped.\<close>

definition touch :: "time \<Rightarrow> string \<Rightarrow> (auth_db \<Rightarrow> auth_db) \<Rightarrow> authorizer \<Rightarrow> authorizer" where
  "touch now key f a =
     (let fresh = (case map_of (au_lastTouch a) key of None \<Rightarrow> False
                   | Some t \<Rightarrow> time_sub now t < au_touchEvery a) in
      if fresh then a
      else
        (let ts = AList.update key now (au_lastTouch a);
             ts' = (if length ts > 4096 then filter (\<lambda>(k, t). \<not> au_touchEvery a \<le> time_sub now t) ts else ts)
         in a\<lparr>au_lastTouch := ts', au_db := f (au_db a)\<rparr>))"

section \<open>Sessions\<close>

definition sessionIdentityOf :: "user \<Rightarrow> session \<Rightarrow> identity" where
  "sessionIdentityOf u s = \<lparr>id_name = us_username u, id_role = us_role u, id_keyID = [], id_kind = [],
     id_display = [], id_assurance = (if se_assurance s = [] then ''password'' else se_assurance s),
     id_assuranceAt = se_assuranceAt s, id_principal = se_principal s\<rparr>"

definition userIdentity :: "user \<Rightarrow> identity" where
  "userIdentity u = \<lparr>id_name = us_username u, id_role = us_role u, id_keyID = [], id_kind = [],
     id_display = [], id_assurance = [], id_assuranceAt = 0, id_principal = []\<rparr>"

definition userByID :: "int \<Rightarrow> auth_db \<Rightarrow> store_err + user" where
  "userByID i d =
     (case usersList d of Inl e \<Rightarrow> Inl e
      | Inr us \<Rightarrow> (case find (\<lambda>u. us_id u = i) us of None \<Rightarrow> Inl StoreNotFound | Some u \<Rightarrow> Inr u))"

definition login ::
    "(string \<Rightarrow> string \<Rightarrow> bool option) \<Rightarrow> time \<Rightarrow> 8 word list option \<Rightarrow> 8 word list option \<Rightarrow>
     string \<Rightarrow> string \<Rightarrow> string \<Rightarrow> string \<Rightarrow> authorizer \<Rightarrow> (auth_error + session \<times> identity) \<times> authorizer" where
  "login verify now sidBytes csrfBytes username password ip userAgent a =
     (if tooMany now ip (au_limiter a) then (Inl ErrRateLimited, a)
      else if username = [] \<or> password = [] \<or> length password > maxSecretLen
        then (Inl ErrUnauthenticated, countFail now ip a)
      else
        (case usersByUsername username (au_db a) of
           Inl StoreNotFound \<Rightarrow> (Inl ErrUnauthenticated, countFail now ip a)
         | Inl e \<Rightarrow> (Inl (AuthStore e), a)
         | Inr u \<Rightarrow>
           if verify (us_hash u) password \<noteq> Some True \<or> us_disabled u
           then (Inl ErrUnauthenticated, countFail now ip a)
           else
             (case (randToken sidBytes, randToken csrfBytes) of
                (Some sid, Some csrf) \<Rightarrow>
                  (let s = \<lparr>se_id = sid, se_userID = us_id u, se_csrf = csrf, se_createdAt = now,
                       se_expiresAt = now + au_sessionTTL a, se_lastSeenAt = now, se_remoteAddr = ip,
                       se_userAgent = userAgent, se_assurance = [], se_assuranceAt = 0, se_principal = []\<rparr> in
                   case onDb (sessionsCreate now s) a of
                     (Some e, a1) \<Rightarrow> (Inl (AuthStore e), a1)
                   | (None, a1) \<Rightarrow> (Inr (s, userIdentity u), a1))
              | _ \<Rightarrow> (Inl AuthRand, a))))"

definition logout :: "string \<Rightarrow> authorizer \<Rightarrow> store_err option \<times> authorizer" where
  "logout sid = onDb (sessionsDelete sid)"

definition sessionIdentity ::
    "time \<Rightarrow> string \<Rightarrow> authorizer \<Rightarrow> (auth_error + identity \<times> session) \<times> authorizer" where
  "sessionIdentity now sid a =
     (if sid = [] then (Inl ErrUnauthenticated, a)
      else
        (case sessionsGet sid (au_db a) of
           Inl StoreNotFound \<Rightarrow> (Inl ErrUnauthenticated, a)
         | Inl e \<Rightarrow> (Inl (AuthStore e), a)
         | Inr s \<Rightarrow>
           if \<not> now < se_expiresAt s then (Inl ErrUnauthenticated, snd (onDb (sessionsDelete sid) a))
           else
             (case userByID (se_userID s) (au_db a) of
                Inl e \<Rightarrow> (Inl ErrUnauthenticated, a)
              | Inr u \<Rightarrow>
                if us_disabled u then (Inl ErrUnauthenticated, a)
                else (Inr (sessionIdentityOf u s, s),
                      touch now (''s:'' @ sid) (\<lambda>d. snd (sessionsTouch sid now d)) a))))"

definition verifySession :: "time \<Rightarrow> string \<Rightarrow> authorizer \<Rightarrow> (auth_error + identity) \<times> authorizer" where
  "verifySession now sid a =
     (case sessionIdentity now sid a of (Inl e, a1) \<Rightarrow> (Inl e, a1) | (Inr (i, s), a1) \<Rightarrow> (Inr i, a1))"

definition sessionInfo :: "time \<Rightarrow> string \<Rightarrow> authorizer \<Rightarrow> (auth_error + identity \<times> string) \<times> authorizer" where
  "sessionInfo now sid a =
     (case sessionIdentity now sid a of (Inl e, a1) \<Rightarrow> (Inl e, a1) | (Inr (i, s), a1) \<Rightarrow> (Inr (i, se_csrf s), a1))"

definition validateCSRF :: "time \<Rightarrow> string \<Rightarrow> string \<Rightarrow> authorizer \<Rightarrow> bool \<times> authorizer" where
  "validateCSRF now sid given a =
     (if given = [] then (False, a)
      else case sessionIdentity now sid a of (Inl e, a1) \<Rightarrow> (False, a1) | (Inr (i, s), a1) \<Rightarrow> (given = se_csrf s, a1))"

definition sweepExpiredSessions :: "time \<Rightarrow> authorizer \<Rightarrow> (store_err + nat) \<times> authorizer" where
  "sweepExpiredSessions now = onDb (sessionsDeleteExpired now)"

definition verifyPassword ::
    "(string \<Rightarrow> string \<Rightarrow> bool option) \<Rightarrow> int \<Rightarrow> string \<Rightarrow> authorizer \<Rightarrow> auth_error option" where
  "verifyPassword verify i password a =
     (if password = [] \<or> length password > maxSecretLen then Some ErrUnauthenticated
      else case userByID i (au_db a) of Inl e \<Rightarrow> Some ErrUnauthenticated
        | Inr u \<Rightarrow> if us_disabled u then Some ErrUnauthenticated
                   else if verify (us_hash u) password \<noteq> Some True then Some ErrUnauthenticated else None)"

definition identityByID :: "int \<Rightarrow> authorizer \<Rightarrow> auth_error + identity" where
  "identityByID i a =
     (case userByID i (au_db a) of Inl e \<Rightarrow> Inl (AuthStore e)
      | Inr u \<Rightarrow> if us_disabled u then Inl ErrUnauthenticated else Inr (userIdentity u))"

section \<open>Bearer keys\<close>

definition keyIdentity :: "api_key \<Rightarrow> string \<Rightarrow> string \<Rightarrow> identity" where
  "keyIdentity k kind keyid = \<lparr>id_name = ak_name k, id_role = (if kind = ''forge'' then ak_role k else []),
     id_keyID = keyid, id_kind = kind, id_display = ak_display k, id_assurance = [], id_assuranceAt = 0,
     id_principal = []\<rparr>"

definition verifyBearer ::
    "(string \<Rightarrow> string \<Rightarrow> bool option) \<Rightarrow> time \<Rightarrow> string \<Rightarrow> string \<Rightarrow> string \<Rightarrow> authorizer \<Rightarrow>
     (auth_error + identity) \<times> authorizer" where
  "verifyBearer verify now ip token want a =
     (case parseToken token of None \<Rightarrow> (Inl ErrUnauthenticated, a)
      | Some (kind, keyid, secret) \<Rightarrow>
        if kind \<noteq> want then (Inl ErrUnauthenticated, a)
        else
          (case keysGet keyid (au_db a) of
             Inl StoreNotFound \<Rightarrow> (Inl ErrUnauthenticated, a)
           | Inl e \<Rightarrow> (Inl (AuthStore e), a)
           | Inr k \<Rightarrow>
             if \<not> is_zero (ak_revokedAt k) then (Inl ErrUnauthenticated, a)
             else if \<not> is_zero (ak_expiresAt k) \<and> \<not> now < ak_expiresAt k then (Inl ErrUnauthenticated, a)
             else if ak_boundIP k \<noteq> [] \<and> ak_boundIP k \<noteq> ip then (Inl ErrUnauthenticated, a)
             else if verify (ak_hash k) secret \<noteq> Some True then (Inl ErrUnauthenticated, a)
             else (Inr (keyIdentity k kind keyid),
                   touch now (''k:'' @ keyid) (\<lambda>d. snd (keysTouchUsed keyid now d)) a)))"

definition verifyBearerFrom ::
    "(string \<Rightarrow> string \<Rightarrow> bool option) \<Rightarrow> time \<Rightarrow> string \<Rightarrow> string \<Rightarrow> string \<Rightarrow> authorizer \<Rightarrow>
     (auth_error + identity) \<times> authorizer" where
  "verifyBearerFrom verify now ip token want a =
     (if tooMany now ip (au_limiter a) then (Inl ErrRateLimited, a)
      else
        (let (r, a1) = verifyBearer verify now ip token want a
         in (r, if r = Inl ErrUnauthenticated then countFail now ip a1 else a1)))"

fun revokeKeys :: "time \<Rightarrow> string list \<Rightarrow> auth_db \<Rightarrow> store_err option \<times> auth_db" where
  "revokeKeys now [] d = (None, d)"
| "revokeKeys now (i # is) d =
     (case keysRevoke now i d of (Some e, d1) \<Rightarrow> (Some e, d1) | (None, d1) \<Rightarrow> revokeKeys now is d1)"

definition mintRefusal :: "string \<Rightarrow> string \<Rightarrow> string \<Rightarrow> auth_error option" where
  "mintRefusal kind name role =
     (if kind = ''forge'' then (if \<not> validRole role then Some ErrMintRole
        else if name = [] then Some ErrMintName else None)
      else if kind = ''router'' \<or> kind = ''mcp'' then (if role \<noteq> [] then Some ErrMintNoRole
        else if name = [] then Some ErrMintName else None)
      else Some ErrMintKind)"

definition mintKey ::
    "time \<Rightarrow> (string \<Rightarrow> string option) \<Rightarrow> 8 word list option \<Rightarrow> 8 word list option \<Rightarrow> string \<Rightarrow> string \<Rightarrow> string \<Rightarrow>
     string \<Rightarrow> string \<Rightarrow> time \<Rightarrow> authorizer \<Rightarrow> (auth_error + string) \<times> authorizer" where
  "mintKey now hash idBytes secretBytes kind name display role boundIP expiresAt a =
     (case mintRefusal kind name role of Some e \<Rightarrow> (Inl e, a)
      | None \<Rightarrow>
        (case keysList kind (au_db a) of Inl e \<Rightarrow> (Inl (AuthStore e), a)
         | Inr ks \<Rightarrow>
           (case onDb (revokeKeys now (map ak_id (filter (\<lambda>k. ak_name k = name \<and> is_zero (ak_revokedAt k)) ks))) a of
              (Some e, a1) \<Rightarrow> (Inl (AuthStore e), a1)
            | (None, a1) \<Rightarrow>
              (case (map_option hex_encode idBytes, randToken secretBytes) of
                 (Some keyid, Some secret) \<Rightarrow>
                   (case hash secret of None \<Rightarrow> (Inl AuthHash, a1)
                    | Some h \<Rightarrow>
                      (case onDb (keysCreate now \<lparr>ak_id = keyid, ak_kind = kind, ak_name = name, ak_hash = h,
                          ak_role = role, ak_display = display, ak_boundIP = boundIP, ak_createdAt = now,
                          ak_lastUsedAt = 0, ak_revokedAt = 0, ak_expiresAt = expiresAt\<rparr>) a1 of
                         (Some e, a2) \<Rightarrow> (Inl (AuthStore e), a2)
                       | (None, a2) \<Rightarrow> (Inr (formatToken kind keyid secret), a2)))
               | _ \<Rightarrow> (Inl AuthRand, a1)))))"

definition revokeKey :: "time \<Rightarrow> string \<Rightarrow> authorizer \<Rightarrow> store_err option \<times> authorizer" where
  "revokeKey now keyid = onDb (keysRevoke now keyid)"

section \<open>First run\<close>

definition setupRequired :: "authorizer \<Rightarrow> store_err + bool" where
  "setupRequired a = (case usersList (au_db a) of Inl e \<Rightarrow> Inl e | Inr us \<Rightarrow> Inr (us = []))"

definition createUser ::
    "time \<Rightarrow> (string \<Rightarrow> string option) \<Rightarrow> string \<Rightarrow> string \<Rightarrow> string \<Rightarrow> authorizer \<Rightarrow> auth_error option \<times> authorizer" where
  "createUser now hash username password role a =
     (if username = [] then (Some ErrUsernameRequired, a)
      else if \<not> validRole role then (Some ErrInvalidRole, a)
      else if length password < 8 \<or> length password > maxSecretLen then (Some ErrPasswordLength, a)
      else
        (case hash password of None \<Rightarrow> (Some AuthHash, a)
         | Some h \<Rightarrow>
           (case onDb (usersCreate now \<lparr>us_id = 0, us_username = username, us_hash = h, us_role = role,
               us_createdAt = now, us_disabled = False\<rparr>) a of
              (Inl e, a1) \<Rightarrow> (Some (AuthStore e), a1)
            | (Inr i, a1) \<Rightarrow> (None, a1))))"

definition completeSetup ::
    "time \<Rightarrow> (string \<Rightarrow> string option) \<Rightarrow> string \<Rightarrow> string \<Rightarrow> authorizer \<Rightarrow> auth_error option \<times> authorizer" where
  "completeSetup now hash username password a =
     (case setupRequired a of Inl e \<Rightarrow> (Some (AuthStore e), a)
      | Inr False \<Rightarrow> (Some ErrSetupDone, a)
      | Inr True \<Rightarrow>
        (case createUser now hash username password ''admin'' a of
           (Some e, a1) \<Rightarrow> (Some e, a1)
         | (None, a1) \<Rightarrow>
           (case onDb (settingsSet ''wizard.completed'' (JsonOther ''true'')) a1 of
              (Some e, a2) \<Rightarrow> (Some (AuthStore e), a2) | (None, a2) \<Rightarrow> (None, a2))))"

end
