(* ===== verification/Second_Factor.thy ===== *)
theory Second_Factor
  imports Authorizer "HOL-Library.Signed_Division"
begin

text \<open>
  authz/recovery.go and authz/totp.go: recovery codes and time-based one-time codes.  The keyed
  hash of the standard library and the base32 decoding are parameters; the bytes drawn from the
  random source are arguments.
\<close>

unbundle bit_operations_syntax

section \<open>Recovery codes\<close>

definition recoveryCodeCount :: nat where
  "recoveryCodeCount = 10"

definition formatRecoveryCode :: "string \<Rightarrow> string" where
  "formatRecoveryCode raw = concat (map (\<lambda>(i, c). if 0 < i \<and> i mod 4 = 0 then [CHR ''-'', c] else [c])
     (enumerate 0 (take 19 raw)))"

type_synonym keyed_hash = "8 word list \<Rightarrow> string \<Rightarrow> 8 word list"

definition hashCode :: "keyed_hash \<Rightarrow> 8 word list \<Rightarrow> string \<Rightarrow> string" where
  "hashCode mac pepper code = hex_encode (mac pepper code)"

datatype recovery_error = RecoveryDelete store_err | RecoveryRand | RecoverySave store_err

definition generateCodes ::
    "keyed_hash \<Rightarrow> 8 word list \<Rightarrow> time \<Rightarrow> 8 word list list option \<Rightarrow> int \<Rightarrow> auth_db \<Rightarrow>
     (recovery_error + string list) \<times> auth_db" where
  "generateCodes mac pepper now draws u d =
     (case recoveryDeleteAll u d of
        (Some e, d1) \<Rightarrow> (Inl (RecoveryDelete e), d1)
      | (None, d1) \<Rightarrow>
        (case draws of None \<Rightarrow> (Inl RecoveryRand, d1)
         | Some raws \<Rightarrow>
           (let codes = map (\<lambda>raw. formatRecoveryCode (rawURLEncode raw)) (take recoveryCodeCount raws) in
            case recoverySave now (map (\<lambda>c. \<lparr>rv_id = 0, rv_userID = u, rv_hash = hashCode mac pepper c,
                rv_createdAt = now, rv_usedAt = 0\<rparr>) codes) d1 of
              (Some e, d2) \<Rightarrow> (Inl (RecoverySave e), d2)
            | (None, d2) \<Rightarrow> (Inr codes, d2))))"

definition matchCode :: "keyed_hash \<Rightarrow> 8 word list \<Rightarrow> string \<Rightarrow> recovery_code list \<Rightarrow> recovery_code option" where
  "matchCode mac pepper code cs = find (\<lambda>c. is_zero (rv_usedAt c) \<and> rv_hash c = hashCode mac pepper code) cs"

datatype verify_result = CodeAccepted | CodeRefused | CodeMarkFailed store_err

definition verifyCode ::
    "keyed_hash \<Rightarrow> 8 word list \<Rightarrow> time \<Rightarrow> int \<Rightarrow> string \<Rightarrow> auth_db \<Rightarrow> verify_result \<times> auth_db" where
  "verifyCode mac pepper now u code d =
     (if code = [] \<or> length code > maxSecretLen then (CodeRefused, d)
      else
        (case recoveryListByUser u d of
           Inl e \<Rightarrow> (CodeRefused, d)
         | Inr cs \<Rightarrow>
           (case matchCode mac pepper code cs of
              None \<Rightarrow> (CodeRefused, d)
            | Some c \<Rightarrow>
              (case recoveryMarkUsed (rv_id c) now d of
                 (Some e, d1) \<Rightarrow> (CodeMarkFailed e, d1)
               | (None, d1) \<Rightarrow> (CodeAccepted, d1)))))"

definition hasRecoveryCodes :: "int \<Rightarrow> auth_db \<Rightarrow> store_err + bool" where
  "hasRecoveryCodes u d = map_sum id (\<lambda>cs. cs \<noteq> []) (recoveryListByUser u d)"

definition countUnused :: "int \<Rightarrow> auth_db \<Rightarrow> store_err + nat" where
  "countUnused u d = map_sum id (\<lambda>cs. length (filter (\<lambda>c. is_zero (rv_usedAt c)) cs)) (recoveryListByUser u d)"

section \<open>TOTP\<close>

definition putUint64 :: "64 word \<Rightarrow> 8 word list" where
  "putUint64 w = map (\<lambda>i. ucast (drop_bit (8 * i) w)) (rev [0..<8])"

definition uint32_be :: "8 word list \<Rightarrow> 32 word" where
  "uint32_be bs = foldl (\<lambda>w b. push_bit 8 w OR ucast b) 0 bs"

text \<open>\<open>%06d\<close>.\<close>

definition six_digits :: "nat \<Rightarrow> string" where
  "six_digits n = map (\<lambda>k. char_of (48 + n div 10 ^ k mod 10)) [5, 4, 3, 2, 1, 0]"

type_synonym hmac_sha1 = "8 word list \<Rightarrow> 8 word list \<Rightarrow> 8 word list"

definition computeTOTP ::
    "hmac_sha1 \<Rightarrow> (string \<Rightarrow> 8 word list option) \<Rightarrow> string \<Rightarrow> 64 word \<Rightarrow> string" where
  "computeTOTP hmac decode secret counter =
     (case decode secret of None \<Rightarrow> []
      | Some key \<Rightarrow>
        (let sum = hmac key (putUint64 counter);
             offset = unat (last sum AND 0x0F);
             bin = uint32_be (take 4 (drop offset sum)) AND 0x7FFFFFFF
         in six_digits (unat (bin mod 1000000))))"

definition totpCounter :: "time \<Rightarrow> 64 word" where
  "totpCounter t = word_of_int (unixOf t sdiv 30)"

definition computeTOTPCode ::
    "hmac_sha1 \<Rightarrow> (string \<Rightarrow> 8 word list option) \<Rightarrow> string \<Rightarrow> time \<Rightarrow> string" where
  "computeTOTPCode hmac decode secret t = computeTOTP hmac decode secret (totpCounter t)"

definition validateTOTP ::
    "hmac_sha1 \<Rightarrow> (string \<Rightarrow> 8 word list option) \<Rightarrow> string \<Rightarrow> string \<Rightarrow> time \<Rightarrow> bool" where
  "validateTOTP hmac decode secret code t =
     (if secret = [] \<or> code = [] then False
      else let c = totpCounter t in list_ex (\<lambda>c'. computeTOTP hmac decode secret c' = code) [c - 1, c, c + 1])"

section \<open>Lemmas\<close>

lemma length_six_digits [simp]: "length (six_digits n) = 6"
  by (simp add: six_digits_def)

lemma totp_code_shape: "decode secret \<noteq> None \<Longrightarrow> length (computeTOTP hmac decode secret c) = 6"
  by (auto simp: computeTOTP_def Let_def)

lemma steps_apart:
  fixes a b :: int
  assumes "0 \<le> a" "0 \<le> b" "\<bar>a - b\<bar> \<le> 30"
  shows "b sdiv 30 \<in> {a sdiv 30 - 1, a sdiv 30, a sdiv 30 + 1}"
proof -
  have "a sdiv 30 = a div 30" "b sdiv 30 = b div 30"
    using assms(1,2) by (auto simp: signed_divide_int_def sgn_if)
  then show ?thesis using assms(3) by (simp, linarith)
qed

text \<open>A one-time code is good for a clock that is off by half a minute.  The code an
  authenticator computes at one time is accepted at every other time at most thirty seconds
  away, and no code outside the three steps around a time is accepted then.\<close>

theorem totp_accepts_drift:
  assumes "decode secret \<noteq> None" and "secret \<noteq> []"
  shows "(0 \<le> unixOf t \<and> 0 \<le> unixOf t' \<and> \<bar>unixOf t - unixOf t'\<bar> \<le> 30 \<longrightarrow>
      validateTOTP hmac decode secret (computeTOTPCode hmac decode secret t') t) \<and>
    (validateTOTP hmac decode secret code t \<longrightarrow>
      length code = 6 \<and> (\<exists>k \<in> {- 1, 0, 1}. code = computeTOTP hmac decode secret (totpCounter t + k)))"
proof (intro conjI impI)
  assume a: "0 \<le> unixOf t \<and> 0 \<le> unixOf t' \<and> \<bar>unixOf t - unixOf t'\<bar> \<le> 30"
  have "totpCounter t' \<in> {totpCounter t - 1, totpCounter t, totpCounter t + 1}"
    using a steps_apart [of "unixOf t" "unixOf t'"] by (auto simp: totpCounter_def)
  moreover have "computeTOTPCode hmac decode secret t' \<noteq> []"
    using totp_code_shape [of decode secret hmac "totpCounter t'"] assms(1) by (auto simp: computeTOTPCode_def)
  ultimately show "validateTOTP hmac decode secret (computeTOTPCode hmac decode secret t') t"
    using assms(2) by (auto simp: validateTOTP_def computeTOTPCode_def)
next
  assume v: "validateTOTP hmac decode secret code t"
  then show c: "\<exists>k \<in> {- 1, 0, 1}. code = computeTOTP hmac decode secret (totpCounter t + k)"
    by (auto simp: validateTOTP_def Let_def split: if_splits)
  then show "length code = 6" using totp_code_shape [of decode secret] assms(1) by auto
qed

theorem totp_accepts_drift_witness:
  "validateTOTP (\<lambda>k m. replicate 19 7 @ [hd m + last m]) (\<lambda>s. Some []) ''JBSW''
     (computeTOTPCode (\<lambda>k m. replicate 19 7 @ [hd m + last m]) (\<lambda>s. Some []) ''JBSW'' (timeOf 61)) (timeOf 31)"
proof -
  have "0 \<le> unixOf (timeOf 31) \<and> 0 \<le> unixOf (timeOf 61) \<and> \<bar>unixOf (timeOf 31) - unixOf (timeOf 61)\<bar> \<le> 30"
    by (simp add: timeOf_def unixOf_def unix_epoch_def)
  then show ?thesis
    by (rule totp_accepts_drift [of "\<lambda>s. Some []" "''JBSW''", THEN conjunct1, THEN mp, rotated 2]) simp_all
qed

section \<open>A recovery code is good once\<close>

text \<open>
  Requests that try codes at the same time: the lookup of a request and its write are separate
  statements of the database, and those of several requests interleave.  A pending request
  remembers the row it found.
\<close>

datatype code_event = Lookup nat int string | Mark nat time

type_synonym code_state = "auth_db \<times> (nat \<times> int \<times> string \<times> int) list"

definition lookupCode ::
    "keyed_hash \<Rightarrow> 8 word list \<Rightarrow> nat \<Rightarrow> int \<Rightarrow> string \<Rightarrow> code_state \<Rightarrow> code_state" where
  "lookupCode mac pepper k u code s =
     (if code = [] \<or> length code > maxSecretLen then s
      else case recoveryListByUser u (fst s) of Inl e \<Rightarrow> s
        | Inr cs \<Rightarrow> (case matchCode mac pepper code cs of None \<Rightarrow> s
                   | Some c \<Rightarrow> (fst s, (k, u, code, rv_id c) # snd s)))"

definition markCode :: "nat \<Rightarrow> time \<Rightarrow> code_state \<Rightarrow> (int \<times> string) option \<times> code_state" where
  "markCode k now s =
     (case map_of (snd s) k of None \<Rightarrow> (None, s)
      | Some (u, code, i) \<Rightarrow>
        let (e, d) = recoveryMarkUsed i now (fst s)
        in (if e = None then Some (u, code) else None, (d, filter (\<lambda>(j, x). j \<noteq> k) (snd s))))"

fun acceptances ::
    "keyed_hash \<Rightarrow> 8 word list \<Rightarrow> int \<Rightarrow> string \<Rightarrow> code_event list \<Rightarrow> code_state \<Rightarrow> nat" where
  "acceptances mac pepper u code [] s = 0"
| "acceptances mac pepper u code (Lookup k v c # es) s = acceptances mac pepper u code es (lookupCode mac pepper k v c s)"
| "acceptances mac pepper u code (Mark k now # es) s =
     (let (r, s1) = markCode k now s
      in (if r = Some (u, code) then 1 else 0) + acceptances mac pepper u code es s1)"

text \<open>A request alone is a lookup and a mark.\<close>

lemma verifyCode_steps:
  "verifyCode mac pepper now u code d = (CodeAccepted, d1) \<Longrightarrow>
   markCode k now (lookupCode mac pepper k u code (d, [])) = (Some (u, code), (d1, []))"
  by (auto simp: verifyCode_def lookupCode_def markCode_def split: if_splits sum.splits option.splits prod.splits)

definition usableCodes :: "int \<Rightarrow> string \<Rightarrow> auth_db \<Rightarrow> recovery_code list" where
  "usableCodes u h d = filter (\<lambda>c. rv_userID c = u \<and> rv_hash c = h \<and> is_zero (rv_usedAt c)) (ad_recovery d)"

definition codes_wf :: "auth_db \<Rightarrow> bool" where
  "codes_wf d \<longleftrightarrow> distinct (map rv_id (ad_recovery d)) \<and> (\<forall>c \<in> set (ad_recovery d). rv_id c \<le> ad_recovery_seq d)"

definition pending_ok :: "keyed_hash \<Rightarrow> 8 word list \<Rightarrow> code_state \<Rightarrow> bool" where
  "pending_ok mac pepper s \<longleftrightarrow> (\<forall>(k, u, code, i) \<in> set (snd s).
     \<forall>c \<in> set (ad_recovery (fst s)). rv_id c = i \<longrightarrow> rv_userID c = u \<and> rv_hash c = hashCode mac pepper code)"

lemma lookup_cases:
  "lookupCode mac pepper k u code s = s \<or>
   (\<exists>c \<in> set (ad_recovery (fst s)). rv_userID c = u \<and> rv_hash c = hashCode mac pepper code \<and>
      lookupCode mac pepper k u code s = (fst s, (k, u, code, rv_id c) # snd s))"
proof (cases "matchCode mac pepper code (sort_key rv_id (filter (\<lambda>c. rv_userID c = u) (ad_recovery (fst s))))")
  case None
  then show ?thesis by (simp add: lookupCode_def recoveryListByUser_def)
next
  case (Some c)
  have c: "c \<in> set (ad_recovery (fst s)) \<and> rv_userID c = u \<and> rv_hash c = hashCode mac pepper code"
    using find_Some_prop [OF Some [unfolded matchCode_def]] by simp
  show ?thesis
    by (cases "code = [] \<or> length code > maxSecretLen \<or> ad_down (fst s)")
      (use c in \<open>auto simp: lookupCode_def recoveryListByUser_def Some\<close>)
qed

lemma lookup_pending:
  assumes "pending_ok mac pepper s" and "codes_wf (fst s)"
  shows "pending_ok mac pepper (lookupCode mac pepper k u code s) \<and> fst (lookupCode mac pepper k u code s) = fst s"
  using lookup_cases [of mac pepper k u code s]
proof
  assume "\<exists>c \<in> set (ad_recovery (fst s)). rv_userID c = u \<and> rv_hash c = hashCode mac pepper code \<and>
    lookupCode mac pepper k u code s = (fst s, (k, u, code, rv_id c) # snd s)"
  then obtain c0 where c0: "c0 \<in> set (ad_recovery (fst s))" "rv_userID c0 = u" "rv_hash c0 = hashCode mac pepper code"
    and l: "lookupCode mac pepper k u code s = (fst s, (k, u, code, rv_id c0) # snd s)" by blast
  have "c = c0" if "c \<in> set (ad_recovery (fst s))" "rv_id c = rv_id c0" for c
    using assms(2) that c0(1) unfolding codes_wf_def distinct_map by (auto dest: inj_onD)
  then show ?thesis using assms(1) c0 unfolding l pending_ok_def by auto
qed (use assms(1) in simp)

lemma map_if_same: "(\<And>x. k (f x) = k x) \<Longrightarrow> map k (map (\<lambda>x. if P x then f x else x) xs) = map k xs"
  by (induction xs) auto

lemma mark_rows:
  "recoveryMarkUsed i now d = (None, d1) \<Longrightarrow>
   (\<exists>c \<in> set (ad_recovery d). rv_id c = i \<and> is_zero (rv_usedAt c)) \<and>
   ad_recovery d1 = map (\<lambda>c. if rv_id c = i \<and> is_zero (rv_usedAt c) then c\<lparr>rv_usedAt := to_seconds now\<rparr> else c) (ad_recovery d) \<and>
   ad_recovery_seq d1 = ad_recovery_seq d"
  by (auto simp: recoveryMarkUsed_def list_ex_iff split: if_splits)

lemma mark_failed: "recoveryMarkUsed i now d = (Some e, d1) \<Longrightarrow> d1 = d"
  by (auto simp: recoveryMarkUsed_def split: if_splits)

lemma mark_wf: "codes_wf d \<Longrightarrow> codes_wf (snd (recoveryMarkUsed i now d))"
  by (auto simp: recoveryMarkUsed_def codes_wf_def map_if_same simp del: map_map)

lemma mark_pending:
  "pending_ok mac pepper (d, ps) \<Longrightarrow> pending_ok mac pepper (snd (recoveryMarkUsed i now d), ps)"
  by (fastforce simp: recoveryMarkUsed_def pending_ok_def)

lemma length_filter_less:
  assumes "x \<in> set xs" and "P x" and "\<not> Q x" and "\<And>y. Q y \<Longrightarrow> P y"
  shows "length (filter Q xs) < length (filter P xs)"
  using assms(1)
proof (induction xs)
  case (Cons y ys)
  have "length (filter Q ys) \<le> length (filter P ys)" using assms(4) by (induction ys) auto
  then show ?case using Cons assms(2-4) by auto
qed simp

definition timed :: "code_event list \<Rightarrow> bool" where
  "timed es \<longleftrightarrow> (\<forall>k now. Mark k now \<in> set es \<longrightarrow> nanos_per_second \<le> now)"

lemma not_zero_seconds: "nanos_per_second \<le> now \<Longrightarrow> \<not> is_zero (to_seconds now)"
  using zdiv_mono1 [of nanos_per_second now nanos_per_second] by (auto simp: is_zero_def to_seconds_eq)

lemma mark_usable:
  assumes "recoveryMarkUsed i now d = (None, d1)" and "nanos_per_second \<le> now"
  shows "length (usableCodes u h d1) \<le> length (usableCodes u h d)"
    and "(\<forall>c \<in> set (ad_recovery d). rv_id c = i \<longrightarrow> rv_userID c = u \<and> rv_hash c = h) \<Longrightarrow>
      length (usableCodes u h d1) < length (usableCodes u h d)"
proof -
  let ?f = "\<lambda>c. if rv_id c = i \<and> is_zero (rv_usedAt c) then c\<lparr>rv_usedAt := to_seconds now\<rparr> else c"
  let ?P = "\<lambda>c. rv_userID c = u \<and> rv_hash c = h \<and> is_zero (rv_usedAt c)"
  have rows: "ad_recovery d1 = map ?f (ad_recovery d)" and hit: "\<exists>c \<in> set (ad_recovery d). rv_id c = i \<and> is_zero (rv_usedAt c)"
    using mark_rows [OF assms(1)] by blast+
  have eq: "length (usableCodes u h d1) = length (filter (\<lambda>c. ?P (?f c)) (ad_recovery d))"
    unfolding usableCodes_def rows filter_map by (simp add: comp_def)
  have imp: "?P (?f c) \<Longrightarrow> ?P c" for c
    using not_zero_seconds [OF assms(2)] by (auto split: if_splits)
  have "length (filter (\<lambda>c. ?P (?f c)) xs) \<le> length (filter ?P xs)" for xs
    by (induction xs) (use imp in force)+
  then show "length (usableCodes u h d1) \<le> length (usableCodes u h d)"
    unfolding eq unfolding usableCodes_def .
  assume all: "\<forall>c \<in> set (ad_recovery d). rv_id c = i \<longrightarrow> rv_userID c = u \<and> rv_hash c = h"
  obtain c where c: "c \<in> set (ad_recovery d)" "rv_id c = i" "is_zero (rv_usedAt c)" using hit by blast
  have "?P c" using c all by blast
  moreover have "\<not> ?P (?f c)" using c not_zero_seconds [OF assms(2)] by simp
  ultimately show "length (usableCodes u h d1) < length (usableCodes u h d)"
    unfolding eq unfolding usableCodes_def using length_filter_less [OF c(1), of ?P "\<lambda>c. ?P (?f c)", OF _ _ imp] by blast
qed

lemma acceptances_bounded:
  assumes "pending_ok mac pepper s" and "codes_wf (fst s)" and "timed es"
  shows "acceptances mac pepper u code es s \<le> length (usableCodes u (hashCode mac pepper code) (fst s))"
  using assms
proof (induction es arbitrary: s)
  case (Cons e es)
  have es: "timed es" using Cons.prems(3) by (simp add: timed_def)
  show ?case
  proof (cases e)
    case (Lookup k v c)
    have l: "pending_ok mac pepper (lookupCode mac pepper k v c s)" "fst (lookupCode mac pepper k v c s) = fst s"
      using lookup_pending [OF Cons.prems(1,2)] by blast+
    show ?thesis using Cons.IH [OF l(1) _ es] Cons.prems(2) l(2) Lookup by simp
  next
    case (Mark k now)
    have now: "nanos_per_second \<le> now" using Cons.prems(3) Mark by (simp add: timed_def)
    show ?thesis
    proof (cases "map_of (snd s) k")
      case None
      then show ?thesis using Cons.IH [OF Cons.prems(1,2) es] Mark by (simp add: markCode_def)
    next
      case (Some p)
      obtain v c i where p: "p = (v, c, i)" by (cases p)
      obtain er d1 where m: "recoveryMarkUsed i now (fst s) = (er, d1)" by (rule prod.exhaust)
      let ?ps = "filter (\<lambda>(j, x). j \<noteq> k) (snd s)"
      have step: "markCode k now s = (if er = None then Some (v, c) else None, (d1, ?ps))"
        using Some p m by (simp add: markCode_def)
      have ok: "pending_ok mac pepper (fst s, ?ps)" using Cons.prems(1) by (auto simp: pending_ok_def)
      have inv: "pending_ok mac pepper (d1, ?ps)" "codes_wf d1"
        using mark_pending [OF ok, of i now] mark_wf [OF Cons.prems(2), of i now] m by simp_all
      have entry: "\<forall>x \<in> set (ad_recovery (fst s)). rv_id x = i \<longrightarrow> rv_userID x = v \<and> rv_hash x = hashCode mac pepper c"
        using Cons.prems(1) map_of_SomeD [OF Some] p unfolding pending_ok_def by fastforce
      note ih = Cons.IH [OF inv(1) _ es, unfolded fst_conv, OF inv(2)]
      show ?thesis
      proof (cases er)
        case None
        note le = mark_usable [OF m [unfolded None] now]
        show ?thesis
          using ih le(1) [of u "hashCode mac pepper code"] le(2) [of v "hashCode mac pepper c"] entry Mark step None by auto
      next
        case (Some x)
        then show ?thesis using ih mark_failed m Mark step by fastforce
      qed
    qed
  qed
qed simp

lemma count_distinct:
  "distinct (map k xs) \<Longrightarrow> length (filter (\<lambda>x. k x = h \<and> P x) xs) \<le> (if h \<in> k ` set xs then 1 else 0)"
proof (induction xs)
  case (Cons x xs)
  moreover have "h \<notin> k ` set xs \<Longrightarrow> filter (\<lambda>x. k x = h \<and> P x) xs = []" by (auto simp: filter_empty_conv)
  ultimately show ?case by (auto split: if_splits)
qed simp

lemma saved_rows:
  assumes "recoverySave now cs d = (None, d1)"
  shows "\<exists>rows. ad_recovery d1 = ad_recovery d @ rows \<and> map rv_hash rows = map rv_hash cs \<and>
    map rv_id rows = map (\<lambda>i. ad_recovery_seq d + 1 + int i) [0..<length cs] \<and>
    ad_recovery_seq d1 = ad_recovery_seq d + int (length cs)"
proof (cases "cs = []")
  case False
  let ?row = "\<lambda>(i, c). c\<lparr>rv_id := ad_recovery_seq d + 1 + int i,
    rv_createdAt := to_seconds (orNow now (rv_createdAt c)), rv_usedAt := nullable (rv_usedAt c)\<rparr>"
  let ?rows = "map ?row (zip [0..<length cs] cs)"
  have "ad_recovery d1 = ad_recovery d @ ?rows" "ad_recovery_seq d1 = ad_recovery_seq d + int (length cs)"
    using assms False by (auto simp: recoverySave_def split: if_splits)
  moreover have "map rv_hash ?rows = map rv_hash (map snd (zip [0..<length cs] cs))"
    "map rv_id ?rows = map (\<lambda>i. ad_recovery_seq d + 1 + int i) (map fst (zip [0..<length cs] cs))"
    by (simp_all add: case_prod_unfold comp_def del: map_fst_zip map_snd_zip)
  ultimately show ?thesis by (intro exI [of _ ?rows]) simp
qed (use assms in \<open>simp add: recoverySave_def\<close>)

lemma saved_wf:
  assumes "recoverySave now cs d = (None, d1)" and "codes_wf d"
  shows "codes_wf d1"
proof -
  obtain rows where r: "ad_recovery d1 = ad_recovery d @ rows"
    "map rv_id rows = map (\<lambda>i. ad_recovery_seq d + 1 + int i) [0..<length cs]"
    "ad_recovery_seq d1 = ad_recovery_seq d + int (length cs)" using saved_rows [OF assms(1)] by blast
  have ids: "rv_id ` set rows = (\<lambda>i. ad_recovery_seq d + 1 + int i) ` {0..<length cs}"
    using arg_cong [OF r(2), of set] by simp
  have "distinct (map rv_id rows)" unfolding r(2) by (simp add: distinct_map inj_on_def)
  moreover have "rv_id ` set (ad_recovery d) \<inter> rv_id ` set rows = {}"
    using assms(2) unfolding ids codes_wf_def by force
  moreover have "\<forall>c \<in> set rows. rv_id c \<le> ad_recovery_seq d + int (length cs)"
    using ids by force
  ultimately show ?thesis using assms(2) by (fastforce simp: codes_wf_def r)
qed

text \<open>C22: a recovery code works once.  After a successful generation, in any interleaving of the
  statements of any number of requests that try codes, each generated code is accepted at most
  once for its user, and a code whose hash is none of the generated ones is never accepted.\<close>

theorem recovery_code_once:
  assumes "generateCodes mac pepper now draws u d = (Inr codes, d1)" and "codes_wf d"
    and "distinct (map (hashCode mac pepper) codes)" and "timed es"
  shows "acceptances mac pepper u code es (d1, []) \<le> (if hashCode mac pepper code \<in> hashCode mac pepper ` set codes then 1 else 0)"
proof -
  let ?h = "hashCode mac pepper"
  let ?d0 = "d\<lparr>ad_recovery := filter (\<lambda>c. rv_userID c \<noteq> u) (ad_recovery d)\<rparr>"
  obtain cs where save: "recoverySave now cs ?d0 = (None, d1)" and cs: "map rv_hash cs = map ?h codes"
    using assms(1)
    by (auto simp: generateCodes_def recoveryDeleteAll_def Let_def comp_def split: if_splits prod.splits option.splits)
  have wf: "codes_wf ?d0" using assms(2) by (auto simp: codes_wf_def distinct_map_filter)
  obtain rows where r: "ad_recovery d1 = ad_recovery ?d0 @ rows" "map rv_hash rows = map ?h codes"
    using saved_rows [OF save] cs by auto
  have "filter (\<lambda>c. rv_userID c = u \<and> rv_hash c = ?h code \<and> is_zero (rv_usedAt c)) (ad_recovery ?d0) = []"
    by (auto simp: filter_empty_conv)
  then have "length (usableCodes u (?h code) d1) =
    length (filter (\<lambda>c. rv_userID c = u \<and> rv_hash c = ?h code \<and> is_zero (rv_usedAt c)) rows)"
    by (simp add: usableCodes_def r(1))
  also have "\<dots> = length (filter (\<lambda>c. rv_hash c = ?h code \<and> (rv_userID c = u \<and> is_zero (rv_usedAt c))) rows)"
    by (rule arg_cong [where f = length], rule filter_cong) auto
  also have "\<dots> \<le> (if ?h code \<in> rv_hash ` set rows then 1 else 0)"
    by (rule count_distinct) (use r(2) assms(3) in simp)
  finally have "length (usableCodes u (?h code) d1) \<le> (if ?h code \<in> ?h ` set codes then 1 else 0)"
    using arg_cong [OF r(2), of set] by simp
  moreover have "acceptances mac pepper u code es (d1, []) \<le> length (usableCodes u (?h code) d1)"
    using acceptances_bounded [of mac pepper "(d1, [])" es u code] saved_wf [OF save wf] assms(4)
    by (simp add: pending_ok_def)
  ultimately show ?thesis by (rule order_trans [rotated])
qed

text \<open>Two requests race for the same code.\<close>

theorem recovery_code_once_witness:
  "acceptances (\<lambda>p s. map of_char s) [] 1 ''AA'' [Lookup 1 1 ''AA'', Lookup 2 1 ''AA'', Mark 1 (timeOf 9), Mark 2 (timeOf 9)]
     (snd (generateCodes (\<lambda>p s. map of_char s) [] (timeOf 8) (Some [[0], [255]]) 1 sample_auth_db), []) \<le> 1"
proof -
  let ?g = "generateCodes (\<lambda>p s. map of_char s) [] (timeOf 8) (Some [[0], [255]]) 1 sample_auth_db"
  have codes: "fst ?g = Inr [''AA'', ''_w'']"
    by (simp add: generateCodes_def recoveryDeleteAll_def recoverySave_def sample_auth_db_def recoveryCodeCount_def
        formatRecoveryCode_def url_char_def url_alphabet_def)
  obtain d1 where g: "?g = (Inr [''AA'', ''_w''], d1)" using codes by (cases ?g) simp
  have wf: "codes_wf sample_auth_db" by (simp add: codes_wf_def sample_auth_db_def)
  have dist: "distinct (map (hashCode (\<lambda>p s. map of_char s) []) [''AA'', ''_w''])"
    by (simp add: hashCode_def hex_encode_def hex_digits_def)
  have "timed [Lookup 1 1 ''AA'', Lookup 2 1 ''AA'', Mark 1 (timeOf 9), Mark 2 (timeOf 9)]"
    by (simp add: timed_def timeOf_def unix_epoch_def)
  from recovery_code_once [OF g wf dist this, where code = "''AA''"] show ?thesis by (simp add: g split: if_splits)
qed

end
