(* ===== verification/Auth_Http.thy ===== *)
theory Auth_Http
  imports Second_Factor
begin

text \<open>
  Who is calling: the client address (authz/authz.go), the network identity providers
  (authz/identity.go) and the middleware of httpapi/httpapi.go that turns a request into an
  identity and checks CSRF token, role and assurance.  All dependencies of the server are wired,
  as cmd/forge/main.go does it.  Parsing and printing of addresses, the WhoIs service, the
  hashes and base32 are fields of an environment; a request is its method, its headers, the host
  part of its peer address and its session cookie.
\<close>

section \<open>Addresses\<close>

datatype ip = IP4 "32 word" | IP6 "128 word" string

record ip_prefix =
  px_addr :: ip
  px_bits :: nat

text \<open>\<open>IsLoopback\<close> sees through an IPv4 address mapped into IPv6.\<close>

fun isLoopback :: "ip \<Rightarrow> bool" where
  "isLoopback (IP4 w) \<longleftrightarrow> drop_bit 24 w = 127"
| "isLoopback (IP6 w z) \<longleftrightarrow>
     (if drop_bit 32 w = 0xFFFF then drop_bit 24 (ucast w :: 32 word) = 127 else w = 1)"

fun prefixContains :: "ip_prefix \<Rightarrow> ip \<Rightarrow> bool" where
  "prefixContains p (IP4 w) =
     (case px_addr p of IP4 v \<Rightarrow> drop_bit (32 - px_bits p) (w XOR v) = 0 | IP6 v z \<Rightarrow> False)"
| "prefixContains p (IP6 w z) =
     (case px_addr p of IP4 v \<Rightarrow> False | IP6 v z' \<Rightarrow> z = [] \<and> drop_bit (128 - px_bits p) (w XOR v) = 0)"

definition tailnetCGNAT :: ip_prefix where
  "tailnetCGNAT = \<lparr>px_addr = IP4 0x64400000, px_bits = 10\<rparr>"

definition isTailnetAddr :: "ip \<Rightarrow> bool" where
  "isTailnetAddr a = (case a of IP4 w \<Rightarrow> prefixContains tailnetCGNAT a | IP6 w z \<Rightarrow> False)"

definition effectiveRemoteAddr :: "(string \<Rightarrow> ip option) \<Rightarrow> ip \<Rightarrow> string \<Rightarrow> ip" where
  "effectiveRemoteAddr parse remote xff =
     (if \<not> isLoopback remote \<or> xff = [] then remote
      else case parse (trim_space (hd (split_on (CHR '','') xff))) of None \<Rightarrow> remote | Some a \<Rightarrow> a)"

definition parseCIDRs :: "(string \<Rightarrow> ip_prefix option) \<Rightarrow> string \<Rightarrow> ip_prefix list" where
  "parseCIDRs parsePrefix raw = List.map_filter (\<lambda>s. let t = trim_space s in if t = [] then None else parsePrefix t)
     (split_on (CHR '','') raw)"

section \<open>Requests and the server's environment\<close>

record http_request =
  rq_method :: string
  rq_header :: "string \<Rightarrow> string"
  rq_peer :: string
  rq_cookie :: string

datatype network_provider =
    NoNetworkIdentity
  | TailscaleIdentityProvider
  | ForwardAuthHeaderProvider string "ip_prefix list"

record auth_env =
  ev_verify :: "string \<Rightarrow> string \<Rightarrow> bool option"
  ev_parseAddr :: "string \<Rightarrow> ip option"
  ev_addrString :: "ip \<Rightarrow> string"
  ev_whois :: "string \<Rightarrow> string option"
  ev_provider :: network_provider
  ev_stepUpTTL :: duration
  ev_networkRole :: string
  ev_mac :: keyed_hash
  ev_pepper :: "8 word list"
  ev_hmac :: hmac_sha1
  ev_base32 :: "string \<Rightarrow> 8 word list option"

definition has_prefix :: "string \<Rightarrow> string \<Rightarrow> bool" where
  "has_prefix p s \<longleftrightarrow> take (length p) s = p"

definition bearerToken :: "http_request \<Rightarrow> string" where
  "bearerToken r =
     (let v = rq_header r ''Authorization'' in
      if \<not> has_prefix ''Bearer '' v then [] else trim_space (drop 7 v))"

definition effectiveClientIP :: "auth_env \<Rightarrow> http_request \<Rightarrow> string" where
  "effectiveClientIP env r =
     (case ev_parseAddr env (rq_peer r) of None \<Rightarrow> rq_peer r
      | Some a \<Rightarrow> ev_addrString env (effectiveRemoteAddr (ev_parseAddr env) a (rq_header r ''X-Forwarded-For'')))"

section \<open>Network identity\<close>

definition providerName :: "network_provider \<Rightarrow> string" where
  "providerName p = (case p of NoNetworkIdentity \<Rightarrow> ''none'' | TailscaleIdentityProvider \<Rightarrow> ''tailscale''
     | ForwardAuthHeaderProvider h cs \<Rightarrow> ''forward_auth_header'')"

definition tailscaleIdentify :: "auth_env \<Rightarrow> http_request \<Rightarrow> string option" where
  "tailscaleIdentify env r =
     (case ev_parseAddr env (rq_peer r) of None \<Rightarrow> None
      | Some a \<Rightarrow>
        (let eff = effectiveRemoteAddr (ev_parseAddr env) a (rq_header r ''X-Forwarded-For'') in
         if \<not> isTailnetAddr eff then None
         else case ev_whois env (ev_addrString env eff @ '':0'') of None \<Rightarrow> None
           | Some l \<Rightarrow> if l = [] then None else Some l))"

definition forwardAuthIdentify :: "auth_env \<Rightarrow> string \<Rightarrow> ip_prefix list \<Rightarrow> http_request \<Rightarrow> string option" where
  "forwardAuthIdentify env headerName cidrs r =
     (if cidrs = [] then None
      else case ev_parseAddr env (rq_peer r) of None \<Rightarrow> None
        | Some peer \<Rightarrow>
          if \<not> list_ex (\<lambda>c. prefixContains c peer) cidrs then None
          else
            (let h = (if headerName = [] then ''X-Auth-Request-User'' else headerName);
                 p = trim_space (rq_header r h)
             in if p = [] then None else Some p))"

definition identify :: "auth_env \<Rightarrow> http_request \<Rightarrow> string option" where
  "identify env r = (case ev_provider env of NoNetworkIdentity \<Rightarrow> None
     | TailscaleIdentityProvider \<Rightarrow> tailscaleIdentify env r
     | ForwardAuthHeaderProvider h cs \<Rightarrow> forwardAuthIdentify env h cs r)"

section \<open>Authentication\<close>

text \<open>How a request ends before its handler; \<open>Aborted\<close> is a panic of the handler's goroutine.\<close>

datatype refusal = Refused nat string | StepUpNeeded string string | Aborted

definition authRequired :: refusal where
  "authRequired = Refused 401 ''auth_required''"

text \<open>The zero value of the session row stands for no session.\<close>

definition no_session :: session where
  "no_session = \<lparr>se_id = [], se_userID = 0, se_csrf = [], se_createdAt = 0, se_expiresAt = 0,
     se_lastSeenAt = 0, se_remoteAddr = [], se_userAgent = [], se_assurance = [], se_assuranceAt = 0,
     se_principal = []\<rparr>"

definition resolveSession ::
    "time \<Rightarrow> http_request \<Rightarrow> authorizer \<Rightarrow> (refusal + identity \<times> session) \<times> authorizer" where
  "resolveSession now r a =
     (case verifySession now (rq_cookie r) a of
        (Inl e, a1) \<Rightarrow> (Inl authRequired, a1)
      | (Inr i, a1) \<Rightarrow>
        (case sessionsGet (rq_cookie r) (au_db a1) of
           Inl e \<Rightarrow> (Inl authRequired, a1)
         | Inr s \<Rightarrow> (Inr (i, s), a1)))"

text \<open>The bytes of the two random tokens are arguments; the third part of the result is the
  cookie set on the response.\<close>

definition createNetworkSession ::
    "time \<Rightarrow> 8 word list option \<Rightarrow> 8 word list option \<Rightarrow> http_request \<Rightarrow> int \<Rightarrow> string \<Rightarrow> authorizer \<Rightarrow>
     ((refusal + identity \<times> session) \<times> session option) \<times> authorizer" where
  "createNetworkSession now sb cb r userID princ a =
     (case identityByID userID a of
        Inl e \<Rightarrow> ((Inl authRequired, None), a)
      | Inr i \<Rightarrow>
        (case (randToken sb, randToken cb) of
           (Some sid, Some csrf) \<Rightarrow>
             (let s = \<lparr>se_id = sid, se_userID = userID, se_csrf = csrf, se_createdAt = now,
                  se_expiresAt = now + 7 * 24 * 60 * nanos_per_minute, se_lastSeenAt = now,
                  se_remoteAddr = rq_peer r, se_userAgent = rq_header r ''User-Agent'',
                  se_assurance = ''network'', se_assuranceAt = now, se_principal = princ\<rparr> in
              case onDb (sessionsCreate now s) a of
                (Some e, a1) \<Rightarrow> ((Inl (Refused 500 ''operation_failed''), None), a1)
              | (None, a1) \<Rightarrow>
                ((Inr (i\<lparr>id_assurance := ''network'', id_assuranceAt := now, id_principal := princ\<rparr>, s), Some s), a1))
         | _ \<Rightarrow> ((Inl (Refused 500 ''operation_failed''), None), a)))"

definition bootstrapNetworkIdentity ::
    "auth_env \<Rightarrow> time \<Rightarrow> 8 word list option \<Rightarrow> 8 word list option \<Rightarrow> http_request \<Rightarrow> authorizer \<Rightarrow>
     ((refusal + identity \<times> session) \<times> session option) \<times> authorizer" where
  "bootstrapNetworkIdentity env now sb cb r a =
     (case identify env r of
        None \<Rightarrow> ((Inl authRequired, None), a)
      | Some p \<Rightarrow>
        (let anonymous = ((Inr (\<lparr>id_name = p,
               id_role = (if ev_networkRole env = [] then ''viewer'' else ev_networkRole env), id_keyID = [],
               id_kind = [], id_display = [], id_assurance = ''network'', id_assuranceAt = 0,
               id_principal = p\<rparr>, no_session), None), a) in
         case linksLookup (providerName (ev_provider env)) p (au_db a) of
           Inr u \<Rightarrow> if 0 < u then createNetworkSession now sb cb r u p a else anonymous
         | Inl StoreNotFound \<Rightarrow> anonymous
         | Inl e \<Rightarrow> ((Inl authRequired, None), a)))"

section \<open>CSRF\<close>

definition csrfOK :: "http_request \<Rightarrow> auth_db \<Rightarrow> bool" where
  "csrfOK r d =
     (if rq_cookie r = [] then False
      else case sessionsGet (rq_cookie r) d of Inl e \<Rightarrow> False
        | Inr s \<Rightarrow> se_csrf s \<noteq> [] \<and> se_csrf s = rq_header r ''X-CSRF-Token'')"

definition csrfOKForSession :: "http_request \<Rightarrow> session \<Rightarrow> auth_db \<Rightarrow> bool" where
  "csrfOKForSession r s d =
     (if se_id s = [] then csrfOK r d
      else if se_csrf s = [] then False else se_csrf s = rq_header r ''X-CSRF-Token'')"

section \<open>The middleware\<close>

text \<open>The switch at the head of \<open>withAuth\<close>.\<close>

definition whoCalls ::
    "auth_env \<Rightarrow> time \<Rightarrow> 8 word list option \<Rightarrow> 8 word list option \<Rightarrow> http_request \<Rightarrow> authorizer \<Rightarrow>
     ((refusal + identity \<times> session) \<times> session option) \<times> authorizer" where
  "whoCalls env now sb cb r a =
     (if bearerToken r \<noteq> [] then
        (case verifyBearerFrom (ev_verify env) now (effectiveClientIP env r) (bearerToken r) ''forge'' a of
           (Inl e, a1) \<Rightarrow> ((Inl authRequired, None), a1)
         | (Inr i, a1) \<Rightarrow> ((Inr (i, no_session), None), a1))
      else if rq_cookie r \<noteq> [] then (case resolveSession now r a of (w, a1) \<Rightarrow> ((w, None), a1))
      else bootstrapNetworkIdentity env now sb cb r a)"

definition withAuth ::
    "auth_env \<Rightarrow> time \<Rightarrow> 8 word list option \<Rightarrow> 8 word list option \<Rightarrow> http_request \<Rightarrow> authorizer \<Rightarrow>
     ((refusal + identity \<times> session) \<times> session option) \<times> authorizer" where
  "withAuth env now sb cb r a =
     (case whoCalls env now sb cb r a of
        ((Inl e, cookie), a1) \<Rightarrow> ((Inl e, cookie), a1)
      | ((Inr (i, s), cookie), a1) \<Rightarrow>
        if rq_method r \<noteq> ''GET'' \<and> rq_method r \<noteq> ''HEAD'' \<and> bearerToken r = [] \<and>
           \<not> csrfOKForSession r s (au_db a1)
        then ((Inl (Refused 403 ''CSRF token missing or invalid''), cookie), a1)
        else ((Inr (i, s), cookie), a1))"

definition evaluateAssurance ::
    "auth_env \<Rightarrow> time \<Rightarrow> identity \<Rightarrow> string \<Rightarrow> authorizer \<Rightarrow> (policy_error + decision) \<times> authorizer" where
  "evaluateAssurance env now i res a =
     (case onDb policyLoad a of
        (Inl e, a1) \<Rightarrow> (Inl e, a1)
      | (Inr p, a1) \<Rightarrow>
        (Inr (evaluate p (stepUpTTL (ev_stepUpTTL env)) now res (id_assurance i) (id_assuranceAt i)), a1))"

definition requireRole :: "string \<Rightarrow> identity \<Rightarrow> refusal option" where
  "requireRole need i = (if roleAllows (id_role i) need then None else Some (Refused 403 (need @ '' role required'')))"

definition requireStrictAssurance ::
    "auth_env \<Rightarrow> time \<Rightarrow> string \<Rightarrow> identity \<Rightarrow> authorizer \<Rightarrow> refusal option \<times> authorizer" where
  "requireStrictAssurance env now res i a =
     (case evaluateAssurance env now i res a of
        (Inl PolicyPanic, a1) \<Rightarrow> (Some Aborted, a1)
      | (Inl e, a1) \<Rightarrow> (Some (Refused 500 ''operation_failed''), a1)
      | (Inr d, a1) \<Rightarrow> (if de_allowed d then None else Some (StepUpNeeded (de_required d) (de_resource d)), a1))"

definition requireAssurance ::
    "auth_env \<Rightarrow> time \<Rightarrow> string \<Rightarrow> identity \<Rightarrow> authorizer \<Rightarrow> refusal option \<times> authorizer" where
  "requireAssurance env now res i a =
     (if id_keyID i \<noteq> [] then (None, a)
      else
        (case evaluateAssurance env now i res a of
           (Inl PolicyPanic, a1) \<Rightarrow> (Some Aborted, a1)
         | (Inl e, a1) \<Rightarrow> (Some (Refused 500 ''operation_failed''), a1)
         | (Inr d, a1) \<Rightarrow> (if de_allowed d then None else Some (StepUpNeeded (de_required d) (de_resource d)), a1)))"

section \<open>Routes\<close>

text \<open>The wrappers around a handler, outermost first.\<close>

datatype guard = Role string | Assurance string | StrictAssurance string

record route =
  rt_method :: string
  rt_path :: string
  rt_guards :: "guard list"

fun runGuards :: "auth_env \<Rightarrow> time \<Rightarrow> guard list \<Rightarrow> identity \<Rightarrow> authorizer \<Rightarrow> refusal option \<times> authorizer" where
  "runGuards env now [] i a = (None, a)"
| "runGuards env now (Role need # gs) i a =
     (case requireRole need i of Some e \<Rightarrow> (Some e, a) | None \<Rightarrow> runGuards env now gs i a)"
| "runGuards env now (Assurance res # gs) i a =
     (case requireAssurance env now res i a of (Some e, a1) \<Rightarrow> (Some e, a1) | (None, a1) \<Rightarrow> runGuards env now gs i a1)"
| "runGuards env now (StrictAssurance res # gs) i a =
     (case requireStrictAssurance env now res i a of
        (Some e, a1) \<Rightarrow> (Some e, a1) | (None, a1) \<Rightarrow> runGuards env now gs i a1)"

text \<open>A request on a route: the identity and session its handler sees, or the refusal.\<close>

definition reachHandler ::
    "auth_env \<Rightarrow> time \<Rightarrow> 8 word list option \<Rightarrow> 8 word list option \<Rightarrow> route \<Rightarrow> http_request \<Rightarrow> authorizer \<Rightarrow>
     ((refusal + identity \<times> session) \<times> session option) \<times> authorizer" where
  "reachHandler env now sb cb rt r a =
     (case withAuth env now sb cb r a of
        ((Inl e, ck), a1) \<Rightarrow> ((Inl e, ck), a1)
      | ((Inr (i, s), ck), a1) \<Rightarrow>
        (case runGuards env now (rt_guards rt) i a1 of
           (Some e, a2) \<Rightarrow> ((Inl e, ck), a2)
         | (None, a2) \<Rightarrow> ((Inr (i, s), ck), a2)))"

end
