(* ===== verification/Auth_Routes.thy ===== *)
theory Auth_Routes
  imports Auth_Http
begin

text \<open>
  The table of \<open>registerV1Routes\<close> in httpapi/httpapi.go: every route of the dashboard API that is
  mounted behind \<open>withAuth\<close>, with the wrappers around its handler.  Which route a request
  takes is the business of the standard library's mux and not modelled.
\<close>

abbreviation open_to :: "string \<Rightarrow> string \<Rightarrow> route" where
  "open_to m p \<equiv> \<lparr>rt_method = m, rt_path = p, rt_guards = []\<rparr>"

abbreviation operator_only :: "string \<Rightarrow> string \<Rightarrow> route" where
  "operator_only m p \<equiv> \<lparr>rt_method = m, rt_path = p, rt_guards = [Role ''operator'']\<rparr>"

abbreviation admin_only :: "string \<Rightarrow> string \<Rightarrow> route" where
  "admin_only m p \<equiv> \<lparr>rt_method = m, rt_path = p, rt_guards = [Role ''admin'']\<rparr>"

abbreviation operator_with :: "string \<Rightarrow> string \<Rightarrow> string \<Rightarrow> route" where
  "operator_with res m p \<equiv> \<lparr>rt_method = m, rt_path = p, rt_guards = [Role ''operator'', Assurance res]\<rparr>"

abbreviation admin_with :: "string \<Rightarrow> string \<Rightarrow> string \<Rightarrow> route" where
  "admin_with res m p \<equiv> \<lparr>rt_method = m, rt_path = p, rt_guards = [Role ''admin'', Assurance res]\<rparr>"

definition readRoutes :: "route list" where
  "readRoutes = [
    open_to ''GET'' ''/api/v1/session'',
    open_to ''GET'' ''/api/v1/status'',
    open_to ''GET'' ''/api/v1/metrics'',
    open_to ''GET'' ''/api/v1/scheduler/status'',
    open_to ''GET'' ''/api/v1/scheduler/could-load'',
    open_to ''GET'' ''/api/v1/infra-services'',
    open_to ''GET'' ''/api/v1/usage'',
    open_to ''GET'' ''/api/v1/usage/events'',
    open_to ''GET'' ''/api/v1/usage/heatmap'',
    open_to ''GET'' ''/api/v1/models/cards'',
    open_to ''GET'' ''/api/v1/configs/cards'',
    operator_with ''page.settings'' ''GET'' ''/api/v1/scheduler/config'',
    operator_with ''page.settings'' ''GET'' ''/api/v1/router/settings'',
    operator_with ''page.settings'' ''GET'' ''/api/v1/routing/preview'',
    open_to ''GET'' ''/api/v1/notifications'',
    operator_only ''POST'' ''/api/v1/notifications/{id}/ack'',
    operator_only ''POST'' ''/api/v1/notifications/{id}/dismiss'',
    operator_only ''POST'' ''/api/v1/notifications/ack-all'',
    operator_only ''GET'' ''/api/v1/context/creation'',
    operator_only ''GET'' ''/api/v1/context/creation/metrics'',
    open_to ''GET'' ''/api/v1/favorites'',
    open_to ''PUT'' ''/api/v1/favorites/{subject_type}/{id}'',
    open_to ''DELETE'' ''/api/v1/favorites/{subject_type}/{id}'',
    operator_only ''GET'' ''/api/v1/smith/status'',
    operator_only ''POST'' ''/api/v1/smith/checks/run'',
    operator_only ''GET'' ''/api/v1/smith/findings'',
    operator_only ''POST'' ''/api/v1/smith/findings/purge'']"

definition assistantRoutes :: "route list" where
  "assistantRoutes = [
    operator_only ''GET'' ''/api/v1/smith/investigations'',
    operator_only ''POST'' ''/api/v1/smith/investigations'',
    operator_only ''GET'' ''/api/v1/smith/investigations/{id}'',
    operator_only ''POST'' ''/api/v1/smith/investigations/{id}/checks'',
    operator_only ''PATCH'' ''/api/v1/smith/investigations/{id}'',
    operator_only ''GET'' ''/api/v1/smith/checks'',
    operator_only ''GET'' ''/api/v1/smith/actions'',
    operator_with ''action.smith.execute'' ''POST'' ''/api/v1/smith/actions'',
    operator_only ''GET'' ''/api/v1/smith/actions/{id}'',
    operator_with ''action.smith.execute'' ''POST'' ''/api/v1/smith/actions/{id}/approve'',
    operator_only ''POST'' ''/api/v1/smith/actions/{id}/reject'',
    operator_only ''POST'' ''/api/v1/smith/actions/{id}/handoff'',
    operator_only ''POST'' ''/api/v1/smith/actions/{id}/recheck'',
    operator_only ''POST'' ''/api/v1/smith/actions/{id}/check-now'',
    operator_only ''GET'' ''/api/v1/smith/actions/{id}/procedure'',
    operator_with ''action.smith.execute'' ''POST'' ''/api/v1/smith/actions/{id}/procedure/checkpoint/approve'',
    operator_only ''POST'' ''/api/v1/smith/actions/{id}/procedure/checkpoint/abort'',
    operator_only ''GET'' ''/api/v1/smith/actions/{id}/procedure_preview'',
    operator_with ''action.smith.execute'' ''POST'' ''/api/v1/smith/actions/{id}/procedurize'',
    operator_only ''GET'' ''/api/v1/smith/procedures/runs'',
    operator_only ''GET'' ''/api/v1/smith/actions/{id}/procedure/scorecard'',
    operator_only ''GET'' ''/api/v1/smith/autonomy'',
    operator_only ''PUT'' ''/api/v1/smith/autonomy'',
    operator_only ''GET'' ''/api/v1/maintenance'',
    operator_with ''action.smith.execute'' ''POST'' ''/api/v1/maintenance'',
    operator_with ''action.smith.execute'' ''DELETE'' ''/api/v1/maintenance'',
    operator_only ''GET'' ''/api/v1/smith/conversations'',
    operator_only ''POST'' ''/api/v1/smith/conversations'',
    operator_only ''GET'' ''/api/v1/smith/conversations/{id}'',
    operator_only ''DELETE'' ''/api/v1/smith/conversations/{id}'',
    operator_only ''POST'' ''/api/v1/smith/chat'',
    operator_with ''action.smith.execute'' ''POST'' ''/api/v1/smith/capability-tiers/propose'',
    operator_only ''GET'' ''/api/v1/smith/settings'',
    operator_only ''PUT'' ''/api/v1/smith/settings'',
    operator_only ''GET'' ''/api/v1/voice/settings'',
    operator_only ''PUT'' ''/api/v1/voice/settings'',
    operator_only ''GET'' ''/api/v1/voice/list'',
    operator_only ''POST'' ''/api/v1/smith/investigations/{id}/analyze'']"

definition settingsRoutes :: "route list" where
  "settingsRoutes = [
    operator_only ''GET'' ''/api/v1/smith/kb/search'',
    operator_only ''GET'' ''/api/v1/smith/kb/blocked'',
    operator_only ''GET'' ''/api/v1/smith/kb/{ref}'',
    operator_only ''POST'' ''/api/v1/smith/web/probe'',
    operator_only ''POST'' ''/api/v1/smith/sourcing/evaluate'',
    open_to ''GET'' ''/api/v1/metrics/history'',
    open_to ''GET'' ''/api/v1/metrics/export'',
    operator_only ''GET'' ''/api/v1/cost/summary'',
    operator_only ''GET'' ''/api/v1/cost/energy-history'',
    operator_with ''page.settings'' ''GET'' ''/api/v1/cost/settings'',
    admin_with ''page.settings'' ''PUT'' ''/api/v1/cost/settings'',
    operator_only ''GET'' ''/api/v1/compressor/summary'',
    operator_with ''page.settings'' ''GET'' ''/api/v1/router/config'',
    admin_with ''page.settings'' ''PUT'' ''/api/v1/router/config'',
    operator_with ''page.settings'' ''GET'' ''/api/v1/monitor/settings'',
    admin_with ''page.settings'' ''PUT'' ''/api/v1/monitor/settings'',
    operator_with ''page.settings'' ''GET'' ''/api/v1/metrics/settings'',
    admin_with ''page.settings'' ''PUT'' ''/api/v1/metrics/settings'',
    operator_with ''page.settings'' ''GET'' ''/api/v1/ui/settings'',
    admin_with ''page.settings'' ''PUT'' ''/api/v1/ui/settings'',
    operator_with ''page.settings'' ''GET'' ''/api/v1/service-icons'',
    admin_with ''page.settings'' ''PUT'' ''/api/v1/service-icons'',
    operator_with ''page.settings'' ''GET'' ''/api/v1/service-links'',
    admin_with ''page.settings'' ''PUT'' ''/api/v1/service-links'',
    operator_with ''page.settings'' ''GET'' ''/api/v1/dashboard/layout'',
    admin_with ''page.settings'' ''PUT'' ''/api/v1/dashboard/layout'',
    operator_with ''page.settings'' ''GET'' ''/api/v1/scheduler/seed'',
    admin_with ''page.settings'' ''PUT'' ''/api/v1/scheduler/seed'',
    admin_with ''area.settings.system'' ''GET'' ''/api/v1/system/settings'',
    admin_with ''area.settings.system'' ''PUT'' ''/api/v1/system/settings'',
    admin_with ''area.settings.system'' ''POST'' ''/api/v1/system/preflight'',
    admin_with ''action.system.restart'' ''POST'' ''/api/v1/system/restart'',
    operator_only ''GET'' ''/api/v1/providers'',
    admin_with ''area.settings.provider_keys'' ''POST'' ''/api/v1/providers'',
    admin_with ''area.settings.provider_keys'' ''PUT'' ''/api/v1/providers/{ref}'',
    admin_with ''area.settings.provider_keys'' ''PUT'' ''/api/v1/providers/{ref}/key'',
    admin_with ''area.settings.provider_keys'' ''DELETE'' ''/api/v1/providers/{ref}'',
    admin_with ''area.settings.provider_keys'' ''POST'' ''/api/v1/providers/{ref}/discover-billing'',
    operator_with ''page.settings'' ''GET'' ''/api/v1/billing/settings'',
    admin_with ''page.settings'' ''PUT'' ''/api/v1/billing/settings'',
    open_to ''POST'' ''/api/v1/auth/step-up'',
    open_to ''POST'' ''/api/v1/auth/webauthn/register/begin'',
    open_to ''POST'' ''/api/v1/auth/webauthn/register/finish'']"

definition accessRoutes :: "route list" where
  "accessRoutes = [
    open_to ''POST'' ''/api/v1/auth/webauthn/assert/begin'',
    open_to ''POST'' ''/api/v1/auth/webauthn/assert/finish'',
    open_to ''GET'' ''/api/v1/auth/webauthn/credentials'',
    open_to ''DELETE'' ''/api/v1/auth/webauthn/credentials/{id}'',
    open_to ''POST'' ''/api/v1/auth/totp/enroll'',
    open_to ''POST'' ''/api/v1/auth/totp/confirm'',
    open_to ''DELETE'' ''/api/v1/auth/totp'',
    open_to ''GET'' ''/api/v1/auth/recovery-codes'',
    \<lparr>rt_method = ''POST'', rt_path = ''/api/v1/auth/recovery-codes/generate'', rt_guards = [Assurance ''area.settings.security'']\<rparr>,
    open_to ''GET'' ''/api/v1/auth/identity-links'',
    admin_with ''area.settings.security'' ''POST'' ''/api/v1/auth/identity-links'',
    admin_with ''area.settings.security'' ''DELETE'' ''/api/v1/auth/identity-links/{provider}/{principal}'',
    admin_with ''area.settings.security'' ''GET'' ''/api/v1/keys'',
    admin_only ''POST'' ''/api/v1/keys'',
    \<lparr>rt_method = ''DELETE'', rt_path = ''/api/v1/keys/{keyid}'', rt_guards = [Role ''admin'', StrictAssurance ''area.settings.security'']\<rparr>,
    admin_with ''page.settings'' ''GET'' ''/api/v1/audit'',
    operator_with ''area.settings.security'' ''GET'' ''/api/v1/auth/policy'',
    admin_with ''area.settings.security'' ''PUT'' ''/api/v1/auth/policy'',
    operator_with ''area.settings.security'' ''GET'' ''/api/v1/auth/config'',
    admin_with ''area.settings.security'' ''PUT'' ''/api/v1/auth/config'',
    open_to ''GET'' ''/api/v1/reservations'',
    operator_only ''POST'' ''/api/v1/reservations'',
    operator_only ''PUT'' ''/api/v1/reservations/{label}'',
    operator_only ''DELETE'' ''/api/v1/reservations/{label}'',
    operator_only ''GET'' ''/api/v1/scheduler/jobs'',
    admin_only ''POST'' ''/api/v1/scheduler/jobs'',
    admin_only ''PUT'' ''/api/v1/scheduler/jobs/{id}'',
    admin_only ''DELETE'' ''/api/v1/scheduler/jobs/{id}'',
    operator_only ''POST'' ''/api/v1/scheduler/jobs/{id}/run-now'',
    admin_with ''page.settings'' ''PUT'' ''/api/v1/scheduler/config'',
    operator_only ''POST'' ''/api/v1/switch/{mode}'',
    operator_only ''POST'' ''/api/v1/load'',
    operator_only ''POST'' ''/api/v1/unload'',
    operator_only ''GET'' ''/api/v1/compressor/config'',
    operator_only ''POST'' ''/api/v1/compressor/restart'',
    admin_only ''POST'' ''/api/v1/compressor/proxy/teardown'',
    admin_only ''POST'' ''/api/v1/compressor/proxy/create'',
    admin_only ''POST'' ''/api/v1/compressor/proxy/migrate'',
    operator_only ''PUT'' ''/api/v1/compressor/passthrough'',
    operator_only ''POST'' ''/api/v1/service-mode/{name}/start'',
    operator_only ''POST'' ''/api/v1/service-mode/{name}/stop'',
    operator_only ''POST'' ''/api/v1/tts/start'',
    operator_only ''POST'' ''/api/v1/tts/stop'',
    operator_only ''POST'' ''/api/v1/stt/start'',
    operator_only ''POST'' ''/api/v1/stt/stop'',
    operator_only ''POST'' ''/api/v1/embedding/start'',
    operator_only ''POST'' ''/api/v1/embedding/stop'',
    operator_only ''POST'' ''/api/v1/aligner/start'',
    operator_only ''POST'' ''/api/v1/aligner/stop'',
    open_to ''GET'' ''/api/v1/modes'',
    admin_only ''POST'' ''/api/v1/modes'',
    admin_only ''PUT'' ''/api/v1/modes/{name}'',
    admin_only ''DELETE'' ''/api/v1/modes/{name}'',
    admin_with ''page.settings'' ''PUT'' ''/api/v1/router/settings'',
    open_to ''GET'' ''/api/v1/models/files'']"

definition catalogRoutes :: "route list" where
  "catalogRoutes = [
    open_to ''GET'' ''/api/v1/catalog/genealogies'',
    open_to ''GET'' ''/api/v1/catalog/genealogies/{id}'',
    admin_with ''page.settings'' ''POST'' ''/api/v1/catalog/genealogies'',
    admin_with ''page.settings'' ''PUT'' ''/api/v1/catalog/genealogies/{id}'',
    admin_with ''page.settings'' ''DELETE'' ''/api/v1/catalog/genealogies/{id}'',
    admin_with ''page.settings'' ''PUT'' ''/api/v1/catalog/genealogies/{id}/icon'',
    open_to ''GET'' ''/api/v1/catalog/families'',
    open_to ''GET'' ''/api/v1/catalog/families/{id}'',
    admin_with ''page.settings'' ''POST'' ''/api/v1/catalog/families'',
    admin_with ''page.settings'' ''PUT'' ''/api/v1/catalog/families/{id}'',
    admin_with ''page.settings'' ''DELETE'' ''/api/v1/catalog/families/{id}'',
    admin_with ''page.settings'' ''PUT'' ''/api/v1/catalog/families/{id}/icon'',
    open_to ''GET'' ''/api/v1/catalog/quantizations'',
    open_to ''GET'' ''/api/v1/catalog/formats'',
    open_to ''GET'' ''/api/v1/catalog/engines'',
    open_to ''GET'' ''/api/v1/catalog/builds'',
    open_to ''GET'' ''/api/v1/catalog/capability-tiers'',
    open_to ''GET'' ''/api/v1/catalog/capability-tiers/{id}'',
    admin_with ''page.settings'' ''POST'' ''/api/v1/catalog/capability-tiers'',
    admin_with ''page.settings'' ''PUT'' ''/api/v1/catalog/capability-tiers/{id}'',
    admin_with ''page.settings'' ''DELETE'' ''/api/v1/catalog/capability-tiers/{id}'',
    open_to ''GET'' ''/api/v1/catalog/virtual-models'',
    open_to ''GET'' ''/api/v1/catalog/virtual-models/{id}'',
    admin_with ''page.settings'' ''POST'' ''/api/v1/catalog/virtual-models'',
    admin_with ''page.settings'' ''PUT'' ''/api/v1/catalog/virtual-models/{id}'',
    admin_with ''page.settings'' ''DELETE'' ''/api/v1/catalog/virtual-models/{id}'',
    open_to ''GET'' ''/api/v1/catalog/model-aliases'',
    open_to ''GET'' ''/api/v1/catalog/model-aliases/{id}'',
    admin_with ''page.settings'' ''POST'' ''/api/v1/catalog/model-aliases'',
    admin_with ''page.settings'' ''PUT'' ''/api/v1/catalog/model-aliases/{id}'',
    admin_with ''page.settings'' ''DELETE'' ''/api/v1/catalog/model-aliases/{id}'',
    open_to ''GET'' ''/api/v1/catalog/artifacts'',
    open_to ''GET'' ''/api/v1/catalog/models'',
    open_to ''GET'' ''/api/v1/catalog/models/{id}'',
    admin_with ''page.settings'' ''POST'' ''/api/v1/catalog/models'',
    admin_with ''page.settings'' ''PUT'' ''/api/v1/catalog/models/{id}'',
    admin_with ''page.settings'' ''DELETE'' ''/api/v1/catalog/models/{id}'',
    admin_with ''page.settings'' ''POST'' ''/api/v1/catalog/models/validate'',
    admin_with ''page.settings'' ''PUT'' ''/api/v1/catalog/models/{id}/icon'',
    open_to ''GET'' ''/api/v1/catalog/variants'',
    open_to ''GET'' ''/api/v1/catalog/variants/{id}'',
    admin_with ''page.settings'' ''POST'' ''/api/v1/catalog/variants'',
    admin_with ''page.settings'' ''PUT'' ''/api/v1/catalog/variants/{id}'',
    admin_with ''page.settings'' ''DELETE'' ''/api/v1/catalog/variants/{id}'',
    admin_with ''page.settings'' ''POST'' ''/api/v1/catalog/variants/validate'',
    open_to ''GET'' ''/api/v1/catalog/configs'']"

definition recordRoutes :: "route list" where
  "recordRoutes = [
    open_to ''GET'' ''/api/v1/catalog/configs/{id}'',
    admin_with ''page.settings'' ''POST'' ''/api/v1/catalog/configs'',
    admin_with ''page.settings'' ''PUT'' ''/api/v1/catalog/configs/{id}'',
    admin_with ''page.settings'' ''DELETE'' ''/api/v1/catalog/configs/{id}'',
    admin_with ''page.settings'' ''POST'' ''/api/v1/catalog/configs/validate'',
    admin_with ''page.settings'' ''PUT'' ''/api/v1/catalog/configs/{id}/icon'',
    open_to ''GET'' ''/api/v1/catalog/offerings'',
    open_to ''GET'' ''/api/v1/catalog/offerings/{id}'',
    admin_with ''page.settings'' ''POST'' ''/api/v1/catalog/offerings'',
    admin_with ''page.settings'' ''PUT'' ''/api/v1/catalog/offerings/{id}'',
    admin_with ''page.settings'' ''DELETE'' ''/api/v1/catalog/offerings/{id}'',
    admin_with ''page.settings'' ''POST'' ''/api/v1/catalog/offerings/validate'',
    open_to ''GET'' ''/api/v1/catalog/benchmarks'',
    open_to ''GET'' ''/api/v1/catalog/benchmarks/{id}'',
    admin_with ''page.settings'' ''POST'' ''/api/v1/catalog/benchmarks'',
    admin_with ''page.settings'' ''PUT'' ''/api/v1/catalog/benchmarks/{id}'',
    admin_with ''page.settings'' ''DELETE'' ''/api/v1/catalog/benchmarks/{id}'',
    admin_with ''page.settings'' ''POST'' ''/api/v1/catalog/benchmarks/validate'',
    open_to ''GET'' ''/api/v1/catalog/notes'',
    open_to ''GET'' ''/api/v1/catalog/notes/{id}'',
    admin_with ''page.settings'' ''POST'' ''/api/v1/catalog/notes'',
    admin_with ''page.settings'' ''PUT'' ''/api/v1/catalog/notes/{id}'',
    admin_with ''page.settings'' ''DELETE'' ''/api/v1/catalog/notes/{id}'',
    open_to ''GET'' ''/api/v1/catalog/services'',
    open_to ''GET'' ''/api/v1/catalog/services/{id}'',
    admin_with ''page.settings'' ''POST'' ''/api/v1/catalog/services'',
    admin_with ''page.settings'' ''PUT'' ''/api/v1/catalog/services/{id}'',
    admin_with ''page.settings'' ''DELETE'' ''/api/v1/catalog/services/{id}'',
    open_to ''GET'' ''/api/v1/events'',
    admin_with ''action.model.profile'' ''POST'' ''/api/v1/profile/run'',
    open_to ''GET'' ''/api/v1/profile'',
    open_to ''GET'' ''/api/v1/profile/{mode}'',
    admin_with ''action.model.profile'' ''DELETE'' ''/api/v1/profile/{mode}'',
    open_to ''GET'' ''/api/v1/hf/search'',
    open_to ''GET'' ''/api/v1/hf/tree'',
    open_to ''POST'' ''/api/v1/hf/preflight'',
    open_to ''GET'' ''/api/v1/hf/downloads'',
    open_to ''GET'' ''/api/v1/hf/downloads/{id}'',
    operator_with ''action.model.download'' ''POST'' ''/api/v1/hf/downloads'',
    operator_with ''action.model.download'' ''POST'' ''/api/v1/hf/downloads/{id}/approve'',
    operator_with ''action.model.download'' ''POST'' ''/api/v1/hf/downloads/{id}/pause'',
    operator_with ''action.model.download'' ''POST'' ''/api/v1/hf/downloads/{id}/resume'',
    operator_with ''action.model.download'' ''POST'' ''/api/v1/hf/downloads/{id}/cancel'',
    operator_with ''action.model.download'' ''DELETE'' ''/api/v1/hf/downloads/{id}'',
    admin_only ''GET'' ''/api/v1/hf/token'',
    admin_with ''area.settings.provider_keys'' ''PUT'' ''/api/v1/hf/token'']"

definition v1Routes :: "route list" where
  "v1Routes = readRoutes @ assistantRoutes @ settingsRoutes @ accessRoutes @ catalogRoutes @ recordRoutes"

section \<open>What the table grants without a role\<close>

text \<open>Changing routes that any authenticated caller reaches: the caller's own preferences,
  factors and sessions, and one read-only check of a download.\<close>

definition selfService :: "(string \<times> string) list" where
  "selfService = [(''PUT'', ''/api/v1/favorites/{subject_type}/{id}''),
     (''DELETE'', ''/api/v1/favorites/{subject_type}/{id}''), (''POST'', ''/api/v1/auth/step-up''),
     (''POST'', ''/api/v1/auth/webauthn/register/begin''), (''POST'', ''/api/v1/auth/webauthn/register/finish''),
     (''POST'', ''/api/v1/auth/webauthn/assert/begin''), (''POST'', ''/api/v1/auth/webauthn/assert/finish''),
     (''DELETE'', ''/api/v1/auth/webauthn/credentials/{id}''), (''POST'', ''/api/v1/auth/totp/enroll''),
     (''POST'', ''/api/v1/auth/totp/confirm''), (''DELETE'', ''/api/v1/auth/totp''),
     (''POST'', ''/api/v1/auth/recovery-codes/generate''), (''POST'', ''/api/v1/hf/preflight'')]"

definition needsOperator :: "route \<Rightarrow> bool" where
  "needsOperator rt \<longleftrightarrow> list_ex (\<lambda>g. g = Role ''operator'' \<or> g = Role ''admin'') (rt_guards rt)"

definition mutationGuarded :: "route \<Rightarrow> bool" where
  "mutationGuarded rt \<longleftrightarrow> rt_method rt = ''GET'' \<or> needsOperator rt \<or> (rt_method rt, rt_path rt) \<in> set selfService"

lemma readRoutes_guarded: "list_all mutationGuarded readRoutes"
  by (simp add: readRoutes_def mutationGuarded_def needsOperator_def selfService_def)

lemma assistantRoutes_guarded: "list_all mutationGuarded assistantRoutes"
  by (simp add: assistantRoutes_def mutationGuarded_def needsOperator_def selfService_def)

lemma settingsRoutes_guarded: "list_all mutationGuarded settingsRoutes"
  by (simp add: settingsRoutes_def mutationGuarded_def needsOperator_def selfService_def)

lemma accessRoutes_guarded: "list_all mutationGuarded accessRoutes"
  by (simp add: accessRoutes_def mutationGuarded_def needsOperator_def selfService_def)

lemma catalogRoutes_guarded: "list_all mutationGuarded catalogRoutes"
  by (simp add: catalogRoutes_def mutationGuarded_def needsOperator_def selfService_def)

lemma recordRoutes_guarded: "list_all mutationGuarded recordRoutes"
  by (simp add: recordRoutes_def mutationGuarded_def needsOperator_def selfService_def)

lemma mutations_guarded: "rt \<in> set v1Routes \<Longrightarrow> mutationGuarded rt"
  using readRoutes_guarded assistantRoutes_guarded settingsRoutes_guarded accessRoutes_guarded catalogRoutes_guarded recordRoutes_guarded
  by (auto simp: v1Routes_def list_all_iff)

end
