(* ===== verification/Auth_Handlers.thy ===== *)
theory Auth_Handlers
  imports Auth_Http
begin

text \<open>
  The handlers of httpapi/auth_handlers.go that change factors, keys, links and the policy, and
  the form posts of httpapi/pwa.go.  A body is its decoded value or \<open>None\<close> when decoding fails;
  random bytes and the hash of the minted secret are arguments; the audit log is left out.  The
  WebAuthn ceremonies rest on an external library and are not modelled.
\<close>

section \<open>Step-up\<close>

record step_up_request =
  su_factor :: string
  su_password :: string
  su_code :: string

definition invalidField :: "string \<Rightarrow> refusal" where
  "invalidField code = Refused 422 code"

definition sessionRequired :: refusal where
  "sessionRequired = Refused 403 ''session_required''"

text \<open>The factor of the request; the result is the assurance it proves.\<close>

definition proveFactor ::
    "auth_env \<Rightarrow> time \<Rightarrow> int \<Rightarrow> step_up_request \<Rightarrow> authorizer \<Rightarrow> (refusal + string) \<times> authorizer" where
  "proveFactor env now u b a =
     (if su_factor b = ''password'' then
        (if su_password b = [] then (Inl (invalidField ''required_password''), a)
         else if verifyPassword (ev_verify env) u (su_password b) a \<noteq> None then (Inl (Refused 401 ''invalid password''), a)
         else (Inr ''password'', a))
      else if su_factor b = ''totp'' then
        (if su_code b = [] then (Inl (invalidField ''required_totp''), a)
         else
           (case totpGet u (au_db a) of
              Inl e \<Rightarrow> (Inl (Refused 401 ''TOTP not enrolled''), a)
            | Inr t \<Rightarrow>
              if \<not> tp_confirmed t then (Inl (Refused 401 ''TOTP not confirmed''), a)
              else if \<not> validateTOTP (ev_hmac env) (ev_base32 env) (tp_secret t) (su_code b) now
                then (Inl (Refused 401 ''invalid TOTP code''), a)
              else (Inr ''totp'', a)))
      else if su_factor b = ''recovery_code'' then
        (if su_code b = [] then (Inl (invalidField ''required_recovery_code''), a)
         else
           (case onDb (verifyCode (ev_mac env) (ev_pepper env) now u (su_code b)) a of
              (CodeAccepted, a1) \<Rightarrow> (Inr ''password'', a1)
            | (_, a1) \<Rightarrow> (Inl (Refused 401 ''invalid or used recovery code''), a1)))
      else (Inl (invalidField ''must_be_one_of''), a))"

text \<open>The result is the session of the new cookie.\<close>

definition handleAuthStepUp ::
    "auth_env \<Rightarrow> time \<Rightarrow> 8 word list option \<Rightarrow> 8 word list option \<Rightarrow> identity \<Rightarrow> session \<Rightarrow>
     step_up_request option \<Rightarrow> authorizer \<Rightarrow> (refusal + session) \<times> authorizer" where
  "handleAuthStepUp env now sb cb i s body a =
     (if id_keyID i \<noteq> [] then (Inl (Refused 400 ''session_required''), a)
      else if se_id s = [] then (Inl sessionRequired, a)
      else
        (case body of None \<Rightarrow> (Inl (invalidField ''body''), a)
         | Some b \<Rightarrow>
           if su_factor b = [] then (Inl (invalidField ''required''), a)
           else
             (case proveFactor env now (se_userID s) b a of
                (Inl e, a1) \<Rightarrow> (Inl e, a1)
              | (Inr level, a1) \<Rightarrow>
                (case (randToken sb, randToken cb) of
                   (Some sid, Some csrf) \<Rightarrow>
                     (case onDb (elevateSession (se_id s) sid csrf level now) a1 of
                        (Some e, a2) \<Rightarrow> (Inl (Refused 500 ''operation_failed''), a2)
                      | (None, a2) \<Rightarrow>
                        (Inr (s\<lparr>se_id := sid, se_csrf := csrf, se_assurance := level, se_assuranceAt := now\<rparr>), a2))
                 | _ \<Rightarrow> (Inl (Refused 500 ''operation_failed''), a1)))))"

section \<open>TOTP and recovery codes\<close>

text \<open>\<open>secret\<close> is the freshly drawn secret in base32.\<close>

definition handleTOTPEnroll ::
    "time \<Rightarrow> string option \<Rightarrow> session \<Rightarrow> authorizer \<Rightarrow> (refusal + string) \<times> authorizer" where
  "handleTOTPEnroll now secret s a =
     (if se_id s = [] then (Inl sessionRequired, a)
      else
        (case secret of None \<Rightarrow> (Inl (Refused 500 ''operation_failed''), a)
         | Some x \<Rightarrow>
           (case onDb (totpSave now \<lparr>tp_userID = se_userID s, tp_secret = x, tp_confirmed = False, tp_createdAt = now\<rparr>) a of
              (Some e, a1) \<Rightarrow> (Inl (Refused 500 ''operation_failed''), a1)
            | (None, a1) \<Rightarrow> (Inr x, a1))))"

definition handleTOTPConfirm ::
    "auth_env \<Rightarrow> time \<Rightarrow> session \<Rightarrow> string option \<Rightarrow> authorizer \<Rightarrow> (refusal + unit) \<times> authorizer" where
  "handleTOTPConfirm env now s body a =
     (if se_id s = [] then (Inl sessionRequired, a)
      else
        (case body of None \<Rightarrow> (Inl (invalidField ''body''), a)
         | Some code \<Rightarrow>
           if code = [] then (Inl (invalidField ''required''), a)
           else
             (case totpGet (se_userID s) (au_db a) of
                Inl e \<Rightarrow> (Inl (Refused 404 ''no TOTP enrollment in progress''), a)
              | Inr t \<Rightarrow>
                if \<not> validateTOTP (ev_hmac env) (ev_base32 env) (tp_secret t) code now
                then (Inl (Refused 401 ''invalid TOTP code''), a)
                else
                  (case onDb (totpConfirm (se_userID s)) a of
                     (Some e, a1) \<Rightarrow> (Inl (Refused 500 ''operation_failed''), a1)
                   | (None, a1) \<Rightarrow> (Inr (), a1)))))"

definition handleTOTPDelete :: "session \<Rightarrow> authorizer \<Rightarrow> (refusal + unit) \<times> authorizer" where
  "handleTOTPDelete s a =
     (if se_id s = [] then (Inl sessionRequired, a)
      else
        (case onDb (totpDelete (se_userID s)) a of
           (Some StoreNotFound, a1) \<Rightarrow> (Inl (Refused 404 ''no TOTP enrolled''), a1)
         | (Some e, a1) \<Rightarrow> (Inl (Refused 500 ''operation_failed''), a1)
         | (None, a1) \<Rightarrow> (Inr (), a1)))"

text \<open>Whether there are codes, how many are unused, and the fixed count.\<close>

definition handleRecoveryCodesStatus :: "session \<Rightarrow> authorizer \<Rightarrow> (refusal + bool \<times> nat \<times> nat) \<times> authorizer" where
  "handleRecoveryCodesStatus s a =
     (if se_id s = [] then (Inl sessionRequired, a)
      else
        (case countUnused (se_userID s) (au_db a) of
           Inl e \<Rightarrow> (Inl (Refused 500 ''operation_failed''), a)
         | Inr n \<Rightarrow>
           (case hasRecoveryCodes (se_userID s) (au_db a) of
              Inl e \<Rightarrow> (Inl (Refused 500 ''operation_failed''), a)
            | Inr h \<Rightarrow> (Inr (h, n, 10), a))))"

definition handleRecoveryCodesGenerate ::
    "auth_env \<Rightarrow> time \<Rightarrow> 8 word list list option \<Rightarrow> session \<Rightarrow> authorizer \<Rightarrow> (refusal + string list) \<times> authorizer" where
  "handleRecoveryCodesGenerate env now draws s a =
     (if se_id s = [] then (Inl sessionRequired, a)
      else
        (case onDb (generateCodes (ev_mac env) (ev_pepper env) now draws (se_userID s)) a of
           (Inl e, a1) \<Rightarrow> (Inl (Refused 500 ''operation_failed''), a1)
         | (Inr codes, a1) \<Rightarrow> (Inr codes, a1)))"

section \<open>Keys\<close>

record key_create_request =
  kc_kind :: string
  kc_name :: string
  kc_role :: string
  kc_display :: string
  kc_bind :: bool
  kc_ttl :: "64 word"

definition normaliseKind :: "string \<Rightarrow> string" where
  "normaliseKind k = (if k = ''foundry'' then ''forge'' else k)"

definition handleKeysList :: "string \<Rightarrow> authorizer \<Rightarrow> refusal + api_key list" where
  "handleKeysList kind0 a =
     (let kind = normaliseKind kind0 in
      if kind \<notin> {[], ''forge'', ''router'', ''mcp''} then Inl (invalidField ''must_be_one_of'')
      else case keysList kind (au_db a) of Inl e \<Rightarrow> Inl (Refused 500 ''operation_failed'') | Inr ks \<Rightarrow> Inr ks)"

text \<open>\<open>time.Duration(ttl) * time.Second\<close> in 64 bits.\<close>

definition expiryOf :: "time \<Rightarrow> 64 word \<Rightarrow> time" where
  "expiryOf now ttl = (if 0 <s ttl then now + sint (ttl * 1000000000) else 0)"

definition isSelfRotation :: "identity \<Rightarrow> string \<Rightarrow> string \<Rightarrow> string \<Rightarrow> bool" where
  "isSelfRotation i kind name role \<longleftrightarrow>
     id_keyID i \<noteq> [] \<and> id_kind i = ''forge'' \<and> kind = ''forge'' \<and> name = id_name i \<and> roleAllows (id_role i) role"

definition handleKeyCreate ::
    "auth_env \<Rightarrow> time \<Rightarrow> (string \<Rightarrow> string option) \<Rightarrow> 8 word list option \<Rightarrow> 8 word list option \<Rightarrow> http_request \<Rightarrow>
     identity \<Rightarrow> key_create_request option \<Rightarrow> authorizer \<Rightarrow> (refusal + string \<times> api_key option) \<times> authorizer" where
  "handleKeyCreate env now hash ib sb r i body a =
     (case body of None \<Rightarrow> (Inl (invalidField ''body''), a)
      | Some b \<Rightarrow>
        (let kind = normaliseKind (kc_kind b); name = kc_name b; role = kc_role b in
         if kind = [] \<or> name = [] then (Inl (invalidField ''required''), a)
         else if kind = ''forge'' \<and> role = [] then (Inl (invalidField ''required_forge_keys''), a)
         else
           (let (gate, a1) =
              (if isSelfRotation i kind name role then (None, a)
               else requireStrictAssurance env now ''area.settings.security'' i a)
            in case gate of Some e \<Rightarrow> (Inl e, a1)
             | None \<Rightarrow>
               if kc_ttl b <s 0 then (Inl (invalidField ''must_be_non_negative_integer''), a1)
               else
                 (case mintKey now hash ib sb kind name (kc_display b) role
                     (if kc_bind b then effectiveClientIP env r else []) (expiryOf now (kc_ttl b)) a1 of
                    (Inl e, a2) \<Rightarrow> (Inl (Refused 500 ''internal''), a2)
                  | (Inr token, a2) \<Rightarrow>
                    (case keysList kind (au_db a2) of
                       Inl e \<Rightarrow> (Inl (Refused 500 ''operation_failed''), a2)
                     | Inr ks \<Rightarrow>
                       (Inr (token, find (\<lambda>k. ak_name k = name \<and> is_zero (ak_revokedAt k)) ks), a2))))))"

definition handleKeyRevoke :: "time \<Rightarrow> string \<Rightarrow> authorizer \<Rightarrow> (refusal + unit) \<times> authorizer" where
  "handleKeyRevoke now keyid a =
     (if keyid = [] then (Inl (Refused 400 ''keyid is required''), a)
      else
        (case revokeKey now keyid a of
           (Some StoreNotFound, a1) \<Rightarrow> (Inl (Refused 404 ''not_found''), a1)
         | (Some e, a1) \<Rightarrow> (Inl (Refused 500 ''operation_failed''), a1)
         | (None, a1) \<Rightarrow> (Inr (), a1)))"

section \<open>Policy and identity links\<close>

definition handleAuthPolicyGet :: "authorizer \<Rightarrow> (refusal + (string \<times> string) list) \<times> authorizer" where
  "handleAuthPolicyGet a =
     (case onDb policyLoad a of
        (Inl PolicyPanic, a1) \<Rightarrow> (Inl Aborted, a1)
      | (Inl e, a1) \<Rightarrow> (Inl (Refused 500 ''operation_failed''), a1)
      | (Inr p, a1) \<Rightarrow> (Inr p, a1))"

text \<open>The inner option is the absent \<open>policy\<close> field.\<close>

definition handleAuthPolicyPut ::
    "(string \<times> string) list option option \<Rightarrow> authorizer \<Rightarrow> (refusal + (string \<times> string) list) \<times> authorizer" where
  "handleAuthPolicyPut body a =
     (case body of None \<Rightarrow> (Inl (invalidField ''body''), a)
      | Some None \<Rightarrow> (Inl (invalidField ''required''), a)
      | Some (Some p) \<Rightarrow>
        if validatePolicy p \<noteq> [] then (Inl (invalidField ''policy''), a)
        else
          (case onDb (policySave p) a of
             (Some e, a1) \<Rightarrow> (Inl (Refused 500 ''operation_failed''), a1)
           | (None, a1) \<Rightarrow> (Inr p, a1)))"

definition handleIdentityLinkCreate ::
    "time \<Rightarrow> (string \<times> string \<times> int) option \<Rightarrow> authorizer \<Rightarrow> (refusal + identity_link) \<times> authorizer" where
  "handleIdentityLinkCreate now body a =
     (case body of None \<Rightarrow> (Inl (invalidField ''body''), a)
      | Some (pv, pr, u) \<Rightarrow>
        if pv = [] \<or> pr = [] \<or> u = 0 then (Inl (invalidField ''required''), a)
        else
          (let l = \<lparr>li_provider = pv, li_principal = pr, li_userID = u, li_createdAt = now\<rparr> in
           case onDb (linksCreate now l) a of
             (Some e, a1) \<Rightarrow> (Inl (Refused 500 ''operation_failed''), a1)
           | (None, a1) \<Rightarrow> (Inr l, a1)))"

definition handleIdentityLinkDelete :: "string \<Rightarrow> string \<Rightarrow> authorizer \<Rightarrow> (refusal + unit) \<times> authorizer" where
  "handleIdentityLinkDelete pv pr a =
     (if pv = [] \<or> pr = [] then (Inl (Refused 400 ''provider and principal are required''), a)
      else
        (case onDb (linksDelete pv pr) a of
           (Some StoreNotFound, a1) \<Rightarrow> (Inl (Refused 404 ''not_found''), a1)
         | (Some e, a1) \<Rightarrow> (Inl (Refused 500 ''operation_failed''), a1)
         | (None, a1) \<Rightarrow> (Inr (), a1)))"

section \<open>Login, setup, logout\<close>

definition sanitizeNextPath :: "string \<Rightarrow> string" where
  "sanitizeNextPath n = (if n = [] \<or> \<not> has_prefix ''/'' n \<or> has_prefix ''//'' n then ''/'' else n)"

text \<open>Where the browser is sent; the errors are shown on the form.\<close>

datatype redirect = ToPath string | ToLoginError string | ToSetupError "auth_error option"

text \<open>A form is \<open>None\<close> when it does not parse; the cookie of the answer is a session, or \<open>None\<close>.\<close>

definition handlePostLogin ::
    "auth_env \<Rightarrow> time \<Rightarrow> 8 word list option \<Rightarrow> 8 word list option \<Rightarrow> http_request \<Rightarrow> string \<Rightarrow>
     (string \<times> string) option \<Rightarrow> authorizer \<Rightarrow> (redirect \<times> session option) \<times> authorizer" where
  "handlePostLogin env now sb cb r next0 form a =
     (let n = sanitizeNextPath next0 in
      case form of None \<Rightarrow> ((ToLoginError n, None), a)
      | Some (u, p) \<Rightarrow>
        (case login (ev_verify env) now sb cb u p (rq_peer r) (rq_header r ''User-Agent'') a of
           (Inl e, a1) \<Rightarrow> ((ToLoginError n, None), a1)
         | (Inr (s, i), a1) \<Rightarrow> ((ToPath n, Some s), a1)))"

definition handlePostSetup ::
    "auth_env \<Rightarrow> time \<Rightarrow> (string \<Rightarrow> string option) \<Rightarrow> 8 word list option \<Rightarrow> 8 word list option \<Rightarrow> http_request \<Rightarrow>
     (string \<times> string \<times> string) option \<Rightarrow> authorizer \<Rightarrow> (redirect \<times> session option) \<times> authorizer" where
  "handlePostSetup env now hash sb cb r form a =
     (case form of None \<Rightarrow> ((ToSetupError None, None), a)
      | Some (u, p, confirm) \<Rightarrow>
        if p \<noteq> confirm then ((ToSetupError None, None), a)
        else
          (case completeSetup now hash u p a of
             (Some e, a1) \<Rightarrow> ((ToSetupError (Some e), None), a1)
           | (None, a1) \<Rightarrow>
             (case login (ev_verify env) now sb cb u p (rq_peer r) (rq_header r ''User-Agent'') a1 of
                (Inl e, a2) \<Rightarrow> ((ToPath ''/login'', None), a2)
              | (Inr (s, i), a2) \<Rightarrow> ((ToPath ''/'', Some s), a2))))"

definition handlePostLogout :: "http_request \<Rightarrow> authorizer \<Rightarrow> redirect \<times> authorizer" where
  "handlePostLogout r a =
     (ToPath ''/login'', if rq_cookie r \<noteq> [] then snd (logout (rq_cookie r) a) else a)"

end
