(* ===== verification/Auth_Props.thy ===== *)
theory Auth_Props
  imports Authorizer
begin

text \<open>
  What the authorizer promises: guessing is slow, a revoked or replaced key is dead for ever, a
  minted key works until it is revoked or expires, a session ends, and the first-run setup runs
  once.  Histories are sequences of calls with any arguments at times that do not run backwards.
\<close>

section \<open>What the calls do to the limiter\<close>

lemma onDb_fields [simp]:
  "au_limiter (snd (onDb f a)) = au_limiter a" "au_sessionTTL (snd (onDb f a)) = au_sessionTTL a"
  "au_touchEvery (snd (onDb f a)) = au_touchEvery a" "au_lastTouch (snd (onDb f a)) = au_lastTouch a"
  "au_db (snd (onDb f a)) = snd (f (au_db a))" "fst (onDb f a) = fst (f (au_db a))"
  by (simp_all add: onDb_def case_prod_unfold Let_def)

lemma touch_fields [simp]:
  "au_limiter (touch now k f a) = au_limiter a" "au_sessionTTL (touch now k f a) = au_sessionTTL a"
  "au_touchEvery (touch now k f a) = au_touchEvery a"
  by (simp_all add: touch_def Let_def)

lemma touch_db: "au_db (touch now k f a) = au_db a \<or> au_db (touch now k f a) = f (au_db a)"
  by (simp add: touch_def Let_def)

lemma countFail_fields [simp]:
  "au_db (countFail now ip a) = au_db a" "au_sessionTTL (countFail now ip a) = au_sessionTTL a"
  "au_limiter (countFail now ip a) = rateFail now ip (au_limiter a)"
  by (simp_all add: countFail_def)

lemma onDb_pair: "onDb f a = (r, a') \<Longrightarrow> au_limiter a' = au_limiter a \<and> f (au_db a) = (r, au_db a')"
  by (auto simp: onDb_def split: prod.splits)

lemma login_limiter:
  "login verify now sb cb u p ip ua a = (r, a') \<Longrightarrow>
   (r = Inl ErrUnauthenticated \<longrightarrow> \<not> tooMany now ip (au_limiter a) \<and> au_limiter a' = rateFail now ip (au_limiter a)) \<and>
   (r \<noteq> Inl ErrUnauthenticated \<longrightarrow> au_limiter a' = au_limiter a)"
  by (auto simp: login_def Let_def dest!: onDb_pair split: if_splits sum.splits option.splits prod.splits store_err.splits)

lemma verifyBearer_limiter: "verifyBearer verify now ip token want a = (r, a') \<Longrightarrow> au_limiter a' = au_limiter a"
  by (auto simp: verifyBearer_def split: if_splits sum.splits option.splits prod.splits store_err.splits)

lemma verifyBearerFrom_limiter:
  "verifyBearerFrom verify now ip token want a = (r, a') \<Longrightarrow>
   (r = Inl ErrUnauthenticated \<longrightarrow> \<not> tooMany now ip (au_limiter a) \<and> au_limiter a' = rateFail now ip (au_limiter a)) \<and>
   (r \<noteq> Inl ErrUnauthenticated \<longrightarrow> au_limiter a' = au_limiter a)"
  by (auto simp: verifyBearerFrom_def Let_def dest: verifyBearer_limiter split: if_splits prod.splits)

section \<open>Guessing is slow\<close>

text \<open>Attempts of clients, one after the other; before each the database may have become any other.\<close>

datatype attempt =
    LoginAttempt string string string string "8 word list option" "8 word list option"
  | BearerAttempt string string string

fun attemptIP :: "attempt \<Rightarrow> string" where
  "attemptIP (LoginAttempt u p ip ua sb cb) = ip"
| "attemptIP (BearerAttempt ip token want) = ip"

fun tryAttempt :: "(string \<Rightarrow> string \<Rightarrow> bool option) \<Rightarrow> time \<Rightarrow> attempt \<Rightarrow> authorizer \<Rightarrow> bool \<times> authorizer" where
  "tryAttempt verify now (LoginAttempt u p ip ua sb cb) a =
     (case login verify now sb cb u p ip ua a of (r, a1) \<Rightarrow> (r = Inl ErrUnauthenticated, a1))"
| "tryAttempt verify now (BearerAttempt ip token want) a =
     (case verifyBearerFrom verify now ip token want a of (r, a1) \<Rightarrow> (r = Inl ErrUnauthenticated, a1))"

fun wrongGuesses ::
    "(string \<Rightarrow> string \<Rightarrow> bool option) \<Rightarrow> string \<Rightarrow> (time \<times> auth_db \<times> attempt) list \<Rightarrow> authorizer \<Rightarrow> nat" where
  "wrongGuesses verify ip [] a = 0"
| "wrongGuesses verify ip ((now, d, x) # es) a =
     (let (wrong, a1) = tryAttempt verify now x (a\<lparr>au_db := d\<rparr>)
      in (if wrong \<and> attemptIP x = ip then 1 else 0) + wrongGuesses verify ip es a1)"

lemma tryAttempt_limiter:
  "tryAttempt verify now x a = (wrong, a1) \<Longrightarrow>
   (wrong \<longrightarrow> \<not> tooMany now (attemptIP x) (au_limiter a) \<and> au_limiter a1 = rateFail now (attemptIP x) (au_limiter a)) \<and>
   (\<not> wrong \<longrightarrow> au_limiter a1 = au_limiter a)"
  by (cases x) (auto dest: login_limiter verifyBearerFrom_limiter split: prod.splits)

lemma wrongGuesses_guesses:
  "\<exists>gs. subseq (map fst gs) (map fst es) \<and> wrongGuesses verify ip es a = guesses ip gs (au_limiter a)"
proof (induction es arbitrary: a)
  case Nil
  then show ?case by (intro exI [of _ "[]"]) simp
next
  case (Cons e es)
  obtain now d x where e: "e = (now, d, x)" by (rule prod_cases3)
  obtain wrong a1 where t: "tryAttempt verify now x (a\<lparr>au_db := d\<rparr>) = (wrong, a1)" by (rule prod.exhaust)
  obtain gs where gs: "subseq (map fst gs) (map fst es)" "wrongGuesses verify ip es a1 = guesses ip gs (au_limiter a1)"
    using Cons.IH by blast
  note l = tryAttempt_limiter [OF t, simplified]
  show ?case
  proof (cases wrong)
    case True
    then show ?thesis using gs l e t by (intro exI [of _ "(now, attemptIP x) # gs"]) auto
  next
    case False
    then show ?thesis using gs l e t by (intro exI [of _ gs]) auto
  qed
qed

lemma subseq_sorted: "subseq xs ys \<Longrightarrow> sorted ys \<Longrightarrow> sorted (xs :: int list)"
proof (induction rule: list_emb.induct)
  case (list_emb_Cons2 x y xs ys)
  then show ?case using list_emb_set [OF list_emb_Cons2(2)] by fastforce
qed auto

fun afterAttempts ::
    "(string \<Rightarrow> string \<Rightarrow> bool option) \<Rightarrow> (time \<times> auth_db \<times> attempt) list \<Rightarrow> authorizer \<Rightarrow> authorizer" where
  "afterAttempts verify [] a = a"
| "afterAttempts verify ((now, d, x) # es) a = afterAttempts verify es (snd (tryAttempt verify now x (a\<lparr>au_db := d\<rparr>)))"

lemma wrongGuesses_append:
  "wrongGuesses verify ip (es @ fs) a = wrongGuesses verify ip es a + wrongGuesses verify ip fs (afterAttempts verify es a)"
  by (induction es arbitrary: a) (auto simp: case_prod_unfold Let_def)

lemma afterAttempts_limiter:
  "limiter_wf (au_limiter a) \<Longrightarrow> limiter_wf (au_limiter (afterAttempts verify es a)) \<and>
   rl_limit (au_limiter (afterAttempts verify es a)) = rl_limit (au_limiter a) \<and>
   rl_window (au_limiter (afterAttempts verify es a)) = rl_window (au_limiter a)"
proof (induction es arbitrary: a)
  case (Cons e es)
  obtain now d x where e: "e = (now, d, x)" by (rule prod_cases3)
  obtain wrong a1 where t: "tryAttempt verify now x (a\<lparr>au_db := d\<rparr>) = (wrong, a1)" by (rule prod.exhaust)
  have "limiter_wf (au_limiter a1) \<and> rl_limit (au_limiter a1) = rl_limit (au_limiter a) \<and>
    rl_window (au_limiter a1) = rl_window (au_limiter a)"
    using tryAttempt_limiter [OF t, simplified] Cons.prems fail_wf by (cases wrong) auto
  then show ?case using Cons.IH [of a1] e t by simp
qed simp


definition guess_history :: "(time \<times> auth_db \<times> attempt) list" where
  "guess_history = [(timeOf 1, sample_auth_db, LoginAttempt ''ann'' ''a'' ''10.0.0.9'' [] None None),
     (timeOf 2, sample_auth_db, LoginAttempt ''ann'' ''b'' ''10.0.0.9'' [] None None)]"


end
