(* ===== verification/Auth_History.thy ===== *)
theory Auth_History
  imports Auth_Props
begin

text \<open>
  Histories of the authorizer and what becomes of its keys in them: rows keep their identity, a
  revoked row stays revoked, and a key works until then.
\<close>

section \<open>Histories\<close>

text \<open>
  One call of the authorizer or of the API on its tables.  \<open>avoid\<close> holds session ids that the
  random source does not draw.  The database may go down and come back.
\<close>

inductive auth_step ::
    "(string \<Rightarrow> string \<Rightarrow> bool option) \<Rightarrow> string set \<Rightarrow> time \<Rightarrow> authorizer \<Rightarrow> authorizer \<Rightarrow> bool"
  for verify avoid now where
  do_login: "randToken sb \<notin> Some ` avoid \<Longrightarrow> login verify now sb cb u p ip ua a = (r, a') \<Longrightarrow> auth_step verify avoid now a a'"
| do_logout: "logout sid a = (e, a') \<Longrightarrow> auth_step verify avoid now a a'"
| do_session: "sessionIdentity now sid a = (r, a') \<Longrightarrow> auth_step verify avoid now a a'"
| do_sweep: "sweepExpiredSessions now a = (n, a') \<Longrightarrow> auth_step verify avoid now a a'"
| do_bearer: "verifyBearerFrom verify now ip token want a = (r, a') \<Longrightarrow> auth_step verify avoid now a a'"
| do_mint: "mintKey now hash ib sb kind name display role bound ex a = (m, a') \<Longrightarrow> auth_step verify avoid now a a'"
| do_revoke: "revokeKey now i a = (e, a') \<Longrightarrow> auth_step verify avoid now a a'"
| do_setup: "completeSetup now hash u p a = (f, a') \<Longrightarrow> auth_step verify avoid now a a'"
| do_elevate: "new \<notin> avoid \<Longrightarrow> onDb (elevateSession old new csrf assurance now) a = (e, a') \<Longrightarrow> auth_step verify avoid now a a'"
| do_network: "se_id s \<notin> avoid \<Longrightarrow> se_createdAt s = now \<Longrightarrow> 0 < now \<Longrightarrow> se_expiresAt s = now + 604800 * nanos_per_second \<Longrightarrow>
    onDb (sessionsCreate now s) a = (e, a') \<Longrightarrow> auth_step verify avoid now a a'"
| do_down: "auth_step verify avoid now a (a\<lparr>au_db := au_db a\<lparr>ad_down := b\<rparr>\<rparr>)"

inductive auth_history ::
    "(string \<Rightarrow> string \<Rightarrow> bool option) \<Rightarrow> string set \<Rightarrow> authorizer \<Rightarrow> time \<Rightarrow> authorizer \<Rightarrow> bool"
  for verify avoid a0 where
  start: "auth_history verify avoid a0 t a0"
| more: "auth_history verify avoid a0 t a \<Longrightarrow> t \<le> now \<Longrightarrow> auth_step verify avoid now a a' \<Longrightarrow>
    auth_history verify avoid a0 now a'"

text \<open>A reflexive and transitive relation on the database that every step keeps holds of a history.\<close>

lemma history_keeps:
  assumes "auth_history verify avoid a0 t a" and "\<And>d. R d d" and "\<And>d e f. R d e \<Longrightarrow> R e f \<Longrightarrow> R d f"
    and "\<And>now a a'. auth_step verify avoid now a a' \<Longrightarrow> R (au_db a) (au_db a')"
  shows "R (au_db a0) (au_db a)"
  using assms(1)
proof (induction rule: auth_history.induct)
  case (more t a now a')
  then show ?case using assms(3,4) by blast
qed (rule assms(2))

section \<open>Key rows\<close>

definition keyRow :: "string \<Rightarrow> auth_db \<Rightarrow> api_key option" where
  "keyRow i d = find (\<lambda>k. ak_id k = i) (ad_keys d)"

definition key_kept :: "api_key \<Rightarrow> api_key \<Rightarrow> bool" where
  "key_kept k k' \<longleftrightarrow> ak_kind k' = ak_kind k \<and> ak_name k' = ak_name k \<and> ak_hash k' = ak_hash k \<and>
     ak_role k' = ak_role k \<and> ak_display k' = ak_display k \<and> ak_boundIP k' = ak_boundIP k \<and>
     ak_expiresAt k' = ak_expiresAt k \<and> (\<not> is_zero (ak_revokedAt k) \<longrightarrow> \<not> is_zero (ak_revokedAt k'))"

definition keys_kept :: "auth_db \<Rightarrow> auth_db \<Rightarrow> bool" where
  "keys_kept d d' \<longleftrightarrow> (\<forall>i k. keyRow i d = Some k \<longrightarrow> (\<exists>k'. keyRow i d' = Some k' \<and> key_kept k k'))"

lemma key_kept_refl [simp]: "key_kept k k"
  by (simp add: key_kept_def)

lemma keys_kept_refl [simp]: "keys_kept d d"
  by (simp add: keys_kept_def)

lemma key_kept_trans: "key_kept k l \<Longrightarrow> key_kept l m \<Longrightarrow> key_kept k m"
  by (simp add: key_kept_def)

lemma keys_kept_trans: "keys_kept d e \<Longrightarrow> keys_kept e f \<Longrightarrow> keys_kept d f"
  unfolding keys_kept_def using key_kept_trans by blast

lemma keys_kept_same: "ad_keys d' = ad_keys d \<Longrightarrow> keys_kept d d'"
  by (simp add: keys_kept_def keyRow_def)

lemma find_map_same: "(\<And>x. P (f x) = P x) \<Longrightarrow> find P (map f xs) = map_option f (find P xs)"
  by (induction xs) auto

lemma find_append: "find P (xs @ ys) = (case find P xs of None \<Rightarrow> find P ys | Some x \<Rightarrow> Some x)"
  by (induction xs) auto

lemma keyRow_find: "keyRow i d = Some k \<Longrightarrow> k \<in> set (ad_keys d) \<and> ak_id k = i"
  unfolding keyRow_def by (rule find_Some_prop)

lemma keys_kept_map:
  "ad_keys d' = map f (ad_keys d) \<Longrightarrow> (\<And>k. ak_id (f k) = ak_id k) \<Longrightarrow> (\<And>k. key_kept k (f k)) \<Longrightarrow> keys_kept d d'"
  by (auto simp: keys_kept_def keyRow_def find_map_same)

lemma keysCreate_kept: "keys_kept d (snd (keysCreate now k d))"
  by (auto simp: keysCreate_def keys_kept_def keyRow_def find_append)

lemma keysRevoke_kept: "keys_kept d (snd (keysRevoke now i d))"
proof -
  let ?f = "\<lambda>k. if ak_id k = i \<and> is_zero (ak_revokedAt k) then k\<lparr>ak_revokedAt := to_seconds now\<rparr> else k"
  have "keys_kept d (d\<lparr>ad_keys := map ?f (ad_keys d)\<rparr>)"
    by (rule keys_kept_map [where f = ?f]) (auto simp: key_kept_def)
  then show ?thesis by (auto simp: keysRevoke_def)
qed

lemma keysTouchUsed_kept: "keys_kept d (snd (keysTouchUsed i now d))"
proof -
  let ?f = "\<lambda>k. if ak_id k = i then k\<lparr>ak_lastUsedAt := to_seconds now\<rparr> else k"
  have "keys_kept d (d\<lparr>ad_keys := map ?f (ad_keys d)\<rparr>)"
    by (rule keys_kept_map [where f = ?f]) (auto simp: key_kept_def)
  then show ?thesis by (auto simp: keysTouchUsed_def)
qed

lemma revokeKeys_kept: "keys_kept d (snd (revokeKeys now is d))"
proof (induction now "is" d rule: revokeKeys.induct)
  case (2 now i "is" d)
  obtain e d1 where r: "keysRevoke now i d = (e, d1)" by (rule prod.exhaust)
  then have "keys_kept d d1" using keysRevoke_kept [of d now i] by simp
  then show ?case using 2 r by (cases e) (auto intro: keys_kept_trans)
qed simp

text \<open>The operations that leave the keys alone.\<close>

lemma same_keys:
  "ad_keys (snd (sessionsCreate now s d)) = ad_keys d" "ad_keys (snd (sessionsDelete i d)) = ad_keys d"
  "ad_keys (snd (sessionsTouch i now d)) = ad_keys d" "ad_keys (snd (sessionsDeleteExpired now d)) = ad_keys d"
  "ad_keys (snd (elevateSession old new c ass now d)) = ad_keys d" "ad_keys (snd (usersCreate now u d)) = ad_keys d"
  "ad_keys (snd (settingsSet k v d)) = ad_keys d"
  by (simp_all add: sessionsCreate_def sessionsDelete_def sessionsTouch_def sessionsDeleteExpired_def
      elevateSession_def usersCreate_def settingsSet_def Let_def)

lemma touch_kept: "(\<And>d. keys_kept d (f d)) \<Longrightarrow> keys_kept (au_db a) (au_db (touch now k f a))"
  using touch_db [of now k f a] by auto

lemma touch_same_keys: "(\<And>d. ad_keys (f d) = ad_keys d) \<Longrightarrow> ad_keys (au_db (touch now k f a)) = ad_keys (au_db a)"
  using touch_db [of now k f a] by auto

lemma onDb_step: "onDb f a = (r, a') \<Longrightarrow> au_db a' = snd (f (au_db a))"
  by (auto simp: onDb_def split: prod.splits)

lemma login_keys: "login verify now sb cb u p ip ua a = (r, a') \<Longrightarrow> ad_keys (au_db a') = ad_keys (au_db a)"
  by (auto simp: login_def Let_def same_keys dest!: onDb_step
      split: if_splits sum.splits option.splits prod.splits store_err.splits)

lemma sessionIdentity_keys: "sessionIdentity now sid a = (r, a') \<Longrightarrow> ad_keys (au_db a') = ad_keys (au_db a)"
  by (auto simp: sessionIdentity_def same_keys intro!: touch_same_keys
      split: if_splits sum.splits option.splits prod.splits store_err.splits)

lemma verifyBearer_kept: "verifyBearer verify now ip token want a = (r, a') \<Longrightarrow> keys_kept (au_db a) (au_db a')"
  by (auto simp: verifyBearer_def intro!: touch_kept keysTouchUsed_kept
      split: if_splits sum.splits option.splits prod.splits store_err.splits)

lemma verifyBearerFrom_kept: "verifyBearerFrom verify now ip token want a = (r, a') \<Longrightarrow> keys_kept (au_db a) (au_db a')"
  by (auto simp: verifyBearerFrom_def Let_def dest!: verifyBearer_kept split: if_splits prod.splits)

lemma onDb_res: "onDb f a = (r, a') \<Longrightarrow> f (au_db a) = (r, au_db a')"
  by (auto simp: onDb_def split: prod.splits)

lemma mintKey_success:
  assumes "mintKey now hash ib sb kind name display role bound ex a = (Inr tok, a')"
  shows "\<exists>ks b s h d. mintRefusal kind name role = None \<and> keysList kind (au_db a) = Inr ks \<and>
    revokeKeys now (map ak_id (filter (\<lambda>k. ak_name k = name \<and> is_zero (ak_revokedAt k)) ks)) (au_db a) = (None, d) \<and>
    ib = Some b \<and> sb = Some s \<and> hash (rawURLEncode s) = Some h \<and>
    keysCreate now \<lparr>ak_id = hex_encode b, ak_kind = kind, ak_name = name, ak_hash = h,
       ak_role = role, ak_display = display, ak_boundIP = bound, ak_createdAt = now,
       ak_lastUsedAt = 0, ak_revokedAt = 0, ak_expiresAt = ex\<rparr> d = (None, au_db a') \<and>
    tok = formatToken kind (hex_encode b) (rawURLEncode s)"
  using assms
  by (auto simp: mintKey_def randToken_def dest!: onDb_res split: sum.splits option.splits prod.splits)

lemma onDb_kept: "(\<And>d. keys_kept d (snd (f d))) \<Longrightarrow> onDb f a = (r, a') \<Longrightarrow> keys_kept (au_db a) (au_db a')"
  by (auto dest!: onDb_step)

lemma mintKey_kept:
  assumes "mintKey now hash ib sb kind name display role bound ex a = (m, a')"
  shows "keys_kept (au_db a) (au_db a')"
proof -
  have chain: "keys_kept d (snd (keysCreate t k e))" if "keys_kept d e" for d e t k
    using that keysCreate_kept keys_kept_trans by blast
  show ?thesis
    using assms
    by (auto simp: mintKey_def dest!: onDb_step intro!: chain revokeKeys_kept
        split: sum.splits option.splits prod.splits)
qed

lemma completeSetup_keys: "completeSetup now hash u p a = (f, a') \<Longrightarrow> ad_keys (au_db a') = ad_keys (au_db a)"
  by (auto simp: completeSetup_def createUser_def same_keys dest!: onDb_step
      split: if_splits sum.splits option.splits prod.splits bool.splits)

lemma step_keys: "auth_step verify avoid now a a' \<Longrightarrow> keys_kept (au_db a) (au_db a')"
proof (induction rule: auth_step.cases)
  case do_mint
  then show ?case by (auto dest: mintKey_kept)
next
  case do_bearer
  then show ?case by (auto dest: verifyBearerFrom_kept)
next
  case do_revoke
  then show ?case by (auto simp: revokeKey_def dest: onDb_kept [OF keysRevoke_kept])
qed (auto intro!: keys_kept_same dest: login_keys sessionIdentity_keys completeSetup_keys onDb_step
    simp: logout_def sweepExpiredSessions_def same_keys)

lemma history_keys: "auth_history verify avoid a t a' \<Longrightarrow> keys_kept (au_db a) (au_db a')"
  by (rule history_keeps [where R = keys_kept]) (auto intro: keys_kept_trans step_keys)

section \<open>Dead keys\<close>

definition key_dead :: "string \<Rightarrow> auth_db \<Rightarrow> bool" where
  "key_dead i d \<longleftrightarrow> (\<exists>k. keyRow i d = Some k \<and> \<not> is_zero (ak_revokedAt k))"

lemma dead_stays: "key_dead i d \<Longrightarrow> keys_kept d d' \<Longrightarrow> key_dead i d'"
  unfolding key_dead_def keys_kept_def key_kept_def by metis

lemma dead_refused:
  assumes "key_dead i (au_db a)" and "parseToken token = Some (kind, i, secret)"
  shows "\<exists>e. fst (verifyBearerFrom verify now ip token want a) = Inl e"
  using assms
  by (auto simp: verifyBearerFrom_def verifyBearer_def keysGet_def key_dead_def keyRow_def Let_def
      split: option.splits prod.splits sum.splits store_err.splits)

lemma revoke_kills:
  assumes "keysRevoke now i d = (None, d')" and "nanos_per_second \<le> now"
  shows "key_dead i d'"
proof -
  let ?f = "\<lambda>k. if ak_id k = i \<and> is_zero (ak_revokedAt k) then k\<lparr>ak_revokedAt := to_seconds now\<rparr> else k"
  have i: "i \<in> ak_id ` set (ad_keys d)" and d': "ad_keys d' = map ?f (ad_keys d)"
    using assms(1) by (auto simp: keysRevoke_def split: if_splits)
  obtain k where k: "keyRow i d = Some k"
    using i by (cases "find (\<lambda>k. ak_id k = i) (ad_keys d)") (auto simp: keyRow_def find_None_iff)
  have "keyRow i d' = map_option ?f (keyRow i d)"
    unfolding keyRow_def d' by (rule find_map_same) simp
  moreover have "\<not> is_zero (to_seconds now)"
    using zdiv_mono1 [of nanos_per_second now nanos_per_second] assms(2) by (auto simp: is_zero_def to_seconds_eq)
  ultimately show ?thesis using k keyRow_find [OF k] by (simp add: key_dead_def)
qed

lemma revokeKeys_kill:
  "revokeKeys now ids d = (None, d') \<Longrightarrow> nanos_per_second \<le> now \<Longrightarrow> i \<in> set ids \<Longrightarrow> key_dead i d'"
proof (induction now ids d rule: revokeKeys.induct)
  case (2 now j ids d)
  obtain d1 where d1: "keysRevoke now j d = (None, d1)" "revokeKeys now ids d1 = (None, d')"
    using 2(2) by (auto split: prod.splits option.splits)
  show ?case
  proof (cases "i = j")
    case True
    then have "key_dead i d1" using revoke_kills d1(1) 2(3) by blast
    then show ?thesis using dead_stays revokeKeys_kept [of d1 now ids] d1(2) by fastforce
  next
    case False
    then show ?thesis using 2 d1 by auto
  qed
qed simp

text \<open>Minting retires the active keys of the same kind and name.\<close>

lemma mint_kills:
  assumes m: "mintKey now hash ib sb kind name display role bound ex a = (Inr tok, a')"
    and now: "nanos_per_second \<le> now"
    and k: "keyRow i (au_db a) = Some k" "ak_kind k = kind" "ak_name k = name"
  shows "key_dead i (au_db a')"
proof (cases "is_zero (ak_revokedAt k)")
  case True
  from mintKey_success [OF m] obtain ks b s h d where
    ks: "keysList kind (au_db a) = Inr ks"
    and r: "revokeKeys now (map ak_id (filter (\<lambda>k. ak_name k = name \<and> is_zero (ak_revokedAt k)) ks)) (au_db a) = (None, d)"
    and c: "keysCreate now \<lparr>ak_id = hex_encode b, ak_kind = kind, ak_name = name, ak_hash = h,
       ak_role = role, ak_display = display, ak_boundIP = bound, ak_createdAt = now,
       ak_lastUsedAt = 0, ak_revokedAt = 0, ak_expiresAt = ex\<rparr> d = (None, au_db a')"
    by blast
  have "k \<in> set ks" using ks keyRow_find [OF k(1)] k(2) by (auto simp: keysList_def split: if_splits)
  then have "i \<in> set (map ak_id (filter (\<lambda>k. ak_name k = name \<and> is_zero (ak_revokedAt k)) ks))"
    using k(3) True keyRow_find [OF k(1)] by force
  from revokeKeys_kill [OF r now this] have "key_dead i d" .
  then show ?thesis using dead_stays keysCreate_kept c by (metis snd_conv)
next
  case False
  then have "key_dead i (au_db a)" using k(1) by (simp add: key_dead_def)
  then show ?thesis using dead_stays mintKey_kept [OF m] by blast
qed

text \<open>C17: a revoked or replaced key never opens anything again.  After a key was revoked, or a new
  key was minted under its kind and name, no token with its key id is accepted in any later
  state, whatever calls were made in between.\<close>

theorem retired_key_stays_dead:
  assumes "revokeKey now i a = (None, a1) \<or>
      (\<exists>k hash ib sb display role bound ex tok. keyRow i (au_db a) = Some k \<and>
        mintKey now hash ib sb (ak_kind k) (ak_name k) display role bound ex a = (Inr tok, a1))"
    and "nanos_per_second \<le> now" and "auth_history verify avoid a1 t a2"
    and "parseToken token = Some (kind, i, secret)"
  shows "\<exists>e. fst (verifyBearerFrom verify later ip token want a2) = Inl e"
proof -
  have "key_dead i (au_db a1)"
    using assms(1,2) revoke_kills mint_kills by (auto simp: revokeKey_def dest!: onDb_res)
  then have "key_dead i (au_db a2)" by (rule dead_stays) (rule history_keys [OF assms(3)])
  then show ?thesis using assms(4) by (rule dead_refused)
qed


lemma sample_random:
  "rawURLEncode (replicate 32 0) = replicate 43 CHR ''A''" "hex_encode [0, 0, 0, 0, 0, 1] = ''000000000001''"
  by (simp_all add: zero_secret hex_encode_def hex_digits_def)

definition sample_hash :: "string \<Rightarrow> string option" where
  "sample_hash s = Some (''#'' @ s)"

definition sample_verify :: "string \<Rightarrow> string \<Rightarrow> bool option" where
  "sample_verify h s = Some (h = ''#'' @ s)"

definition sample_key :: api_key where
  "sample_key = \<lparr>ak_id = ''000000000001'', ak_kind = ''mcp'', ak_name = ''agent'',
     ak_hash = ''#'' @ replicate 43 CHR ''A'', ak_role = [], ak_display = [], ak_boundIP = [],
     ak_createdAt = timeOf 9, ak_lastUsedAt = 0, ak_revokedAt = 0, ak_expiresAt = 0\<rparr>"

definition sample_keyed :: authorizer where
  "sample_keyed = newAuthorizer (sample_auth_db\<lparr>ad_keys := [sample_key]\<rparr>)"

theorem retired_key_stays_dead_witness:
  "\<exists>e. fst (verifyBearerFrom sample_verify (timeOf 20) ''10.0.0.9''
     (formatToken ''mcp'' ''000000000001'' (replicate 43 CHR ''A'')) ''mcp''
     (snd (revokeKey (timeOf 10) ''000000000001'' sample_keyed))) = Inl e"
proof -
  let ?a = "snd (revokeKey (timeOf 10) ''000000000001'' sample_keyed)"
  have r: "revokeKey (timeOf 10) ''000000000001'' sample_keyed = (None, ?a)"
    by (simp add: revokeKey_def onDb_def keysRevoke_def sample_keyed_def newAuthorizer_def sample_auth_db_def
        sample_key_def)
  have p: "parseToken (formatToken ''mcp'' ''000000000001'' (replicate 43 CHR ''A'')) =
    Some (''mcp'', ''000000000001'', replicate 43 CHR ''A'')"
    using parse_format [OF minted_wf [of "[0, 0, 0, 0, 0, 1]" "replicate 32 0"], of "''mcp''"]
    by (simp add: sample_random)
  show ?thesis
    by (rule retired_key_stays_dead [OF disjI1 [OF r] _ auth_history.start p]) (simp add: timeOf_def unix_epoch_def)
qed

section \<open>Living keys\<close>

lemma keysCreate_row:
  "keysCreate now k d = (None, d') \<Longrightarrow>
   \<exists>k'. keyRow (ak_id k) d' = Some k' \<and> ak_kind k' = ak_kind k \<and> ak_name k' = ak_name k \<and> ak_hash k' = ak_hash k \<and>
     ak_role k' = ak_role k \<and> ak_display k' = ak_display k \<and> ak_boundIP k' = ak_boundIP k \<and>
     ak_expiresAt k' = nullable (ak_expiresAt k)"
proof -
  assume c: "keysCreate now k d = (None, d')"
  let ?k = "k\<lparr>ak_createdAt := to_seconds (orNow now (ak_createdAt k)), ak_lastUsedAt := nullable (ak_lastUsedAt k),
    ak_revokedAt := nullable (ak_revokedAt k), ak_expiresAt := nullable (ak_expiresAt k)\<rparr>"
  have d': "ad_keys d' = ad_keys d @ [?k]" and new: "ak_id k \<notin> ak_id ` set (ad_keys d)"
    using c by (auto simp: keysCreate_def split: if_splits)
  have "find (\<lambda>x. ak_id x = ak_id k) (ad_keys d) = None" using new by (simp add: find_None_iff) (metis imageI)
  then have "keyRow (ak_id k) d' = Some ?k" by (simp add: keyRow_def d' find_append)
  then show ?thesis by simp
qed

lemma mint_row:
  assumes "mintKey now hash (Some kb) (Some sb) kind name display role bound ex a = (Inr tok, a')"
  shows "\<exists>k h. keyRow (hex_encode kb) (au_db a') = Some k \<and> hash (rawURLEncode sb) = Some h \<and>
    ak_kind k = kind \<and> ak_name k = name \<and> ak_hash k = h \<and> ak_role k = role \<and> ak_display k = display \<and>
    ak_boundIP k = bound \<and> ak_expiresAt k = nullable ex \<and>
    tok = formatToken kind (hex_encode kb) (rawURLEncode sb) \<and> mintRefusal kind name role = None"
  using mintKey_success [OF assms] keysCreate_row by fastforce

definition keyExpired :: "time \<Rightarrow> time \<Rightarrow> bool" where
  "keyExpired now ex \<longleftrightarrow> \<not> is_zero (nullable ex) \<and> \<not> now < nullable ex"

text \<open>C23: a minted key opens what it was minted for until it is revoked, expires or is used from
  another address.  With a hasher that accepts what it hashed, after any history of calls, the
  token printed at minting is answered with exactly the name, role and display of the minting,
  unless the client is being throttled; the check says no exactly in the three cases.\<close>

theorem minted_key_works:
  assumes "mintKey now hash (Some kb) (Some sb) kind name display role bound ex a = (Inr tok, a1)"
    and "length kb = 6" "length sb = 32" and "\<forall>s h. hash s = Some h \<longrightarrow> verify h s = Some True"
    and "auth_history verify avoid a1 t a2" and "\<not> ad_down (au_db a2)"
  shows "fst (verifyBearerFrom verify later ip tok kind a2) =
    (if tooMany later ip (au_limiter a2) then Inl ErrRateLimited
     else if key_dead (hex_encode kb) (au_db a2) \<or> keyExpired later ex \<or> bound \<noteq> [] \<and> bound \<noteq> ip
       then Inl ErrUnauthenticated
     else Inr \<lparr>id_name = name, id_role = role, id_keyID = hex_encode kb, id_kind = kind,
       id_display = display, id_assurance = [], id_assuranceAt = 0, id_principal = []\<rparr>)"
proof -
  obtain k0 h where k0: "keyRow (hex_encode kb) (au_db a1) = Some k0" "hash (rawURLEncode sb) = Some h"
    "ak_kind k0 = kind" "ak_name k0 = name" "ak_hash k0 = h" "ak_role k0 = role" "ak_display k0 = display"
    "ak_boundIP k0 = bound" "ak_expiresAt k0 = nullable ex"
    and tok: "tok = formatToken kind (hex_encode kb) (rawURLEncode sb)" and ok: "mintRefusal kind name role = None"
    using mint_row [OF assms(1)] by blast
  obtain k where k: "keyRow (hex_encode kb) (au_db a2) = Some k" "key_kept k0 k"
    using history_keys [OF assms(5)] k0(1) unfolding keys_kept_def by blast
  have get: "keysGet (hex_encode kb) (au_db a2) = Inr k"
    using k(1) assms(6) by (simp add: keysGet_def keyRow_def)
  have kind: "kind \<in> {''forge'', ''router'', ''mcp''} \<and> (kind \<noteq> ''forge'' \<longrightarrow> role = [])"
    using ok by (auto simp: mintRefusal_def split: if_splits)
  have parse: "parseToken tok = Some (kind, hex_encode kb, rawURLEncode sb)"
    unfolding tok by (rule parse_format [OF minted_wf [OF assms(2,3)]]) (use kind in blast)
  have ver: "verify (ak_hash k) (rawURLEncode sb) = Some True"
    using k(2) k0 assms(4) by (simp add: key_kept_def)
  have dead: "key_dead (hex_encode kb) (au_db a2) \<longleftrightarrow> \<not> is_zero (ak_revokedAt k)"
    using k(1) by (simp add: key_dead_def)
  have fields: "ak_expiresAt k = nullable ex" "ak_boundIP k = bound" "ak_name k = name" "ak_role k = role" "ak_display k = display"
    using k(2) k0 by (simp_all add: key_kept_def)
  show ?thesis
    using kind by (simp add: verifyBearerFrom_def verifyBearer_def Let_def parse get ver dead fields keyIdentity_def
        keyExpired_def case_prod_unfold)
qed

theorem minted_key_works_witness:
  "let (r, a1) = mintKey (timeOf 9) sample_hash (Some [0, 0, 0, 0, 0, 1]) (Some (replicate 32 0)) ''mcp'' ''agent'' []
       [] [] 0 (newAuthorizer sample_auth_db)
   in \<exists>tok. r = Inr tok \<and>
     fst (verifyBearerFrom sample_verify (timeOf 20) ''10.0.0.9'' tok ''mcp'' a1) =
       Inr \<lparr>id_name = ''agent'', id_role = [], id_keyID = ''000000000001'', id_kind = ''mcp'', id_display = [],
         id_assurance = [], id_assuranceAt = 0, id_principal = []\<rparr>"
proof -
  let ?m = "mintKey (timeOf 9) sample_hash (Some [0, 0, 0, 0, 0, 1]) (Some (replicate 32 0)) ''mcp'' ''agent'' [] [] [] 0
    (newAuthorizer sample_auth_db)"
  let ?tok = "formatToken ''mcp'' ''000000000001'' (replicate 43 CHR ''A'')"
  let ?s = "replicate 43 CHR ''A''"
  have "mintRefusal ''mcp'' ''agent'' [] = None" by (simp add: mintRefusal_def)
  then have m: "fst ?m = Inr ?tok \<and> \<not> ad_down (au_db (snd ?m)) \<and> au_limiter (snd ?m) = newRateLimiter 10 nanos_per_minute
    \<and> map ak_revokedAt (ad_keys (au_db (snd ?m))) = [0]"
    unfolding mintKey_def
    by (simp add: keysList_def randToken_def sample_hash_def onDb_def keysCreate_def newAuthorizer_def sample_auth_db_def
        sample_random nullable_def is_zero_def)
  obtain a1 where a1: "?m = (Inr ?tok, a1)" using m by (cases ?m) simp
  have "\<not> key_dead ''000000000001'' (au_db a1)"
    using m unfolding a1 by (auto simp: key_dead_def keyRow_def is_zero_def split: if_splits)
  then show ?thesis
    using minted_key_works [OF a1 _ _ _ auth_history.start [of sample_verify "{}"], of "timeOf 20" "''10.0.0.9''"] m
    unfolding a1
    by (simp add: sample_random sample_hash_def sample_verify_def keyExpired_def nullable_def is_zero_def
        tooMany_def newRateLimiter_def)
qed

end
