(* ===== verification/Auth_Sessions.thy ===== *)
theory Auth_Sessions
  imports Auth_History
begin

text \<open>
  What becomes of sessions and accounts in histories of the authorizer: a session that ended does
  not come back, sessions live seven days at most, and the first-run setup happens once.
\<close>

section \<open>Sessions\<close>

text \<open>Rows with id \<open>sid\<close> are rows that were there, with their expiry.\<close>

definition session_kept :: "string \<Rightarrow> auth_db \<Rightarrow> auth_db \<Rightarrow> bool" where
  "session_kept sid d d' \<longleftrightarrow> (\<forall>s' \<in> set (ad_sessions d'). se_id s' = sid \<longrightarrow>
     (\<exists>s \<in> set (ad_sessions d). se_id s = sid \<and> se_expiresAt s' = se_expiresAt s))"

lemma session_kept_refl [simp]: "session_kept sid d d"
  by (auto simp: session_kept_def)

lemma session_kept_trans: "session_kept sid d e \<Longrightarrow> session_kept sid e f \<Longrightarrow> session_kept sid d f"
  unfolding session_kept_def by fastforce

lemma session_kept_same: "ad_sessions d' = ad_sessions d \<Longrightarrow> session_kept sid d d'"
  by (auto simp: session_kept_def)

lemma session_ops_kept:
  "se_id s \<noteq> sid \<Longrightarrow> session_kept sid d (snd (sessionsCreate now s d))"
  "session_kept sid d (snd (sessionsDelete i d))" "session_kept sid d (snd (sessionsTouch i now d))"
  "session_kept sid d (snd (sessionsDeleteExpired now d))"
  "new \<noteq> sid \<Longrightarrow> session_kept sid d (snd (elevateSession old new c ass now d))"
  by (auto simp: session_kept_def sessionsCreate_def sessionsDelete_def sessionsTouch_def sessionsDeleteExpired_def
      elevateSession_def Let_def split: if_splits)

lemma same_sessions:
  "ad_sessions (snd (keysCreate now k d)) = ad_sessions d" "ad_sessions (snd (keysRevoke now i d)) = ad_sessions d"
  "ad_sessions (snd (keysTouchUsed i now d)) = ad_sessions d" "ad_sessions (snd (usersCreate now u d)) = ad_sessions d"
  "ad_sessions (snd (settingsSet x v d)) = ad_sessions d"
  by (simp_all add: keysCreate_def keysRevoke_def keysTouchUsed_def usersCreate_def settingsSet_def Let_def)

lemma revokeKeys_sessions: "ad_sessions (snd (revokeKeys now is d)) = ad_sessions d"
proof (induction now "is" d rule: revokeKeys.induct)
  case (2 now i "is" d)
  obtain e d1 where r: "keysRevoke now i d = (e, d1)" by (rule prod.exhaust)
  then have "ad_sessions d1 = ad_sessions d" using same_sessions(2) [of now i d] by simp
  then show ?case using 2 r by (cases e) auto
qed simp


lemma onDb_session_kept:
  "(\<And>d. session_kept sid d (snd (f d))) \<Longrightarrow> onDb f a = (r, a') \<Longrightarrow> session_kept sid (au_db a) (au_db a')"
  by (auto dest!: onDb_step)

lemma touch_session_kept:
  "(\<And>d. session_kept sid d (f d)) \<Longrightarrow> session_kept sid (au_db a) (au_db (touch now k f a))"
  using touch_db [of now k f a] by auto

lemma login_session_kept:
  "login verify now sb cb u p ip ua a = (r, a') \<Longrightarrow> randToken sb \<noteq> Some sid \<Longrightarrow> session_kept sid (au_db a) (au_db a')"
  by (auto simp: login_def Let_def session_ops_kept dest!: onDb_step
      split: if_splits sum.splits option.splits prod.splits store_err.splits)

lemma sessionIdentity_session_kept:
  "sessionIdentity now i a = (r, a') \<Longrightarrow> session_kept sid (au_db a) (au_db a')"
  by (auto simp: sessionIdentity_def intro!: touch_session_kept session_ops_kept
      split: if_splits sum.splits option.splits prod.splits store_err.splits)

lemma touch_sessions:
  "(\<And>d. ad_sessions (f d) = ad_sessions d) \<Longrightarrow> ad_sessions (au_db (touch now k f a)) = ad_sessions (au_db a)"
  using touch_db [of now k f a] by auto

lemma verifyBearerFrom_sessions:
  "verifyBearerFrom verify now ip token want a = (r, a') \<Longrightarrow> ad_sessions (au_db a') = ad_sessions (au_db a)"
  using touch_sessions [OF same_sessions(3)]
  by (fastforce simp: verifyBearerFrom_def verifyBearer_def Let_def
      split: if_splits sum.splits option.splits prod.splits store_err.splits)

lemma mintKey_sessions:
  "mintKey now hash ib sb kind name display role bound ex a = (m, a') \<Longrightarrow> ad_sessions (au_db a') = ad_sessions (au_db a)"
  by (auto simp: mintKey_def same_sessions revokeKeys_sessions dest!: onDb_step
      split: sum.splits option.splits prod.splits)

lemma completeSetup_sessions:
  "completeSetup now hash u p a = (f, a') \<Longrightarrow> ad_sessions (au_db a') = ad_sessions (au_db a)"
  by (auto simp: completeSetup_def createUser_def same_sessions dest!: onDb_step
      split: if_splits sum.splits option.splits prod.splits bool.splits)

lemma step_sessions: "auth_step verify avoid now a a' \<Longrightarrow> sid \<in> avoid \<Longrightarrow> session_kept sid (au_db a) (au_db a')"
proof (induction rule: auth_step.cases)
  case do_login
  then show ?case by (auto intro: login_session_kept)
next
  case do_session
  then show ?case by (auto intro: sessionIdentity_session_kept)
next
  case do_elevate
  then show ?case by (auto intro!: onDb_session_kept [OF session_ops_kept(5)])
next
  case do_network
  then show ?case by (auto intro!: onDb_session_kept [OF session_ops_kept(1)])
qed (auto simp: logout_def sweepExpiredSessions_def revokeKey_def same_sessions session_ops_kept
    intro: session_kept_same
    dest!: verifyBearerFrom_sessions mintKey_sessions completeSetup_sessions onDb_step)

lemma history_sessions: "auth_history verify {sid} a t a' \<Longrightarrow> session_kept sid (au_db a) (au_db a')"
  by (rule history_keeps [where R = "session_kept sid"]) (auto intro: session_kept_trans step_sessions)

definition session_over :: "string \<Rightarrow> time \<Rightarrow> auth_db \<Rightarrow> bool" where
  "session_over sid t d \<longleftrightarrow> (\<forall>s \<in> set (ad_sessions d). se_id s = sid \<longrightarrow> se_expiresAt s \<le> t)"

lemma over_refused: "session_over sid now (au_db a) \<Longrightarrow> \<exists>e. fst (sessionIdentity now sid a) = Inl e"
  by (auto simp: sessionIdentity_def sessionsGet_def session_over_def Let_def
      split: option.splits sum.splits store_err.splits dest!: find_Some_prop)

lemma over_stays: "session_over sid t d \<Longrightarrow> session_kept sid d d' \<Longrightarrow> session_over sid t d'"
  unfolding session_over_def session_kept_def by fastforce

lemma login_expiry:
  assumes "login verify now sb cb u p ip ua a = (Inr (s, i), a')"
  shows "session_over (se_id s) (now + au_sessionTTL a) (au_db a')"
proof -
  have c: "sessionsCreate now s (au_db a) = (None, au_db a') \<and> se_expiresAt s = now + au_sessionTTL a"
    using assms by (auto simp: login_def Let_def dest!: onDb_res
        split: if_splits sum.splits option.splits prod.splits store_err.splits)
  then obtain x where x: "ad_sessions (au_db a') = ad_sessions (au_db a) @ [x]"
    "se_expiresAt x = to_seconds (now + au_sessionTTL a)" "se_id s \<notin> se_id ` set (ad_sessions (au_db a))"
    by (auto simp: sessionsCreate_def split: if_splits dest!: sym [of _ "au_db a'"])
  have "se_expiresAt r \<le> now + au_sessionTTL a" if "r \<in> set (ad_sessions (au_db a'))" "se_id r = se_id s" for r
  proof -
    have "r = x" using that x(1,3) by (auto simp: image_iff)
    then show ?thesis using x(2) to_seconds_bounds [of "now + au_sessionTTL a"] by simp
  qed
  then show ?thesis by (simp add: session_over_def)
qed

lemma onDb_both: "onDb f a = (r, a') \<Longrightarrow> fst (f (au_db a)) = r \<and> au_db a' = snd (f (au_db a))"
  by (auto simp: onDb_def split: prod.splits)

lemma logout_over: "logout sid a = (None, a') \<Longrightarrow> session_over sid t (au_db a')"
  by (auto simp: logout_def session_over_def sessionsDelete_def dest!: onDb_both split: if_splits)

lemma elevate_over:
  "onDb (elevateSession sid new c ass now) a = (None, a') \<Longrightarrow> new \<noteq> sid \<Longrightarrow> session_over sid t (au_db a')"
  by (auto simp: session_over_def elevateSession_def dest!: onDb_both split: if_splits)

text \<open>C20: a session ends.  After a logout, after an elevation that rotated its id, and from seven
  days after its login on, a session id authenticates nothing, whatever calls were made in
  between, as long as the random source does not draw the same id again.\<close>

theorem session_ends:
  assumes "logout sid a = (None, a1) \<or>
      (new \<noteq> sid \<and> onDb (elevateSession sid new csrf level now) a = (None, a1)) \<or>
      (\<exists>s i. login verify now sb cb u p ip ua a = (Inr (s, i), a1) \<and> se_id s = sid \<and>
         au_sessionTTL a = au_sessionTTL (newAuthorizer d) \<and> now + 7 * 24 * 60 * nanos_per_minute \<le> later)"
    and "auth_history verify {sid} a1 t a2"
  shows "\<exists>e. fst (sessionIdentity later sid a2) = Inl e"
proof -
  have "session_over sid later (au_db a1)"
    using assms(1)
  proof (elim disjE)
    assume "\<exists>s i. login verify now sb cb u p ip ua a = (Inr (s, i), a1) \<and> se_id s = sid \<and>
      au_sessionTTL a = au_sessionTTL (newAuthorizer d) \<and> now + 7 * 24 * 60 * nanos_per_minute \<le> later"
    then obtain s i where l: "login verify now sb cb u p ip ua a = (Inr (s, i), a1)" "se_id s = sid"
      and t: "now + au_sessionTTL a \<le> later" by (auto simp: newAuthorizer_def)
    show ?thesis using login_expiry [OF l(1)] l(2) t by (fastforce simp: session_over_def)
  qed (auto intro: logout_over elevate_over)
  from over_refused [OF over_stays [OF this history_sessions [OF assms(2)]]] show ?thesis .
qed

definition sample_session :: session where
  "sample_session = \<lparr>se_id = ''s1'', se_userID = 1, se_csrf = ''c1'', se_createdAt = timeOf 9,
     se_expiresAt = timeOf 604809, se_lastSeenAt = timeOf 9, se_remoteAddr = ''10.0.0.9'', se_userAgent = [],
     se_assurance = ''password'', se_assuranceAt = 0, se_principal = []\<rparr>"

definition sample_logged_in :: authorizer where
  "sample_logged_in = newAuthorizer (sample_auth_db\<lparr>ad_sessions := [sample_session]\<rparr>)"

theorem session_ends_witness:
  "(\<exists>i s. fst (sessionIdentity (timeOf 20) ''s1'' sample_logged_in) = Inr (i, s)) \<and>
   (\<exists>e. fst (sessionIdentity (timeOf 20) ''s1'' (snd (logout ''s1'' sample_logged_in))) = Inl e)"
proof
  show "\<exists>i s. fst (sessionIdentity (timeOf 20) ''s1'' sample_logged_in) = Inr (i, s)"
    by (simp add: sample_logged_in_def newAuthorizer_def sample_auth_db_def sessionIdentity_def sessionsGet_def
        sample_session_def timeOf_def userByID_def usersList_def)
  have "logout ''s1'' sample_logged_in = (None, snd (logout ''s1'' sample_logged_in))"
    by (simp add: logout_def onDb_def sessionsDelete_def sample_logged_in_def newAuthorizer_def sample_auth_db_def)
  from session_ends [OF disjI1 [OF this] auth_history.start]
  show "\<exists>e. fst (sessionIdentity (timeOf 20) ''s1'' (snd (logout ''s1'' sample_logged_in))) = Inl e" .
qed

section \<open>The first-run setup\<close>

definition users_kept :: "auth_db \<Rightarrow> auth_db \<Rightarrow> bool" where
  "users_kept d d' \<longleftrightarrow> (ad_users d \<noteq> [] \<longrightarrow> ad_users d' = ad_users d)"

lemma same_users:
  "ad_users (snd (keysCreate now k d)) = ad_users d" "ad_users (snd (keysRevoke now i d)) = ad_users d"
  "ad_users (snd (keysTouchUsed i now d)) = ad_users d" "ad_users (snd (sessionsCreate now s d)) = ad_users d"
  "ad_users (snd (sessionsDelete i d)) = ad_users d" "ad_users (snd (sessionsTouch i now d)) = ad_users d"
  "ad_users (snd (sessionsDeleteExpired now d)) = ad_users d"
  "ad_users (snd (elevateSession old new c ass now d)) = ad_users d" "ad_users (snd (settingsSet x v d)) = ad_users d"
  by (simp_all add: keysCreate_def keysRevoke_def keysTouchUsed_def sessionsCreate_def sessionsDelete_def
      sessionsTouch_def sessionsDeleteExpired_def elevateSession_def settingsSet_def Let_def)

lemma revokeKeys_users: "ad_users (snd (revokeKeys now is d)) = ad_users d"
proof (induction now "is" d rule: revokeKeys.induct)
  case (2 now i "is" d)
  obtain e d1 where r: "keysRevoke now i d = (e, d1)" by (rule prod.exhaust)
  then have "ad_users d1 = ad_users d" using same_users(2) [of now i d] by simp
  then show ?case using 2 r by (cases e) auto
qed simp

lemma touch_users: "(\<And>d. ad_users (f d) = ad_users d) \<Longrightarrow> ad_users (au_db (touch now k f a)) = ad_users (au_db a)"
  using touch_db [of now k f a] by auto

lemma login_users: "login verify now sb cb u p ip ua a = (r, a') \<Longrightarrow> ad_users (au_db a') = ad_users (au_db a)"
  by (auto simp: login_def Let_def same_users dest!: onDb_step
      split: if_splits sum.splits option.splits prod.splits store_err.splits)

lemma sessionIdentity_users: "sessionIdentity now i a = (r, a') \<Longrightarrow> ad_users (au_db a') = ad_users (au_db a)"
  by (auto simp: sessionIdentity_def same_users intro!: touch_users
      split: if_splits sum.splits option.splits prod.splits store_err.splits)

lemma verifyBearerFrom_users:
  "verifyBearerFrom verify now ip token want a = (r, a') \<Longrightarrow> ad_users (au_db a') = ad_users (au_db a)"
  using touch_users [OF same_users(3)]
  by (fastforce simp: verifyBearerFrom_def verifyBearer_def Let_def
      split: if_splits sum.splits option.splits prod.splits store_err.splits)

lemma mintKey_users:
  "mintKey now hash ib sb kind name display role bound ex a = (m, a') \<Longrightarrow> ad_users (au_db a') = ad_users (au_db a)"
  by (auto simp: mintKey_def same_users revokeKeys_users dest!: onDb_step split: sum.splits option.splits prod.splits)

lemma setup_refused:
  "ad_users (au_db a) \<noteq> [] \<Longrightarrow> \<exists>e. completeSetup now hash u p a = (Some e, a)"
  by (cases "ad_down (au_db a)")
    (auto simp: completeSetup_def setupRequired_def usersList_def dest!: arg_cong [where f = set])

lemma setup_taken:
  "completeSetup now hash u p a = (r, a') \<Longrightarrow> ad_users (au_db a) \<noteq> [] \<Longrightarrow> a' = a \<and> r \<noteq> None"
  using setup_refused [of a now hash u p] by auto

lemma users_kept_trans: "users_kept d e \<Longrightarrow> users_kept e f \<Longrightarrow> users_kept d f"
  by (auto simp: users_kept_def)

lemma step_users: "auth_step verify avoid now a a' \<Longrightarrow> users_kept (au_db a) (au_db a')"
proof (induction rule: auth_step.cases)
  case do_setup
  then show ?case by (auto simp: users_kept_def dest!: setup_taken)
qed (auto simp: users_kept_def logout_def sweepExpiredSessions_def revokeKey_def same_users
    dest!: login_users sessionIdentity_users verifyBearerFrom_users mintKey_users onDb_step)

lemma history_users: "auth_history verify avoid a t a' \<Longrightarrow> users_kept (au_db a) (au_db a')"
  by (rule history_keeps [where R = users_kept]) (auto intro: step_users users_kept_trans simp: users_kept_def [of d d for d])

lemma setup_user:
  assumes "completeSetup now hash u p a = (None, a1)"
  shows "\<exists>h. hash p = Some h \<and> ad_users (au_db a) = [] \<and> ad_users (au_db a1) = [\<lparr>us_id = 1, us_username = u, us_hash = h,
     us_role = ''admin'', us_createdAt = to_seconds (orNow now now), us_disabled = False\<rparr>]"
proof -
  have "ad_users (au_db a) = []" using setup_taken [OF assms] by blast
  then show ?thesis using assms
    by (auto simp: completeSetup_def createUser_def usersCreate_def Let_def settingsSet_def dest!: onDb_both
        split: if_splits sum.splits option.splits prod.splits bool.splits)
qed

text \<open>the first-run setup runs once.  It succeeds only on a daemon without accounts and
  leaves exactly the administrator it was called for; in every later state it fails and changes
  nothing, and the account is unchanged.\<close>

theorem setup_runs_once:
  assumes "completeSetup now hash u p a = (None, a1)" and "auth_history verify avoid a1 t a2"
  shows "ad_users (au_db a) = [] \<and> map us_username (ad_users (au_db a1)) = [u] \<and>
    map us_role (ad_users (au_db a1)) = [''admin''] \<and> map us_hash (ad_users (au_db a1)) = [the (hash p)] \<and>
    ad_users (au_db a2) = ad_users (au_db a1) \<and>
    (\<exists>e. completeSetup later hash' u' p' a2 = (Some e, a2))"
proof -
  obtain h where h: "hash p = Some h" "ad_users (au_db a) = []" "ad_users (au_db a1) = [\<lparr>us_id = 1, us_username = u,
     us_hash = h, us_role = ''admin'', us_createdAt = to_seconds (orNow now now), us_disabled = False\<rparr>]"
    using setup_user [OF assms(1)] by blast
  then have same: "ad_users (au_db a2) = ad_users (au_db a1)"
    using history_users [OF assms(2)] by (simp add: users_kept_def)
  then show ?thesis using h setup_refused [of a2 later hash' u' p'] by simp
qed

definition fresh_daemon :: authorizer where
  "fresh_daemon = newAuthorizer (sample_auth_db\<lparr>ad_users := []\<rparr>)"

theorem setup_runs_once_witness:
  "let a1 = snd (completeSetup (timeOf 9) sample_hash ''ann'' ''long enough'' fresh_daemon)
   in map us_username (ad_users (au_db a1)) = [''ann''] \<and>
      (\<exists>e. completeSetup (timeOf 10) sample_hash ''eve'' ''long enough'' a1 = (Some e, a1))"
proof -
  let ?c = "completeSetup (timeOf 9) sample_hash ''ann'' ''long enough'' fresh_daemon"
  have "fst ?c = None"
    by (simp add: completeSetup_def setupRequired_def usersList_def fresh_daemon_def newAuthorizer_def
        sample_auth_db_def createUser_def validRole_def maxSecretLen_def sample_hash_def onDb_def usersCreate_def
        known_role_def settingsSet_def Let_def)
  then have "?c = (None, snd ?c)" by (cases ?c) simp
  from setup_runs_once [OF this auth_history.start [of sample_verify "{}"]] show ?thesis by (simp add: Let_def)
qed

end
