(* ===== verification/Auth_Http_Props.thy ===== *)
theory Auth_Http_Props
  imports Auth_Routes Auth_Handlers Auth_Sessions
begin

text \<open>
  What the middleware promises: a handler runs only for an identified caller with the role,
  assurance and CSRF token its route asks for, and viewers change nothing but their own things.
\<close>

section \<open>Requirements\<close>

definition policyOf :: "auth_db \<Rightarrow> (string \<times> string) list" where
  "policyOf d = (case fst (policyLoad d) of Inl e \<Rightarrow> [] | Inr p \<Rightarrow> p)"

definition requiredFor :: "auth_db \<Rightarrow> string \<Rightarrow> string" where
  "requiredFor d res = (case map_of (policyOf d) res of None \<Rightarrow> ''network'' | Some m \<Rightarrow> m)"

text \<open>The assurance is high enough and, above the network level, proven within the step-up
  lifetime; a session without a time of proof counts as fresh.\<close>

definition assured :: "auth_env \<Rightarrow> time \<Rightarrow> string \<Rightarrow> identity \<Rightarrow> auth_db \<Rightarrow> bool" where
  "assured env now res i d \<longleftrightarrow>
     (let m = requiredFor d res; ttl = stepUpTTL (ev_stepUpTTL env) in
      atLeast (id_assurance i) m \<and>
      (m = ''network'' \<or> ttl \<le> 0 \<or> is_zero (id_assuranceAt i) \<or> time_sub now (id_assuranceAt i) \<le> ttl))"

fun guardHolds :: "auth_env \<Rightarrow> time \<Rightarrow> identity \<Rightarrow> auth_db \<Rightarrow> guard \<Rightarrow> bool" where
  "guardHolds env now i d (Role need) \<longleftrightarrow> roleAllows (id_role i) need"
| "guardHolds env now i d (Assurance res) \<longleftrightarrow> id_keyID i \<noteq> [] \<or> assured env now res i d"
| "guardHolds env now i d (StrictAssurance res) \<longleftrightarrow> assured env now res i d"

lemma merge_default [simp]: "mergeDefaults defaultPolicy = defaultPolicy"
  by (auto simp: mergeDefaults_def filter_empty_conv intro: rev_image_eqI)

lemma policyLoad_again:
  assumes "policyLoad d = (Inr p, d1)"
  shows "policyLoad d1 = (Inr p, d1)"
proof (cases "settingsGet policy_key d")
  case (Inr v)
  then show ?thesis using assms by (auto simp: policyLoad_def split: setting.splits)
next
  case (Inl e)
  have d: "\<not> ad_down d" "map_of (ad_settings d) policy_key = None"
    "p = defaultPolicy" "d1 = snd (settingsSet policy_key (JsonMap defaultPolicy) d)"
    using assms Inl by (auto simp: policyLoad_def policySave_def settingsGet_def settingsSet_def sql_error_def
        split: store_err.splits if_splits option.splits)
  have "\<not> list_ex (\<lambda>x. fst x = policy_key) (ad_settings d)"
    using d(2) by (force simp: list_ex_iff map_of_eq_None_iff)
  then have "settingsGet policy_key d1 = Inr (JsonMap defaultPolicy)"
    using d by (simp add: settingsGet_def settingsSet_def upsert_def map_add_def)
  then show ?thesis using d(3) by (simp add: policyLoad_def)
qed

lemma policyOf_load: "policyLoad d = (Inr p, d1) \<Longrightarrow> policyOf d = p \<and> policyOf d1 = p"
  using policyLoad_again [of d p d1] by (simp add: policyOf_def)

lemma evaluate_assured:
  assumes "evaluateAssurance env now i res a = (Inr x, a1)"
  shows "(de_allowed x \<longleftrightarrow> assured env now res i (au_db a)) \<and> policyOf (au_db a1) = policyOf (au_db a) \<and>
    de_required x = requiredFor (au_db a) res"
proof -
  obtain p where p: "policyLoad (au_db a) = (Inr p, au_db a1)"
    and x: "x = evaluate p (stepUpTTL (ev_stepUpTTL env)) now res (id_assurance i) (id_assuranceAt i)"
    using assms by (auto simp: evaluateAssurance_def dest!: onDb_res split: sum.splits prod.splits)
  have "policyOf (au_db a) = p" "policyOf (au_db a1) = p" using policyOf_load [OF p] by blast+
  then show ?thesis
    unfolding x by (simp add: evaluate_allowed evaluate_required assured_def requiredFor_def Let_def)
qed

lemma strict_ok:
  "requireStrictAssurance env now res i a = (None, a1) \<Longrightarrow>
   assured env now res i (au_db a) \<and> policyOf (au_db a1) = policyOf (au_db a)"
  using evaluate_assured
  by (fastforce simp: requireStrictAssurance_def split: prod.splits sum.splits if_splits policy_error.splits)

lemma assurance_ok:
  "requireAssurance env now res i a = (None, a1) \<Longrightarrow>
   (id_keyID i \<noteq> [] \<or> assured env now res i (au_db a)) \<and> policyOf (au_db a1) = policyOf (au_db a)"
  using evaluate_assured
  by (fastforce simp: requireAssurance_def split: prod.splits sum.splits if_splits policy_error.splits)

lemma guardHolds_cong: "policyOf d = policyOf d' \<Longrightarrow> guardHolds env now i d g = guardHolds env now i d' g"
  by (cases g) (simp_all add: assured_def requiredFor_def)

lemma runGuards_ok:
  "runGuards env now gs i a = (None, a') \<Longrightarrow> \<forall>g \<in> set gs. guardHolds env now i (au_db a) g"
proof (induction env now gs i a rule: runGuards.induct)
  case (2 env now need gs i a)
  then show ?case by (auto simp: requireRole_def split: option.splits if_splits)
next
  case (3 env now res gs i a)
  then obtain a1 where g: "requireAssurance env now res i a = (None, a1)" "runGuards env now gs i a1 = (None, a')"
    by (auto split: prod.splits option.splits)
  have "\<forall>g \<in> set gs. guardHolds env now i (au_db a1) g" using 3(1) g by auto
  then show ?case using assurance_ok [OF g(1)] guardHolds_cong [of "au_db a1" "au_db a"] by auto
next
  case (4 env now res gs i a)
  then obtain a1 where g: "requireStrictAssurance env now res i a = (None, a1)" "runGuards env now gs i a1 = (None, a')"
    by (auto split: prod.splits option.splits)
  have "\<forall>g \<in> set gs. guardHolds env now i (au_db a1) g" using 4(1) g by auto
  then show ?case using strict_ok [OF g(1)] guardHolds_cong [of "au_db a1" "au_db a"] by auto
qed simp

section \<open>The middleware\<close>

text \<open>Authentication leaves the settings alone.\<close>

definition settings_same :: "auth_db \<Rightarrow> auth_db \<Rightarrow> bool" where
  "settings_same d d' \<longleftrightarrow> ad_settings d' = ad_settings d \<and> ad_down d' = ad_down d"

lemma settings_same_refl [simp]: "settings_same d d"
  by (simp add: settings_same_def)

lemma settings_same_ops [simp]:
  "settings_same d (snd (sessionsCreate now s d))" "settings_same d (snd (sessionsDelete x d))"
  "settings_same d (snd (sessionsTouch x now d))" "settings_same d (snd (keysTouchUsed x now d))"
  by (simp_all add: settings_same_def sessionsCreate_def sessionsDelete_def sessionsTouch_def keysTouchUsed_def)

lemma settings_same_policy: "settings_same d d' \<Longrightarrow> policyOf d' = policyOf d"
  by (simp add: settings_same_def policyOf_def policyLoad_def settingsGet_def policySave_def settingsSet_def
      split: store_err.splits setting.splits option.splits)

lemma touch_settings: "(\<And>d. settings_same d (f d)) \<Longrightarrow> settings_same (au_db a) (au_db (touch now k f a))"
  using touch_db [of now k f a] by auto

lemma sessionIdentity_settings: "sessionIdentity now x a = (r, a') \<Longrightarrow> settings_same (au_db a) (au_db a')"
  by (auto simp: sessionIdentity_def intro!: touch_settings
      split: if_splits sum.splits option.splits prod.splits store_err.splits)

lemma verifyBearerFrom_settings:
  "verifyBearerFrom verify now ip token want a = (r, a') \<Longrightarrow> settings_same (au_db a) (au_db a')"
  by (auto simp: verifyBearerFrom_def verifyBearer_def Let_def intro!: touch_settings
      split: if_splits sum.splits option.splits prod.splits store_err.splits)

lemma resolveSession_settings: "resolveSession now r a = (x, a') \<Longrightarrow> settings_same (au_db a) (au_db a')"
  by (auto simp: resolveSession_def verifySession_def dest!: sessionIdentity_settings
      split: sum.splits prod.splits)

lemma bootstrap_settings:
  "bootstrapNetworkIdentity env now sb cb r a = (x, a') \<Longrightarrow> settings_same (au_db a) (au_db a')"
  by (auto simp: bootstrapNetworkIdentity_def createNetworkSession_def Let_def dest!: onDb_step
      split: sum.splits prod.splits option.splits if_splits store_err.splits)

lemma withAuth_admits:
  assumes "withAuth env now sb cb r a = ((Inr (i, s), ck), a')"
  shows "whoCalls env now sb cb r a = ((Inr (i, s), ck), a') \<and>
    (rq_method r \<in> {''GET'', ''HEAD''} \<or> bearerToken r \<noteq> [] \<or> csrfOKForSession r s (au_db a'))"
  using assms by (auto simp: withAuth_def split: prod.splits sum.splits if_splits)

lemma whoCalls_settings: "whoCalls env now sb cb r a = (x, a') \<Longrightarrow> settings_same (au_db a) (au_db a')"
  by (auto simp: whoCalls_def dest!: verifyBearerFrom_settings resolveSession_settings bootstrap_settings
      split: if_splits sum.splits prod.splits)


text \<open>A session a request is served with carries the id of its cookie, or is none, or was just
  made for the linked account of a network principal.\<close>

lemma resolveSession_ok:
  assumes "resolveSession now r a = (Inr (i, s), a')"
  shows "\<exists>s0 u. rq_cookie r \<noteq> [] \<and> s0 \<in> set (ad_sessions (au_db a)) \<and> se_id s0 = rq_cookie r \<and>
    now < se_expiresAt s0 \<and> u \<in> set (ad_users (au_db a)) \<and> us_id u = se_userID s0 \<and> \<not> us_disabled u \<and>
    i = sessionIdentityOf u s0 \<and> se_id s = se_id s0"
proof -
  obtain s0 a1 where v: "sessionIdentity now (rq_cookie r) a = (Inr (i, s0), a1)"
    and g: "sessionsGet (rq_cookie r) (au_db a1) = Inr s"
    using assms by (auto simp: resolveSession_def verifySession_def split: prod.splits sum.splits)
  have c: "rq_cookie r \<noteq> []" "sessionsGet (rq_cookie r) (au_db a) = Inr s0" "now < se_expiresAt s0"
    using v by (auto simp: sessionIdentity_def Let_def split: if_splits sum.splits store_err.splits prod.splits)
  obtain u where u: "userByID (se_userID s0) (au_db a) = Inr u" "\<not> us_disabled u" "i = sessionIdentityOf u s0"
    using v c by (auto simp: sessionIdentity_def split: if_splits sum.splits)
  have s: "se_id s = rq_cookie r"
    using g by (auto simp: sessionsGet_def split: if_splits option.splits dest!: find_Some_prop)
  have s0: "s0 \<in> set (ad_sessions (au_db a)) \<and> se_id s0 = rq_cookie r"
    using c(2) by (auto simp: sessionsGet_def split: if_splits option.splits dest!: find_Some_prop)
  have "u \<in> set (ad_users (au_db a)) \<and> us_id u = se_userID s0"
    using u(1) by (auto simp: userByID_def usersList_def split: if_splits option.splits dest!: find_Some_prop)
  then show ?thesis using c u s s0 by metis
qed

lemma bootstrap_cases:
  assumes "bootstrapNetworkIdentity env now sb cb r a = ((Inr (i, s), ck), a')"
  shows "\<exists>p. identify env r = Some p \<and> id_principal i = p \<and> id_assurance i = ''network'' \<and> id_keyID i = [] \<and>
    (s = no_session \<and> id_role i = (if ev_networkRole env = [] then ''viewer'' else ev_networkRole env) \<or>
     (\<exists>u v. linksLookup (providerName (ev_provider env)) p (au_db a) = Inr v \<and> u \<in> set (ad_users (au_db a)) \<and>
        us_id u = v \<and> \<not> us_disabled u \<and> id_name i = us_username u \<and> id_role i = us_role u \<and> se_userID s = v))"
proof -
  have user: "\<exists>u \<in> set (ad_users d). us_id u = v \<and> \<not> us_disabled u \<and> x = userIdentity u"
    if "identityByID v a = Inr x" "d = au_db a" for v x d
    using that by (auto simp: identityByID_def userByID_def usersList_def split: if_splits option.splits sum.splits
        dest!: find_Some_prop)
  show ?thesis
    using assms
    by (fastforce simp: bootstrapNetworkIdentity_def createNetworkSession_def Let_def userIdentity_def no_session_def
        dest!: user [OF _ refl] split: option.splits sum.splits if_splits store_err.splits prod.splits)
qed

lemma accepted_key:
  assumes "verifyBearerFrom verify now ip token want a = (Inr i, a')"
  shows "\<exists>keyid secret k. parseToken token = Some (want, keyid, secret) \<and> keyRow keyid (au_db a) = Some k \<and>
    is_zero (ak_revokedAt k) \<and> (is_zero (ak_expiresAt k) \<or> now < ak_expiresAt k) \<and>
    (ak_boundIP k = [] \<or> ak_boundIP k = ip) \<and> verify (ak_hash k) secret = Some True \<and> i = keyIdentity k want keyid"
  using assms
  by (auto simp: verifyBearerFrom_def verifyBearer_def keysGet_def keyRow_def Let_def
      split: if_splits option.splits sum.splits prod.splits store_err.splits)

lemma csrf_session:
  assumes "whoCalls env now sb cb r a = ((Inr (i, s), ck), a')" and "bearerToken r = []"
    and "csrfOKForSession r s (au_db a')"
  shows "se_id s \<noteq> [] \<and> se_csrf s \<noteq> [] \<and> rq_header r ''X-CSRF-Token'' = se_csrf s"
proof (cases "rq_cookie r = []")
  case True
  then show ?thesis using assms(3) by (auto simp: csrfOKForSession_def csrfOK_def split: if_splits)
next
  case False
  then have "resolveSession now r a = (Inr (i, s), a')"
    using assms(1,2) by (auto simp: whoCalls_def split: prod.splits)
  from resolveSession_ok [OF this] have "se_id s \<noteq> []" by auto
  then show ?thesis using assms(3) by (auto simp: csrfOKForSession_def split: if_splits)
qed

lemma reached:
  assumes "reachHandler env now sb cb rt r a = ((Inr (i, s), ck), a')"
  shows "\<exists>a1. withAuth env now sb cb r a = ((Inr (i, s), ck), a1) \<and> runGuards env now (rt_guards rt) i a1 = (None, a')"
  using assms by (auto simp: reachHandler_def split: prod.splits sum.splits option.splits)

text \<open>C15: nothing of the dashboard API runs unauthorised.  When a request reaches a route's
  handler, every role the route asks for is held, every assurance it asks for is satisfied under
  the stored policy (bearer keys are exempt from the lenient check only), and a request that is
  not a read and carries no bearer token belongs to a session and repeats its CSRF token.\<close>

theorem request_authorised:
  assumes "reachHandler env now sb cb rt r a = ((Inr (i, s), ck), a')"
  shows "(\<forall>need. Role need \<in> set (rt_guards rt) \<longrightarrow> roleAllows (id_role i) need) \<and>
    (\<forall>res. Assurance res \<in> set (rt_guards rt) \<longrightarrow> id_keyID i \<noteq> [] \<or> assured env now res i (au_db a)) \<and>
    (\<forall>res. StrictAssurance res \<in> set (rt_guards rt) \<longrightarrow> assured env now res i (au_db a)) \<and>
    (rq_method r \<notin> {''GET'', ''HEAD''} \<and> bearerToken r = [] \<longrightarrow>
       se_id s \<noteq> [] \<and> se_csrf s \<noteq> [] \<and> rq_header r ''X-CSRF-Token'' = se_csrf s)"
proof -
  obtain a1 where w: "withAuth env now sb cb r a = ((Inr (i, s), ck), a1)"
    and g: "runGuards env now (rt_guards rt) i a1 = (None, a')" using reached [OF assms] by blast
  have who: "whoCalls env now sb cb r a = ((Inr (i, s), ck), a1)"
    and csrf: "rq_method r \<in> {''GET'', ''HEAD''} \<or> bearerToken r \<noteq> [] \<or> csrfOKForSession r s (au_db a1)"
    using withAuth_admits [OF w] by blast+
  have "policyOf (au_db a1) = policyOf (au_db a)"
    by (rule settings_same_policy) (rule whoCalls_settings [OF who])
  then have "\<forall>x \<in> set (rt_guards rt). guardHolds env now i (au_db a) x"
    using runGuards_ok [OF g] guardHolds_cong by blast
  then show ?thesis using csrf csrf_session [OF who] by fastforce
qed


definition sample_env :: auth_env where
  "sample_env = \<lparr>ev_verify = sample_verify, ev_parseAddr = (\<lambda>s. None), ev_addrString = (\<lambda>a. []),
     ev_whois = (\<lambda>s. None), ev_provider = NoNetworkIdentity, ev_stepUpTTL = 0, ev_networkRole = ''viewer'',
     ev_mac = (\<lambda>p s. map of_char s), ev_pepper = [], ev_hmac = (\<lambda>k m. replicate 20 0),
     ev_base32 = (\<lambda>s. Some (map of_char s))\<rparr>"

definition sample_put :: http_request where
  "sample_put = \<lparr>rq_method = ''PUT'', rq_header = (\<lambda>h. if h = ''X-CSRF-Token'' then ''c1'' else []),
     rq_peer = ''10.0.0.9'', rq_cookie = ''s1''\<rparr>"

lemma sample_session_resolves:
  "fst (resolveSession (timeOf 20) sample_put sample_logged_in) =
     Inr (sessionIdentityOf (hd (ad_users sample_auth_db)) sample_session, sample_session\<lparr>se_lastSeenAt := timeOf 20\<rparr>)"
  by (simp add: resolveSession_def verifySession_def sessionIdentity_def sample_put_def sample_logged_in_def
      newAuthorizer_def sample_auth_db_def sessionsGet_def sample_session_def userByID_def usersList_def touch_def
      sessionsTouch_def timeOf_def to_seconds_eq unix_epoch_def)

lemma sample_put_reaches:
  "fst (reachHandler sample_env (timeOf 20) None None (admin_with ''page.settings'' ''PUT'' ''/api/v1/ui/settings'')
     sample_put sample_logged_in) =
   (Inr (sessionIdentityOf (hd (ad_users sample_auth_db)) sample_session, sample_session\<lparr>se_lastSeenAt := timeOf 20\<rparr>), None)"
proof -
  let ?i = "sessionIdentityOf (hd (ad_users sample_auth_db)) sample_session"
  let ?s = "sample_session\<lparr>se_lastSeenAt := timeOf 20\<rparr>"
  obtain a1 where r: "resolveSession (timeOf 20) sample_put sample_logged_in = (Inr (?i, ?s), a1)"
    using sample_session_resolves by (metis prod.collapse)
  have "settings_same (au_db sample_logged_in) (au_db a1)" by (rule resolveSession_settings [OF r])
  then have d: "ad_settings (au_db a1) = []" "\<not> ad_down (au_db a1)"
    by (simp_all add: settings_same_def sample_logged_in_def newAuthorizer_def sample_auth_db_def)
  have q: "rq_method sample_put = ''PUT''" "rq_cookie sample_put = ''s1''" "rq_header sample_put ''X-CSRF-Token'' = ''c1''"
    "bearerToken sample_put = []"
    by (simp_all add: sample_put_def bearerToken_def has_prefix_def)
  have i: "id_role ?i = ''admin''" "id_keyID ?i = []" "id_assurance ?i = ''password''" "id_assuranceAt ?i = 0"
    by (simp_all add: sessionIdentityOf_def sample_auth_db_def sample_session_def)
  have s: "se_id ?s = ''s1''" "se_csrf ?s = ''c1''" by (simp_all add: sample_session_def)
  have w: "withAuth sample_env (timeOf 20) None None sample_put sample_logged_in = ((Inr (?i, ?s), None), a1)"
    by (simp add: withAuth_def whoCalls_def r q csrfOKForSession_def s)
  have "fst (policyLoad (au_db a1)) = Inr defaultPolicy"
    using d by (simp add: policyLoad_def settingsGet_def policySave_def settingsSet_def)
  moreover have "de_allowed (evaluate defaultPolicy t (timeOf 20) ''page.settings'' ''password'' 0)" for t
    by (simp add: evaluate_allowed evaluate_required defaultPolicy_def atLeast_def assuranceRank_def is_zero_def)
  ultimately have "fst (requireAssurance sample_env (timeOf 20) ''page.settings'' ?i a1) = None"
    by (simp add: requireAssurance_def evaluateAssurance_def onDb_def i case_prod_unfold split: sum.splits)
  then obtain a2 where "requireAssurance sample_env (timeOf 20) ''page.settings'' ?i a1 = (None, a2)" by (metis prod.collapse)
  then show ?thesis by (simp add: reachHandler_def w requireRole_def i roleAllows_def roleRank_def)
qed

theorem request_authorised_witness:
  "let ((w, ck), a') = reachHandler sample_env (timeOf 20) None None
     (admin_with ''page.settings'' ''PUT'' ''/api/v1/ui/settings'') sample_put sample_logged_in
   in \<exists>i s. w = Inr (i, s) \<and> roleAllows (id_role i) ''admin'' \<and>
     assured sample_env (timeOf 20) ''page.settings'' i (au_db sample_logged_in) \<and> se_csrf s = ''c1''"
proof -
  let ?rt = "admin_with ''page.settings'' ''PUT'' ''/api/v1/ui/settings''"
  let ?i = "sessionIdentityOf (hd (ad_users sample_auth_db)) sample_session"
  let ?s = "sample_session\<lparr>se_lastSeenAt := timeOf 20\<rparr>"
  obtain a' where r: "reachHandler sample_env (timeOf 20) None None ?rt sample_put sample_logged_in = ((Inr (?i, ?s), None), a')"
    using sample_put_reaches by (metis prod.collapse)
  have k: "id_keyID ?i = []" by (simp add: sessionIdentityOf_def)
  show ?thesis using request_authorised [OF r] k unfolding r by (auto simp: sample_session_def)
qed

section \<open>Who is served\<close>



text \<open>Viewers and anonymous network visitors change nothing of the system.  On every route of
  the table, a changing request of a caller without the operator role that reaches the handler is
  one of the thirteen self-service requests, and its caller has a session or a key.\<close>

theorem viewer_cannot_change:
  assumes "rt \<in> set v1Routes" and "reachHandler env now sb cb rt r a = ((Inr (i, s), ck), a')"
    and "rq_method r = rt_method rt \<or> rt_method rt = ''GET'' \<and> rq_method r = ''HEAD''"
    and "rq_method r \<notin> {''GET'', ''HEAD''}" and "\<not> roleAllows (id_role i) ''operator''"
  shows "(rt_method rt, rt_path rt) \<in> set selfService \<and> (se_id s \<noteq> [] \<or> bearerToken r \<noteq> [])"
proof -
  obtain a1 where w: "withAuth env now sb cb r a = ((Inr (i, s), ck), a1)"
    and g: "runGuards env now (rt_guards rt) i a1 = (None, a')" using reached [OF assms(2)] by blast
  have "\<not> needsOperator rt"
  proof
    assume "needsOperator rt"
    then have "roleAllows (id_role i) ''operator'' \<or> roleAllows (id_role i) ''admin''"
      using runGuards_ok [OF g] by (auto simp: needsOperator_def list_ex_iff)
    moreover have "roleAllows ''admin'' ''operator''" by (simp add: roleAllows_def roleRank_def)
    ultimately show False using assms(5) roleAllows_trans by blast
  qed
  then have "(rt_method rt, rt_path rt) \<in> set selfService"
    using mutations_guarded [OF assms(1)] assms(3,4) by (auto simp: mutationGuarded_def)
  moreover have "se_id s \<noteq> [] \<or> bearerToken r \<noteq> []"
    using withAuth_admits [OF w] csrf_session assms(4) by blast
  ultimately show ?thesis by blast
qed


definition sample_viewing :: authorizer where
  "sample_viewing = newAuthorizer (sample_auth_db\<lparr>ad_sessions := [sample_session],
     ad_users := [\<lparr>us_id = 1, us_username = ''vic'', us_hash = ''#pw'', us_role = ''viewer'', us_createdAt = 0,
       us_disabled = False\<rparr>]\<rparr>)"

abbreviation favorite_route :: route where
  "favorite_route \<equiv> open_to ''PUT'' ''/api/v1/favorites/{subject_type}/{id}''"

lemma favorite_in_table: "favorite_route \<in> set v1Routes"
  by (simp add: v1Routes_def readRoutes_def)

lemma sample_viewer_reaches:
  "\<exists>i s ck. fst (reachHandler sample_env (timeOf 20) None None favorite_route sample_put sample_viewing) = (Inr (i, s), ck) \<and>
     id_role i = ''viewer''"
proof -
  have q: "rq_method sample_put = ''PUT''" "rq_cookie sample_put = ''s1''" "rq_header sample_put ''X-CSRF-Token'' = ''c1''"
    "bearerToken sample_put = []"
    by (simp_all add: sample_put_def bearerToken_def has_prefix_def)
  have "\<exists>i s. fst (resolveSession (timeOf 20) sample_put sample_viewing) = Inr (i, s) \<and> id_role i = ''viewer'' \<and>
      se_id s = ''s1'' \<and> se_csrf s = ''c1''"
    by (simp add: resolveSession_def verifySession_def sessionIdentity_def q sample_viewing_def
        newAuthorizer_def sample_auth_db_def sessionsGet_def sample_session_def userByID_def usersList_def touch_def
        sessionsTouch_def timeOf_def to_seconds_eq unix_epoch_def sessionIdentityOf_def)
  then obtain i s a1 where r: "resolveSession (timeOf 20) sample_put sample_viewing = (Inr (i, s), a1)"
    "id_role i = ''viewer''" "se_id s = ''s1''" "se_csrf s = ''c1''" by (metis prod.collapse)
  then show ?thesis by (simp add: reachHandler_def withAuth_def whoCalls_def q csrfOKForSession_def)
qed

theorem viewer_cannot_change_witness:
  "(rt_method favorite_route, rt_path favorite_route) \<in> set selfService \<and>
   (\<exists>i s ck. fst (reachHandler sample_env (timeOf 20) None None favorite_route sample_put sample_viewing) = (Inr (i, s), ck))"
proof -
  obtain i s ck a' where r: "reachHandler sample_env (timeOf 20) None None favorite_route sample_put sample_viewing =
    ((Inr (i, s), ck), a')" "id_role i = ''viewer''"
    using sample_viewer_reaches by (metis prod.collapse)
  have "rq_method sample_put = rt_method favorite_route" by (simp add: sample_put_def)
  moreover have "rq_method sample_put \<notin> {''GET'', ''HEAD''}" by (simp add: sample_put_def)
  moreover have "\<not> roleAllows (id_role i) ''operator''" by (simp add: r(2) roleAllows_def roleRank_def)
  ultimately show ?thesis using viewer_cannot_change [OF favorite_in_table r(1)] r(1) by auto
qed

end
