(* ===== verification/Auth_Handlers_Props.thy ===== *)
theory Auth_Handlers_Props
  imports Auth_Http_Props
begin

text \<open>
  What the handlers of the access API promise: a session rises only by a proven factor, and keys
  do not beget other keys.  The last section shows where the rules are weaker than their
  comments say.
\<close>

section \<open>Step-up\<close>

text \<open>What the caller must show for an assurance level.\<close>

definition factorProven :: "auth_env \<Rightarrow> time \<Rightarrow> int \<Rightarrow> step_up_request \<Rightarrow> authorizer \<Rightarrow> string \<Rightarrow> bool" where
  "factorProven env now u b a level \<longleftrightarrow>
     (level = ''password'' \<and> (\<exists>x \<in> set (ad_users (au_db a)). us_id x = u \<and> \<not> us_disabled x \<and>
        ev_verify env (us_hash x) (su_password b) = Some True)) \<or>
     (level = ''totp'' \<and> (\<exists>t \<in> set (ad_totp (au_db a)). tp_userID t = u \<and> tp_confirmed t \<and>
        validateTOTP (ev_hmac env) (ev_base32 env) (tp_secret t) (su_code b) now)) \<or>
     (level = ''password'' \<and> (\<exists>c \<in> set (ad_recovery (au_db a)). rv_userID c = u \<and> is_zero (rv_usedAt c) \<and>
        rv_hash c = hashCode (ev_mac env) (ev_pepper env) (su_code b)))"

lemma verifyPassword_ok:
  "verifyPassword verify u p a = None \<Longrightarrow>
   \<exists>x \<in> set (ad_users (au_db a)). us_id x = u \<and> \<not> us_disabled x \<and> verify (us_hash x) p = Some True"
  by (auto simp: verifyPassword_def userByID_def usersList_def split: if_splits sum.splits option.splits
      dest!: find_Some_prop)

lemma verifyCode_ok:
  assumes "verifyCode mac pepper now u code d = (CodeAccepted, d')"
  shows "\<exists>c \<in> set (ad_recovery d). rv_userID c = u \<and> is_zero (rv_usedAt c) \<and> rv_hash c = hashCode mac pepper code"
  using assms
  by (auto simp: verifyCode_def recoveryListByUser_def matchCode_def split: if_splits option.splits prod.splits
      dest!: find_Some_prop)

lemma verifyCode_sessions: "ad_sessions (snd (verifyCode mac pepper now u code d)) = ad_sessions d"
  by (auto simp: verifyCode_def recoveryMarkUsed_def split: if_splits sum.splits option.splits prod.splits)

lemma proveFactor_ok:
  assumes "proveFactor env now u b a = (r, a1)"
  shows "ad_sessions (au_db a1) = ad_sessions (au_db a) \<and> (\<forall>level. r = Inr level \<longrightarrow> factorProven env now u b a level)"
proof -
  consider (password) "su_factor b = ''password''" | (totp) "su_factor b = ''totp''"
    | (recovery) "su_factor b = ''recovery_code''" | (none) "su_factor b \<notin> {''password'', ''totp'', ''recovery_code''}"
    by blast
  then show ?thesis
  proof cases
    case password
    then show ?thesis using assms verifyPassword_ok
      by (auto simp: proveFactor_def factorProven_def split: if_splits)
  next
    case totp
    then show ?thesis using assms
      by (auto simp: proveFactor_def factorProven_def totpGet_def split: if_splits sum.splits option.splits
          dest!: find_Some_prop)
  next
    case recovery
    show ?thesis
    proof (cases "su_code b = []")
      case False
      obtain x d where v: "verifyCode (ev_mac env) (ev_pepper env) now u (su_code b) (au_db a) = (x, d)" by (rule prod.exhaust)
      then have "ad_sessions d = ad_sessions (au_db a)" using verifyCode_sessions by (metis snd_conv)
      then show ?thesis using assms recovery False v verifyCode_ok [of "ev_mac env" "ev_pepper env" now u "su_code b" "au_db a" d]
        by (auto simp: proveFactor_def onDb_def factorProven_def split: verify_result.splits)
    qed (use assms recovery in \<open>auto simp: proveFactor_def\<close>)
  qed (use assms in \<open>auto simp: proveFactor_def\<close>)
qed

text \<open>C18: a session rises only by a proven factor.  A step-up that is refused leaves every session
  as it was; one that succeeds was asked for by a session, proved a factor of that session's own
  user, gives its row a fresh id, a fresh CSRF token and the level of the factor, and touches no
  other session.\<close>

theorem step_up_needs_factor:
  "case handleAuthStepUp env now sb cb i s body a of
     (Inl e, a') \<Rightarrow> ad_sessions (au_db a') = ad_sessions (au_db a)
   | (Inr s', a') \<Rightarrow>
       id_keyID i = [] \<and> se_id s \<noteq> [] \<and>
       (\<exists>b. body = Some b \<and> factorProven env now (se_userID s) b a (se_assurance s')) \<and>
       randToken sb = Some (se_id s') \<and> randToken cb = Some (se_csrf s') \<and> se_userID s' = se_userID s \<and>
       (\<exists>x \<in> set (ad_sessions (au_db a)). se_id x = se_id s) \<and>
       ad_sessions (au_db a') = map (\<lambda>x. if se_id x = se_id s
         then x\<lparr>se_id := se_id s', se_csrf := se_csrf s', se_assurance := se_assurance s', se_assuranceAt := to_seconds now\<rparr>
         else x) (ad_sessions (au_db a))"
proof -
  obtain r a' where h: "handleAuthStepUp env now sb cb i s body a = (r, a')" by (rule prod.exhaust)
  have el: "(\<forall>e. x = Some e \<longrightarrow> ad_sessions (au_db a2) = ad_sessions (au_db a1)) \<and>
     (x = None \<longrightarrow> (\<exists>z \<in> set (ad_sessions (au_db a1)). se_id z = se_id s) \<and>
        ad_sessions (au_db a2) = map (\<lambda>z. if se_id z = se_id s
          then z\<lparr>se_id := n, se_csrf := c, se_assurance := l, se_assuranceAt := to_seconds now\<rparr> else z) (ad_sessions (au_db a1)))"
    if "onDb (elevateSession (se_id s) n c l now) a1 = (x, a2)" for n c l x a1 a2
    using onDb_both [OF that] by (auto simp: elevateSession_def split: if_splits)
  show ?thesis
    unfolding h using h
    by (auto simp: handleAuthStepUp_def split: if_splits option.splits sum.splits prod.splits dest!: proveFactor_ok el)
qed


section \<open>Keys minted over the API\<close>

lemma key_gate:
  assumes "handleKeyCreate env now hash ib sb r i body a = (Inr (token, row), a')"
  shows "\<exists>b. body = Some b \<and>
    (isSelfRotation i (normaliseKind (kc_kind b)) (kc_name b) (kc_role b) \<or>
     assured env now ''area.settings.security'' i (au_db a)) \<and>
    (\<exists>a1. mintKey now hash ib sb (normaliseKind (kc_kind b)) (kc_name b) (kc_display b) (kc_role b)
       (if kc_bind b then effectiveClientIP env r else []) (expiryOf now (kc_ttl b)) a1 = (Inr token, a'))"
proof (cases body)
  case (Some b)
  let ?k = "normaliseKind (kc_kind b)"
  obtain gate a1 where g: "(if isSelfRotation i ?k (kc_name b) (kc_role b) then (None, a)
      else requireStrictAssurance env now ''area.settings.security'' i a) = (gate, a1)" by (rule prod.exhaust)
  have n: "gate = None" and m: "mintKey now hash ib sb ?k (kc_name b) (kc_display b) (kc_role b)
       (if kc_bind b then effectiveClientIP env r else []) (expiryOf now (kc_ttl b)) a1 = (Inr token, a')"
    using assms unfolding Some handleKeyCreate_def Let_def option.case g prod.case
    by (auto split: if_splits option.splits prod.splits sum.splits)
  show ?thesis using g n m Some strict_ok by (cases "isSelfRotation i ?k (kc_name b) (kc_role b)") auto
qed (use assms in \<open>simp add: handleKeyCreate_def\<close>)

lemma no_assurance: "id_assurance i = [] \<Longrightarrow> \<not> assured env now res i d"
  by (simp add: assured_def Let_def atLeast_def assuranceRank_def)

abbreviation mint_route :: route where
  "mint_route \<equiv> admin_only ''POST'' ''/api/v1/keys''"

text \<open>C19: keys do not beget other keys.  A key minted over the API was asked for by an
  administrator; a caller with a session satisfied the policy for the security settings, and a
  caller with a bearer key got nothing but a new key of the same name, of the dashboard kind and
  with no role above the caller's own.\<close>

theorem keys_beget_no_other_keys:
  assumes "reachHandler env now sb cb mint_route r a = ((Inr (i, s), ck), a1)"
    and "handleKeyCreate env now hash ib kb r i body a1 = (Inr (token, row), a2)"
  shows "roleAllows (id_role i) ''admin'' \<and>
    (bearerToken r = [] \<longrightarrow> assured env now ''area.settings.security'' i (au_db a1)) \<and>
    (bearerToken r \<noteq> [] \<longrightarrow> (\<exists>b. body = Some b \<and> normaliseKind (kc_kind b) = ''forge'' \<and> kc_name b = id_name i \<and>
       roleAllows (id_role i) (kc_role b)))"
proof -
  obtain a0 where w: "withAuth env now sb cb r a = ((Inr (i, s), ck), a0)"
    and g: "runGuards env now (rt_guards mint_route) i a0 = (None, a1)" using reached [OF assms(1)] by blast
  have who: "whoCalls env now sb cb r a = ((Inr (i, s), ck), a0)" using withAuth_admits [OF w] by blast
  obtain b where b: "body = Some b" and mint: "isSelfRotation i (normaliseKind (kc_kind b)) (kc_name b) (kc_role b) \<or>
     assured env now ''area.settings.security'' i (au_db a1)" using key_gate [OF assms(2)] by blast
  have role: "roleAllows (id_role i) ''admin''" using runGuards_ok [OF g] by simp
  show ?thesis
  proof (cases "bearerToken r = []")
    case True
    have "id_keyID i = []"
    proof (cases "rq_cookie r = []")
      case True
      then have "bootstrapNetworkIdentity env now sb cb r a = ((Inr (i, s), ck), a0)"
        using who \<open>bearerToken r = []\<close> by (simp add: whoCalls_def)
      then show ?thesis using bootstrap_cases by blast
    next
      case False
      then have "resolveSession now r a = (Inr (i, s), a0)"
        using who True by (auto simp: whoCalls_def split: prod.splits)
      from resolveSession_ok [OF this] show ?thesis by (auto simp: sessionIdentityOf_def)
    qed
    then show ?thesis using mint role True by (simp add: isSelfRotation_def)
  next
    case False
    then have "verifyBearerFrom (ev_verify env) now (effectiveClientIP env r) (bearerToken r) ''forge'' a = (Inr i, a0)"
      using who by (auto simp: whoCalls_def split: prod.splits sum.splits)
    from accepted_key [OF this] have "id_assurance i = []" by (auto simp: keyIdentity_def)
    then have "isSelfRotation i (normaliseKind (kc_kind b)) (kc_name b) (kc_role b)"
      using mint no_assurance by blast
    then show ?thesis using False role b by (auto simp: isSelfRotation_def)
  qed
qed


lemma mint_succeeds:
  assumes "\<not> ad_down (au_db a)" and "ad_keys (au_db a) = []" and "mintRefusal kind name role = None"
    and "hash (rawURLEncode sb) = Some h"
  shows "\<exists>token a'. mintKey now hash (Some ib) (Some sb) kind name display role bound ex a = (Inr token, a') \<and>
    \<not> ad_down (au_db a')"
proof -
  have "kind \<in> {''forge'', ''router'', ''mcp''} \<and> (role = [] \<or> known_role role)"
    using assms(3) by (auto simp: mintRefusal_def validRole_def known_role_def split: if_splits)
  then show ?thesis using assms
    by (auto simp: mintKey_def keysList_def randToken_def onDb_def keysCreate_def)
qed

lemma policyLoad_frame:
  "ad_keys (snd (policyLoad d)) = ad_keys d \<and> ad_down (snd (policyLoad d)) = ad_down d"
  by (auto simp: policyLoad_def policySave_def settingsSet_def
      split: sum.splits store_err.splits setting.splits)

lemma strict_frame:
  assumes "requireStrictAssurance env now res i a = (x, a1)"
  shows "ad_keys (au_db a1) = ad_keys (au_db a) \<and> ad_down (au_db a1) = ad_down (au_db a)"
proof -
  have "a1 = snd (onDb policyLoad a)"
    using assms by (auto simp: requireStrictAssurance_def evaluateAssurance_def split: prod.splits sum.splits policy_error.splits)
  then show ?thesis using policyLoad_frame by simp
qed

definition sample_mint :: key_create_request where
  "sample_mint = \<lparr>kc_kind = ''mcp'', kc_name = ''agent'', kc_role = [], kc_display = [], kc_bind = False, kc_ttl = 0\<rparr>"

theorem keys_beget_no_other_keys_witness:
  "let (x, a1) = reachHandler sample_env (timeOf 20) None None mint_route sample_put sample_logged_in in
   \<exists>i s. fst x = Inr (i, s) \<and> assured sample_env (timeOf 20) ''area.settings.security'' i (au_db a1) \<and>
     (\<exists>token row. fst (handleKeyCreate sample_env (timeOf 20) sample_hash (Some [0, 0, 0, 0, 0, 1]) (Some (replicate 32 0))
        sample_put i (Some sample_mint) a1) = Inr (token, row))"
proof -
  let ?i = "sessionIdentityOf (hd (ad_users sample_auth_db)) sample_session"
  let ?s = "sample_session\<lparr>se_lastSeenAt := timeOf 20\<rparr>"
  have q: "rq_method sample_put = ''PUT''" "rq_cookie sample_put = ''s1''" "rq_header sample_put ''X-CSRF-Token'' = ''c1''"
    "bearerToken sample_put = []"
    by (simp_all add: sample_put_def bearerToken_def has_prefix_def)
  have i: "id_role ?i = ''admin''" "id_keyID ?i = []" "id_assurance ?i = ''password''" "id_assuranceAt ?i = 0"
    by (simp_all add: sessionIdentityOf_def sample_auth_db_def sample_session_def)
  have v: "se_id ?s = ''s1''" "se_csrf ?s = ''c1''" by (simp_all add: sample_session_def)
  obtain a1 where r: "resolveSession (timeOf 20) sample_put sample_logged_in = (Inr (?i, ?s), a1)"
    using sample_session_resolves by (metis prod.collapse)
  then have reach: "reachHandler sample_env (timeOf 20) None None mint_route sample_put sample_logged_in = ((Inr (?i, ?s), None), a1)"
    by (simp add: reachHandler_def withAuth_def whoCalls_def q csrfOKForSession_def v requireRole_def i
        roleAllows_def roleRank_def)
  have "settings_same (au_db sample_logged_in) (au_db a1)" by (rule resolveSession_settings [OF r])
  then have d: "ad_settings (au_db a1) = []" "\<not> ad_down (au_db a1)"
    by (simp_all add: settings_same_def sample_logged_in_def newAuthorizer_def sample_auth_db_def)
  have "ad_keys (au_db a1) = ad_keys (au_db sample_logged_in)"
    using r by (auto simp: resolveSession_def verifySession_def dest!: sessionIdentity_keys split: prod.splits sum.splits)
  then have k: "ad_keys (au_db a1) = []" by (simp add: sample_logged_in_def newAuthorizer_def sample_auth_db_def)
  have "fst (policyLoad (au_db a1)) = Inr defaultPolicy"
    using d by (simp add: policyLoad_def settingsGet_def policySave_def settingsSet_def)
  moreover have "de_allowed (evaluate defaultPolicy t (timeOf 20) ''area.settings.security'' ''password'' 0)" for t
    by (simp add: evaluate_allowed evaluate_required defaultPolicy_def atLeast_def assuranceRank_def is_zero_def)
  ultimately have "fst (requireStrictAssurance sample_env (timeOf 20) ''area.settings.security'' ?i a1) = None"
    by (simp add: requireStrictAssurance_def evaluateAssurance_def onDb_def i case_prod_unfold split: sum.splits)
  then obtain a2 where g: "requireStrictAssurance sample_env (timeOf 20) ''area.settings.security'' ?i a1 = (None, a2)"
    by (metis prod.collapse)
  have "\<exists>token a'. mintKey (timeOf 20) sample_hash (Some [0, 0, 0, 0, 0, 1]) (Some (replicate 32 0)) ''mcp'' ''agent'' [] [] []
      (expiryOf (timeOf 20) 0) a2 = (Inr token, a') \<and> \<not> ad_down (au_db a')"
    by (rule mint_succeeds) (use strict_frame [OF g] d k in \<open>simp_all add: mintRefusal_def sample_hash_def\<close>)
  then obtain token a3 where m: "mintKey (timeOf 20) sample_hash (Some [0, 0, 0, 0, 0, 1]) (Some (replicate 32 0)) ''mcp'' ''agent'' [] [] []
      (expiryOf (timeOf 20) 0) a2 = (Inr token, a3)" "\<not> ad_down (au_db a3)" by blast
  have "\<exists>row. handleKeyCreate sample_env (timeOf 20) sample_hash (Some [0, 0, 0, 0, 0, 1]) (Some (replicate 32 0))
      sample_put ?i (Some sample_mint) a1 = (Inr (token, row), a3)"
    using m by (simp add: handleKeyCreate_def sample_mint_def normaliseKind_def isSelfRotation_def g keysList_def)
  then obtain row where c: "handleKeyCreate sample_env (timeOf 20) sample_hash (Some [0, 0, 0, 0, 0, 1]) (Some (replicate 32 0))
      sample_put ?i (Some sample_mint) a1 = (Inr (token, row), a3)" by blast
  show ?thesis using keys_beget_no_other_keys [OF reach c] q(4) c unfolding reach by auto
qed

section \<open>Weaker than documented\<close>

text \<open>A key that expires and is bound to an address rotates itself into one that does neither.\<close>

lemma rotation_drops_limits:
  assumes "isSelfRotation i (normaliseKind (kc_kind b)) (kc_name b) (kc_role b)" and "kc_bind b = False" "kc_ttl b = 0"
    and "handleKeyCreate env now hash (Some ib) (Some sb) r i (Some b) a = (Inr (token, row), a')"
  shows "\<exists>k. keyRow (hex_encode ib) (au_db a') = Some k \<and> ak_boundIP k = [] \<and> ak_expiresAt k = 0 \<and> ak_role k = kc_role b"
proof -
  obtain a1 where m: "mintKey now hash (Some ib) (Some sb) (normaliseKind (kc_kind b)) (kc_name b) (kc_display b) (kc_role b)
     [] 0 a1 = (Inr token, a')"
    using key_gate [OF assms(4)] assms(2,3) by (auto simp: expiryOf_def)
  show ?thesis using mint_row [OF m] by (auto simp: nullable_def is_zero_def)
qed

text \<open>The kind is read off the token only: a router or MCP key opens the dashboard when its
  prefix is rewritten, as a caller without a role.\<close>

lemma key_kind_not_checked:
  assumes "parseToken token = Some (kind, i, x)" and "fst (verifyBearer verify now ip token kind a) = Inr who"
    and "want \<in> {''forge'', ''router'', ''mcp''}"
  shows "fst (verifyBearer verify now ip (formatToken want i x) want a) =
    Inr (who\<lparr>id_kind := want, id_role := (if want = ''forge'' then (case keyRow i (au_db a) of Some k \<Rightarrow> ak_role k | None \<Rightarrow> []) else [])\<rparr>)"
proof -
  have p: "parseToken (formatToken want i x) = Some (want, i, x)"
    using parse_Some [OF assms(1)] assms(3) parse_format by blast
  show ?thesis using assms(1,2)
    by (auto simp: verifyBearer_def p keysGet_def keyRow_def keyIdentity_def
        split: if_splits option.splits sum.splits store_err.splits)
qed

text \<open>A password login leaves no time of proof, so its assurance never becomes stale.\<close>

lemma login_never_stale:
  assumes "login verify now sb cb u p ip ua a = (Inr (s, i), a1)" and "us_id x = se_userID s"
    and "row = last (ad_sessions (au_db a1))"
  shows "se_id row = se_id s \<and>
    (assured env later res (sessionIdentityOf x row) d \<longleftrightarrow> atLeast ''password'' (requiredFor d res))"
proof -
  have "sessionsCreate now s (au_db a) = (None, au_db a1) \<and> se_assurance s = [] \<and> se_assuranceAt s = 0"
    using assms(1) by (auto simp: login_def Let_def dest!: onDb_res
        split: if_splits sum.splits option.splits prod.splits store_err.splits)
  then have "ad_sessions (au_db a1) \<noteq> [] \<and> se_id row = se_id s \<and> se_assurance row = ''password'' \<and> se_assuranceAt row = 0"
    unfolding assms(3) by (auto simp: sessionsCreate_def nullable_def is_zero_def split: if_splits dest!: sym [of _ "au_db a1"])
  then show ?thesis by (simp add: assured_def Let_def sessionIdentityOf_def is_zero_def)
qed

text \<open>A stored \<open>null\<close> policy panics every check of an assurance.\<close>

lemma null_policy_aborts:
  "map_of (ad_settings (au_db a)) policy_key = Some JsonNull \<Longrightarrow> \<not> ad_down (au_db a) \<Longrightarrow>
   requireStrictAssurance env now res i a = (Some Aborted, a)"
  by (simp add: requireStrictAssurance_def evaluateAssurance_def onDb_def policyLoad_def settingsGet_def)


text \<open>A session at network assurance raises itself: it enrolls an authenticator of its choice, even
  over a confirmed one, and steps up with it.\<close>

lemma find_upsert: "find (\<lambda>x. key x = key row) (upsert key (\<lambda>_. row) row rows) = Some row"
proof (cases "list_ex (\<lambda>x. key x = key row) rows")
  case True
  then have "find (\<lambda>x. key x = key row) (update_first (\<lambda>x. key x = key row) (\<lambda>_. row) rows) = Some row"
    by (induction rows) auto
  then show ?thesis using True by (simp add: upsert_def)
next
  case False
  then have "find (\<lambda>x. key x = key row) rows = None" by (auto simp: find_None_iff list_ex_iff)
  then show ?thesis using False by (simp add: upsert_def find_append)
qed

lemma own_code_valid:
  assumes "ev_base32 env x = Some key" and "x \<noteq> []"
  shows "computeTOTPCode (ev_hmac env) (ev_base32 env) x now \<noteq> [] \<and>
    validateTOTP (ev_hmac env) (ev_base32 env) x (computeTOTPCode (ev_hmac env) (ev_base32 env) x now) now"
proof -
  have "length (computeTOTPCode (ev_hmac env) (ev_base32 env) x now) = 6"
    using assms(1) by (simp add: computeTOTPCode_def computeTOTP_def Let_def)
  then have "computeTOTPCode (ev_hmac env) (ev_base32 env) x now \<noteq> []" by auto
  then show ?thesis using assms(2) by (simp add: validateTOTP_def computeTOTPCode_def Let_def)
qed

lemma network_session_raises_itself:
  fixes env x now
  defines "code \<equiv> computeTOTPCode (ev_hmac env) (ev_base32 env) x now"
  assumes "\<not> ad_down (au_db a)" and "se_userID s \<in> us_id ` set (ad_users (au_db a))"
    and "se_id s \<noteq> []" "se_id s \<in> se_id ` set (ad_sessions (au_db a))" "n \<notin> se_id ` set (ad_sessions (au_db a))"
    and "ev_base32 env x = Some key" "x \<noteq> []" "id_keyID i = []" "randToken sb = Some n" "randToken cb = Some c"
  shows "\<exists>a1 a2 a3 s'. handleTOTPEnroll now (Some x) s a = (Inr x, a1) \<and>
    handleTOTPConfirm env now s (Some code) a1 = (Inr (), a2) \<and>
    handleAuthStepUp env now sb cb i s (Some \<lparr>su_factor = ''totp'', su_password = [], su_code = code\<rparr>) a2 = (Inr s', a3) \<and>
    se_assurance s' = ''totp''"
proof -
  have ok: "code \<noteq> []" "validateTOTP (ev_hmac env) (ev_base32 env) x code now"
    using own_code_valid [of env x key now] assms by auto
  let ?row = "\<lparr>tp_userID = se_userID s, tp_secret = x, tp_confirmed = False, tp_createdAt = to_seconds (orNow now now)\<rparr>"
  let ?ts = "upsert tp_userID (\<lambda>_. ?row) ?row (ad_totp (au_db a))"
  let ?d1 = "(au_db a)\<lparr>ad_totp := ?ts\<rparr>"
  let ?a1 = "a\<lparr>au_db := ?d1\<rparr>"
  let ?f = "\<lambda>t. if tp_userID t = se_userID s then t\<lparr>tp_confirmed := True\<rparr> else t"
  let ?a2 = "a\<lparr>au_db := ?d1\<lparr>ad_totp := map ?f ?ts\<rparr>\<rparr>"
  have row: "find (\<lambda>t. tp_userID t = se_userID s) ?ts = Some ?row"
    using find_upsert [of tp_userID ?row "ad_totp (au_db a)"] by simp
  have "?row \<in> set ?ts" using find_Some_prop [OF row] by blast
  then have found: "se_userID s \<in> tp_userID ` set ?ts" by (rule rev_image_eqI) simp
  have row2: "find (\<lambda>t. tp_userID t = se_userID s) (map ?f ?ts) = Some (?row\<lparr>tp_confirmed := True\<rparr>)"
    using row find_map_same [of "\<lambda>t. tp_userID t = se_userID s" ?f ?ts] by simp
  have 1: "handleTOTPEnroll now (Some x) s a = (Inr x, ?a1)"
    using assms by (simp add: handleTOTPEnroll_def onDb_def totpSave_def Let_def)
  have 2: "handleTOTPConfirm env now s (Some code) ?a1 = (Inr (), ?a2)"
    using assms ok row found by (simp add: handleTOTPConfirm_def totpGet_def onDb_def totpConfirm_def)
  have 3: "proveFactor env now (se_userID s) \<lparr>su_factor = ''totp'', su_password = [], su_code = code\<rparr> ?a2 = (Inr ''totp'', ?a2)"
    using assms(2) ok row2 by (simp add: proveFactor_def totpGet_def)
  have same: "ad_sessions (au_db ?a2) = ad_sessions (au_db a)" "\<not> ad_down (au_db ?a2)" using assms(2) by simp_all
  have "\<exists>a3 s'. handleAuthStepUp env now sb cb i s (Some \<lparr>su_factor = ''totp'', su_password = [], su_code = code\<rparr>) b = (Inr s', a3) \<and>
    se_assurance s' = ''totp''"
    if "proveFactor env now (se_userID s) \<lparr>su_factor = ''totp'', su_password = [], su_code = code\<rparr> b = (Inr ''totp'', b)"
      "ad_sessions (au_db b) = ad_sessions (au_db a)" "\<not> ad_down (au_db b)" for b
    using that assms(4-) by (simp add: handleAuthStepUp_def onDb_def elevateSession_def)
  from this [OF 3 same] show ?thesis using 1 2 by blast
qed

end
