(* ===== verification/Router_Body.thy ===== *)
theory Router_Body
  imports Forge_Prelude
begin

text \<open>
  The body of a chat request and what the router changes in it before it forwards it
  (\<open>reasoning.go\<close>, \<open>applyStreamUsageOptions\<close> of \<open>usage.go\<close>, \<open>mergeForcedDefaults\<close> of
  \<open>routing.go\<close>, \<open>mutateBody\<close> of \<open>proxy.go\<close>).

  A body is a \<open>map[string]any\<close> of decoded JSON values; numbers keep their text
  (\<open>json.Number\<close>).  Bytes on the wire are represented by the value they encode: a decoded value
  is always encoded again without an error, so \<open>mutateBody\<close> has no failure.
\<close>

section \<open>JSON values\<close>

datatype json =
    JNull
  | JBool bool
  | JNum string
  | JStr string
  | JArr "json list"
  | JObj "string \<Rightarrow> json option"

type_synonym body = "string \<Rightarrow> json option"

text \<open>The type assertions of the code: the zero value when the key is absent or of another type.\<close>

definition str_field :: "string \<Rightarrow> body \<Rightarrow> string" where
  "str_field k b = (case b k of Some (JStr s) \<Rightarrow> s | _ \<Rightarrow> [])"

definition bool_field :: "string \<Rightarrow> body \<Rightarrow> bool" where
  "bool_field k b = (case b k of Some (JBool x) \<Rightarrow> x | _ \<Rightarrow> False)"

definition arr_field :: "string \<Rightarrow> body \<Rightarrow> json list" where
  "arr_field k b = (case b k of Some (JArr xs) \<Rightarrow> xs | _ \<Rightarrow> [])"

definition present :: "string \<Rightarrow> body \<Rightarrow> bool" where
  "present k b = (case b k of None \<Rightarrow> False | Some v \<Rightarrow> (case v of JNull \<Rightarrow> False | _ \<Rightarrow> True))"

definition hasResponseFormat :: "body \<Rightarrow> bool" where
  "hasResponseFormat b = present ''response_format'' b"

definition hasToolFields :: "body \<Rightarrow> bool" where
  "hasToolFields b = list_ex (\<lambda>k. present k b) [''tools'', ''functions'', ''tool_choice'']"

section \<open>Rewriting\<close>

definition mergeForcedDefaults :: "body \<Rightarrow> body \<Rightarrow> body" where
  "mergeForcedDefaults b forced = b ++ forced"

definition mutateBody :: "body \<Rightarrow> string \<Rightarrow> body" where
  "mutateBody b wireModel = b(''model'' \<mapsto> JStr wireModel)"

definition applyStreamUsageOptions :: "body \<Rightarrow> bool \<Rightarrow> body" where
  "applyStreamUsageOptions b enabled =
     (if \<not> enabled then b
      else if \<not> bool_field ''stream'' b then b
      else if b ''stream_options'' \<noteq> None then b
      else b(''stream_options'' \<mapsto> JObj [''include_usage'' \<mapsto> JBool True]))"

definition validReasoningEffort :: "string \<Rightarrow> bool" where
  "validReasoningEffort l = (l \<in> set [''none'', ''low'', ''medium'', ''high''])"

definition normalizeReasoningEffort :: "body \<Rightarrow> (string \<Rightarrow> bool) \<Rightarrow> string \<Rightarrow> body" where
  "normalizeReasoningEffort b caps level =
     (if caps ''supports_reasoning_effort'' then b(''reasoning_effort'' \<mapsto> JStr level)
      else if caps ''supports_enable_thinking'' \<and> level = ''none'' then
        (let kwargs = (case b ''chat_template_kwargs'' of Some (JObj m) \<Rightarrow> m | _ \<Rightarrow> Map.empty)
         in b(''chat_template_kwargs'' \<mapsto> JObj (kwargs(''enable_thinking'' \<mapsto> JBool False))))
      else b)"

definition applyReasoningEffort :: "string \<Rightarrow> (string \<Rightarrow> bool) \<Rightarrow> body \<Rightarrow> body" where
  "applyReasoningEffort effortDefault caps b =
     (let level = str_field ''reasoning_effort'' b in
      if validReasoningEffort level then normalizeReasoningEffort b caps level
      else if validReasoningEffort effortDefault then normalizeReasoningEffort b caps effortDefault
      else b)"

section \<open>Lemmas\<close>

lemma mutate_model [simp]: "mutateBody b w ''model'' = Some (JStr w)"
  by (simp add: mutateBody_def)

lemma mutate_other [simp]: "k \<noteq> ''model'' \<Longrightarrow> mutateBody b w k = b k"
  by (simp add: mutateBody_def)

lemma stream_options_other [simp]: "k \<noteq> ''stream_options'' \<Longrightarrow> applyStreamUsageOptions b e k = b k"
  by (simp add: applyStreamUsageOptions_def)

text \<open>A client's own choice of stream options is kept.\<close>

lemma stream_options_kept: "b ''stream_options'' \<noteq> None \<Longrightarrow> applyStreamUsageOptions b e = b"
  by (simp add: applyStreamUsageOptions_def)

lemma normalize_other [simp]:
  "k \<noteq> ''reasoning_effort'' \<Longrightarrow> k \<noteq> ''chat_template_kwargs'' \<Longrightarrow> normalizeReasoningEffort b c l k = b k"
  by (simp add: normalizeReasoningEffort_def Let_def)

lemma effort_other [simp]:
  "k \<noteq> ''reasoning_effort'' \<Longrightarrow> k \<noteq> ''chat_template_kwargs'' \<Longrightarrow> applyReasoningEffort d c b k = b k"
  by (simp add: applyReasoningEffort_def Let_def)

lemma forced_wins: "forced k = Some v \<Longrightarrow> mergeForcedDefaults b forced k = Some v"
  by (simp add: mergeForcedDefaults_def)

lemma forced_other: "forced k = None \<Longrightarrow> mergeForcedDefaults b forced k = b k"
  by (simp add: mergeForcedDefaults_def map_add_def)

text \<open>
  A level is forwarded under the name the template understands, and a client's own level is not
  replaced by the default.
\<close>

lemma client_effort_wins:
  "validReasoningEffort (str_field ''reasoning_effort'' b) \<Longrightarrow> c ''supports_reasoning_effort'' \<Longrightarrow>
   applyReasoningEffort d c b ''reasoning_effort'' = b ''reasoning_effort''"
  by (auto simp: applyReasoningEffort_def normalizeReasoningEffort_def str_field_def validReasoningEffort_def
      split: option.splits json.splits)

lemma thinking_switched_off:
  "validReasoningEffort l \<Longrightarrow> l = ''none'' \<Longrightarrow> c ''supports_enable_thinking'' \<Longrightarrow> \<not> c ''supports_reasoning_effort'' \<Longrightarrow>
   b ''reasoning_effort'' = Some (JStr l) \<Longrightarrow>
   \<exists>m. applyReasoningEffort d c b ''chat_template_kwargs'' = Some (JObj m) \<and> m ''enable_thinking'' = Some (JBool False)"
  by (auto simp: applyReasoningEffort_def normalizeReasoningEffort_def str_field_def Let_def)

end
