(* ===== verification/Pricing.thy ===== *)
theory Pricing
  imports Cron Sched_Ops
begin

text \<open>
  pricing/windows.go: the time-of-day windows of a provider's prices.  The JSON decoding is left
  out: the schedule is the decoded value.  The time zone database is a parameter: the offset of a
  named zone from UTC, in minutes, at a time; it may change with the time.  The cache of loaded
  zones is left out.
\<close>

section \<open>Windows\<close>

record price_window =
  pw_days :: "int list"
  pw_start :: string
  pw_end :: string

record price_windows =
  ps_tz :: string
  ps_windows :: "price_window list"

datatype window_error =
    UnknownZone string
  | DayRange nat int
  | NoDays nat
  | BadStart nat string
  | BadEnd nat string
  | ZeroWidth nat

datatype tier = TierPeak | TierOffPeak | TierFlat

type_synonym zones = "string \<Rightarrow> (time \<Rightarrow> int) option"

definition loadLocation :: "zones \<Rightarrow> string \<Rightarrow> (time \<Rightarrow> int) option" where
  "loadLocation zones name = (if name = [] then Some (\<lambda>t. 0) else zones name)"

text \<open>One \<open>%d\<close> of \<open>fmt.Sscanf\<close>: blanks, a sign, digits; the value and the rest.\<close>

definition scan_digits :: "string \<Rightarrow> (int \<times> string) option" where
  "scan_digits s =
     (let ds = takeWhile is_digit s in
      if ds = [] then None else Some (foldl (\<lambda>n c. 10 * n + (of_char c - 48)) 0 ds, dropWhile is_digit s))"

definition scan_int :: "string \<Rightarrow> (int \<times> string) option" where
  "scan_int s =
     (case dropWhile (\<lambda>c. is_space c \<and> c \<noteq> CHR 0x0A) s of [] \<Rightarrow> None
      | c # cs \<Rightarrow> if c = CHR ''-'' then map_option (\<lambda>(n, r). (- n, r)) (scan_digits cs)
          else if c = CHR ''+'' then scan_digits cs else scan_digits (c # cs))"

definition minutesOfDay :: "string \<Rightarrow> int option" where
  "minutesOfDay s =
     (case scan_int s of
        Some (h, c # rest) \<Rightarrow>
          if c = CHR '':'' then
            (case scan_int rest of None \<Rightarrow> None
             | Some (m, _) \<Rightarrow> if h < 0 \<or> h > 23 \<or> m < 0 \<or> m > 59 then None else Some (h * 60 + m))
          else None
      | _ \<Rightarrow> None)"

definition checkWindow :: "nat \<Rightarrow> price_window \<Rightarrow> window_error option" where
  "checkWindow i win =
     (case find (\<lambda>d. d < 0 \<or> d > 6) (pw_days win) of
        Some d \<Rightarrow> Some (DayRange i d)
      | None \<Rightarrow>
        if pw_days win = [] then Some (NoDays i)
        else (case minutesOfDay (pw_start win) of None \<Rightarrow> Some (BadStart i (pw_start win))
          | Some s \<Rightarrow>
            (case minutesOfDay (pw_end win) of None \<Rightarrow> Some (BadEnd i (pw_end win))
             | Some e \<Rightarrow> if s = e then Some (ZeroWidth i) else None)))"

fun checkWindows :: "nat \<Rightarrow> price_window list \<Rightarrow> window_error option" where
  "checkWindows i [] = None"
| "checkWindows i (win # wins) =
     (case checkWindow i win of Some e \<Rightarrow> Some e | None \<Rightarrow> checkWindows (i + 1) wins)"

definition parseWindows :: "zones \<Rightarrow> price_windows \<Rightarrow> window_error + price_windows" where
  "parseWindows zones w =
     (if loadLocation zones (ps_tz w) = None then Inl (UnknownZone (ps_tz w))
      else (case checkWindows 0 (ps_windows w) of Some e \<Rightarrow> Inl e | None \<Rightarrow> Inr w))"

definition dayIn :: "int list \<Rightarrow> int \<Rightarrow> bool" where
  "dayIn days d = list_ex (\<lambda>x. x = d) days"

text \<open>\<open>lt\<close> is the minute of local time.\<close>

definition activeOn :: "price_window \<Rightarrow> nat \<Rightarrow> bool" where
  "activeOn win lt =
     (case (minutesOfDay (pw_start win), minutesOfDay (pw_end win)) of
        (Some start, Some en) \<Rightarrow>
          (let nowMin = int (lt mod 1440); wd = int (weekday (lt div 1440)) in
           if start < en then dayIn (pw_days win) wd \<and> nowMin \<ge> start \<and> nowMin < en
           else if dayIn (pw_days win) wd \<and> nowMin \<ge> start then True
           else dayIn (pw_days win) ((wd + 6) mod 7) \<and> nowMin < en)
      | _ \<Rightarrow> False)"

definition windowsActive :: "zones \<Rightarrow> price_windows \<Rightarrow> time \<Rightarrow> bool" where
  "windowsActive zones w t =
     (if ps_windows w = [] then False
      else (case loadLocation zones (ps_tz w) of None \<Rightarrow> False
            | Some off \<Rightarrow> list_ex (\<lambda>win. activeOn win (localMinute (off t) t)) (ps_windows w)))"

definition tierAt :: "zones \<Rightarrow> price_windows \<Rightarrow> time \<Rightarrow> tier" where
  "tierAt zones w t =
     (if ps_windows w = [] then TierFlat
      else if windowsActive zones w t then TierPeak else TierOffPeak)"

section \<open>The week as a circle\<close>

text \<open>
  The reference: a window starts on each of its days at its start time and lasts until its end
  time comes around, and the minutes of the week are a circle of 10080.
\<close>

definition minuteOfWeek :: "nat \<Rightarrow> int" where
  "minuteOfWeek lt = int (weekday (lt div 1440)) * 1440 + int (lt mod 1440)"

definition covers :: "int \<Rightarrow> int \<Rightarrow> int \<Rightarrow> nat \<Rightarrow> bool" where
  "covers start en d lt \<longleftrightarrow> (minuteOfWeek lt - (d * 1440 + start)) mod 10080 < (en - start) mod 1440"

definition peakMinute :: "price_window \<Rightarrow> nat \<Rightarrow> bool" where
  "peakMinute win lt =
     (case (minutesOfDay (pw_start win), minutesOfDay (pw_end win)) of
        (Some start, Some en) \<Rightarrow> list_ex (\<lambda>d. covers start en d lt) (pw_days win)
      | _ \<Rightarrow> False)"

lemma minutesOfDay_range: "minutesOfDay s = Some n \<Longrightarrow> 0 \<le> n \<and> n < 1440"
  by (auto simp: minutesOfDay_def split: option.splits list.splits prod.splits if_splits)

lemma circle_mod:
  fixes x :: int
  assumes "- 10080 < x" and "x < 10080"
  shows "x mod 10080 = (if 0 \<le> x then x else x + 10080)"
proof (cases "0 \<le> x")
  case False
  have "x mod 10080 = (x + 10080) mod 10080" by (rule mod_add_self2 [symmetric])
  also have "\<dots> = x + 10080" by (rule mod_pos_pos_trivial) (use False assms in simp_all)
  finally show ?thesis using False by simp
qed (use assms in simp)

lemma covers_iff:
  fixes m wd d start en :: int
  assumes r: "0 \<le> m" "m < 1440" "0 \<le> wd" "wd \<le> 6" "0 \<le> d" "d \<le> 6"
    "0 \<le> start" "start < 1440" "0 \<le> en" "en < 1440" "start \<noteq> en"
  shows "(wd * 1440 + m - (d * 1440 + start)) mod 10080 < (en - start) mod 1440 \<longleftrightarrow>
    (if start < en then d = wd \<and> start \<le> m \<and> m < en
     else d = wd \<and> start \<le> m \<or> d = (wd + 6) mod 7 \<and> m < en)"
proof -
  define x where "x = wd * 1440 + m - (d * 1440 + start)"
  have len: "(en - start) mod 1440 = (if start < en then en - start else en - start + 1440)"
  proof (cases "start < en")
    case False
    have "(en - start) mod 1440 = (en - start + 1440) mod 1440" by (rule mod_add_self2 [symmetric])
    also have "\<dots> = en - start + 1440" by (rule mod_pos_pos_trivial) (use False r in simp_all)
    finally show ?thesis using False by simp
  qed (use r in simp)
  have x: "x mod 10080 = (if 0 \<le> x then x else x + 10080)"
    by (rule circle_mod) (use r in \<open>simp_all add: x_def\<close>)
  have prev: "(wd + 6) mod 7 = (if wd = 0 then 6 else wd - 1)"
  proof (cases "wd = 0")
    case False
    have "wd + 6 = wd - 1 + 7" by simp
    then have "(wd + 6) mod 7 = (wd - 1 + 7) mod 7" by (rule arg_cong)
    also have "\<dots> = (wd - 1) mod 7" by (rule mod_add_self2)
    finally show ?thesis using False r by simp
  qed simp
  consider "d = wd" | "d = wd - 1" | "wd = 0" "d = 6" | "wd - d \<ge> 2" | "wd - d \<le> -1" "wd - d \<ge> -5"
    using r by linarith
  then show ?thesis unfolding x_def [symmetric] x len prev
  proof cases
    case 1
    then show "((if 0 \<le> x then x else x + 10080) < (if start < en then en - start else en - start + 1440)) =
      (if start < en then d = wd \<and> start \<le> m \<and> m < en
       else d = wd \<and> start \<le> m \<or> d = (if wd = 0 then 6 else wd - 1) \<and> m < en)"
      using r by (auto simp: x_def)
  next
    case 2
    then have "x = 1440 + m - start" by (simp add: x_def)
    then show "((if 0 \<le> x then x else x + 10080) < (if start < en then en - start else en - start + 1440)) =
      (if start < en then d = wd \<and> start \<le> m \<and> m < en
       else d = wd \<and> start \<le> m \<or> d = (if wd = 0 then 6 else wd - 1) \<and> m < en)"
      using r 2 by auto
  next
    case 3
    then have "x = m - start - 8640" by (simp add: x_def)
    then show "((if 0 \<le> x then x else x + 10080) < (if start < en then en - start else en - start + 1440)) =
      (if start < en then d = wd \<and> start \<le> m \<and> m < en
       else d = wd \<and> start \<le> m \<or> d = (if wd = 0 then 6 else wd - 1) \<and> m < en)"
      using r 3 by auto
  next
    case 4
    then have "x \<ge> 2880 + m - start" by (simp add: x_def)
    then show "((if 0 \<le> x then x else x + 10080) < (if start < en then en - start else en - start + 1440)) =
      (if start < en then d = wd \<and> start \<le> m \<and> m < en
       else d = wd \<and> start \<le> m \<or> d = (if wd = 0 then 6 else wd - 1) \<and> m < en)"
      using r 4 by auto
  next
    case 5
    then have "x \<ge> m - start - 7200" "x < 0" using r by (simp_all add: x_def)
    then show "((if 0 \<le> x then x else x + 10080) < (if start < en then en - start else en - start + 1440)) =
      (if start < en then d = wd \<and> start \<le> m \<and> m < en
       else d = wd \<and> start \<le> m \<or> d = (if wd = 0 then 6 else wd - 1) \<and> m < en)"
      using r 5 by auto
  qed
qed

lemma activeOn_peak:
  assumes "checkWindow i win = None"
  shows "activeOn win lt = peakMinute win lt"
proof -
  obtain s e where se: "minutesOfDay (pw_start win) = Some s" "minutesOfDay (pw_end win) = Some e" "s \<noteq> e"
    and days: "\<And>d. d \<in> set (pw_days win) \<Longrightarrow> 0 \<le> d \<and> d \<le> 6"
    using assms by (auto simp: checkWindow_def find_None_iff not_less split: option.splits if_splits)
  have r: "0 \<le> s" "s < 1440" "0 \<le> e" "e < 1440" using minutesOfDay_range se(1,2) by auto
  have wd: "0 \<le> int (weekday (lt div 1440))" "int (weekday (lt div 1440)) \<le> 6"
    by (simp_all add: weekday_def)
  have m: "0 \<le> int (lt mod 1440)" "int (lt mod 1440) < 1440" by simp_all
  have iff: "covers s e d lt \<longleftrightarrow> (if s < e then d = int (weekday (lt div 1440)) \<and> s \<le> int (lt mod 1440) \<and> int (lt mod 1440) < e
     else d = int (weekday (lt div 1440)) \<and> s \<le> int (lt mod 1440) \<or>
       d = (int (weekday (lt div 1440)) + 6) mod 7 \<and> int (lt mod 1440) < e)" if "d \<in> set (pw_days win)" for d
    using covers_iff [OF m wd _ _ r se(3), of d] days [OF that] by (simp add: covers_def minuteOfWeek_def)
  show ?thesis
    using iff by (auto simp: activeOn_def peakMinute_def se(1,2) dayIn_def list_ex_iff Let_def)
qed

lemma checkWindows_all: "checkWindows i wins = None \<Longrightarrow> win \<in> set wins \<Longrightarrow> \<exists>j. checkWindow j win = None"
  by (induction wins arbitrary: i) (auto split: option.splits)

text \<open>C34: a price tier is what the schedule says.  For an accepted schedule the tier at a time is
  flat when there are no windows, and otherwise peak exactly when the minute of the local week
  lies on one of the arcs the windows cut out of the weekly circle, also across midnight and
  from Saturday to Sunday.\<close>

theorem tier_is_weekly_circle:
  assumes "parseWindows zones w = Inr w'"
  shows "\<exists>off. loadLocation zones (ps_tz w') = Some off \<and>
    tierAt zones w' t = (if ps_windows w' = [] then TierFlat
      else if list_ex (\<lambda>win. peakMinute win (localMinute (off t) t)) (ps_windows w') then TierPeak else TierOffPeak)"
proof -
  obtain off where off: "loadLocation zones (ps_tz w) = Some off" and w': "w' = w"
    and ok: "checkWindows 0 (ps_windows w) = None"
    using assms by (auto simp: parseWindows_def split: if_splits option.splits)
  have "activeOn win lt = peakMinute win lt" if "win \<in> set (ps_windows w)" for win lt
    using checkWindows_all [OF ok that] activeOn_peak by blast
  then have "list_ex (\<lambda>win. activeOn win lt) (ps_windows w) = list_ex (\<lambda>win. peakMinute win lt) (ps_windows w)" for lt
    by (auto simp: list_ex_iff)
  then show ?thesis using off by (simp add: w' tierAt_def windowsActive_def)
qed

definition night_rate :: price_windows where
  "night_rate = \<lparr>ps_tz = [], ps_windows = [\<lparr>pw_days = [6], pw_start = ''22:00'', pw_end = ''02:00''\<rparr>]\<rparr>"

text \<open>One o'clock on a Sunday belongs to the window that starts on Saturday.\<close>

theorem tier_is_weekly_circle_witness:
  "tierAt (\<lambda>n. None) night_rate (timeOf 0 + (2 * 1440 + 1 * 60) * nanos_per_minute + 86400000000000) = TierPeak"
proof -
  have m: "minutesOfDay ''22:00'' = Some 1320" "minutesOfDay ''02:00'' = Some 120"
    by (simp_all add: minutesOfDay_def scan_int_def scan_digits_def is_space_def is_digit_def less_eq_char_def)
  have p: "parseWindows (\<lambda>n. None) night_rate = Inr night_rate"
    by (simp add: parseWindows_def loadLocation_def night_rate_def checkWindow_def m)
  show ?thesis
    using tier_is_weekly_circle [OF p]
    by (simp add: loadLocation_def night_rate_def peakMinute_def m covers_def minuteOfWeek_def localMinute_def
        timeOf_def weekday_def unix_epoch_def)
qed

end
