(* ===== verification/Router_Select.thy ===== *)
theory Router_Select
  imports Pricing Complex_Main
begin

text \<open>
  The catalog rows the router of chat requests reads (\<open>internal/store/catalog.go\<close>,
  \<open>internal/store/store.go\<close>) and the choice of a provider for a remote model
  (\<open>internal/router/select.go\<close>): the offerings of one model form a group, sorted by priority,
  provider name and row id, narrowed to what can be routed.  An id is an int64 and 0 stands for
  NULL; a price is an exact rational (float64 rounding is not modelled); a \<open>*float64\<close> is an
  option.  Of the rows the columns that the router never reads are left out.

  The lemmas give the order a specification of its own: the chain is the only strictly sorted
  list of the routable offerings, whatever order the rows come in.
\<close>

section \<open>Rows of the catalog\<close>

record offering =
  of_id :: int
  of_modelID :: int
  of_providerID :: int
  of_providerName :: string
  of_wireModel :: string
  of_priceIn :: rat
  of_priceOut :: rat
  of_currency :: string
  of_contextLength :: int
  of_enabled :: bool
  of_priority :: int
  of_priceCachedIn :: "rat option"
  of_priceInPeak :: "rat option"
  of_priceOutPeak :: "rat option"
  of_priceCachedInPeak :: "rat option"

record provider_row =
  pv_id :: int
  pv_name :: string
  pv_apiKey :: string
  pv_targetURL :: string
  pv_enabled :: bool
  pv_peakWindows :: price_windows

record proxy_row =
  px_service :: string
  px_port :: int
  px_providerID :: "int option"
  px_passthrough :: bool
  px_orphanedAt :: time

section \<open>The selection rule\<close>

definition offering_key :: "offering \<Rightarrow> int \<times> string \<times> int" where
  "offering_key o1 = (of_priority o1, of_providerName o1, of_id o1)"

definition groupOfferingsByModel :: "offering list \<Rightarrow> int \<Rightarrow> offering list" where
  "groupOfferingsByModel os m = sort_key offering_key (filter (\<lambda>o1. of_modelID o1 = m) os)"

definition selectOfferingChain :: "offering list \<Rightarrow> int set \<Rightarrow> bool \<Rightarrow> offering list" where
  "selectOfferingChain g enabledProviders failover =
     (let routable = filter (\<lambda>o1. of_enabled o1 \<and> of_providerID o1 \<in> enabledProviders) g in
      if routable = [] then [] else if \<not> failover then take 1 routable else routable)"

section \<open>Lemmas\<close>

definition routable :: "offering list \<Rightarrow> int \<Rightarrow> int set \<Rightarrow> offering set" where
  "routable os m en =
     {o1 \<in> set os. of_modelID o1 = m \<and> of_enabled o1 \<and> of_providerID o1 \<in> en}"

lemma select_take: "selectOfferingChain g en False = take 1 (selectOfferingChain g en True)"
  by (simp add: selectOfferingChain_def Let_def)

lemma chain_alt:
  "selectOfferingChain (groupOfferingsByModel os m) en True =
     sort_key offering_key (filter (\<lambda>o1. of_modelID o1 = m \<and> of_enabled o1 \<and> of_providerID o1 \<in> en) os)"
  by (simp add: selectOfferingChain_def groupOfferingsByModel_def Let_def filter_sort conj_assoc)

lemma set_chain: "set (selectOfferingChain (groupOfferingsByModel os m) en True) = routable os m en"
  by (auto simp: chain_alt routable_def)

lemma set_chain_sub: "set (selectOfferingChain (groupOfferingsByModel os m) en f) \<subseteq> routable os m en"
  using set_chain [of os m en] in_set_takeD by (cases f) (fastforce simp: select_take)+

lemma chain_Nil_iff: "selectOfferingChain (groupOfferingsByModel os m) en f = [] \<longleftrightarrow> routable os m en = {}"
proof -
  have "selectOfferingChain (groupOfferingsByModel os m) en True = [] \<longleftrightarrow> routable os m en = {}"
    by (metis set_chain set_empty)
  then show ?thesis by (cases f) (simp_all add: select_take)
qed

lemma chain_sorted: "sorted (map offering_key (selectOfferingChain (groupOfferingsByModel os m) en f))"
proof -
  have s: "sorted (map offering_key (selectOfferingChain (groupOfferingsByModel os m) en True))"
    by (simp add: chain_alt)
  show ?thesis
  proof (cases f)
    case False
    then show ?thesis using s by (simp add: select_take take_map [symmetric] sorted_wrt_take)
  qed (use s in simp)
qed

lemma distinct_keys: "distinct (map of_id os) \<Longrightarrow> distinct (map offering_key (filter P os))"
  by (induction os) (auto simp: offering_key_def)

lemma chain_distinct:
  "distinct (map of_id os) \<Longrightarrow>
   distinct (map offering_key (selectOfferingChain (groupOfferingsByModel os m) en True))"
proof -
  assume d: "distinct (map of_id os)"
  let ?ys = "filter (\<lambda>o1. of_modelID o1 = m \<and> of_enabled o1 \<and> of_providerID o1 \<in> en) os"
  have "mset (map offering_key (sort_key offering_key ?ys)) = mset (map offering_key ?ys)" by simp
  then show ?thesis using distinct_keys [OF d] by (metis chain_alt mset_eq_imp_distinct_iff)
qed

text \<open>The strictly sorted listing of a set is unique.\<close>

lemma strict_listing_unique:
  fixes f :: "'a \<Rightarrow> 'b::linorder"
  assumes "sorted_wrt (<) (map f xs)" and "sorted_wrt (<) (map f ys)" and "set xs = set ys"
  shows "xs = ys"
proof -
  have m: "map f xs = map f ys"
    by (rule strict_sorted_equal [OF assms(2,1)]) (use assms(3) in simp)
  have "inj_on f (set xs)" using assms(1) by (meson distinct_map strict_sorted_iff)
  then have "inj_on f (set xs \<union> set ys)" using assms(3) by simp
  then show ?thesis using m inj_on_map_eq_map by blast
qed

text \<open>Whatever order the rows of the table come in, the chain of a model is the one list of its
  enabled offerings at enabled providers that is strictly increasing in priority, provider name and
  row id; without failover it is the first of them.\<close>

theorem chain_unique:
  assumes "distinct (map of_id os)"
  shows "selectOfferingChain (groupOfferingsByModel os m) en failover = xs \<longleftrightarrow>
    (\<exists>ys. set ys = routable os m en \<and> sorted_wrt (<) (map offering_key ys)
       \<and> xs = (if failover then ys else take 1 ys))"
proof -
  let ?c = "selectOfferingChain (groupOfferingsByModel os m) en True"
  have "sorted_wrt (<) (map offering_key ?c)"
    using chain_sorted chain_distinct [OF assms] strict_sorted_iff by blast
  then have u: "?c = ys \<longleftrightarrow> set ys = routable os m en \<and> sorted_wrt (<) (map offering_key ys)" for ys
    using set_chain strict_listing_unique by metis
  show ?thesis
  proof (cases failover)
    case True
    then show ?thesis using u by auto
  next
    case False
    have "(\<exists>ys. set ys = routable os m en \<and> sorted_wrt (<) (map offering_key ys) \<and> xs = take 1 ys)
        \<longleftrightarrow> take 1 ?c = xs" using u by metis
    then show ?thesis using False by (simp add: select_take del: One_nat_def)
  qed
qed

theorem chain_unique_witness:
  "\<exists>a b. a = \<lparr>of_id = 4, of_modelID = 7, of_providerID = 1, of_providerName = ''x'', of_wireModel = ''w'',
       of_priceIn = 0, of_priceOut = 0, of_currency = [], of_contextLength = 0, of_enabled = True,
       of_priority = 2, of_priceCachedIn = None, of_priceInPeak = None, of_priceOutPeak = None,
       of_priceCachedInPeak = None\<rparr>
     \<and> b = a\<lparr>of_id := 9, of_priority := 1\<rparr>
     \<and> selectOfferingChain (groupOfferingsByModel [a, b] 7) {1} True = [b, a]"
proof -
  let ?a = "\<lparr>of_id = 4, of_modelID = 7, of_providerID = 1, of_providerName = ''x'', of_wireModel = ''w'',
       of_priceIn = 0, of_priceOut = 0, of_currency = [], of_contextLength = 0, of_enabled = True,
       of_priority = 2, of_priceCachedIn = None, of_priceInPeak = None, of_priceOutPeak = None,
       of_priceCachedInPeak = None\<rparr>"
  let ?b = "?a\<lparr>of_id := 9, of_priority := 1\<rparr>"
  have d: "distinct (map of_id [?a, ?b])" by simp
  have "set [?b, ?a] = routable [?a, ?b] 7 {1}" by (auto simp: routable_def)
  moreover have "sorted_wrt (<) (map offering_key [?b, ?a])" by (simp add: offering_key_def)
  ultimately have "selectOfferingChain (groupOfferingsByModel [?a, ?b] 7) {1} True = [?b, ?a]"
    using chain_unique [OF d, of 7 "{1}" True "[?b, ?a]"] by auto
  then show ?thesis by blast
qed

end
