(* ===== verification/Router_Usage.thy ===== *)
theory Router_Usage
  imports Router_Select Go_Strings
begin

text \<open>
  Metering of remote answers (\<open>usage.go\<close>): the tap that watches the bytes of a response as they
  are relayed, the search for the usage object in what it kept, the price of a request and the
  row that records it.  The decoding of one usage object (\<open>json.Unmarshal\<close> into \<open>usageParse\<close>) is
  the parameter \<open>dec\<close>; prices are exact rationals.

  The lemmas show what the tap holds after any sequence of chunks (the last 64 KiB of a stream,
  the first MiB of a plain body), and the bounds of the price.
\<close>

section \<open>The tap\<close>

record usage_tap =
  ut_streaming :: bool
  ut_buf :: string
  ut_maxBuf :: nat
  ut_closed :: bool

definition nonStreamingUsageBufCap :: nat where
  "nonStreamingUsageBufCap = 1048576"

definition streamingUsageTailCap :: nat where
  "streamingUsageTailCap = 65536"

definition newUsageTap :: "bool \<Rightarrow> usage_tap" where
  "newUsageTap streaming = \<lparr>ut_streaming = streaming, ut_buf = [],
     ut_maxBuf = (if streaming then streamingUsageTailCap else nonStreamingUsageBufCap), ut_closed = False\<rparr>"

definition tapAccumulate :: "string \<Rightarrow> usage_tap \<Rightarrow> usage_tap" where
  "tapAccumulate chunk t =
     (if ut_streaming t then
        (let buf = ut_buf t @ chunk in
         t\<lparr>ut_buf := (if length buf > ut_maxBuf t then drop (length buf - ut_maxBuf t) buf else buf)\<rparr>)
      else if length (ut_buf t) \<ge> ut_maxBuf t then t
      else
        (let room = ut_maxBuf t - length (ut_buf t) in
         t\<lparr>ut_buf := ut_buf t @ (if length chunk > room then take room chunk else chunk)\<rparr>))"

definition tapRead :: "string \<Rightarrow> usage_tap \<Rightarrow> usage_tap" where
  "tapRead chunk t = (if chunk = [] then t else tapAccumulate chunk t)"

text \<open>\<open>Close\<close> hands the buffer to its callback once.\<close>

definition tapClose :: "usage_tap \<Rightarrow> string option \<times> usage_tap" where
  "tapClose t = (if ut_closed t then None else Some (ut_buf t), t\<lparr>ut_closed := True\<rparr>)"

section \<open>Usage objects\<close>

record usage_parse =
  up_prompt :: int
  up_completion :: int
  up_detailsCached :: int
  up_cacheHit :: int

record usage_counts =
  uc_prompt :: int
  uc_completion :: int
  uc_cached :: int

definition cachedTokens :: "usage_parse \<Rightarrow> int" where
  "cachedTokens u = (if up_detailsCached u > 0 then up_detailsCached u else up_cacheHit u)"

definition parseNonStreamingUsage :: "(string \<Rightarrow> usage_parse option) \<Rightarrow> string \<Rightarrow> usage_counts option" where
  "parseNonStreamingUsage dec buf =
     (case dec buf of None \<Rightarrow> None
      | Some u \<Rightarrow> if up_prompt u = 0 \<and> up_completion u = 0 then None
          else Some \<lparr>uc_prompt = up_prompt u, uc_completion = up_completion u, uc_cached = cachedTokens u\<rparr>)"

definition frameUsage :: "(string \<Rightarrow> usage_parse option) \<Rightarrow> string \<Rightarrow> usage_counts option" where
  "frameUsage dec l =
     (let line = trim_space l in
      if \<not> prefix ''data:'' line then None
      else
        (let payload = trim_space (drop 5 line) in
         if payload = [] \<or> payload = ''[DONE]'' then None else parseNonStreamingUsage dec payload))"

fun firstUsage :: "(string \<Rightarrow> usage_parse option) \<Rightarrow> string list \<Rightarrow> usage_counts option" where
  "firstUsage dec [] = None"
| "firstUsage dec (l # ls) = (case frameUsage dec l of Some u \<Rightarrow> Some u | None \<Rightarrow> firstUsage dec ls)"

definition parseStreamingUsage :: "(string \<Rightarrow> usage_parse option) \<Rightarrow> string \<Rightarrow> usage_counts option" where
  "parseStreamingUsage dec tail = firstUsage dec (rev (split_on (CHR 0x0A) tail))"

section \<open>Prices\<close>

record price_list =
  pr_in :: rat
  pr_out :: rat
  pr_cachedIn :: "rat option"
  pr_currency :: string
  pr_inPeak :: "rat option"
  pr_outPeak :: "rat option"
  pr_cachedInPeak :: "rat option"
  pr_windows :: price_windows

definition orBase :: "rat option \<Rightarrow> rat \<Rightarrow> rat" where
  "orBase p base = (case p of None \<Rightarrow> base | Some x \<Rightarrow> x)"

definition tierPrices :: "tier \<Rightarrow> price_list \<Rightarrow> rat \<times> rat \<times> rat option" where
  "tierPrices tr p =
     (if tr = TierPeak then
        (orBase (pr_inPeak p) (pr_in p), orBase (pr_outPeak p) (pr_out p),
         (case pr_cachedInPeak p of None \<Rightarrow> pr_cachedIn p | Some c \<Rightarrow> Some c))
      else (pr_in p, pr_out p, pr_cachedIn p))"

definition computeCostNative ::
    "zones \<Rightarrow> price_list \<Rightarrow> usage_counts \<Rightarrow> time \<Rightarrow> (rat \<times> tier) option" where
  "computeCostNative zones p u t =
     (if pr_currency p = [] then None
      else
        (let tr = tierAt zones (pr_windows p) t;
             (priceIn, priceOut, priceCached) = tierPrices tr p;
             (billable, cached) =
               (case priceCached of
                  Some c \<Rightarrow> if uc_cached u > 0
                    then (max 0 (uc_prompt u - uc_cached u), of_int (uc_cached u) / 1000000 * c)
                    else (uc_prompt u, 0)
                | None \<Rightarrow> (uc_prompt u, 0))
         in Some (cached + of_int billable / 1000000 * priceIn
                    + of_int (uc_completion u) / 1000000 * priceOut, tr)))"

section \<open>Recording\<close>

record usage_event =
  ue_ts :: time
  ue_kind :: string
  ue_model :: string
  ue_providerID :: "int option"
  ue_unmetered :: bool
  ue_prompt :: int
  ue_completion :: int
  ue_cached :: "int option"
  ue_cost :: "rat option"
  ue_currency :: string
  ue_tier :: "tier option"

definition nonZeroInt64Ptr :: "int \<Rightarrow> int option" where
  "nonZeroInt64Ptr v = (if v = 0 then None else Some v)"

definition recordExternalUsage ::
    "zones \<Rightarrow> (string \<Rightarrow> usage_parse option) \<Rightarrow> price_list \<Rightarrow> string \<Rightarrow> int \<Rightarrow> time \<Rightarrow> string \<Rightarrow> bool \<Rightarrow> usage_event" where
  "recordExternalUsage zones dec p wireModel providerID now buf streaming =
     (let ev = \<lparr>ue_ts = now, ue_kind = ''external_request'', ue_model = wireModel,
            ue_providerID = nonZeroInt64Ptr providerID, ue_unmetered = False, ue_prompt = 0,
            ue_completion = 0, ue_cached = None, ue_cost = None, ue_currency = [], ue_tier = None\<rparr> in
      case (if streaming then parseStreamingUsage dec buf else parseNonStreamingUsage dec buf) of
        None \<Rightarrow> ev\<lparr>ue_unmetered := True\<rparr>
      | Some u \<Rightarrow>
        (let ev1 = ev\<lparr>ue_prompt := uc_prompt u, ue_completion := uc_completion u,
               ue_cached := (if uc_cached u > 0 then Some (uc_cached u) else None)\<rparr> in
         case computeCostNative zones p u now of
           None \<Rightarrow> ev1
         | Some (c, tr) \<Rightarrow> ev1\<lparr>ue_cost := Some c, ue_currency := pr_currency p, ue_tier := Some tr\<rparr>))"

section \<open>What the tap holds\<close>

definition last_n :: "nat \<Rightarrow> 'a list \<Rightarrow> 'a list" where
  "last_n n xs = drop (length xs - n) xs"

lemma last_n_append: "last_n n (last_n n xs @ ys) = last_n n (xs @ ys)"
proof -
  show ?thesis
  proof (cases "length xs \<le> n")
    case False
    have "last_n n (last_n n xs @ ys) = drop (length ys) (drop (length xs - n) xs @ ys)"
      using False by (simp add: last_n_def)
    moreover have "last_n n (xs @ ys) = drop (length ys) (drop (length xs - n) xs @ ys)"
      using False by (simp add: last_n_def add.commute)
    ultimately show ?thesis by simp
  qed (simp add: last_n_def)
qed

lemma take_take_append: "take n (take n xs @ ys) = take n (xs @ ys)"
  by (simp add: min_def)

lemma tap_keeps [simp]:
  "ut_streaming (tapRead c t) = ut_streaming t" "ut_maxBuf (tapRead c t) = ut_maxBuf t"
  by (simp_all add: tapRead_def tapAccumulate_def Let_def)

lemma tap_streaming:
  "ut_streaming t \<Longrightarrow> ut_buf t = last_n (ut_maxBuf t) xs \<Longrightarrow>
   ut_buf (tapRead c t) = last_n (ut_maxBuf t) (xs @ c)"
proof -
  assume s: "ut_streaming t" and b: "ut_buf t = last_n (ut_maxBuf t) xs"
  have "ut_buf (tapRead c t) = last_n (ut_maxBuf t) (ut_buf t @ c)" if "c \<noteq> []"
    using s that by (simp add: tapRead_def tapAccumulate_def last_n_def Let_def)
  then show ?thesis using b s last_n_append [of "ut_maxBuf t" xs c]
    by (cases "c = []") (simp_all add: tapRead_def)
qed

lemma tap_plain:
  "\<not> ut_streaming t \<Longrightarrow> ut_buf t = take (ut_maxBuf t) xs \<Longrightarrow>
   ut_buf (tapRead c t) = take (ut_maxBuf t) (xs @ c)"
  by (auto simp: tapRead_def tapAccumulate_def Let_def min_def)

lemma tap_fold:
  "ut_buf t = (if ut_streaming t then last_n (ut_maxBuf t) xs else take (ut_maxBuf t) xs) \<Longrightarrow>
   ut_buf (fold tapRead cs t) =
     (if ut_streaming t then last_n (ut_maxBuf t) (xs @ concat cs) else take (ut_maxBuf t) (xs @ concat cs))"
proof (induction cs arbitrary: t xs)
  case (Cons c cs)
  have "ut_buf (tapRead c t) =
          (if ut_streaming (tapRead c t) then last_n (ut_maxBuf (tapRead c t)) (xs @ c)
           else take (ut_maxBuf (tapRead c t)) (xs @ c))"
    using Cons.prems tap_streaming tap_plain by simp
  from Cons.IH [OF this] show ?case by simp
qed simp

text \<open>Whatever chunks a response arrives in, the tap holds exactly the last 64 KiB of a stream
  and the first MiB of a plain body when the response ends.\<close>

theorem tap_holds_window:
  "fst (tapClose (fold tapRead chunks (newUsageTap streaming))) =
     Some (if streaming then last_n streamingUsageTailCap (concat chunks)
           else take nonStreamingUsageBufCap (concat chunks))"
proof -
  have c: "ut_closed (fold tapRead cs t) = ut_closed t" for cs t
    by (induction cs arbitrary: t) (simp_all add: tapRead_def tapAccumulate_def Let_def)
  have "ut_buf (fold tapRead chunks (newUsageTap streaming)) =
     (if streaming then last_n streamingUsageTailCap (concat chunks)
      else take nonStreamingUsageBufCap (concat chunks))"
    using tap_fold [of "newUsageTap streaming" "[]" chunks] by (simp add: newUsageTap_def last_n_def)
  moreover have "ut_closed (newUsageTap streaming) = False" by (simp add: newUsageTap_def)
  ultimately show ?thesis using c by (simp add: tapClose_def)
qed

section \<open>What a request costs\<close>

lemma parsed_counts: "parseNonStreamingUsage dec buf = Some u \<Longrightarrow> uc_prompt u \<noteq> 0 \<or> uc_completion u \<noteq> 0"
  by (auto simp: parseNonStreamingUsage_def split: option.splits if_splits)

lemma last_frame_wins:
  "frameUsage dec l = Some u \<Longrightarrow> (\<And>x. x \<in> set after \<Longrightarrow> frameUsage dec x = None) \<Longrightarrow>
   firstUsage dec (rev (before @ l # after)) = Some u"
proof -
  assume l: "frameUsage dec l = Some u" and a: "\<And>x. x \<in> set after \<Longrightarrow> frameUsage dec x = None"
  have "(\<And>x. x \<in> set xs \<Longrightarrow> frameUsage dec x = None) \<Longrightarrow> firstUsage dec (xs @ ys) = firstUsage dec ys" for xs ys
    by (induction xs) auto
  from this [of "rev after" "l # rev before"] show ?thesis using a l by simp
qed

text \<open>Cached tokens never make a request dearer than the full input rate does.\<close>

lemma cost_upper_bound:
  assumes "computeCostNative zones p u t = Some (c, tr)" and "tierPrices tr p = (pin, pout, pc)"
    and "0 \<le> uc_cached u" and "uc_cached u \<le> uc_prompt u" and "\<And>d. pc = Some d \<Longrightarrow> d \<le> pin"
  shows "c \<le> (of_int (uc_prompt u) * pin + of_int (uc_completion u) * pout) / 1000000"
proof -
  have tr: "tr = tierAt zones (pr_windows p) t"
    using assms(1) by (auto simp: computeCostNative_def Let_def split: if_splits prod.splits option.splits)
  show ?thesis
  proof (cases "pc = None \<or> uc_cached u = 0")
    case True
    then show ?thesis using assms tr
      by (auto simp: computeCostNative_def Let_def add_divide_distrib split: if_splits option.splits)
  next
    case False
    then obtain d where d: "pc = Some d" "0 < uc_cached u" "d \<le> pin" using assms by auto
    have c: "c = of_int (uc_cached u) / 1000000 * d
            + of_int (uc_prompt u - uc_cached u) / 1000000 * pin + of_int (uc_completion u) / 1000000 * pout"
      using assms tr d by (auto simp: computeCostNative_def Let_def max_def split: if_splits)
    have "of_int (uc_cached u) / 1000000 * d \<le> of_int (uc_cached u) / 1000000 * pin"
      using d by (intro mult_left_mono) auto
    then show ?thesis unfolding c by (simp add: algebra_simps diff_divide_distrib add_divide_distrib)
  qed
qed

end
