(* ===== verification/Router_Types.thy ===== *)
theory Router_Types
  imports Router_Body Router_Usage Sched_Core
begin

text \<open>
  The data of the router \<open>a0\<close> (\<open>internal/router/router.go\<close>, \<open>config.go\<close>, \<open>catalog.go\<close>): its
  configuration with defaults and validation, the backends of a request, the rows of the model
  catalog it reads, the dependencies of the server (a nil dependency is None) and the operations
  it calls on the world outside: the probes of the slots, the scheduler's interface and the
  upstreams.  \<open>'w\<close> is the state behind those operations.
\<close>

section \<open>Configuration\<close>

datatype busy_mode = BusyUnset | BusyWait | BusyFailFast

record backend =
  bk_name :: string
  bk_kind :: string
  bk_port :: int
  bk_baseURL :: string
  bk_wireModel :: string
  bk_credential :: string
  bk_prices :: price_list
  bk_subMode :: string
  bk_subReason :: string
  bk_effortDefault :: string
  bk_caps :: "string \<Rightarrow> bool"

record chat_route =
  ro_model :: string
  ro_primary :: string
  ro_fallback :: "string list"

record router_config =
  cg_connectTimeoutS :: rat
  cg_requestTimeoutS :: rat
  cg_healthTTLS :: rat
  cg_maxRetries :: int
  cg_busyMode :: busy_mode
  cg_passthroughAll :: bool
  cg_passthroughServices :: "string list"
  cg_ensureLoadedTimeoutS :: rat
  cg_embeddingURL :: string
  cg_ttsURL :: string
  cg_backends :: "backend list"
  cg_routes :: "chat_route list"

definition noPrices :: price_list where
  "noPrices = \<lparr>pr_in = 0, pr_out = 0, pr_cachedIn = None, pr_currency = [], pr_inPeak = None,
     pr_outPeak = None, pr_cachedInPeak = None, pr_windows = \<lparr>ps_tz = [], ps_windows = []\<rparr>\<rparr>"

definition zeroRouterConfig :: router_config where
  "zeroRouterConfig = \<lparr>cg_connectTimeoutS = 0, cg_requestTimeoutS = 0, cg_healthTTLS = 0,
     cg_maxRetries = 0, cg_busyMode = BusyUnset, cg_passthroughAll = False, cg_passthroughServices = [],
     cg_ensureLoadedTimeoutS = 0, cg_embeddingURL = [], cg_ttsURL = [], cg_backends = [], cg_routes = []\<rparr>"

definition applyDefaults :: "router_config \<Rightarrow> router_config" where
  "applyDefaults c =
     c\<lparr>cg_connectTimeoutS := (if cg_connectTimeoutS c = 0 then 5 else cg_connectTimeoutS c),
       cg_healthTTLS := (if cg_healthTTLS c = 0 then 4 else cg_healthTTLS c),
       cg_maxRetries := (if cg_maxRetries c = 0 then 1 else cg_maxRetries c),
       cg_busyMode := (if cg_busyMode c = BusyUnset then BusyWait else cg_busyMode c),
       cg_ensureLoadedTimeoutS :=
         (if cg_ensureLoadedTimeoutS c = 0 then 320 else cg_ensureLoadedTimeoutS c)\<rparr>"

text \<open>The conversion of a float64 to an int64 truncates; out of range values are not modelled.\<close>

definition secs :: "rat \<Rightarrow> duration" where
  "secs s = (if s < 0 then - \<lfloor>- s * 1000000000\<rfloor> else \<lfloor>s * 1000000000\<rfloor>)"

datatype router_config_error =
    BackendNameRequired nat
  | BackendDuplicate nat string
  | SlotRequiresPort string
  | RemoteRequiresURL string
  | RemoteRequiresModel string
  | BackendKindUnknown string string
  | EmbeddingURLInvalid string
  | TTSURLInvalid string
  | RouteModelRequired nat
  | RoutePrimaryRequired nat
  | RoutePrimaryUnknown nat string
  | RouteFallbackUnknown nat nat string

definition checkBackend :: "backend \<Rightarrow> router_config_error option" where
  "checkBackend b =
     (if bk_kind b = ''foundry_slot'' then
        if bk_port b = 0 then Some (SlotRequiresPort (bk_name b)) else None
      else if bk_kind b = ''remote'' then
        if bk_baseURL b = [] then Some (RemoteRequiresURL (bk_name b))
        else if bk_wireModel b = [] then Some (RemoteRequiresModel (bk_name b)) else None
      else Some (BackendKindUnknown (bk_name b) (bk_kind b)))"

fun checkBackends :: "nat \<Rightarrow> string set \<Rightarrow> backend list \<Rightarrow> router_config_error + string set" where
  "checkBackends i seen [] = Inr seen"
| "checkBackends i seen (b # bs) =
     (if bk_name b = [] then Inl (BackendNameRequired i)
      else if bk_name b \<in> seen then Inl (BackendDuplicate i (bk_name b))
      else case checkBackend b of Some e \<Rightarrow> Inl e
        | None \<Rightarrow> checkBackends (Suc i) (insert (bk_name b) seen) bs)"

fun checkFallbacks :: "nat \<Rightarrow> nat \<Rightarrow> string set \<Rightarrow> string list \<Rightarrow> router_config_error option" where
  "checkFallbacks i j seen [] = None"
| "checkFallbacks i j seen (f # fs) =
     (if f \<notin> seen then Some (RouteFallbackUnknown i j f) else checkFallbacks i (Suc j) seen fs)"

fun checkRoutes :: "nat \<Rightarrow> string set \<Rightarrow> chat_route list \<Rightarrow> router_config_error option" where
  "checkRoutes i seen [] = None"
| "checkRoutes i seen (r # rs) =
     (if ro_model r = [] then Some (RouteModelRequired i)
      else if ro_primary r = [] then Some (RoutePrimaryRequired i)
      else if ro_primary r \<notin> seen then Some (RoutePrimaryUnknown i (ro_primary r))
      else case checkFallbacks i 0 seen (ro_fallback r) of Some e \<Rightarrow> Some e
        | None \<Rightarrow> checkRoutes (Suc i) seen rs)"

text \<open>\<open>absURL\<close> is the test that \<open>url.Parse\<close> finds a scheme and a host.\<close>

definition validateRouterConfig :: "(string \<Rightarrow> bool) \<Rightarrow> router_config \<Rightarrow> router_config_error option" where
  "validateRouterConfig absURL c =
     (case checkBackends 0 {} (cg_backends c) of Inl e \<Rightarrow> Some e
      | Inr seen \<Rightarrow>
        if cg_embeddingURL c \<noteq> [] \<and> \<not> absURL (cg_embeddingURL c) then Some (EmbeddingURLInvalid (cg_embeddingURL c))
        else if cg_ttsURL c \<noteq> [] \<and> \<not> absURL (cg_ttsURL c) then Some (TTSURLInvalid (cg_ttsURL c))
        else checkRoutes 0 seen (cg_routes c))"

definition newRouterConfig :: "(string \<Rightarrow> bool) \<Rightarrow> router_config \<Rightarrow> router_config_error + router_config" where
  "newRouterConfig absURL c =
     (let d = applyDefaults c in
      case validateRouterConfig absURL d of Some e \<Rightarrow> Inl e | None \<Rightarrow> Inr d)"

definition backendByName :: "string \<Rightarrow> router_config \<Rightarrow> backend option" where
  "backendByName n c = find (\<lambda>b. bk_name b = n) (cg_backends c)"

definition routeFor :: "string \<Rightarrow> router_config \<Rightarrow> chat_route option" where
  "routeFor m c = find (\<lambda>r. ro_model r = m) (cg_routes c)"

definition healthTTL :: "router_config \<Rightarrow> duration" where
  "healthTTL c = secs (cg_healthTTLS c)"

definition requestTimeout :: "router_config \<Rightarrow> duration" where
  "requestTimeout c = secs (cg_requestTimeoutS c)"

definition ensureLoadedTimeout :: "router_config \<Rightarrow> duration" where
  "ensureLoadedTimeout c = secs (cg_ensureLoadedTimeoutS c)"

text \<open>\<open>emptyRouterConfig\<close>, what \<open>cfg()\<close> falls back to.\<close>

definition emptyRouterConfig :: router_config where
  "emptyRouterConfig = applyDefaults zeroRouterConfig"

section \<open>Rows of the model catalog\<close>

record model_config =
  mc_id :: int
  mc_name :: string
  mc_variantID :: int
  mc_weightArtifactID :: int
  mc_mmprojArtifactID :: int
  mc_nctx :: int
  mc_visibility :: string
  mc_modalities :: "string list option"
  mc_tierID :: int
  mc_rank :: int
  mc_caps :: "string \<rightharpoonup> bool"
  mc_capsOverride :: "string \<rightharpoonup> bool"
  mc_effortDefault :: string

text \<open>\<open>EffectiveChatTemplateCaps\<close>, read with the zero value for an absent key.\<close>

definition effectiveCaps :: "model_config \<Rightarrow> string \<Rightarrow> bool" where
  "effectiveCaps c k = (case (mc_caps c ++ mc_capsOverride c) k of None \<Rightarrow> False | Some b \<Rightarrow> b)"

record model_alias =
  ma_name :: string
  ma_configID :: int
  ma_defaults :: body
  ma_visibility :: string

record virtual_model =
  vm_name :: string
  vm_kind :: string
  vm_tierID :: int
  vm_visibility :: string

record artifact =
  af_path :: string
  af_missing :: bool

record config_card =
  cd_id :: int
  cd_visibility :: string
  cd_measuredTS :: "rat option"

text \<open>A read by key: \<open>store.ErrNotFound\<close> or another error.\<close>

datatype 'a fetched = Found 'a | NotFound | Failed string

fun found :: "'a fetched \<Rightarrow> 'a option" where
  "found (Found x) = Some x"
| "found NotFound = None"
| "found (Failed e) = None"

record catalog =
  ct_configByName :: "string \<Rightarrow> model_config fetched"
  ct_getConfig :: "int \<Rightarrow> model_config fetched"
  ct_aliasByName :: "string \<Rightarrow> model_alias fetched"
  ct_virtualByName :: "string \<Rightarrow> virtual_model fetched"
  ct_tierMode :: "int \<Rightarrow> string fetched"
  ct_tierConfigs :: "int \<Rightarrow> string + model_config list"
  ct_artifact :: "int \<Rightarrow> artifact fetched"
  ct_variantModel :: "int \<Rightarrow> int fetched"
  ct_modelModalities :: "int \<Rightarrow> string list fetched"
  ct_offerings :: "string + offering list"

section \<open>The server\<close>

record routing_store =
  rt_providers :: "string + provider_row list"
  rt_proxies :: "string + proxy_row list"

record slot_probe =
  sp_healthy :: bool
  sp_nctx :: int
  sp_modelPath :: string
  sp_supportsTools :: bool

record upstream_request =
  ur_url :: string
  ur_authorization :: "string option"
  ur_compressBase :: "string option"
  ur_body :: body

datatype upstream_answer =
    TransportError
  | Answered nat bool bool  \<comment> \<open>status, X-Forge-Compress and X-Forge-Compress-Error present\<close>

record 'w world_ops =
  rw_probe :: "int \<Rightarrow> duration \<Rightarrow> 'w \<Rightarrow> slot_probe \<times> 'w"
  rw_isBusy :: "int \<Rightarrow> duration \<Rightarrow> 'w \<Rightarrow> bool \<times> 'w"
  rw_ensureLoaded :: "ensure_request \<Rightarrow> 'w \<Rightarrow> (string + ticket) \<times> 'w"
  rw_slots :: "'w \<Rightarrow> (slot \<times> model) list"
  rw_couldLoad :: "model \<Rightarrow> duration \<Rightarrow> 'w \<Rightarrow> (string + placement) \<times> 'w"
  rw_loadReason :: "model \<Rightarrow> 'w \<Rightarrow> refusal_reason"
  rw_send :: "upstream_request \<Rightarrow> 'w \<Rightarrow> upstream_answer \<times> 'w"

record 'w router_server =
  rs_config :: "router_config option"
  rs_routing :: "routing_store option"
  rs_settings :: "(string \<Rightarrow> json option) option"
  rs_catalog :: "catalog option"
  rs_sched :: bool
  rs_slots :: "(slot \<times> int) list"
  rs_cards :: "config_card list option"
  rs_zones :: zones
  rs_ops :: "'w world_ops"

definition server_cfg :: "'w router_server \<Rightarrow> router_config" where
  "server_cfg s = (case rs_config s of None \<Rightarrow> emptyRouterConfig | Some c \<Rightarrow> c)"

text \<open>\<open>s.deps.Slots[name]\<close>, and the reverse lookup; the order of the map is the order of the list.\<close>

definition slotPort :: "'w router_server \<Rightarrow> slot \<Rightarrow> int" where
  "slotPort s n = (case map_of (rs_slots s) n of None \<Rightarrow> 0 | Some p \<Rightarrow> p)"

definition slotForPort :: "'w router_server \<Rightarrow> int \<Rightarrow> slot" where
  "slotForPort s p = (case find (\<lambda>e. snd e = p) (rs_slots s) of None \<Rightarrow> [] | Some e \<Rightarrow> fst e)"

section \<open>Settings\<close>

text \<open>
  \<open>Get\<close> followed by \<open>json.Unmarshal\<close> into a bool or a string: None when either fails.  A JSON null
  leaves the zero value and is not an error.
\<close>

definition boolSetting :: "'w router_server \<Rightarrow> string \<Rightarrow> bool option" where
  "boolSetting s k =
     (case rs_settings s of None \<Rightarrow> None
      | Some get \<Rightarrow> (case get k of Some (JBool b) \<Rightarrow> Some b | Some JNull \<Rightarrow> Some False | _ \<Rightarrow> None))"

definition stringSetting :: "'w router_server \<Rightarrow> string \<Rightarrow> string option" where
  "stringSetting s k =
     (case rs_settings s of None \<Rightarrow> None
      | Some get \<Rightarrow> (case get k of Some (JStr v) \<Rightarrow> Some v | Some JNull \<Rightarrow> Some [] | _ \<Rightarrow> None))"

definition settingOr :: "bool \<Rightarrow> bool option \<Rightarrow> bool" where
  "settingOr d v = (case v of None \<Rightarrow> d | Some b \<Rightarrow> b)"

definition localCompressorEnabled :: "'w router_server \<Rightarrow> bool" where
  "localCompressorEnabled s = settingOr False (boolSetting s ''compressor.local_enabled'')"

definition externalCompressorEnabled :: "'w router_server \<Rightarrow> bool" where
  "externalCompressorEnabled s = settingOr False (boolSetting s ''compressor.external_enabled'')"

definition providerFailoverEnabled :: "'w router_server \<Rightarrow> bool" where
  "providerFailoverEnabled s = settingOr False (boolSetting s ''router.provider_failover'')"

definition injectStreamUsageEnabled :: "'w router_server \<Rightarrow> bool" where
  "injectStreamUsageEnabled s = settingOr True (boolSetting s ''usage.inject_stream_usage'')"

definition passthroughAll :: "'w router_server \<Rightarrow> bool" where
  "passthroughAll s =
     settingOr (cg_passthroughAll (server_cfg s)) (boolSetting s ''compressor.passthrough_all'')"

definition busyMode :: "'w router_server \<Rightarrow> busy_mode" where
  "busyMode s =
     (case stringSetting s ''router.busy_mode'' of
        Some v \<Rightarrow> if v = ''wait'' then BusyWait else if v = ''fail_fast'' then BusyFailFast
                  else cg_busyMode (server_cfg s)
      | None \<Rightarrow> cg_busyMode (server_cfg s))"

section \<open>Lemmas\<close>

lemma defaults_idem: "applyDefaults (applyDefaults c) = applyDefaults c"
  by (cases c) (simp add: applyDefaults_def)

lemma checkBackends_seen:
  "checkBackends i seen bs = Inr s \<Longrightarrow>
     s = seen \<union> bk_name ` set bs \<and> distinct (map bk_name bs) \<and> bk_name ` set bs \<inter> seen = {}
     \<and> (\<forall>b\<in>set bs. checkBackend b = None \<and> bk_name b \<noteq> [])"
  by (induction i seen bs arbitrary: s rule: checkBackends.induct)
     (auto split: if_splits option.splits)

lemma checkFallbacks_ok: "checkFallbacks i j seen fs = None \<longleftrightarrow> set fs \<subseteq> seen"
  by (induction i j seen fs rule: checkFallbacks.induct) auto

lemma checkFallbacks_bad: "checkFallbacks i j seen fs = Some e \<Longrightarrow> \<not> set fs \<subseteq> seen"
  by (metis checkFallbacks_ok option.distinct(1))

lemma checkRoutes_ok:
  "checkRoutes i seen rs = None \<longleftrightarrow>
     (\<forall>r\<in>set rs. ro_model r \<noteq> [] \<and> ro_primary r \<noteq> [] \<and> insert (ro_primary r) (set (ro_fallback r)) \<subseteq> seen)"
  by (induction i seen rs rule: checkRoutes.induct) (auto simp: checkFallbacks_ok split: option.splits dest!: checkFallbacks_bad)

text \<open>Every name a route of an accepted configuration mentions is the name of a usable backend.\<close>

lemma accepted_routes_resolve:
  assumes "newRouterConfig absURL c = Inr d" and "r \<in> set (cg_routes d)"
    and "n = ro_primary r \<or> n \<in> set (ro_fallback r)"
  obtains b where "backendByName n d = Some b" and "bk_name b = n" and "checkBackend b = None"
proof -
  from assms(1) obtain seen where s: "checkBackends 0 {} (cg_backends d) = Inr seen"
      and r: "checkRoutes 0 seen (cg_routes d) = None"
    by (auto simp: newRouterConfig_def validateRouterConfig_def Let_def split: option.splits sum.splits if_splits)
  have "n \<in> seen" using r assms(2,3) by (auto simp: checkRoutes_ok)
  then obtain b where "b \<in> set (cg_backends d)" "bk_name b = n" using checkBackends_seen [OF s] by auto
  then obtain b' where "backendByName n d = Some b'"
    by (metis (mono_tags, lifting) backendByName_def find_None_iff not_Some_eq)
  then show thesis using that checkBackends_seen [OF s] find_Some_prop
    by (metis (mono_tags, lifting) backendByName_def)
qed

end
