(* ===== verification/Router_Resolve.thy ===== *)
theory Router_Resolve
  imports Router_Types
begin

text \<open>
  From a backend record to an address, a key and a model name (\<open>routing.go\<close>): the compressor
  proxies that stand before the local slots and before the providers, the rule that bypasses
  them, the atomic resolution of a backend, the gate on unhealthy and busy slots, the probe cache
  (\<open>ttlCatalog\<close> of \<open>catalog.go\<close>) and the chain of backends of a remote model.

  The lemmas show that a key is only ever paired with the addresses of its own provider.
\<close>

section \<open>Compressor proxies\<close>

definition loopbackURL :: "int \<Rightarrow> string" where
  "loopbackURL port = ''http://127.0.0.1:'' @ itoa port @ ''/v1''"

definition slotRoot :: "int \<Rightarrow> string" where
  "slotRoot port = ''http://127.0.0.1:'' @ itoa port"

definition proxyRows :: "'w router_server \<Rightarrow> proxy_row list option" where
  "proxyRows s = (case rs_routing s of None \<Rightarrow> None
     | Some r \<Rightarrow> (case rt_proxies r of Inl e \<Rightarrow> None | Inr ps \<Rightarrow> Some ps))"

definition compressorBypassed :: "'w router_server \<Rightarrow> string \<Rightarrow> bool" where
  "compressorBypassed s service =
     (if passthroughAll s then True
      else if service = [] then False
      else if (case proxyRows s of None \<Rightarrow> False
           | Some ps \<Rightarrow> list_ex (\<lambda>p. px_service p = service \<and> px_passthrough p) ps) then True
      else list_ex (\<lambda>svc. svc = service) (cg_passthroughServices (server_cfg s)))"

definition liveProxyURL :: "'w router_server \<Rightarrow> string \<Rightarrow> string option" where
  "liveProxyURL s service =
     (case proxyRows s of None \<Rightarrow> None
      | Some ps \<Rightarrow> map_option (\<lambda>p. loopbackURL (px_port p))
          (find (\<lambda>p. px_service p = service \<and> is_zero (px_orphanedAt p)) ps))"

definition localCompressorBaseURL :: "'w router_server \<Rightarrow> string option" where
  "localCompressorBaseURL s =
     (if \<not> localCompressorEnabled s then None
      else if compressorBypassed s ''local'' then None else liveProxyURL s ''local'')"

definition externalCompressorBaseURL :: "'w router_server \<Rightarrow> string option" where
  "externalCompressorBaseURL s =
     (if \<not> externalCompressorEnabled s then None
      else if compressorBypassed s ''external'' then None else liveProxyURL s ''external'')"

definition remoteCompressorService :: "'w router_server \<Rightarrow> int \<Rightarrow> string" where
  "remoteCompressorService s providerID =
     (if providerID = 0 then []
      else case proxyRows s of None \<Rightarrow> []
        | Some ps \<Rightarrow>
          (case find (\<lambda>p. px_providerID p = Some providerID \<and> is_zero (px_orphanedAt p)) ps of
             None \<Rightarrow> [] | Some p \<Rightarrow> px_service p))"

definition remoteCompressorBaseURL :: "'w router_server \<Rightarrow> int \<Rightarrow> (string \<times> string) option" where
  "remoteCompressorBaseURL s providerID =
     (let svc = remoteCompressorService s providerID in
      case (if svc \<noteq> [] then liveProxyURL s svc else None) of
        Some u \<Rightarrow> Some (u, svc)
      | None \<Rightarrow> (case externalCompressorBaseURL s of Some u \<Rightarrow> Some (u, ''external'') | None \<Rightarrow> None))"

section \<open>Providers\<close>

text \<open>\<open>ProviderByName\<close> reads the row of that name among the rows that are not deleted.\<close>

definition providerCredential :: "'w router_server \<Rightarrow> string \<Rightarrow> provider_row option" where
  "providerCredential s n =
     (case rs_routing s of None \<Rightarrow> None
      | Some r \<Rightarrow> (case rt_providers r of Inl e \<Rightarrow> None
          | Inr ps \<Rightarrow> (case find (\<lambda>p. pv_name p = n) ps of None \<Rightarrow> None
              | Some p \<Rightarrow> if pv_enabled p then Some p else None)))"

definition enabledProviderSet :: "'w router_server \<Rightarrow> int set" where
  "enabledProviderSet s =
     (case rs_routing s of None \<Rightarrow> {}
      | Some r \<Rightarrow> (case rt_providers r of Inl e \<Rightarrow> {} | Inr ps \<Rightarrow> pv_id ` {p \<in> set ps. pv_enabled p}))"

section \<open>Resolving a backend\<close>

record resolved_backend =
  rb_name :: string
  rb_baseURL :: string
  rb_apiKey :: string
  rb_wireModel :: string
  rb_provider :: string
  rb_providerID :: int
  rb_prices :: price_list
  rb_upstreamOverride :: string
  rb_compressorFronted :: bool
  rb_directURL :: string

datatype resolve_error = ProviderNotFound string | UnknownKind string

definition firstNonEmpty :: "string list \<Rightarrow> string" where
  "firstNonEmpty xs = (case find (\<lambda>v. v \<noteq> []) xs of None \<Rightarrow> [] | Some v \<Rightarrow> v)"

definition trimRight :: "char \<Rightarrow> string \<Rightarrow> string" where
  "trimRight c x = rev (dropWhile (\<lambda>y. y = c) (rev x))"

definition trimSuffix :: "string \<Rightarrow> string \<Rightarrow> string" where
  "trimSuffix e x = (if suffix e x then take (length x - length e) x else x)"

definition resolveSlot :: "'w router_server \<Rightarrow> backend \<Rightarrow> 'w \<Rightarrow> resolved_backend \<times> 'w" where
  "resolveSlot s b w =
     (let (pr, w1) = rw_probe (rs_ops s) (bk_port b) (healthTTL (server_cfg s)) w;
          direct = \<lparr>rb_name = bk_name b, rb_baseURL = loopbackURL (bk_port b), rb_apiKey = [],
             rb_wireModel = firstNonEmpty [sp_modelPath pr, bk_wireModel b], rb_provider = [], rb_providerID = 0,
             rb_prices = noPrices, rb_upstreamOverride = [], rb_compressorFronted = False, rb_directURL = []\<rparr>
      in (case localCompressorBaseURL s of
            Some u \<Rightarrow> direct\<lparr>rb_baseURL := u, rb_upstreamOverride := slotRoot (bk_port b),
                        rb_compressorFronted := True, rb_directURL := loopbackURL (bk_port b)\<rparr>
          | None \<Rightarrow> direct, w1))"

definition remoteTarget :: "'w router_server \<Rightarrow> provider_row \<Rightarrow> string \<Rightarrow> string \<times> string \<times> bool" where
  "remoteTarget s p baseURL =
     (case remoteCompressorBaseURL s (pv_id p) of
        None \<Rightarrow> (baseURL, [], False)
      | Some (u, svc) \<Rightarrow>
          if compressorBypassed s svc then
            (if pv_targetURL p \<noteq> [] then pv_targetURL p else baseURL, [], False)
          else if svc = ''external'' then
            (baseURL, trimSuffix ''/v1'' (trimRight (CHR ''/'') (pv_targetURL p)), True)
          else (baseURL, [], True))"

definition resolveRemote :: "'w router_server \<Rightarrow> backend \<Rightarrow> resolve_error + resolved_backend" where
  "resolveRemote s b =
     (case providerCredential s (bk_credential b) of
        None \<Rightarrow> Inl (ProviderNotFound (bk_credential b))
      | Some p \<Rightarrow>
        (let (baseURL, over, fronted) = remoteTarget s p (bk_baseURL b) in
         Inr \<lparr>rb_name = bk_name b, rb_baseURL = baseURL, rb_apiKey = pv_apiKey p,
              rb_wireModel = bk_wireModel b, rb_provider = pv_name p, rb_providerID = pv_id p,
              rb_prices = bk_prices b, rb_upstreamOverride = over, rb_compressorFronted = fronted,
              rb_directURL = (if fronted then pv_targetURL p else [])\<rparr>))"

definition resolveBackend ::
    "'w router_server \<Rightarrow> backend \<Rightarrow> 'w \<Rightarrow> (resolve_error + resolved_backend) \<times> 'w" where
  "resolveBackend s b w =
     (if bk_kind b = ''foundry_slot'' then (let (r, w1) = resolveSlot s b w in (Inr r, w1))
      else if bk_kind b = ''remote'' then (resolveRemote s b, w)
      else (Inl (UnknownKind (bk_kind b)), w))"

section \<open>The gate on slots\<close>

definition probePort :: "backend \<Rightarrow> int" where
  "probePort b = (if bk_kind b = ''foundry_slot'' then bk_port b else 0)"

datatype gate_reason = GateOpen | GateUnhealthy | GateBusy

definition slotGate :: "'w router_server \<Rightarrow> backend \<Rightarrow> busy_mode \<Rightarrow> 'w \<Rightarrow> gate_reason \<times> 'w" where
  "slotGate s b mode w =
     (let port = probePort b; ttl = healthTTL (server_cfg s) in
      if port = 0 then (GateOpen, w)
      else
        (let (pr, w1) = rw_probe (rs_ops s) port ttl w in
         if \<not> sp_healthy pr then (GateUnhealthy, w1)
         else if mode = BusyFailFast then
           (let (busy, w2) = rw_isBusy (rs_ops s) port ttl w1 in (if busy then GateBusy else GateOpen, w2))
         else (GateOpen, w1)))"

section \<open>The probe cache\<close>

text \<open>
  \<open>fresh\<close> stands for the HTTP probes of one slot; the entry's expiry is counted from the moment
  before the probe.
\<close>

record ttl_catalog =
  tc_health :: "int \<Rightarrow> (time \<times> slot_probe) option"
  tc_busy :: "int \<Rightarrow> (time \<times> bool) option"

definition newTTLCatalog :: ttl_catalog where
  "newTTLCatalog = \<lparr>tc_health = Map.empty, tc_busy = Map.empty\<rparr>"

definition ttlProbe :: "time \<Rightarrow> slot_probe \<Rightarrow> int \<Rightarrow> duration \<Rightarrow> ttl_catalog \<Rightarrow> slot_probe \<times> ttl_catalog" where
  "ttlProbe now fresh port ttl c =
     (case tc_health c port of
        Some (expires, p) \<Rightarrow> if expires > now then (p, c)
          else (fresh, c\<lparr>tc_health := (tc_health c)(port \<mapsto> (now + ttl, fresh))\<rparr>)
      | None \<Rightarrow> (fresh, c\<lparr>tc_health := (tc_health c)(port \<mapsto> (now + ttl, fresh))\<rparr>))"

definition ttlIsBusy :: "time \<Rightarrow> bool \<Rightarrow> int \<Rightarrow> duration \<Rightarrow> ttl_catalog \<Rightarrow> bool \<times> ttl_catalog" where
  "ttlIsBusy now fresh port ttl c =
     (case tc_busy c port of
        Some (expires, b) \<Rightarrow> if expires > now then (b, c)
          else (fresh, c\<lparr>tc_busy := (tc_busy c)(port \<mapsto> (now + ttl, fresh))\<rparr>)
      | None \<Rightarrow> (fresh, c\<lparr>tc_busy := (tc_busy c)(port \<mapsto> (now + ttl, fresh))\<rparr>))"

section \<open>The chain of a remote model\<close>

definition offeringPrices :: "zones \<Rightarrow> provider_row \<Rightarrow> offering \<Rightarrow> price_list" where
  "offeringPrices zones p o1 =
     \<lparr>pr_in = of_priceIn o1, pr_out = of_priceOut o1, pr_cachedIn = of_priceCachedIn o1,
      pr_currency = of_currency o1, pr_inPeak = of_priceInPeak o1, pr_outPeak = of_priceOutPeak o1,
      pr_cachedInPeak = of_priceCachedInPeak o1,
      pr_windows = (case parseWindows zones (pv_peakWindows p) of Inl e \<Rightarrow> \<lparr>ps_tz = [], ps_windows = []\<rparr>
                    | Inr ws \<Rightarrow> ws)\<rparr>"

definition offeringBackend :: "'w router_server \<Rightarrow> offering \<Rightarrow> backend option" where
  "offeringBackend s o1 =
     (case providerCredential s (of_providerName o1) of None \<Rightarrow> None
      | Some p \<Rightarrow>
        Some \<lparr>bk_name = of_providerName o1, bk_kind = ''remote'', bk_port = 0,
              bk_baseURL = (case remoteCompressorBaseURL s (pv_id p) of Some (u, svc) \<Rightarrow> u | None \<Rightarrow> pv_targetURL p),
              bk_wireModel = of_wireModel o1, bk_credential = of_providerName o1,
              bk_prices = offeringPrices (rs_zones s) p o1, bk_subMode = [], bk_subReason = [],
              bk_effortDefault = [], bk_caps = (\<lambda>k. False)\<rparr>)"

datatype chain_error =
    CatalogLookupFailed string
  | NoEnabledOffering string
  | CredentialsUnavailable string

datatype chain_result = NotHandled | ChainFailed chain_error | Chain "backend list"

definition offeringChain :: "'w router_server \<Rightarrow> string \<Rightarrow> chain_result" where
  "offeringChain s m =
     (case rs_catalog s of None \<Rightarrow> NotHandled
      | Some cat \<Rightarrow>
        (case ct_offerings cat of Inl e \<Rightarrow> ChainFailed (CatalogLookupFailed e)
         | Inr os \<Rightarrow>
           (let groupID = (case find (\<lambda>o1. of_wireModel o1 = m) os of None \<Rightarrow> 0 | Some o1 \<Rightarrow> of_modelID o1) in
            if groupID = 0 then NotHandled
            else
              (let group = selectOfferingChain (groupOfferingsByModel os groupID) (enabledProviderSet s)
                     (providerFailoverEnabled s) in
               if group = [] then ChainFailed (NoEnabledOffering m)
               else
                 (let chain = List.map_filter (offeringBackend s) group in
                  if chain = [] then ChainFailed (CredentialsUnavailable m) else Chain chain)))))"

section \<open>Lemmas\<close>

lemma providerCredential_enabled: "providerCredential s n = Some p \<Longrightarrow> pv_enabled p \<and> pv_name p = n"
  by (auto simp: providerCredential_def split: option.splits sum.splits if_splits dest: find_Some_prop)

lemma liveProxyURL_loopback: "liveProxyURL s svc = Some u \<Longrightarrow> \<exists>port. u = loopbackURL port"
  by (auto simp: liveProxyURL_def split: option.splits)

lemma remote_base_loopback: "remoteCompressorBaseURL s i = Some (u, svc) \<Longrightarrow> \<exists>port. u = loopbackURL port"
  by (auto simp: remoteCompressorBaseURL_def externalCompressorBaseURL_def Let_def
      split: option.splits if_splits dest: liveProxyURL_loopback)

text \<open>The addresses a provider's key may travel to: its own upstream and the loopback proxies.\<close>

definition own_address :: "provider_row \<Rightarrow> string \<Rightarrow> bool" where
  "own_address p u \<longleftrightarrow> u = pv_targetURL p \<or> (\<exists>port. u = loopbackURL port)"

definition backend_ok :: "'w router_server \<Rightarrow> backend \<Rightarrow> bool" where
  "backend_ok s b \<longleftrightarrow>
     (case providerCredential s (bk_credential b) of None \<Rightarrow> True | Some p \<Rightarrow> own_address p (bk_baseURL b))"

lemma offeringBackend_ok: "offeringBackend s o1 = Some b \<Longrightarrow> backend_ok s b \<and> bk_kind b = ''remote''"
  by (auto simp: offeringBackend_def backend_ok_def own_address_def split: option.splits prod.splits
      dest!: remote_base_loopback)

lemma in_map_filter: "x \<in> set (List.map_filter f xs) \<longleftrightarrow> (\<exists>y\<in>set xs. f y = Some x)"
  by (force simp: List.map_filter_def)

lemma offeringChain_Chain:
  assumes "offeringChain s m = Chain bs"
  obtains cat os g where "rs_catalog s = Some cat" and "ct_offerings cat = Inr os" and "g \<noteq> 0"
    and "find (\<lambda>o1. of_wireModel o1 = m) os \<noteq> None" and "g = of_modelID (the (find (\<lambda>o1. of_wireModel o1 = m) os))"
    and "bs = List.map_filter (offeringBackend s)
           (selectOfferingChain (groupOfferingsByModel os g) (enabledProviderSet s) (providerFailoverEnabled s))"
    and "bs \<noteq> []"
  using assms by (auto simp: offeringChain_def Let_def split: option.splits sum.splits if_splits)

lemma offeringChain_ok: "offeringChain s m = Chain bs \<Longrightarrow> \<forall>b\<in>set bs. backend_ok s b \<and> bk_kind b = ''remote''"
  by (erule offeringChain_Chain) (auto simp: in_map_filter dest: offeringBackend_ok)

text \<open>With failover off one provider only is ever contacted.\<close>

lemma offeringChain_single:
  "offeringChain s m = Chain bs \<Longrightarrow> \<not> providerFailoverEnabled s \<Longrightarrow> length bs = 1"
proof (erule offeringChain_Chain)
  fix cat os g
  assume f: "\<not> providerFailoverEnabled s" and n: "bs \<noteq> []"
    and b: "bs = List.map_filter (offeringBackend s)
           (selectOfferingChain (groupOfferingsByModel os g) (enabledProviderSet s) (providerFailoverEnabled s))"
  have "length bs \<le> length (selectOfferingChain (groupOfferingsByModel os g) (enabledProviderSet s) False)"
    using f b by (simp add: List.map_filter_def)
  also have "\<dots> \<le> 1" by (simp add: select_take)
  finally show "length bs = 1" using n by (cases bs) auto
qed

lemma own_target [simp]: "own_address p (pv_targetURL p)"
  by (simp add: own_address_def)

lemma remoteTarget_own:
  "remoteTarget s p u = (v, over, fronted) \<Longrightarrow> own_address p u \<Longrightarrow> own_address p v"
  by (auto simp: remoteTarget_def split: option.splits if_splits)

lemma resolveRemote_key:
  assumes "resolveRemote s b = Inr r" and "backend_ok s b"
  obtains p where "providerCredential s (bk_credential b) = Some p" and "rb_apiKey r = pv_apiKey p"
    and "own_address p (rb_baseURL r)" and "rb_directURL r \<noteq> [] \<Longrightarrow> own_address p (rb_directURL r)"
proof -
  from assms obtain p where p: "providerCredential s (bk_credential b) = Some p" "own_address p (bk_baseURL b)"
    by (auto simp: resolveRemote_def backend_ok_def split: option.splits)
  obtain v over fronted where t: "remoteTarget s p (bk_baseURL b) = (v, over, fronted)" by (metis prod_cases3)
  then have "r = \<lparr>rb_name = bk_name b, rb_baseURL = v, rb_apiKey = pv_apiKey p,
      rb_wireModel = bk_wireModel b, rb_provider = pv_name p, rb_providerID = pv_id p,
      rb_prices = bk_prices b, rb_upstreamOverride = over, rb_compressorFronted = fronted,
      rb_directURL = (if fronted then pv_targetURL p else [])\<rparr>"
    using assms(1) p by (simp add: resolveRemote_def)
  then show thesis using that [OF p(1)] remoteTarget_own [OF t p(2)] by (simp split: if_splits)
qed

lemma resolveSlot_keyless: "rb_apiKey (fst (resolveSlot s b w)) = []"
  by (simp add: resolveSlot_def Let_def split: prod.splits option.splits)

lemma resolved_key:
  assumes "resolveBackend s b w = (Inr r, w1)" and "backend_ok s b" and "rb_apiKey r \<noteq> []"
  obtains p where "providerCredential s (bk_credential b) = Some p" and "rb_apiKey r = pv_apiKey p"
    and "own_address p (rb_baseURL r)" and "rb_directURL r \<noteq> [] \<Longrightarrow> own_address p (rb_directURL r)"
proof (cases "bk_kind b = ''foundry_slot''")
  case True
  then have "rb_apiKey r = []"
    using assms(1) resolveSlot_keyless [of s b w] by (auto simp: resolveBackend_def split: prod.splits)
  then show thesis using assms(3) by simp
next
  case False
  then have "resolveRemote s b = Inr r" using assms(1) by (auto simp: resolveBackend_def split: if_splits)
  then show thesis using resolveRemote_key assms(2) that by blast
qed

text \<open>A bypassed service is never in the path of a remote request to a provider with an upstream.\<close>

lemma bypassed_goes_direct:
  "resolveRemote s b = Inr r \<Longrightarrow> passthroughAll s \<Longrightarrow> providerCredential s (bk_credential b) = Some p \<Longrightarrow>
   pv_targetURL p \<noteq> [] \<Longrightarrow> remoteCompressorBaseURL s (pv_id p) \<noteq> None \<Longrightarrow>
   rb_baseURL r = pv_targetURL p \<and> rb_upstreamOverride r = [] \<and> \<not> rb_compressorFronted r"
  by (auto simp: resolveRemote_def remoteTarget_def compressorBypassed_def split: option.splits prod.splits)

text \<open>Within its lifetime the cache repeats the first answer, whatever has become of the slot.\<close>

lemma probe_cached:
  "ttlProbe now fresh port ttl newTTLCatalog = (p, c) \<Longrightarrow> now \<le> now' \<Longrightarrow> now' < now + ttl \<Longrightarrow>
   ttlProbe now' fresh' port ttl' c = (fresh, c)"
  by (auto simp: ttlProbe_def newTTLCatalog_def)

lemma probe_expires:
  "tc_health c port = Some (expires, p) \<Longrightarrow> expires \<le> now \<Longrightarrow> fst (ttlProbe now fresh port ttl c) = fresh"
  by (simp add: ttlProbe_def)

end
