(* ===== verification/Activity.thy ===== *)
theory Activity
  imports Go_Strings
begin

text \<open>
  The registry of slot consumers (\<open>internal/activity\<close>): who last used a slot, with a freshness
  window, and the label derived from a key name and a User-Agent.  Names are ASCII, so \<open>ToLower\<close>,
  \<open>ToUpper\<close> and \<open>IsLetter\<close> are those of ASCII.
\<close>

section \<open>The registry\<close>

record activity_entry =
  ae_label :: string
  ae_at :: time

type_synonym activity = "slot \<Rightarrow> activity_entry option"

definition activityMark :: "time \<Rightarrow> slot \<Rightarrow> string \<Rightarrow> activity \<Rightarrow> activity" where
  "activityMark now s l r = (if s = [] \<or> l = [] then r else r(s \<mapsto> \<lparr>ae_label = l, ae_at = now\<rparr>))"

definition activityLabel :: "time \<Rightarrow> slot \<Rightarrow> duration \<Rightarrow> activity \<Rightarrow> string" where
  "activityLabel now s newerThan r =
     (if s = [] then []
      else case r s of None \<Rightarrow> []
        | Some e \<Rightarrow> if time_sub now (ae_at e) > newerThan then [] else ae_label e)"

section \<open>Labels\<close>

definition is_upper :: "char \<Rightarrow> bool" where
  "is_upper c \<longleftrightarrow> CHR ''A'' \<le> c \<and> c \<le> CHR ''Z''"

definition is_lower :: "char \<Rightarrow> bool" where
  "is_lower c \<longleftrightarrow> CHR ''a'' \<le> c \<and> c \<le> CHR ''z''"

definition to_lower :: "string \<Rightarrow> string" where
  "to_lower s = map (\<lambda>c. if is_upper c then char_of (of_char c + 32 :: nat) else c) s"

definition isLetterish :: "string \<Rightarrow> bool" where
  "isLetterish s = list_ex (\<lambda>c. is_upper c \<or> is_lower c) s"

definition capitalize :: "string \<Rightarrow> string" where
  "capitalize s = (case s of [] \<Rightarrow> []
     | c # cs \<Rightarrow> (if is_lower c then char_of (of_char c - 32 :: nat) else c) # cs)"

definition trimChars :: "string \<Rightarrow> string \<Rightarrow> string" where
  "trimChars cs s = rev (dropWhile (\<lambda>c. c \<in> set cs) (rev (dropWhile (\<lambda>c. c \<in> set cs) s)))"

definition appNameFromUserAgent :: "string \<Rightarrow> string" where
  "appNameFromUserAgent ua0 =
     (let ua = trim_space ua0 in
      if ua = [] then []
      else
        (let tok = takeWhile (\<lambda>c. c \<noteq> CHR '' '' \<and> c \<noteq> CHR 0x09) ua;
             tok' = trimChars ''-_.'' (takeWhile (\<lambda>c. c \<noteq> CHR ''/'') tok)
         in if tok' = [] \<or> \<not> isLetterish tok' then [] else tok'))"

definition deriveLabel :: "string \<Rightarrow> string \<Rightarrow> string" where
  "deriveLabel keyName userAgent =
     (let app = appNameFromUserAgent userAgent in
      if keyName = [] \<and> app = [] then []
      else if app = [] then keyName
      else if keyName \<noteq> [] then
        (let lk = to_lower keyName; la = to_lower app in
         if lk = la then app
         else if prefix (la @ ''-'') lk then capitalize (drop (length la + 1) lk) @ '' ('' @ app @ '')''
         else keyName @ '' ('' @ app @ '')'')
      else app)"

section \<open>Lemmas\<close>

lemma label_of_mark:
  "s \<noteq> [] \<Longrightarrow> l \<noteq> [] \<Longrightarrow> activityLabel now' s w (activityMark now s l r) =
     (if time_sub now' now > w then [] else l)"
  by (simp add: activityLabel_def activityMark_def)

lemma label_of_other: "s \<noteq> s' \<Longrightarrow> activityLabel now' s w (activityMark now s' l r) = activityLabel now' s w r"
  by (simp add: activityLabel_def activityMark_def)

lemma label_needs_name: "keyName \<noteq> [] \<Longrightarrow> deriveLabel keyName ua \<noteq> []"
  by (auto simp: deriveLabel_def Let_def)

end
