(* ===== verification/Router_State.thy ===== *)
theory Router_State
  imports Router_Resolve Activity
begin

text \<open>
  The state a request of the router runs in: the world behind the interfaces, the failure windows
  of the slots (\<open>recordSlotError\<close>, \<open>SlotErrorCount\<close> of \<open>router.go\<close>), the consumer marks, the audit
  rows, and, as a history of the calls, the scheduler requests and the upstream requests made.
  A time stamp is in seconds, as \<open>Unix()\<close> gives it.  The alert that reads the windows is
  \<open>collectSlotErrorAlerts\<close> of the collector.
\<close>

section \<open>Failure windows\<close>

record slot_errors =
  se_at :: "int list"
  se_total :: nat

type_synonym error_windows = "int \<Rightarrow> slot_errors option"

definition maxSlotsErrorWindow :: nat where
  "maxSlotsErrorWindow = 12"

definition windowOf :: "int \<Rightarrow> error_windows \<Rightarrow> slot_errors" where
  "windowOf port es = (case es port of None \<Rightarrow> \<lparr>se_at = [], se_total = 0\<rparr> | Some e \<Rightarrow> e)"

definition recordSlotError :: "int \<Rightarrow> int \<Rightarrow> error_windows \<Rightarrow> error_windows" where
  "recordSlotError now port es =
     (if port = 0 then es
      else
        (let e = windowOf port es; ats = se_at e @ [now] in
         es(port \<mapsto> \<lparr>se_at = (if length ats > maxSlotsErrorWindow
                               then drop (length ats - maxSlotsErrorWindow) ats else ats),
                     se_total = se_total e + 1\<rparr>)))"

definition slotErrorCount :: "int \<Rightarrow> int \<Rightarrow> int \<Rightarrow> error_windows \<Rightarrow> (nat \<times> nat) \<times> error_windows" where
  "slotErrorCount now port windowSeconds es =
     (case es port of None \<Rightarrow> ((0, 0), es)
      | Some e \<Rightarrow>
        if windowSeconds \<le> 0 then ((length (se_at e), se_total e), es)
        else
          (let keep = filter (\<lambda>ts. ts \<ge> now - windowSeconds) (se_at e) in
           ((length keep, se_total e), es(port \<mapsto> e\<lparr>se_at := keep\<rparr>))))"

text \<open>The ports of the slots in \<open>SLOT_ERROR_STORM\<close>.\<close>

fun collectSlotErrorAlerts :: "int \<Rightarrow> int list \<Rightarrow> error_windows \<Rightarrow> int list \<times> error_windows" where
  "collectSlotErrorAlerts now [] es = ([], es)"
| "collectSlotErrorAlerts now (p # ps) es =
     (let ((n, total), es1) = slotErrorCount now p 60 es;
          (alerts, es2) = collectSlotErrorAlerts now ps es1
      in (if n \<ge> 3 then p # alerts else alerts, es2))"

section \<open>The state of a request\<close>

datatype attempt =
    AtLoadFailed string string
  | AtSkip string gate_reason
  | AtResolveError string resolve_error
  | AtURLError string
  | AtOk string
  | AtOkBypassed string
  | At4xx string nat
  | At5xx string nat
  | AtBypassing string
  | AtError string

datatype layer = NoLayer | LayerCompressor | LayerBackend

record chain_label =
  cl_attempts :: "attempt list"
  cl_lastLayer :: layer

definition noAttempts :: chain_label where
  "noAttempts = \<lparr>cl_attempts = [], cl_lastLayer = NoLayer\<rparr>"

definition addAttempt :: "attempt \<Rightarrow> chain_label \<Rightarrow> chain_label" where
  "addAttempt a cl = cl\<lparr>cl_attempts := cl_attempts cl @ [a]\<rparr>"

definition setLayer :: "layer \<Rightarrow> chain_label \<Rightarrow> chain_label" where
  "setLayer l cl = cl\<lparr>cl_lastLayer := l\<rparr>"

text \<open>An audit row: the model, the result, the attempts and the substitution disclosed.\<close>

record audit_row =
  ar_model :: string
  ar_ok :: bool
  ar_attempts :: "attempt list"
  ar_substitution :: "(string \<times> string) option"

record 'w router_state =
  st_world :: 'w
  st_errors :: error_windows
  st_activity :: activity
  st_audit :: "audit_row list"
  st_loads :: "ensure_request list"
  st_sent :: "upstream_request list"

definition on_world :: "('w \<Rightarrow> 'a \<times> 'w) \<Rightarrow> 'w router_state \<Rightarrow> 'a \<times> 'w router_state" where
  "on_world f st = (let (x, w) = f (st_world st) in (x, st\<lparr>st_world := w\<rparr>))"

definition loadRequest :: "model \<Rightarrow> string \<Rightarrow> slot \<Rightarrow> ensure_request" where
  "loadRequest m by target = \<lparr>er_model = m, er_requestedBy = by, er_targetSlot = target,
     er_smallJob = False, er_priority = 0\<rparr>"

definition askLoad :: "'w router_server \<Rightarrow> ensure_request \<Rightarrow> 'w router_state \<Rightarrow> (string + ticket) \<times> 'w router_state" where
  "askLoad s r st =
     (let (x, st1) = on_world (rw_ensureLoaded (rs_ops s) r) st in (x, st1\<lparr>st_loads := st_loads st @ [r]\<rparr>))"

text \<open>The error text of a load that did not succeed, or the slot it went to.\<close>

definition loadResult :: "string + ticket \<Rightarrow> string + slot" where
  "loadResult x = (case x of Inl e \<Rightarrow> Inl e
     | Inr t \<Rightarrow> if tk_status t = StatusFailed then Inl ''load failed'' else Inr (tk_targetSlot t))"

section \<open>Lemmas\<close>

lemma on_world_keeps [simp]:
  "st_loads (snd (on_world f st)) = st_loads st" "st_sent (snd (on_world f st)) = st_sent st"
  "st_audit (snd (on_world f st)) = st_audit st" "st_errors (snd (on_world f st)) = st_errors st"
  "st_activity (snd (on_world f st)) = st_activity st"
  by (simp_all add: on_world_def Let_def split: prod.splits)

lemma on_world_res: "on_world f st = (x, st') \<Longrightarrow> \<exists>w. f (st_world st) = (x, w) \<and> st' = st\<lparr>st_world := w\<rparr>"
  by (auto simp: on_world_def split: prod.splits)

lemma askLoad_res:
  "askLoad s r st = (x, st') \<Longrightarrow>
   st_loads st' = st_loads st @ [r] \<and> st_sent st' = st_sent st \<and> st_audit st' = st_audit st
   \<and> st_errors st' = st_errors st"
  by (auto simp: askLoad_def on_world_def split: prod.splits)

lemma loadResult_Inr: "loadResult x = Inr sl \<Longrightarrow> \<exists>t. x = Inr t \<and> tk_status t \<noteq> StatusFailed \<and> tk_targetSlot t = sl"
  by (auto simp: loadResult_def split: sum.splits if_splits)

text \<open>A window keeps the last twelve failures in the order they came.\<close>

definition windows_ok :: "error_windows \<Rightarrow> bool" where
  "windows_ok es \<longleftrightarrow> (\<forall>p e. es p = Some e \<longrightarrow> p \<noteq> 0 \<and> length (se_at e) \<le> maxSlotsErrorWindow
     \<and> length (se_at e) \<le> se_total e)"

lemma windows_start: "windows_ok Map.empty"
  by (simp add: windows_ok_def)

lemma windowOf_ok: "windows_ok es \<Longrightarrow> length (se_at (windowOf p es)) \<le> maxSlotsErrorWindow
    \<and> length (se_at (windowOf p es)) \<le> se_total (windowOf p es)"
  by (auto simp: windowOf_def windows_ok_def split: option.splits)

lemma windows_record: "windows_ok es \<Longrightarrow> windows_ok (recordSlotError now port es)"
  using windowOf_ok [of es port] by (auto simp: recordSlotError_def windows_ok_def Let_def)

lemma windows_count: "windows_ok es \<Longrightarrow> windows_ok (snd (slotErrorCount now port w es))"
  by (cases "es port")
     (auto simp: windows_ok_def slotErrorCount_def Let_def split: if_splits intro!: order_trans [OF length_filter_le])

lemma record_twice_counts:
  "port \<noteq> 0 \<Longrightarrow> es port = None \<Longrightarrow> 0 < w \<Longrightarrow>
   fst (slotErrorCount now port w (recordSlotError now port (recordSlotError now port es))) = (2, 2)"
  by (simp add: recordSlotError_def slotErrorCount_def windowOf_def maxSlotsErrorWindow_def)

text \<open>With no window the first number is not the lifetime count but at most twelve.\<close>

lemma lifetime_count_capped:
  "windows_ok es \<Longrightarrow> fst (fst (slotErrorCount now port 0 es)) \<le> 12"
  by (auto simp: slotErrorCount_def windows_ok_def maxSlotsErrorWindow_def split: option.splits)

end
