(* ===== verification/Router_Subst.thy ===== *)
theory Router_Subst
  imports Router_State
begin

text \<open>
  Local models: the resolution of a requested name to a configuration of the catalog, an alias or
  a virtual model (\<open>catalogChain\<close> of \<open>routing.go\<close>, \<open>virtual_models.go\<close>), what a configuration can
  deliver (\<open>store/modalities.go\<close>) and the substitution of a loaded peer of the same capability
  tier (\<open>capability_substitution.go\<close>).

  \<open>horizon\<close> is the time left until the deadline of the load, as read when the
  scheduler is probed.  \<open>sort.Slice\<close> is the stable sort, which it is on short lists.
\<close>

section \<open>Modalities\<close>

record modality_resolution =
  mr_enabled :: "string list"
  mr_unavailable :: "string list"
  mr_reason :: string

definition nonTextModalities :: "string list \<Rightarrow> string list" where
  "nonTextModalities ms = filter (\<lambda>m. m \<noteq> ''text'') ms"

definition newTextOnlyResolution :: "string list \<Rightarrow> string \<Rightarrow> modality_resolution" where
  "newTextOnlyResolution gaps reason =
     (if gaps = [] then \<lparr>mr_enabled = [''text''], mr_unavailable = [], mr_reason = []\<rparr>
      else \<lparr>mr_enabled = [''text''], mr_unavailable = gaps, mr_reason = reason\<rparr>)"

definition resolveModalities :: "model_config \<Rightarrow> string list \<Rightarrow> bool \<Rightarrow> modality_resolution" where
  "resolveModalities c mdl mmprojMissing =
     (case mc_modalities c of
        Some ms \<Rightarrow> \<lparr>mr_enabled = ''text'' # nonTextModalities ms, mr_unavailable = [], mr_reason = []\<rparr>
      | None \<Rightarrow>
        if mc_mmprojArtifactID c = 0 then newTextOnlyResolution (nonTextModalities mdl) ''no mmproj linked''
        else if mmprojMissing then newTextOnlyResolution (nonTextModalities mdl) ''mmproj file missing on disk''
        else \<lparr>mr_enabled = ''text'' # nonTextModalities mdl, mr_unavailable = [], mr_reason = []\<rparr>)"

definition resolveConfigModalities :: "catalog \<Rightarrow> model_config \<Rightarrow> modality_resolution option" where
  "resolveConfigModalities cat c =
     (case found (ct_variantModel cat (mc_variantID c)) of None \<Rightarrow> None
      | Some mid \<Rightarrow>
        (case found (ct_modelModalities cat mid) of None \<Rightarrow> None
         | Some ms \<Rightarrow>
           if mc_mmprojArtifactID c \<noteq> 0 then
             (case found (ct_artifact cat (mc_mmprojArtifactID c)) of None \<Rightarrow> None
              | Some a \<Rightarrow> Some (resolveModalities c ms (af_missing a)))
           else Some (resolveModalities c ms False)))"

definition modalitiesSuperset :: "catalog \<Rightarrow> model_config \<Rightarrow> model_config \<Rightarrow> bool" where
  "modalitiesSuperset cat want peer =
     (case resolveConfigModalities cat want of None \<Rightarrow> False
      | Some rw \<Rightarrow>
        (case resolveConfigModalities cat peer of None \<Rightarrow> False
         | Some rp \<Rightarrow> list_all (\<lambda>m. m \<in> set (mr_enabled rp)) (mr_enabled rw)))"

section \<open>The gates of a substitution\<close>

definition artifactFilePath :: "catalog \<Rightarrow> int \<Rightarrow> string option" where
  "artifactFilePath cat i = (if i = 0 then Some [] else map_option af_path (found (ct_artifact cat i)))"

definition sameWeights :: "catalog \<Rightarrow> model_config \<Rightarrow> model_config \<Rightarrow> bool" where
  "sameWeights cat a b =
     (if mc_weightArtifactID a = 0 \<or> mc_weightArtifactID b = 0 then False
      else (case (artifactFilePath cat (mc_weightArtifactID a), artifactFilePath cat (mc_weightArtifactID b)) of
          (Some af, Some bf) \<Rightarrow>
            if af = [] \<or> bf = [] \<or> af \<noteq> bf then False
            else (case (artifactFilePath cat (mc_mmprojArtifactID a), artifactFilePath cat (mc_mmprojArtifactID b)) of
                (Some am, Some bm) \<Rightarrow> am = bm | _ \<Rightarrow> False)
        | _ \<Rightarrow> False))"

definition substitutionAllowed :: "catalog \<Rightarrow> model_config \<Rightarrow> model_config \<Rightarrow> bool" where
  "substitutionAllowed cat want peer =
     (if mc_visibility peer = ''hidden'' then False
      else if mc_nctx peer < mc_nctx want then False
      else if sameWeights cat want peer then False
      else modalitiesSuperset cat want peer)"

section \<open>Choosing a substitute\<close>

datatype sub_policy = SubOff | FallbackOnly | PreferSmarter

definition policyName :: "sub_policy \<Rightarrow> string" where
  "policyName p = (case p of SubOff \<Rightarrow> ''off'' | FallbackOnly \<Rightarrow> ''fallback_only'' | PreferSmarter \<Rightarrow> ''prefer_smarter'')"

definition parseSubstitutionPolicy :: "string \<Rightarrow> sub_policy" where
  "parseSubstitutionPolicy raw =
     (if raw = ''fallback_only'' then FallbackOnly else if raw = ''prefer_smarter'' then PreferSmarter else SubOff)"

definition substitutionPolicy :: "'w router_server \<Rightarrow> int \<Rightarrow> sub_policy" where
  "substitutionPolicy s tierID =
     (let global = (case stringSetting s ''router.capability_substitution'' of
            Some v \<Rightarrow> parseSubstitutionPolicy v | None \<Rightarrow> SubOff) in
      case rs_catalog s of None \<Rightarrow> global
      | Some cat \<Rightarrow>
        if tierID = 0 then global
        else (case ct_tierMode cat tierID of
                Found mode \<Rightarrow> if mode \<noteq> [] then parseSubstitutionPolicy mode else global
              | _ \<Rightarrow> global))"

text \<open>The map from a loaded model to its slot: a later entry overwrites an earlier one.\<close>

definition loadedSlots :: "(slot \<times> model) list \<Rightarrow> model \<Rightarrow> slot option" where
  "loadedSlots xs m = map_of (rev (map (\<lambda>(sl, md). (md, sl)) (filter (\<lambda>e. snd e \<noteq> []) xs))) m"

definition peerSupportsTools :: "'w router_server \<Rightarrow> slot \<Rightarrow> 'w \<Rightarrow> bool \<times> 'w" where
  "peerSupportsTools s sl w =
     (let port = slotPort s sl in
      if port = 0 then (False, w)
      else (let (pr, w1) = rw_probe (rs_ops s) port (healthTTL (server_cfg s)) w in (sp_supportsTools pr, w1)))"

fun gatherPeers ::
    "'w router_server \<Rightarrow> catalog \<Rightarrow> model_config \<Rightarrow> bool \<Rightarrow> (model \<Rightarrow> slot option) \<Rightarrow> model_config list \<Rightarrow> 'w
     \<Rightarrow> (model_config \<times> slot) list \<times> 'w" where
  "gatherPeers s cat want tools loaded [] w = ([], w)"
| "gatherPeers s cat want tools loaded (p # ps) w =
     (case (if mc_id p = mc_id want then None else loaded (mc_name p)) of
        None \<Rightarrow> gatherPeers s cat want tools loaded ps w
      | Some sl \<Rightarrow>
        if \<not> substitutionAllowed cat want p then gatherPeers s cat want tools loaded ps w
        else
          (let (ok, w1) = (if tools then peerSupportsTools s sl w else (True, w));
               (rest, w2) = gatherPeers s cat want tools loaded ps w1
           in (if ok then (p, sl) # rest else rest, w2)))"

definition capabilityTierCandidates ::
    "'w router_server \<Rightarrow> model_config \<Rightarrow> body \<Rightarrow> 'w \<Rightarrow> (model_config \<times> slot) list \<times> 'w" where
  "capabilityTierCandidates s want b w =
     (if mc_tierID want = 0 \<or> hasResponseFormat b then ([], w)
      else case rs_catalog s of None \<Rightarrow> ([], w)
      | Some cat \<Rightarrow>
        if \<not> rs_sched s then ([], w)
        else (case ct_tierConfigs cat (mc_tierID want) of Inl e \<Rightarrow> ([], w)
              | Inr peers \<Rightarrow>
                  gatherPeers s cat want (hasToolFields b) (loadedSlots (rw_slots (rs_ops s) w)) peers w))"

definition smarterReason :: "model_config \<Rightarrow> model_config \<Rightarrow> string" where
  "smarterReason c want = ''capability-tier substitution (prefer_smarter): '' @ mc_name c @ '' (rank ''
     @ itoa (mc_rank c) @ '') already loaded and outranks requested '' @ mc_name want @ '' (rank ''
     @ itoa (mc_rank want) @ '')''"

definition fallbackReason :: "model_config \<Rightarrow> model_config \<Rightarrow> string" where
  "fallbackReason c want = ''capability-tier substitution (fallback_only): '' @ mc_name c
     @ '' substituted for '' @ mc_name want @ [CHR '' '', CHR 0xE2, CHR 0x80, CHR 0x94]
     @ '' not feasible to load right now''"

definition decideSubstitute ::
    "sub_policy \<Rightarrow> model_config \<Rightarrow> (model_config \<times> slot) list \<Rightarrow> bool \<Rightarrow> (model_config \<times> string) option" where
  "decideSubstitute policy want candidates wantTerminal =
     (case policy of
        PreferSmarter \<Rightarrow> map_option (\<lambda>c. (fst c, smarterReason (fst c) want))
          (find (\<lambda>c. mc_rank (fst c) < mc_rank want) candidates)
      | FallbackOnly \<Rightarrow>
          if \<not> wantTerminal then None
          else map_option (\<lambda>c. (fst c, fallbackReason (fst c) want))
            (find (\<lambda>c. mc_rank (fst c) \<le> mc_rank want) candidates)
      | SubOff \<Rightarrow> None)"

definition slotBackend :: "model_config \<Rightarrow> model \<Rightarrow> int \<Rightarrow> string \<Rightarrow> string \<Rightarrow> backend" where
  "slotBackend c n port mode why = \<lparr>bk_name = n, bk_kind = ''foundry_slot'', bk_port = port, bk_baseURL = [],
     bk_wireModel = [], bk_credential = [], bk_prices = noPrices, bk_subMode = mode, bk_subReason = why,
     bk_effortDefault = mc_effortDefault c, bk_caps = effectiveCaps c\<rparr>"

definition loadSubstitute ::
    "'w router_server \<Rightarrow> model_config \<Rightarrow> string \<Rightarrow> string \<Rightarrow> string \<Rightarrow> 'w router_state
     \<Rightarrow> backend option \<times> 'w router_state" where
  "loadSubstitute s sub by policy why st =
     (let (x, st1) = askLoad s (loadRequest (mc_name sub) by []) st in
      (case loadResult x of Inl e \<Rightarrow> None
       | Inr sl \<Rightarrow> if slotPort s sl = 0 then None
                   else Some (slotBackend sub (mc_name sub) (slotPort s sl) policy why), st1))"

definition trySubstitute ::
    "'w router_server \<Rightarrow> duration \<Rightarrow> model_config \<Rightarrow> body \<Rightarrow> string \<Rightarrow> 'w router_state
     \<Rightarrow> backend option \<times> 'w router_state" where
  "trySubstitute s horizon want b by st =
     (if \<not> rs_sched s then (None, st)
      else
        (let policy = substitutionPolicy s (mc_tierID want) in
         if policy = SubOff then (None, st)
         else
           (let (cands, st1) = on_world (capabilityTierCandidates s want b) st in
            if cands = [] then (None, st1)
            else
              (let (probe, st2) = (if policy = FallbackOnly
                     then on_world (rw_couldLoad (rs_ops s) (mc_name want) horizon) st1
                     else (Inr (placed [] [] False), st1)) in
               case probe of Inl e \<Rightarrow> (None, st2)
               | Inr pl \<Rightarrow>
                 (case decideSubstitute policy want cands (pl_terminal pl) of None \<Rightarrow> (None, st2)
                  | Some (sub, why) \<Rightarrow> loadSubstitute s sub by (policyName policy) why st2)))))"

definition trySubstituteAfterFailure ::
    "'w router_server \<Rightarrow> model_config \<Rightarrow> body \<Rightarrow> 'w router_state \<Rightarrow> backend option \<times> 'w router_state" where
  "trySubstituteAfterFailure s want b st =
     (let policy = substitutionPolicy s (mc_tierID want) in
      if policy = SubOff then (None, st)
      else
        (let (cands, st1) = on_world (capabilityTierCandidates s want b) st in
         if cands = [] then (None, st1)
         else (case decideSubstitute FallbackOnly want cands True of None \<Rightarrow> (None, st1)
               | Some (sub, why) \<Rightarrow> loadSubstitute s sub [] (policyName policy) why st1)))"

section \<open>Virtual models\<close>

definition capabilityTierVirtualCandidates :: "catalog \<Rightarrow> virtual_model \<Rightarrow> model_config list" where
  "capabilityTierVirtualCandidates cat vm =
     (if vm_tierID vm = 0 then []
      else (case ct_tierConfigs cat (vm_tierID vm) of Inl e \<Rightarrow> []
            | Inr ms \<Rightarrow> sort_key mc_rank (filter (\<lambda>m. mc_visibility m \<noteq> ''hidden'') ms)))"

definition measuredConfig :: "catalog \<Rightarrow> config_card \<Rightarrow> (model_config \<times> rat) option" where
  "measuredConfig cat c =
     (case cd_measuredTS c of None \<Rightarrow> None
      | Some ts \<Rightarrow> if cd_visibility c = ''hidden'' then None
          else map_option (\<lambda>m. (m, ts)) (found (ct_getConfig cat (cd_id c))))"

definition throughputVirtualCandidates :: "'w router_server \<Rightarrow> catalog \<Rightarrow> model_config list" where
  "throughputVirtualCandidates s cat =
     (case rs_cards s of None \<Rightarrow> []
      | Some cards \<Rightarrow> map fst (sort_key (\<lambda>r. - snd r) (List.map_filter (measuredConfig cat) cards)))"

definition resolveVirtualModel :: "'w router_server \<Rightarrow> string \<Rightarrow> 'w \<Rightarrow> model_config option" where
  "resolveVirtualModel s n w =
     (case rs_catalog s of None \<Rightarrow> None
      | Some cat \<Rightarrow>
        (case found (ct_virtualByName cat n) of None \<Rightarrow> None
         | Some vm \<Rightarrow>
           if vm_visibility vm = ''hidden'' then None
           else
             (let cands = (if vm_kind vm = ''capability_tier'' then capabilityTierVirtualCandidates cat vm
                           else if vm_kind vm = ''throughput'' then throughputVirtualCandidates s cat else []) in
              case cands of [] \<Rightarrow> None
              | c0 # cs \<Rightarrow>
                (case (if rs_sched s then find (\<lambda>c. mc_name c \<noteq> [] \<and> mc_name c \<in> snd ` set (rw_slots (rs_ops s) w)) cands
                       else None) of
                   Some c \<Rightarrow> Some c | None \<Rightarrow> Some c0))))"

section \<open>The chain of a local model\<close>

datatype catalog_error =
    ConfigLookupFailed string
  | AliasTargetFailed string string
  | SchedulerNotWired
  | LoadError string
  | NoPort slot

datatype catalog_result =
    CatNotHandled
  | CatFailed catalog_error refusal_reason
  | CatChain "backend list"

datatype resolution =
    Unknown body
  | ResolveFailed catalog_error
  | Resolved model_config model body

text \<open>The name to load is the configuration's own, or the requested one when it names it.\<close>

definition fetchError :: "'a fetched \<Rightarrow> string" where
  "fetchError x = (case x of Failed e \<Rightarrow> e | NotFound \<Rightarrow> ''not found'' | Found y \<Rightarrow> [])"

definition resolveName :: "'w router_server \<Rightarrow> catalog \<Rightarrow> string \<Rightarrow> body \<Rightarrow> 'w \<Rightarrow> resolution" where
  "resolveName s cat m b w =
     (let visible = (\<lambda>c n b'. if mc_visibility c = ''hidden'' then Unknown b' else Resolved c n b') in
      case ct_configByName cat m of
        Found c \<Rightarrow> visible c m b
      | Failed e \<Rightarrow> ResolveFailed (ConfigLookupFailed e)
      | NotFound \<Rightarrow>
        (case found (ct_aliasByName cat m) of
           Some a \<Rightarrow>
             if ma_visibility a = ''hidden'' then Unknown b
             else (case ct_getConfig cat (ma_configID a) of
                     Found c \<Rightarrow> visible c (mc_name c) (mergeForcedDefaults b (ma_defaults a))
                   | x \<Rightarrow> ResolveFailed (AliasTargetFailed m (fetchError x)))
         | None \<Rightarrow>
           (case resolveVirtualModel s m w of
              Some c \<Rightarrow> visible c (mc_name c) b
            | None \<Rightarrow> Unknown b)))"

definition loadChain ::
    "'w router_server \<Rightarrow> duration \<Rightarrow> model_config \<Rightarrow> model \<Rightarrow> body \<Rightarrow> string \<Rightarrow> 'w router_state
     \<Rightarrow> catalog_result \<times> 'w router_state" where
  "loadChain s horizon c n b by st =
     (let (sub, st1) = trySubstitute s horizon c b by st in
      case sub of Some bk \<Rightarrow> (CatChain [bk], st1)
      | None \<Rightarrow>
        (let (x, st2) = askLoad s (loadRequest n by []) st1 in
         case loadResult x of
           Inl e \<Rightarrow>
             (let (sub2, st3) = trySubstituteAfterFailure s c b st2 in
              case sub2 of Some bk \<Rightarrow> (CatChain [bk], st3)
              | None \<Rightarrow> (CatFailed (LoadError e) (rw_loadReason (rs_ops s) n (st_world st3)), st3))
         | Inr sl \<Rightarrow>
             if slotPort s sl = 0 then (CatFailed (NoPort sl) NoReason, st2)
             else (CatChain [slotBackend c n (slotPort s sl) [] []], st2)))"

definition catalogChain ::
    "'w router_server \<Rightarrow> duration \<Rightarrow> string \<Rightarrow> string \<Rightarrow> body \<Rightarrow> 'w router_state
     \<Rightarrow> catalog_result \<times> body \<times> 'w router_state" where
  "catalogChain s horizon m by b st =
     (case rs_catalog s of None \<Rightarrow> (CatNotHandled, b, st)
      | Some cat \<Rightarrow>
        (case resolveName s cat m b (st_world st) of
           Unknown b' \<Rightarrow> (CatNotHandled, b', st)
         | ResolveFailed e \<Rightarrow> (CatFailed e NoReason, b, st)
         | Resolved c n b' \<Rightarrow>
             if \<not> rs_sched s then (CatFailed SchedulerNotWired NoReason, b', st)
             else (let (r, st1) = loadChain s horizon c n b' by st in (r, b', st1))))"

end
