(* ===== verification/Router_Proxy.thy ===== *)
theory Router_Proxy
  imports Router_Subst Auth_Http
begin

text \<open>
  The request path of \<open>POST /v1/chat/completions\<close> (\<open>proxy.go\<close>): admission, validation of the body,
  resolution, and the walk along the chain of backends with its gate, its on-demand load, the
  bypass of an unreachable compressor and the classification of failures.

  One attempt of \<open>httputil.ReverseProxy\<close> is the call \<open>rw_send\<close>: it ends in a transport error or in
  an answer's status with the two headers the code looks at.  An answer below 500 is committed: its
  bytes go to the client and nothing is retried.  The client's headers are the fields \<open>rq_header\<close>;
  a header is forwarded when it is not empty.  Bytes of a body that cannot be read are an
  \<open>inbound_body\<close> of its own.
\<close>

section \<open>Admission\<close>

definition anonymous :: identity where
  "anonymous = \<lparr>id_name = [], id_role = [], id_keyID = [], id_kind = [], id_display = [],
     id_assurance = [], id_assuranceAt = 0, id_principal = []\<rparr>"

definition checkAuth ::
    "auth_env \<Rightarrow> time \<Rightarrow> http_request \<Rightarrow> authorizer option \<Rightarrow> identity option \<times> authorizer option" where
  "checkAuth env now r auth =
     (let peer = ev_parseAddr env (rq_peer r); xff = rq_header r ''X-Forwarded-For'';
          eff = map_option (\<lambda>a. effectiveRemoteAddr (ev_parseAddr env) a xff) peer;
          ip = (case eff of None \<Rightarrow> ''invalid IP'' | Some a \<Rightarrow> ev_addrString env a);
          header = rq_header r ''Authorization''
      in if (case eff of None \<Rightarrow> False | Some a \<Rightarrow> isTailnetAddr a) then (Some anonymous, auth)
         else if (case peer of None \<Rightarrow> False | Some a \<Rightarrow> isLoopback a) \<and> xff = []
           then (Some (anonymous\<lparr>id_name := ''loopback''\<rparr>), auth)
         else (case auth of None \<Rightarrow> (None, None)
           | Some a \<Rightarrow>
             if \<not> has_prefix ''Bearer '' header then (None, auth)
             else
               (let (res, a1) = verifyBearerFrom (ev_verify env) now ip (drop 7 header) ''router'' a
                in (case res of Inl e \<Rightarrow> None | Inr i \<Rightarrow> Some i, Some a1))))"

definition requestedBy :: "http_request \<Rightarrow> string" where
  "requestedBy r = (let v = rq_header r ''X-Forge-Requested-By'' in if v \<noteq> [] then v else ''a0'')"

definition consumerLabel :: "auth_env \<Rightarrow> http_request \<Rightarrow> identity \<Rightarrow> string" where
  "consumerLabel env r i =
     (if requestedBy r = ''smith'' then []
      else if id_display i \<noteq> [] then id_display i
      else if id_name i \<noteq> [] then deriveLabel (id_name i) (rq_header r ''User-Agent'')
      else (case ev_parseAddr env (rq_peer r) of None \<Rightarrow> ''invalid IP''
            | Some a \<Rightarrow> ev_addrString env
                (effectiveRemoteAddr (ev_parseAddr env) a (rq_header r ''X-Forwarded-For''))))"

section \<open>Answers\<close>

datatype chat_answer =
    ChatRefused nat string
  | CatalogLoadFailed string catalog_error refusal_reason
  | OfferingResolveFailed string chain_error
  | AllUnavailable string layer
  | Relayed backend nat

datatype message_kind = MsgNoVRAM | MsgCompressorDown | MsgUnavailable

definition unavailableMessage :: "layer \<Rightarrow> message_kind" where
  "unavailableMessage l = (case l of LayerCompressor \<Rightarrow> MsgCompressorDown | _ \<Rightarrow> MsgUnavailable)"

definition unavailableMessageFor :: "layer \<Rightarrow> string \<Rightarrow> message_kind" where
  "unavailableMessageFor l detail =
     (if contains ''not enough VRAM'' detail then MsgNoVRAM else unavailableMessage l)"

section \<open>One attempt\<close>

text \<open>The request that goes upstream.\<close>

definition headerOpt :: "http_request \<Rightarrow> string \<Rightarrow> string option" where
  "headerOpt r h = (if rq_header r h = [] then None else Some (rq_header r h))"

definition rewriteRequest ::
    "http_request \<Rightarrow> resolved_backend \<Rightarrow> body \<Rightarrow> string \<Rightarrow> bool \<Rightarrow> upstream_request" where
  "rewriteRequest r rb b target bypass =
     (let override = (if bypass then [] else rb_upstreamOverride rb) in
      \<lparr>ur_url = target @ ''/chat/completions'',
       ur_authorization = (if rb_apiKey rb \<noteq> [] then Some (''Bearer '' @ rb_apiKey rb)
                           else headerOpt r ''Authorization''),
       ur_compressBase = (if override \<noteq> [] then Some override else None),
       ur_body = b\<rparr>)"

definition send :: "'w router_server \<Rightarrow> upstream_request \<Rightarrow> 'w router_state \<Rightarrow> upstream_answer \<times> 'w router_state" where
  "send s u st =
     (let (x, st1) = on_world (rw_send (rs_ops s) u) st in (x, st1\<lparr>st_sent := st_sent st @ [u]\<rparr>))"

text \<open>What a request carries along the chain: its clock, url parser and the client's request.\<close>

record chat_context =
  cx_request :: http_request
  cx_model :: string
  cx_label :: string
  cx_now :: time
  cx_parsesURL :: "string \<Rightarrow> bool"

definition slotError :: "chat_context \<Rightarrow> backend \<Rightarrow> 'w router_state \<Rightarrow> 'w router_state" where
  "slotError cx b st =
     (if bk_kind b = ''foundry_slot''
      then st\<lparr>st_errors := recordSlotError (cx_now cx div nanos_per_second) (bk_port b) (st_errors st)\<rparr> else st)"

definition markSlot :: "chat_context \<Rightarrow> slot \<Rightarrow> 'w router_state \<Rightarrow> 'w router_state" where
  "markSlot cx sl st = st\<lparr>st_activity := activityMark (cx_now cx) sl (cx_label cx) (st_activity st)\<rparr>"

definition auditOk :: "chat_context \<Rightarrow> backend \<Rightarrow> chain_label \<Rightarrow> 'w router_state \<Rightarrow> 'w router_state" where
  "auditOk cx b cl st = st\<lparr>st_audit := st_audit st @ [\<lparr>ar_model = cx_model cx, ar_ok = True,
     ar_attempts = cl_attempts cl,
     ar_substitution = (if bk_subMode b \<noteq> [] then Some (bk_name b, bk_subMode b) else None)\<rparr>]\<rparr>"

definition failureLayer :: "bool \<Rightarrow> bool \<Rightarrow> bool \<Rightarrow> bool \<Rightarrow> chain_label \<Rightarrow> chain_label" where
  "failureLayer bypass fronted reached err cl =
     (if \<not> bypass \<and> fronted \<and> err then setLayer LayerCompressor cl
      else if \<not> bypass \<and> fronted \<and> reached then setLayer LayerBackend cl
      else if \<not> bypass \<and> fronted then cl
      else setLayer LayerBackend cl)"

text \<open>
  How an attempt leaves its error handler: with a committed status, with a retry against the real
  upstream, or on to the next backend.
\<close>

datatype attempt_end = Committed nat | Bypass | NextBackend

text \<open>
  The error handler is given the request as it went out, and the next attempt starts from that
  request: the headers that \<open>Rewrite\<close> set are the client's headers of the next attempt.  Of these
  only \<open>Authorization\<close> is not set or deleted again in every attempt.
\<close>

definition outgoing :: "upstream_request \<Rightarrow> chat_context \<Rightarrow> chat_context" where
  "outgoing u cx = cx\<lparr>cx_request := (cx_request cx)\<lparr>rq_header := (rq_header (cx_request cx))
     (''Authorization'' := (case ur_authorization u of None \<Rightarrow> [] | Some v \<Rightarrow> v))\<rparr>\<rparr>"

definition sendOnce ::
    "'w router_server \<Rightarrow> backend \<Rightarrow> resolved_backend \<Rightarrow> body \<Rightarrow> string \<Rightarrow> bool \<Rightarrow> chat_context \<Rightarrow> chain_label
     \<Rightarrow> 'w router_state \<Rightarrow> attempt_end \<times> chat_context \<times> chain_label \<times> 'w router_state" where
  "sendOnce s b rb mb target bypass cx cl st =
     (if \<not> cx_parsesURL cx (target @ ''/chat/completions'')
      then (NextBackend, cx, addAttempt (AtURLError (bk_name b)) cl, st)
      else
        (let u = rewriteRequest (cx_request cx) rb mb target bypass;
             (x, st1) = send s u st; cx1 = outgoing u cx in
         case x of
           Answered status reached err \<Rightarrow>
             if status \<ge> 500 then
               (NextBackend, cx1,
                addAttempt (At5xx (bk_name b) status)
                  (failureLayer bypass (rb_compressorFronted rb) reached err cl),
                slotError cx b (slotError cx b st1))
             else
               (let cl1 = addAttempt (if status \<ge> 400 then At4xx (bk_name b) status
                      else if bypass then AtOkBypassed (bk_name b) else AtOk (bk_name b)) cl;
                    st2 = (if status < 400 \<and> bk_kind b = ''foundry_slot''
                      then markSlot cx (slotForPort s (probePort b)) st1 else st1)
                in (Committed status, cx1, cl1, auditOk cx b cl1 st2))
         | TransportError \<Rightarrow>
             (let st2 = slotError cx b st1 in
              if \<not> bypass \<and> rb_compressorFronted rb \<and> rb_directURL rb \<noteq> []
              then (Bypass, cx1, addAttempt (AtBypassing (bk_name b)) cl, st2)
              else (NextBackend, cx1,
                setLayer (if \<not> bypass \<and> rb_compressorFronted rb then LayerCompressor else LayerBackend)
                  (addAttempt (AtError (bk_name b)) cl), st2))))"

definition attemptBackend ::
    "'w router_server \<Rightarrow> backend \<Rightarrow> resolved_backend \<Rightarrow> body \<Rightarrow> chat_context \<Rightarrow> chain_label
     \<Rightarrow> 'w router_state \<Rightarrow> nat option \<times> chat_context \<times> chain_label \<times> 'w router_state" where
  "attemptBackend s b rb mb cx cl st =
     (let (e, cx1, cl1, st1) = sendOnce s b rb mb (rb_baseURL rb) False cx cl st in
      case e of Committed n \<Rightarrow> (Some n, cx1, cl1, st1)
      | NextBackend \<Rightarrow> (None, cx1, cl1, st1)
      | Bypass \<Rightarrow>
        (let (e2, cx2, cl2, st2) = sendOnce s b rb mb (rb_directURL rb) True cx1 cl1 st1 in
         (case e2 of Committed n \<Rightarrow> Some n | _ \<Rightarrow> None, cx2, cl2, st2)))"

section \<open>The chain\<close>

definition ensureBackendLoaded ::
    "'w router_server \<Rightarrow> string \<Rightarrow> backend \<Rightarrow> string \<Rightarrow> 'w router_state \<Rightarrow> string option \<times> 'w router_state" where
  "ensureBackendLoaded s m b by st =
     (let target = slotForPort s (probePort b) in
      if \<not> rs_sched s then (Some ''scheduler not wired'', st)
      else if target = [] then (Some (''no slot configured for port '' @ itoa (probePort b)), st)
      else
        (let (x, st1) = askLoad s (loadRequest m by target) st
         in (case loadResult x of Inl e \<Rightarrow> Some e | Inr sl \<Rightarrow> None, st1)))"

text \<open>The gate with the on-demand load: the entry to add when the backend is skipped.\<close>

definition gateBackend ::
    "'w router_server \<Rightarrow> chat_context \<Rightarrow> backend \<Rightarrow> 'w router_state \<Rightarrow> attempt option \<times> 'w router_state" where
  "gateBackend s cx b st =
     (let mode = busyMode s; (reason, st1) = on_world (slotGate s b mode) st in
      if reason = GateUnhealthy \<and> bk_kind b = ''foundry_slot'' then
        (let (e, st2) = ensureBackendLoaded s (cx_model cx) b (requestedBy (cx_request cx)) st1 in
         case e of Some msg \<Rightarrow> (Some (AtLoadFailed (bk_name b) msg), st2)
         | None \<Rightarrow>
           (let (reason2, st3) = on_world (slotGate s b mode) st2
            in (if reason2 = GateOpen then None else Some (AtSkip (bk_name b) reason2), st3)))
      else (if reason = GateOpen then None else Some (AtSkip (bk_name b) reason), st1))"

definition backendBody :: "'w router_server \<Rightarrow> backend \<Rightarrow> resolved_backend \<Rightarrow> body \<Rightarrow> body" where
  "backendBody s b rb bd =
     mutateBody (if bk_kind b = ''remote'' then applyStreamUsageOptions bd (injectStreamUsageEnabled s)
                 else if bk_kind b = ''foundry_slot'' then applyReasoningEffort (bk_effortDefault b) (bk_caps b) bd
                 else bd) (rb_wireModel rb)"

definition tryBackend ::
    "'w router_server \<Rightarrow> body \<Rightarrow> backend \<Rightarrow> chat_context \<Rightarrow> chain_label \<Rightarrow> 'w router_state
     \<Rightarrow> nat option \<times> chat_context \<times> chain_label \<times> 'w router_state" where
  "tryBackend s bd b cx cl st =
     (let (skip, st1) = gateBackend s cx b st in
      case skip of Some a \<Rightarrow> (None, cx, addAttempt a cl, st1)
      | None \<Rightarrow>
        (let (r, st2) = on_world (resolveBackend s b) st1 in
         case r of Inl e \<Rightarrow> (None, cx, addAttempt (AtResolveError (bk_name b) e) cl, st2)
         | Inr rb \<Rightarrow>
           (let st3 = (if bk_kind b = ''foundry_slot'' then markSlot cx (slotForPort s (probePort b)) st2 else st2)
            in attemptBackend s b rb (backendBody s b rb bd) cx cl st3)))"

fun tryBackends ::
    "'w router_server \<Rightarrow> body \<Rightarrow> backend list \<Rightarrow> chat_context \<Rightarrow> chain_label \<Rightarrow> 'w router_state
     \<Rightarrow> chat_answer \<times> 'w router_state" where
  "tryBackends s bd [] cx cl st =
     (AllUnavailable (cx_model cx) (cl_lastLayer cl),
      st\<lparr>st_audit := st_audit st @ [\<lparr>ar_model = cx_model cx, ar_ok = False, ar_attempts = cl_attempts cl,
                                     ar_substitution = None\<rparr>]\<rparr>)"
| "tryBackends s bd (b # bs) cx cl st =
     (let (r, cx1, cl1, st1) = tryBackend s bd b cx cl st in
      case r of Some status \<Rightarrow> (Relayed b status, st1) | None \<Rightarrow> tryBackends s bd bs cx1 cl1 st1)"

section \<open>The handler\<close>

datatype inbound_body = BodyTooLarge | BodyUnreadable | BodyMalformed | BodyDecoded body

definition checkBody :: "inbound_body \<Rightarrow> chat_answer + string \<times> body" where
  "checkBody x =
     (case x of BodyTooLarge \<Rightarrow> Inl (ChatRefused 413 ''request body exceeds 32 MiB limit'')
      | BodyUnreadable \<Rightarrow> Inl (ChatRefused 400 ''invalid request body'')
      | BodyMalformed \<Rightarrow> Inl (ChatRefused 422 ''body'')
      | BodyDecoded b \<Rightarrow>
        (let m = str_field ''model'' b in
         if length m < 1 \<or> length m > 128 then Inl (ChatRefused 422 ''model'')
         else if arr_field ''messages'' b = [] then Inl (ChatRefused 422 ''messages'')
         else Inr (m, b)))"

definition routeChain :: "router_config \<Rightarrow> string \<Rightarrow> backend list option" where
  "routeChain c m =
     (case routeFor m c of None \<Rightarrow> None
      | Some r \<Rightarrow> Some (List.map_filter (\<lambda>n. backendByName n c) (ro_primary r # ro_fallback r)))"

text \<open>The chain of a request, the body it continues with, or its answer.\<close>

definition requestChain ::
    "'w router_server \<Rightarrow> router_config \<Rightarrow> duration \<Rightarrow> string \<Rightarrow> string \<Rightarrow> body \<Rightarrow> 'w router_state
     \<Rightarrow> (chat_answer + backend list \<times> body) \<times> 'w router_state" where
  "requestChain s c horizon m by b st =
     (let (r, b', st1) = catalogChain s horizon m by b st in
      (case r of
         CatChain bs \<Rightarrow> Inr (bs, b')
       | CatFailed e reason \<Rightarrow> Inl (CatalogLoadFailed m e reason)
       | CatNotHandled \<Rightarrow>
         (case offeringChain s m of
            Chain bs \<Rightarrow> Inr (bs, b)
          | ChainFailed e \<Rightarrow> Inl (OfferingResolveFailed m e)
          | NotHandled \<Rightarrow>
            (case routeChain c m of None \<Rightarrow> Inl (ChatRefused 404 ''model_not_found'')
             | Some bs \<Rightarrow> Inr (bs, b))), st1))"

definition chatCompletions ::
    "'w router_server \<Rightarrow> auth_env \<Rightarrow> time \<Rightarrow> (string \<Rightarrow> bool) \<Rightarrow> duration \<Rightarrow> http_request \<Rightarrow> inbound_body
     \<Rightarrow> authorizer option \<Rightarrow> 'w router_state \<Rightarrow> chat_answer \<times> authorizer option \<times> 'w router_state" where
  "chatCompletions s env now parsesURL horizon r raw auth st =
     (let (who, auth1) = checkAuth env now r auth in
      case who of None \<Rightarrow> (ChatRefused 401 ''Authentication required'', auth1, st)
      | Some i \<Rightarrow>
        (case checkBody raw of Inl a \<Rightarrow> (a, auth1, st)
         | Inr (m, b) \<Rightarrow>
           (case rs_config s of None \<Rightarrow> (ChatRefused 503 ''router not configured'', auth1, st)
            | Some c \<Rightarrow>
              (let cx = \<lparr>cx_request = r, cx_model = m, cx_label = consumerLabel env r i, cx_now = now,
                      cx_parsesURL = parsesURL\<rparr>;
                   (ch, st1) = requestChain s c horizon m (requestedBy r) b st in
               case ch of Inl a \<Rightarrow> (a, auth1, st1)
               | Inr (bs, b') \<Rightarrow>
                 if bs = [] then (AllUnavailable m LayerBackend, auth1, st1)
                 else (let (a, st2) = tryBackends s b' bs cx noAttempts st1 in (a, auth1, st2))))))"

end
