(* ===== verification/Router_Sample.thy ===== *)
theory Router_Sample
  imports Router_Proxy
begin

text \<open>
  A small router for the instances of the properties: two providers of one model, the first of
  which answers 503, and two local configurations of one tier, the more capable of which is loaded
  in slot a1.
\<close>

definition sample_provider :: "int \<Rightarrow> string \<Rightarrow> string \<Rightarrow> provider_row" where
  "sample_provider i n k = \<lparr>pv_id = i, pv_name = n, pv_apiKey = k, pv_targetURL = ''https://'' @ n,
     pv_enabled = True, pv_peakWindows = \<lparr>ps_tz = [], ps_windows = []\<rparr>\<rparr>"

definition sample_offering :: "int \<Rightarrow> string \<Rightarrow> string \<Rightarrow> offering" where
  "sample_offering i n wire = \<lparr>of_id = i, of_modelID = 7, of_providerID = i, of_providerName = n,
     of_wireModel = wire, of_priceIn = 1, of_priceOut = 2, of_currency = ''USD'', of_contextLength = 0,
     of_enabled = True, of_priority = i, of_priceCachedIn = None, of_priceInPeak = None,
     of_priceOutPeak = None, of_priceCachedInPeak = None\<rparr>"

definition sample_cfg :: "int \<Rightarrow> string \<Rightarrow> int \<Rightarrow> model_config" where
  "sample_cfg i n rank = \<lparr>mc_id = i, mc_name = n, mc_variantID = 1, mc_weightArtifactID = i,
     mc_mmprojArtifactID = 0, mc_nctx = 4096, mc_visibility = ''visible'', mc_modalities = None,
     mc_tierID = 1, mc_rank = rank, mc_caps = Map.empty, mc_capsOverride = Map.empty, mc_effortDefault = []\<rparr>"

definition sample_catalog :: catalog where
  "sample_catalog = \<lparr>
     ct_configByName = (\<lambda>n. if n = ''small'' then Found (sample_cfg 1 ''small'' 2) else NotFound),
     ct_getConfig = (\<lambda>i. NotFound), ct_aliasByName = (\<lambda>n. NotFound), ct_virtualByName = (\<lambda>n. NotFound),
     ct_tierMode = (\<lambda>i. Found ''prefer_smarter''),
     ct_tierConfigs = (\<lambda>i. Inr [sample_cfg 2 ''big'' 1, sample_cfg 1 ''small'' 2]),
     ct_artifact = (\<lambda>i. Found \<lparr>af_path = (if i = 1 then ''w1'' else ''w2''), af_missing = False\<rparr>),
     ct_variantModel = (\<lambda>i. Found 1), ct_modelModalities = (\<lambda>i. Found [''text'']),
     ct_offerings = Inr [sample_offering 2 ''beta'' ''glm-b'', sample_offering 1 ''alpha'' ''glm-a'']\<rparr>"

definition sample_upstream :: "string \<Rightarrow> upstream_answer" where
  "sample_upstream u = (if u = ''https://alpha/chat/completions'' then Answered 503 False False
     else Answered 200 False False)"

definition sample_ticket :: ticket where
  "sample_ticket = \<lparr>tk_id = ''t1'', tk_model = ''big'', tk_requestedBy = ''a0'', tk_targetSlot = ''a1'',
     tk_status = StatusLoaded, tk_small = False, tk_enqueuedAt = 0, tk_reason = NoReason,
     tk_message = MsgNone, tk_jumped = 0, tk_priority = 0\<rparr>"

definition sample_world :: "unit world_ops" where
  "sample_world = \<lparr>
     rw_probe = (\<lambda>p ttl w. (\<lparr>sp_healthy = True, sp_nctx = 8192, sp_modelPath = ''/m.gguf'', sp_supportsTools = False\<rparr>, w)),
     rw_isBusy = (\<lambda>p ttl w. (False, w)), rw_ensureLoaded = (\<lambda>r w. (Inr sample_ticket, w)),
     rw_slots = (\<lambda>w. [(''a1'', ''big''), (''a2'', [])]),
     rw_couldLoad = (\<lambda>m h w. (Inr (placed ''a2'' [] False), w)), rw_loadReason = (\<lambda>m w. NoReason),
     rw_send = (\<lambda>u w. (sample_upstream (ur_url u), w))\<rparr>"

definition sample_router :: "string \<Rightarrow> unit router_server" where
  "sample_router betaKey = \<lparr>
     rs_config = Some emptyRouterConfig,
     rs_routing = Some \<lparr>rt_providers = Inr [sample_provider 1 ''alpha'' ''ka'', sample_provider 2 ''beta'' betaKey],
                        rt_proxies = Inr []\<rparr>,
     rs_settings = Some (\<lambda>k. if k = ''router.provider_failover'' then Some (JBool True) else None),
     rs_catalog = Some sample_catalog, rs_sched = True, rs_slots = [(''a1'', 8081), (''a2'', 8082)],
     rs_cards = None, rs_zones = (\<lambda>n. None), rs_ops = sample_world\<rparr>"

definition sample_state :: "unit router_state" where
  "sample_state = \<lparr>st_world = (), st_errors = Map.empty, st_activity = Map.empty, st_audit = [],
     st_loads = [], st_sent = []\<rparr>"

definition tailnet_env :: auth_env where
  "tailnet_env = \<lparr>ev_verify = (\<lambda>h s. None), ev_parseAddr = (\<lambda>s. Some (IP4 0x64400001)),
     ev_addrString = (\<lambda>a. ''100.64.0.1''), ev_whois = (\<lambda>s. None), ev_provider = NoNetworkIdentity,
     ev_stepUpTTL = 0, ev_networkRole = [], ev_mac = (\<lambda>p s. []), ev_pepper = [], ev_hmac = (\<lambda>k m. []),
     ev_base32 = (\<lambda>s. None)\<rparr>"

definition sample_chat :: http_request where
  "sample_chat = \<lparr>rq_method = ''POST'', rq_header = (\<lambda>h. if h = ''Authorization'' then ''Bearer mine'' else []),
     rq_peer = ''100.64.0.1:4711'', rq_cookie = []\<rparr>"

definition sample_body :: "string \<Rightarrow> body" where
  "sample_body m = [''model'' \<mapsto> JStr m, ''messages'' \<mapsto> JArr [JNull], ''temperature'' \<mapsto> JNum ''0.7'']"

definition sample_run :: "string \<Rightarrow> string \<Rightarrow> chat_answer \<times> authorizer option \<times> unit router_state" where
  "sample_run betaKey m =
     chatCompletions (sample_router betaKey) tailnet_env 0 (\<lambda>u. True) 0 sample_chat
       (BodyDecoded (sample_body m)) None sample_state"

lemma sample_admitted: "checkAuth tailnet_env now sample_chat auth = (Some anonymous, auth)"
  by (simp add: checkAuth_def tailnet_env_def sample_chat_def effectiveRemoteAddr_def isLoopback.simps
      isTailnetAddr_def tailnetCGNAT_def Let_def)

definition sample_sent :: "string \<Rightarrow> string \<Rightarrow> upstream_request list" where
  "sample_sent betaKey m = st_sent (snd (snd (sample_run betaKey m)))"

lemma sample_urls:
  "map ur_url (sample_sent ''kb'' ''glm-a'') = [''https://alpha/chat/completions'', ''https://beta/chat/completions'']"
  by code_simp

lemma sample_keys:
  "map ur_authorization (sample_sent ''kb'' ''glm-a'') = [Some ''Bearer ka'', Some ''Bearer kb'']"
  by code_simp

text \<open>
  A failed attempt hands its outgoing request to the next one: when the second provider has no key
  it is sent the key of the first.
\<close>

lemma key_leaks_on_failover:
  "map (\<lambda>u. (ur_url u, ur_authorization u)) (sample_sent [] ''glm-a'') =
     [(''https://alpha/chat/completions'', Some ''Bearer ka''), (''https://beta/chat/completions'', Some ''Bearer ka'')]"
  by code_simp

text \<open>A request for the small model goes to the larger one in slot a1, with the client's token.\<close>

lemma sample_substituted:
  "map (\<lambda>u. (ur_url u, ur_authorization u)) (sample_sent [] ''small'') =
     [(''http://127.0.0.1:8081/v1/chat/completions'', Some ''Bearer mine'')]"
  "st_loads (snd (snd (sample_run [] ''small''))) = [loadRequest ''big'' ''a0'' []]"
  by code_simp+

end
