(* ===== verification/Router_Subst_Props.thy ===== *)
theory Router_Subst_Props
  imports Router_Sample
begin

text \<open>
  What the resolution of a local model guarantees: a substitute passes every gate, whatever the
  operator's policy; a request makes at most three load requests, and only for visible
  configurations; with substitution off the chain is the plain one.
\<close>

section \<open>Candidates and choices\<close>

lemma gatherPeers_mem:
  "(p, sl) \<in> set (fst (gatherPeers s cat want tools loaded ps w)) \<Longrightarrow>
   p \<in> set ps \<and> mc_id p \<noteq> mc_id want \<and> loaded (mc_name p) = Some sl \<and> substitutionAllowed cat want p"
proof (induction ps arbitrary: w)
  case (Cons q ps)
  then show ?case by (fastforce simp: Let_def split_def split: if_splits option.splits)
qed simp

text \<open>A peer that stands in for the wanted configuration.\<close>

definition stands_in :: "catalog \<Rightarrow> model_config \<Rightarrow> model_config \<Rightarrow> bool" where
  "stands_in cat want p \<longleftrightarrow>
     (\<exists>ps. ct_tierConfigs cat (mc_tierID want) = Inr ps \<and> p \<in> set ps) \<and> mc_tierID want \<noteq> 0
     \<and> mc_id p \<noteq> mc_id want \<and> mc_visibility p \<noteq> ''hidden'' \<and> mc_nctx want \<le> mc_nctx p
     \<and> \<not> sameWeights cat want p \<and> modalitiesSuperset cat want p \<and> mc_rank p \<le> mc_rank want"

lemma allowed_gates:
  "substitutionAllowed cat want p \<Longrightarrow> mc_visibility p \<noteq> ''hidden'' \<and> mc_nctx want \<le> mc_nctx p
     \<and> \<not> sameWeights cat want p \<and> modalitiesSuperset cat want p"
  by (auto simp: substitutionAllowed_def split: if_splits)

lemma candidates_mem:
  assumes "(p, sl) \<in> set (fst (capabilityTierCandidates s want b w))"
  obtains cat ps where "rs_catalog s = Some cat" and "ct_tierConfigs cat (mc_tierID want) = Inr ps"
    and "p \<in> set ps" and "mc_tierID want \<noteq> 0" and "\<not> hasResponseFormat b" and "mc_id p \<noteq> mc_id want"
    and "substitutionAllowed cat want p" and "loadedSlots (rw_slots (rs_ops s) w) (mc_name p) = Some sl"
  using assms by (auto simp: capabilityTierCandidates_def split: if_splits option.splits sum.splits
      dest!: gatherPeers_mem)

lemma decide_choice:
  assumes "decideSubstitute policy want cands t = Some (p, why)"
  shows "\<exists>sl. (p, sl) \<in> set cands" and "mc_rank p \<le> mc_rank want" and "why \<noteq> []"
  using assms by (auto simp: decideSubstitute_def smarterReason_def fallbackReason_def
      split: sub_policy.splits if_splits dest!: find_Some_prop)

lemma decide_stands_in:
  assumes "decideSubstitute policy want (fst (capabilityTierCandidates s want b w)) t = Some (p, why)"
  obtains cat where "rs_catalog s = Some cat" and "stands_in cat want p" and "\<not> hasResponseFormat b"
    and "p \<in> fst ` set (fst (capabilityTierCandidates s want b w))"
proof -
  from decide_choice [OF assms] obtain sl
    where m: "(p, sl) \<in> set (fst (capabilityTierCandidates s want b w))" and r: "mc_rank p \<le> mc_rank want" by auto
  from m show thesis
  proof (rule candidates_mem)
    fix cat ps
    assume *: "rs_catalog s = Some cat" "ct_tierConfigs cat (mc_tierID want) = Inr ps" "p \<in> set ps"
      "mc_tierID want \<noteq> 0" "\<not> hasResponseFormat b" "mc_id p \<noteq> mc_id want" "substitutionAllowed cat want p"
    have "stands_in cat want p" unfolding stands_in_def using * r allowed_gates [OF *(7)] by blast
    then show thesis using that [OF *(1) _ *(5)] m by force
  qed
qed

section \<open>The two tries\<close>

text \<open>What a try does to the state, and when it returns a backend.\<close>

definition load_log :: "'w router_state \<Rightarrow> 'w router_state \<Rightarrow> ensure_request list \<Rightarrow> bool" where
  "load_log st st' rs \<longleftrightarrow> st_loads st' = st_loads st @ rs \<and> st_sent st' = st_sent st
     \<and> st_audit st' = st_audit st \<and> st_errors st' = st_errors st"

lemma load_log_refl [simp]: "load_log st st []"
  by (simp add: load_log_def)

lemma load_log_trans: "load_log a b rs \<Longrightarrow> load_log b c rs' \<Longrightarrow> load_log a c (rs @ rs')"
  by (simp add: load_log_def)

lemma load_log_world [simp]: "on_world f st = (x, st') \<Longrightarrow> load_log st st' []"
  by (auto simp: load_log_def on_world_def split: prod.splits)

definition substitute_for ::
    "'w router_server \<Rightarrow> model_config \<Rightarrow> body \<Rightarrow> model_config \<Rightarrow> bool" where
  "substitute_for s want b p \<longleftrightarrow>
     (\<exists>cat. rs_catalog s = Some cat \<and> stands_in cat want p) \<and> \<not> hasResponseFormat b
     \<and> substitutionPolicy s (mc_tierID want) \<noteq> SubOff"

lemma loadSubstitute_log:
  assumes "loadSubstitute s sub by policy why st = (x, st')"
  shows "load_log st st' [loadRequest (mc_name sub) by []]"
    and "x = Some bk \<Longrightarrow> \<exists>port. port \<noteq> 0 \<and> bk = slotBackend sub (mc_name sub) port policy why"
  using assms by (auto simp: loadSubstitute_def load_log_def split: prod.splits sum.splits if_splits dest: askLoad_res)

definition try_ok ::
    "'w router_server \<Rightarrow> model_config \<Rightarrow> body \<Rightarrow> string \<Rightarrow> 'w router_state \<Rightarrow> backend option \<times> 'w router_state \<Rightarrow> bool" where
  "try_ok s want b by st r \<longleftrightarrow>
     (\<exists>p why. substitute_for s want b p \<and> why \<noteq> [] \<and> load_log st (snd r) [loadRequest (mc_name p) by []]
        \<and> (\<forall>bk. fst r = Some bk \<longrightarrow> (\<exists>port. port \<noteq> 0 \<and> bk = slotBackend p (mc_name p) port
              (policyName (substitutionPolicy s (mc_tierID want))) why)))
     \<or> fst r = None \<and> load_log st (snd r) []"

lemma try_nothing: "load_log st st' [] \<Longrightarrow> try_ok s want b by st (None, st')"
  by (simp add: try_ok_def)

lemma try_load:
  assumes c: "on_world (capabilityTierCandidates s want b) st = (cands, st1)" and l: "load_log st1 st2 []"
    and d: "decideSubstitute policy want cands t = Some (p, why)"
    and o: "substitutionPolicy s (mc_tierID want) \<noteq> SubOff"
  shows "try_ok s want b by st
           (loadSubstitute s p by (policyName (substitutionPolicy s (mc_tierID want))) why st2)"
proof -
  obtain w where w: "capabilityTierCandidates s want b (st_world st) = (cands, w)" using on_world_res [OF c] by blast
  have "decideSubstitute policy want (fst (capabilityTierCandidates s want b (st_world st))) t = Some (p, why)"
    using w d by simp
  then obtain cat where "rs_catalog s = Some cat" "stands_in cat want p" "\<not> hasResponseFormat b"
    by (rule decide_stands_in)
  then have f: "substitute_for s want b p" using o by (auto simp: substitute_for_def)
  obtain x st' where r: "loadSubstitute s p by (policyName (substitutionPolicy s (mc_tierID want))) why st2 = (x, st')"
    by (metis surj_pair)
  have l: "load_log st st' [loadRequest (mc_name p) by []]"
    using load_log_trans [OF load_log_trans [OF load_log_world [OF c] l] loadSubstitute_log(1) [OF r]] by simp
  have b: "\<forall>bk. x = Some bk \<longrightarrow> (\<exists>port. port \<noteq> 0 \<and> bk = slotBackend p (mc_name p) port
      (policyName (substitutionPolicy s (mc_tierID want))) why)"
    using loadSubstitute_log(2) [OF r] by simp
  show ?thesis unfolding r try_ok_def fst_conv snd_conv
    by (rule disjI1, rule exI [of _ p], rule exI [of _ why]) (intro conjI f l b decide_choice(3) [OF d])
qed

lemma trySubstitute_ok: "try_ok s want b by st (trySubstitute s horizon want b by st)"
proof -
  let ?pol = "substitutionPolicy s (mc_tierID want)"
  obtain cands st1 where c: "on_world (capabilityTierCandidates s want b) st = (cands, st1)" by (metis surj_pair)
  obtain probe st2 where p: "(if ?pol = FallbackOnly then on_world (rw_couldLoad (rs_ops s) (mc_name want) horizon) st1
      else (Inr (placed [] [] False), st1)) = (probe, st2)" by (metis surj_pair)
  have l: "load_log st1 st2 []" using p by (auto split: if_splits)
  have l2: "load_log st st2 []" using load_log_trans [OF load_log_world [OF c] l] by simp
  show ?thesis
  proof (cases "rs_sched s \<and> ?pol \<noteq> SubOff \<and> cands \<noteq> []")
    case False
    then show ?thesis using c by (auto simp: trySubstitute_def Let_def intro: try_nothing)
  next
    case go: True
    show ?thesis
    proof (cases probe)
      case (Inl e)
      then show ?thesis using go c p l2 by (simp add: trySubstitute_def Let_def try_nothing)
    next
      case (Inr pl)
      show ?thesis
      proof (cases "decideSubstitute ?pol want cands (pl_terminal pl)")
        case None
        then show ?thesis using go c p l2 Inr by (simp add: trySubstitute_def Let_def try_nothing)
      next
        case (Some r)
        then show ?thesis using go c p Inr try_load [OF c l, of ?pol "pl_terminal pl" "fst r" "snd r" "by"]
          by (cases r) (simp add: trySubstitute_def Let_def)
      qed
    qed
  qed
qed

lemma trySubstituteAfterFailure_ok: "try_ok s want b [] st (trySubstituteAfterFailure s want b st)"
proof -
  let ?pol = "substitutionPolicy s (mc_tierID want)"
  obtain cands st1 where c: "on_world (capabilityTierCandidates s want b) st = (cands, st1)" by (metis surj_pair)
  show ?thesis
  proof (cases "?pol \<noteq> SubOff \<and> cands \<noteq> []")
    case False
    then show ?thesis using c by (auto simp: trySubstituteAfterFailure_def Let_def intro: try_nothing)
  next
    case go: True
    show ?thesis
    proof (cases "decideSubstitute FallbackOnly want cands True")
      case None
      then show ?thesis using go c by (simp add: trySubstituteAfterFailure_def Let_def try_nothing)
    next
      case (Some r)
      then show ?thesis using go c try_load [OF c load_log_refl, of FallbackOnly True "fst r" "snd r" "[]"]
        by (cases r) (simp add: trySubstituteAfterFailure_def Let_def)
    qed
  qed
qed

section \<open>The chain\<close>

lemma resolveName_visible:
  "resolveName s cat m b w = Resolved c n b' \<Longrightarrow>
     mc_visibility c \<noteq> ''hidden'' \<and> (n = mc_name c \<or> n = m \<and> ct_configByName cat m = Found c)"
  by (auto simp: resolveName_def Let_def split: fetched.splits option.splits if_splits)

text \<open>The requests of one chain: at most one for a substitute, the wanted one, and one more.\<close>

definition chain_loads :: "'w router_server \<Rightarrow> model_config \<Rightarrow> body \<Rightarrow> model \<Rightarrow> ensure_request list \<Rightarrow> bool" where
  "chain_loads s want b n rs \<longleftrightarrow>
     (\<exists>r1 r2 r3. rs = r1 @ r2 @ r3 \<and> length r1 \<le> 1 \<and> length r2 \<le> 1 \<and> length r3 \<le> 1
        \<and> (\<forall>r\<in>set (r1 @ r3). \<exists>p by. substitute_for s want b p \<and> r = loadRequest (mc_name p) by [])
        \<and> (\<forall>r\<in>set r2. \<exists>by. r = loadRequest n by []))"

lemma try_ok_log:
  assumes "try_ok s want b by st (x, st')"
  obtains rs where "load_log st st' rs" and "length rs \<le> 1"
    and "\<forall>r\<in>set rs. \<exists>p by. substitute_for s want b p \<and> r = loadRequest (mc_name p) by []"
  using assms unfolding try_ok_def fst_conv snd_conv
proof (elim disjE exE conjE)
  fix p why
  assume "substitute_for s want b p" "load_log st st' [loadRequest (mc_name p) by []]"
  then show thesis using that [of "[loadRequest (mc_name p) by []]"] by auto
qed (use that [of "[]"] in auto)

lemma try_ok_backend:
  assumes "try_ok s want b by st (Some bk, st')"
  obtains p why port where "substitute_for s want b p" and "port \<noteq> 0"
    and "bk = slotBackend p (mc_name p) port (policyName (substitutionPolicy s (mc_tierID want))) why"
    and "load_log st st' [loadRequest (mc_name p) by []]"
  using assms unfolding try_ok_def fst_conv snd_conv by blast

lemma loadChain_loads:
  assumes "loadChain s horizon c n b by st = (r, st')"
  obtains rs where "load_log st st' rs" and "chain_loads s c b n rs"
proof -
  obtain x1 st1 where t1: "trySubstitute s horizon c b by st = (x1, st1)" by (metis surj_pair)
  from trySubstitute_ok [of s c b "by" st horizon] t1 obtain r1
    where r1: "load_log st st1 r1" "length r1 \<le> 1"
      "\<forall>r\<in>set r1. \<exists>p by. substitute_for s c b p \<and> r = loadRequest (mc_name p) by []"
    by (metis try_ok_log)
  show thesis
  proof (cases x1)
    case (Some bk)
    then have "st' = st1" using assms t1 by (simp add: loadChain_def)
    moreover have "chain_loads s c b n r1"
      unfolding chain_loads_def using r1 by (intro exI [of _ r1] exI [of _ "[]"]) simp
    ultimately show thesis using that r1(1) by blast
  next
    case None
    obtain x2 st2 where t2: "askLoad s (loadRequest n by []) st1 = (x2, st2)" by (metis surj_pair)
    have r2: "load_log st1 st2 [loadRequest n by []]" using askLoad_res [OF t2] by (simp add: load_log_def)
    obtain x3 st3 where t3: "trySubstituteAfterFailure s c b st2 = (x3, st3)" by (metis surj_pair)
    from trySubstituteAfterFailure_ok [of s c b st2] t3 obtain r3
      where r3: "load_log st2 st3 r3" "length r3 \<le> 1"
        "\<forall>r\<in>set r3. \<exists>p by. substitute_for s c b p \<and> r = loadRequest (mc_name p) by []"
      by (metis try_ok_log)
    have "st' = st2 \<or> st' = st3" using assms t1 t2 t3 None
      by (auto simp: loadChain_def Let_def split: sum.splits option.splits if_splits)
    moreover have "chain_loads s c b n (r1 @ [loadRequest n by []])"
      unfolding chain_loads_def using r1
      by (intro exI [of _ r1] exI [of _ "[loadRequest n by []]"] exI [of _ "[]"]) auto
    moreover have "chain_loads s c b n (r1 @ [loadRequest n by []] @ r3)"
      unfolding chain_loads_def using r1 r3
      by (intro exI [of _ r1] exI [of _ "[loadRequest n by []]"] exI [of _ r3]) auto
    ultimately show thesis
      using that load_log_trans [OF r1(1) r2] load_log_trans [OF r1(1) load_log_trans [OF r2 r3(1)]] by blast
  qed
qed

text \<open>A backend of the chain serves the wanted name, or discloses the peer that stands in for it.\<close>

definition serves :: "'w router_server \<Rightarrow> model_config \<Rightarrow> body \<Rightarrow> model \<Rightarrow> backend \<Rightarrow> bool" where
  "serves s c b n bk \<longleftrightarrow> bk_kind bk = ''foundry_slot'' \<and> bk_port bk \<noteq> 0 \<and>
     (bk_subMode bk = [] \<and> bk_name bk = n
      \<or> bk_subMode bk = policyName (substitutionPolicy s (mc_tierID c))
        \<and> (\<exists>p. substitute_for s c b p \<and> bk_name bk = mc_name p))"

lemma substitute_serves:
  "try_ok s c b by st (Some bk, st') \<Longrightarrow> serves s c b n bk \<and> er_model (last (st_loads st')) = bk_name bk"
  by (erule try_ok_backend) (auto simp: serves_def slotBackend_def load_log_def loadRequest_def)

lemma loadChain_backend:
  assumes "loadChain s horizon c n b by st = (CatChain bs, st')" and "bk \<in> set bs"
  shows "serves s c b n bk \<and> er_model (last (st_loads st')) = bk_name bk"
proof -
  obtain x1 st1 where t1: "trySubstitute s horizon c b by st = (x1, st1)" by (metis surj_pair)
  obtain x2 st2 where t2: "askLoad s (loadRequest n by []) st1 = (x2, st2)" by (metis surj_pair)
  obtain x3 st3 where t3: "trySubstituteAfterFailure s c b st2 = (x3, st3)" by (metis surj_pair)
  have "x1 = Some bk \<and> st' = st1 \<or> x3 = Some bk \<and> st' = st3
      \<or> (\<exists>port. port \<noteq> 0 \<and> bk = slotBackend c n port [] [] \<and> st' = st2)"
    using assms t1 t2 t3 by (auto simp: loadChain_def Let_def split: sum.splits option.splits if_splits)
  then show ?thesis
  proof (elim disjE exE conjE)
    assume "x1 = Some bk" "st' = st1"
    then show ?thesis using trySubstitute_ok [of s c b "by" st horizon] t1 substitute_serves by metis
  next
    assume "x3 = Some bk" "st' = st3"
    then show ?thesis using trySubstituteAfterFailure_ok [of s c b st2] t3 substitute_serves by metis
  next
    fix port
    assume "port \<noteq> 0" "bk = slotBackend c n port [] []" "st' = st2"
    then show ?thesis using askLoad_res [OF t2] by (simp add: serves_def slotBackend_def loadRequest_def)
  qed
qed

lemma catalogChain_Chain:
  assumes "catalogChain s horizon m by b st = (CatChain bs, b', st')"
  obtains cat c n where "rs_catalog s = Some cat" and "resolveName s cat m b (st_world st) = Resolved c n b'"
    and "loadChain s horizon c n b' by st = (CatChain bs, st')" and "rs_sched s"
  using assms by (auto simp: catalogChain_def split: option.splits resolution.splits prod.splits if_splits)

section \<open>Properties\<close>


lemma sample_chain:
  "(case fst (catalogChain (sample_router []) 0 ''small'' ''a0'' (sample_body ''small'') sample_state) of
      CatChain bs \<Rightarrow> map (\<lambda>b. (bk_name b, bk_subMode b)) bs | _ \<Rightarrow> []) = [(''big'', ''prefer_smarter'')]"
  by code_simp


text \<open>One request for a local model makes at most three load requests, without a target slot:
  one for the wanted model and at most one before and one after it for a peer that may stand in;
  every one of them is for a visible configuration.\<close>

theorem three_loads_at_most:
  "\<exists>rs. st_loads (snd (snd (catalogChain s horizon m by b st))) = st_loads st @ rs \<and> length rs \<le> 3
     \<and> (rs = [] \<or> (\<exists>cat want n b'. rs_catalog s = Some cat
          \<and> resolveName s cat m b (st_world st) = Resolved want n b' \<and> mc_visibility want \<noteq> ''hidden''
          \<and> chain_loads s want b' n rs))"
proof -
  obtain r b' st' where e: "catalogChain s horizon m by b st = (r, b', st')" by (metis prod_cases3)
  show ?thesis
  proof (cases "\<exists>cat c n b2. rs_catalog s = Some cat \<and> resolveName s cat m b (st_world st) = Resolved c n b2 \<and> rs_sched s")
    case True
    then obtain cat c n b2 where *: "rs_catalog s = Some cat" "resolveName s cat m b (st_world st) = Resolved c n b2"
      "rs_sched s" by blast
    obtain r1 st1 where l: "loadChain s horizon c n b2 by st = (r1, st1)" by (metis surj_pair)
    then have st1: "st1 = st'" using e * by (simp add: catalogChain_def)
    from l obtain rs where rs: "load_log st st1 rs" "chain_loads s c b2 n rs" by (rule loadChain_loads)
    have "length rs \<le> 3" using rs(2) by (auto simp: chain_loads_def)
    then show ?thesis using rs * resolveName_visible [OF *(2)] e st1 unfolding load_log_def
      by (intro exI [of _ rs]) auto
  next
    case False
    then have "st' = st" using e by (auto simp: catalogChain_def split: option.splits resolution.splits if_splits)
    then show ?thesis using e by simp
  qed
qed

text \<open>With substitution off a chain is one load of the wanted model.\<close>

lemma off_is_plain:
  "substitutionPolicy s (mc_tierID c) = SubOff \<Longrightarrow>
   loadChain s horizon c n b by st =
     (let (x, st1) = askLoad s (loadRequest n by []) st in
      (case loadResult x of
         Inl e \<Rightarrow> CatFailed (LoadError e) (rw_loadReason (rs_ops s) n (st_world st1))
       | Inr sl \<Rightarrow> if slotPort s sl = 0 then CatFailed (NoPort sl) NoReason
                   else CatChain [slotBackend c n (slotPort s sl) [] []], st1))"
  by (simp add: loadChain_def trySubstitute_def trySubstituteAfterFailure_def Let_def
      split: prod.splits sum.splits)

text \<open>
  After a failed load the second chance is not restricted to \<open>fallback_only\<close>: under
  \<open>prefer_smarter\<close> a peer of the same rank is then loaded.
\<close>

lemma second_chance_any_policy:
  "substitutionPolicy s (mc_tierID want) = PreferSmarter \<Longrightarrow>
   capabilityTierCandidates s want b (st_world st) = ([(p, sl)], w) \<Longrightarrow> mc_rank p = mc_rank want \<Longrightarrow>
   decideSubstitute PreferSmarter want [(p, sl)] t = None \<and>
   trySubstituteAfterFailure s want b st =
     loadSubstitute s p [] ''prefer_smarter'' (fallbackReason p want) (st\<lparr>st_world := w\<rparr>)"
  by (simp add: decideSubstitute_def trySubstituteAfterFailure_def on_world_def policyName_def)

end
