(* ===== verification/Router_Proxy_Props.thy ===== *)
theory Router_Proxy_Props
  imports Router_Proxy Router_Subst_Props Auth_Http_Props
begin

text \<open>
  The properties of the request path: who is admitted, which requests go upstream for one chat
  request (their addresses, keys, headers and bodies), the order of the backends, and what is
  audited.
\<close>

section \<open>Requests of one backend\<close>

definition carried :: "chat_context \<Rightarrow> string option" where
  "carried cx = headerOpt (cx_request cx) ''Authorization''"

definition keyHeader :: "resolved_backend \<Rightarrow> chat_context \<Rightarrow> string option" where
  "keyHeader rb cx = (if rb_apiKey rb \<noteq> [] then Some (''Bearer '' @ rb_apiKey rb) else carried cx)"

text \<open>The parts of the context that no attempt changes, and the header the next one starts from.\<close>

definition same_request :: "chat_context \<Rightarrow> chat_context \<Rightarrow> bool" where
  "same_request cx cx' \<longleftrightarrow> cx_model cx' = cx_model cx \<and> cx_label cx' = cx_label cx \<and> cx_now cx' = cx_now cx
     \<and> cx_parsesURL cx' = cx_parsesURL cx
     \<and> (\<forall>h. h \<noteq> ''Authorization'' \<longrightarrow> rq_header (cx_request cx') h = rq_header (cx_request cx) h)"

lemma same_request_refl [simp]: "same_request cx cx"
  by (simp add: same_request_def)

lemma same_request_trans: "same_request a b \<Longrightarrow> same_request b c \<Longrightarrow> same_request a c"
  by (simp add: same_request_def)

lemma outgoing_same [simp]: "same_request cx (outgoing u cx)"
  by (simp add: same_request_def outgoing_def)

lemma rewrite_simps [simp]:
  "ur_url (rewriteRequest (cx_request cx) rb mb target bypass) = target @ ''/chat/completions''"
  "ur_body (rewriteRequest (cx_request cx) rb mb target bypass) = mb"
  "ur_authorization (rewriteRequest (cx_request cx) rb mb target bypass) = keyHeader rb cx"
  "ur_compressBase (rewriteRequest (cx_request cx) rb mb target bypass) =
     (if bypass \<or> rb_upstreamOverride rb = [] then None else Some (rb_upstreamOverride rb))"
  by (simp_all add: rewriteRequest_def keyHeader_def carried_def Let_def)

lemma carried_outgoing [simp]:
  "carried (outgoing (rewriteRequest (cx_request cx) rb mb target bypass) cx) = keyHeader rb cx"
  unfolding carried_def outgoing_def by (simp add: headerOpt_def keyHeader_def carried_def)

lemma keyHeader_again [simp]:
  "keyHeader rb (outgoing (rewriteRequest (cx_request cx) rb mb target bypass) cx) = keyHeader rb cx"
  by (simp add: keyHeader_def [of _ "outgoing _ _"]) (simp add: keyHeader_def)

lemma send_res: "send s u st = (x, st') \<Longrightarrow>
    st_sent st' = st_sent st @ [u] \<and> st_audit st' = st_audit st \<and> st_loads st' = st_loads st"
  by (auto simp: send_def on_world_def split: prod.splits)

lemma slotError_keeps [simp]:
  "st_sent (slotError cx b st) = st_sent st" "st_audit (slotError cx b st) = st_audit st"
  "st_loads (slotError cx b st) = st_loads st" "st_world (slotError cx b st) = st_world st"
  by (simp_all add: slotError_def)

lemma markSlot_keeps [simp]:
  "st_sent (markSlot cx sl st) = st_sent st" "st_audit (markSlot cx sl st) = st_audit st"
  "st_loads (markSlot cx sl st) = st_loads st" "st_world (markSlot cx sl st) = st_world st"
  by (simp_all add: markSlot_def)

lemma auditOk_keeps [simp]:
  "st_sent (auditOk cx b cl st) = st_sent st" "st_loads (auditOk cx b cl st) = st_loads st"
  "st_world (auditOk cx b cl st) = st_world st"
  by (simp_all add: auditOk_def)

lemma sendOnce_cases:
  assumes "sendOnce s b rb mb target bypass cx cl st = (e, cx', cl', st')"
  shows "(e = NextBackend \<and> cx' = cx \<and> st' = st)
    \<or> (let u = rewriteRequest (cx_request cx) rb mb target bypass in
        cx' = outgoing u cx \<and> st_sent st' = st_sent st @ [u]
        \<and> (case e of
             Committed n \<Rightarrow> n < 500 \<and> (\<exists>row. st_audit st' = st_audit st @ [row] \<and> ar_ok row)
           | Bypass \<Rightarrow> st_audit st' = st_audit st \<and> \<not> bypass \<and> rb_compressorFronted rb \<and> rb_directURL rb \<noteq> []
           | NextBackend \<Rightarrow> st_audit st' = st_audit st))"
proof (cases "cx_parsesURL cx (target @ ''/chat/completions'')")
  case True
  obtain x st1 where x: "send s (rewriteRequest (cx_request cx) rb mb target bypass) st = (x, st1)"
    by (metis surj_pair)
  show ?thesis using assms True x send_res [OF x]
    by (cases x) (auto simp: sendOnce_def Let_def auditOk_def split: if_splits)
next
  case False
  then show ?thesis using assms by (simp add: sendOnce_def)
qed

text \<open>A request that a resolved backend sends.\<close>

definition sent_by :: "resolved_backend \<Rightarrow> body \<Rightarrow> chat_context \<Rightarrow> upstream_request \<Rightarrow> bool" where
  "sent_by rb mb cx u \<longleftrightarrow> ur_body u = mb \<and> ur_authorization u = keyHeader rb cx
     \<and> (ur_url u = rb_baseURL rb @ ''/chat/completions''
          \<and> ur_compressBase u = (if rb_upstreamOverride rb = [] then None else Some (rb_upstreamOverride rb))
        \<or> rb_compressorFronted rb \<and> rb_directURL rb \<noteq> []
          \<and> ur_url u = rb_directURL rb @ ''/chat/completions'' \<and> ur_compressBase u = None)"

definition next_context :: "resolved_backend \<Rightarrow> chat_context \<Rightarrow> chat_context \<Rightarrow> bool" where
  "next_context rb cx cx' \<longleftrightarrow> same_request cx cx' \<and> (carried cx' = carried cx \<or> carried cx' = keyHeader rb cx)"

lemma next_context_trans:
  assumes "next_context rb a b" and "keyHeader rb b = keyHeader rb a" and "next_context rb b c"
  shows "next_context rb a c"
proof -
  have "same_request a c" using assms same_request_trans unfolding next_context_def by blast
  moreover have "carried c = carried a \<or> carried c = keyHeader rb a"
    using assms unfolding next_context_def by fastforce
  ultimately show ?thesis by (simp add: next_context_def)
qed

lemma sendOnce_first:
  assumes "sendOnce s b rb mb (rb_baseURL rb) False cx cl st = (e, cx', cl', st')"
  obtains us where "st_sent st' = st_sent st @ us" and "length us \<le> 1" and "\<forall>u\<in>set us. sent_by rb mb cx u"
    and "next_context rb cx cx'" and "keyHeader rb cx' = keyHeader rb cx"
    and "e = Bypass \<longrightarrow> rb_compressorFronted rb \<and> rb_directURL rb \<noteq> [] \<and> us \<noteq> []"
    and "case e of Committed n \<Rightarrow> n < 500 \<and> us \<noteq> [] \<and> (\<exists>row. st_audit st' = st_audit st @ [row] \<and> ar_ok row)
           | _ \<Rightarrow> st_audit st' = st_audit st"
  using sendOnce_cases [OF assms]
proof (elim disjE, goal_cases)
  case 1
  then show ?case by (intro that [of "[]"]) (auto simp: next_context_def)
next
  case 2
  then show ?case
    by (intro that [of "[rewriteRequest (cx_request cx) rb mb (rb_baseURL rb) False]"])
       (auto simp: next_context_def sent_by_def Let_def split: attempt_end.splits)
qed

lemma sendOnce_bypass:
  assumes "sendOnce s b rb mb (rb_directURL rb) True cx cl st = (e, cx', cl', st')"
    and "rb_compressorFronted rb" and "rb_directURL rb \<noteq> []"
  obtains us where "st_sent st' = st_sent st @ us" and "length us \<le> 1" and "\<forall>u\<in>set us. sent_by rb mb cx u"
    and "next_context rb cx cx'"
    and "case e of Committed n \<Rightarrow> n < 500 \<and> us \<noteq> [] \<and> (\<exists>row. st_audit st' = st_audit st @ [row] \<and> ar_ok row)
           | Bypass \<Rightarrow> False | NextBackend \<Rightarrow> st_audit st' = st_audit st"
  using sendOnce_cases [OF assms(1)]
proof (elim disjE, goal_cases)
  case 1
  then show ?case by (intro that [of "[]"]) (auto simp: next_context_def)
next
  case 2
  then show ?case using assms(2,3)
    by (intro that [of "[rewriteRequest (cx_request cx) rb mb (rb_directURL rb) True]"])
       (auto simp: next_context_def sent_by_def Let_def split: attempt_end.splits)
qed

text \<open>What a walk over some backends leaves in the state.\<close>

definition walk_log :: "'w router_state \<Rightarrow> 'w router_state \<Rightarrow> upstream_request list \<Rightarrow> nat option \<Rightarrow> bool" where
  "walk_log st st' us r \<longleftrightarrow> st_sent st' = st_sent st @ us
     \<and> (case r of None \<Rightarrow> st_audit st' = st_audit st
        | Some n \<Rightarrow> n < 500 \<and> us \<noteq> [] \<and> (\<exists>row. st_audit st' = st_audit st @ [row] \<and> ar_ok row))"

lemma walk_log_nothing [simp]: "walk_log st st [] None"
  by (simp add: walk_log_def)

lemma walk_log_trans: "walk_log a b us None \<Longrightarrow> walk_log b c us' r \<Longrightarrow> walk_log a c (us @ us') r"
  by (auto simp: walk_log_def split: option.splits)

lemma walk_log_world: "on_world f st = (x, st') \<Longrightarrow> walk_log st st' [] None"
  by (auto simp: walk_log_def on_world_def split: prod.splits)

lemma sent_by_context: "keyHeader rb cx' = keyHeader rb cx \<Longrightarrow> sent_by rb mb cx' u = sent_by rb mb cx u"
  by (simp add: sent_by_def)

lemma attemptBackend_log:
  assumes "attemptBackend s b rb mb cx cl st = (r, cx', cl', st')"
  obtains us where "walk_log st st' us r" and "length us \<le> (if rb_compressorFronted rb then 2 else 1)"
    and "\<forall>u\<in>set us. sent_by rb mb cx u" and "next_context rb cx cx'"
proof -
  obtain e cx1 cl1 st1 where 1: "sendOnce s b rb mb (rb_baseURL rb) False cx cl st = (e, cx1, cl1, st1)"
    by (metis prod_cases4)
  from 1 obtain us where us: "st_sent st1 = st_sent st @ us" "length us \<le> 1" "\<forall>u\<in>set us. sent_by rb mb cx u"
      "next_context rb cx cx1" "keyHeader rb cx1 = keyHeader rb cx"
      "e = Bypass \<longrightarrow> rb_compressorFronted rb \<and> rb_directURL rb \<noteq> [] \<and> us \<noteq> []"
      "case e of Committed n \<Rightarrow> n < 500 \<and> us \<noteq> [] \<and> (\<exists>row. st_audit st1 = st_audit st @ [row] \<and> ar_ok row)
           | _ \<Rightarrow> st_audit st1 = st_audit st"
    by (rule sendOnce_first)
  show thesis
  proof (cases e)
    case (Committed n)
    then show thesis using assms 1 us by (intro that [of us]) (auto simp: attemptBackend_def walk_log_def)
  next
    case NextBackend
    then show thesis using assms 1 us by (intro that [of us]) (auto simp: attemptBackend_def walk_log_def)
  next
    case Bypass
    obtain e2 cx2 cl2 st2 where 2: "sendOnce s b rb mb (rb_directURL rb) True cx1 cl1 st1 = (e2, cx2, cl2, st2)"
      by (metis prod_cases4)
    have f: "rb_compressorFronted rb" "rb_directURL rb \<noteq> []" using us(6) Bypass by auto
    from 2 f obtain us2 where us2: "st_sent st2 = st_sent st1 @ us2" "length us2 \<le> 1"
        "\<forall>u\<in>set us2. sent_by rb mb cx1 u" "next_context rb cx1 cx2"
        "case e2 of Committed n \<Rightarrow> n < 500 \<and> us2 \<noteq> [] \<and> (\<exists>row. st_audit st2 = st_audit st1 @ [row] \<and> ar_ok row)
           | Bypass \<Rightarrow> False | NextBackend \<Rightarrow> st_audit st2 = st_audit st1"
      by (rule sendOnce_bypass)
    have r: "r = (case e2 of Committed n \<Rightarrow> Some n | _ \<Rightarrow> None)" "cx' = cx2" "st' = st2"
      using assms 1 2 Bypass by (auto simp: attemptBackend_def split: attempt_end.splits)
    show thesis
    proof (rule that [of "us @ us2"])
      show "walk_log st st' (us @ us2) r" using r us us2 Bypass
        by (auto simp: walk_log_def split: attempt_end.splits)
      show "length (us @ us2) \<le> (if rb_compressorFronted rb then 2 else 1)" using us(2) us2(2) f by simp
      show "\<forall>u\<in>set (us @ us2). sent_by rb mb cx u" using us(3) us2(3) by (auto simp: sent_by_context [OF us(5)])
      show "next_context rb cx cx'" using next_context_trans [OF us(4,5) us2(4)] r(2) by simp
    qed
  qed
qed

section \<open>Requests along the chain\<close>

lemma ensure_log: "ensureBackendLoaded s m b by st = (r, st') \<Longrightarrow> walk_log st st' [] None"
  by (auto simp: ensureBackendLoaded_def walk_log_def Let_def split: if_splits prod.splits dest: askLoad_res)

lemma gate_log: "gateBackend s cx b st = (r, st') \<Longrightarrow> walk_log st st' [] None"
proof -
  assume g: "gateBackend s cx b st = (r, st')"
  obtain reason st1 where 1: "on_world (slotGate s b (busyMode s)) st = (reason, st1)" by (metis surj_pair)
  obtain e st2 where 2: "ensureBackendLoaded s (cx_model cx) b (requestedBy (cx_request cx)) st1 = (e, st2)"
    by (metis surj_pair)
  obtain reason2 st3 where 3: "on_world (slotGate s b (busyMode s)) st2 = (reason2, st3)" by (metis surj_pair)
  have "st' = st1 \<or> st' = st2 \<or> st' = st3"
    using g 1 2 3 by (auto simp: gateBackend_def Let_def split: if_splits option.splits)
  moreover have w1: "walk_log st st1 [] None" by (rule walk_log_world [OF 1])
  moreover have w2: "walk_log st st2 [] None" using walk_log_trans [OF w1 ensure_log [OF 2]] by simp
  moreover have "walk_log st st3 [] None" using walk_log_trans [OF w2 walk_log_world [OF 3]] by simp
  ultimately show ?thesis by blast
qed

definition resolved_as :: "'w router_server \<Rightarrow> backend \<Rightarrow> resolved_backend \<Rightarrow> bool" where
  "resolved_as s b rb \<longleftrightarrow> (\<exists>w w'. resolveBackend s b w = (Inr rb, w'))"

lemma tryBackend_log:
  assumes "tryBackend s bd b cx cl st = (r, cx', cl', st')"
  obtains us where "walk_log st st' us r" and "length us \<le> 2"
    and "\<forall>u\<in>set us. \<exists>rb. resolved_as s b rb \<and> sent_by rb (backendBody s b rb bd) cx u"
    and "cx' = cx \<or> (\<exists>rb. resolved_as s b rb \<and> next_context rb cx cx')"
proof -
  obtain skip st1 where 1: "gateBackend s cx b st = (skip, st1)" by (metis surj_pair)
  obtain x st2 where 2: "on_world (resolveBackend s b) st1 = (x, st2)" by (metis surj_pair)
  have l2: "walk_log st st2 [] None"
    using walk_log_trans [OF gate_log [OF 1] walk_log_world [OF 2]] by simp
  show thesis
  proof (cases "skip = None \<and> (\<exists>rb. x = Inr rb)")
    case False
    then have "r = None \<and> cx' = cx \<and> (st' = st1 \<or> st' = st2)"
      using assms 1 2 by (auto simp: tryBackend_def split: option.splits sum.splits)
    then show thesis using gate_log [OF 1] l2 by (intro that [of "[]"]) auto
  next
    case True
    then obtain rb where x: "skip = None" "x = Inr rb" by blast
    let ?st3 = "if bk_kind b = ''foundry_slot'' then markSlot cx (slotForPort s (probePort b)) st2 else st2"
    have l3: "walk_log st ?st3 [] None" using l2 by (simp add: walk_log_def)
    have rb: "resolved_as s b rb" using on_world_res [OF 2] x by (auto simp: resolved_as_def)
    have "attemptBackend s b rb (backendBody s b rb bd) cx cl ?st3 = (r, cx', cl', st')"
      using assms 1 2 x by (simp add: tryBackend_def Let_def)
    then obtain us where us: "walk_log ?st3 st' us r" "length us \<le> (if rb_compressorFronted rb then 2 else 1)"
        "\<forall>u\<in>set us. sent_by rb (backendBody s b rb bd) cx u" "next_context rb cx cx'"
      by (rule attemptBackend_log)
    show thesis
      using walk_log_trans [OF l3 us(1)] us rb by (intro that [of us]) (auto split: if_splits)
  qed
qed

lemma tryBackends_log:
  assumes "tryBackends s bd bs cx cl st = (a, st')"
  shows "\<exists>us row. st_sent st' = st_sent st @ us \<and> st_audit st' = st_audit st @ [row]
    \<and> (case a of
         Relayed b n \<Rightarrow> n < 500 \<and> ar_ok row \<and> us \<noteq> []
           \<and> (\<exists>pre post. bs = pre @ b # post \<and> length us \<le> 2 * Suc (length pre))
       | AllUnavailable m l \<Rightarrow> m = cx_model cx \<and> \<not> ar_ok row \<and> length us \<le> 2 * length bs
       | _ \<Rightarrow> False)"
  using assms
proof (induction bs arbitrary: cx cl st)
  case Nil
  then show ?case by auto
next
  case (Cons b bs)
  obtain r cx1 cl1 st1 where 1: "tryBackend s bd b cx cl st = (r, cx1, cl1, st1)" by (metis prod_cases4)
  from 1 obtain us where us: "walk_log st st1 us r" "length us \<le> 2"
      "cx1 = cx \<or> (\<exists>rb. resolved_as s b rb \<and> next_context rb cx cx1)"
    by (rule tryBackend_log)
  have m: "cx_model cx1 = cx_model cx" using us(3) by (auto simp: next_context_def same_request_def)
  show ?case
  proof (cases r)
    case (Some n)
    then have a: "a = Relayed b n" "st' = st1" using Cons.prems 1 by auto
    from us(1) Some obtain row where row: "st_audit st1 = st_audit st @ [row]" "ar_ok row" "n < 500" "us \<noteq> []"
      "st_sent st1 = st_sent st @ us" by (auto simp: walk_log_def)
    have "\<exists>pre post. b # bs = pre @ b # post \<and> length us \<le> 2 * Suc (length pre)"
      by (rule exI [of _ "[]"], rule exI [of _ bs]) (use us(2) in simp)
    then show ?thesis using row a by (intro exI [of _ us] exI [of _ row]) simp
  next
    case None
    then have "tryBackends s bd bs cx1 cl1 st1 = (a, st')" using Cons.prems 1 by simp
    from Cons.IH [OF this] obtain us2 row where i: "st_sent st' = st_sent st1 @ us2" "st_audit st' = st_audit st1 @ [row]"
      "case a of
         Relayed b n \<Rightarrow> n < 500 \<and> ar_ok row \<and> us2 \<noteq> []
           \<and> (\<exists>pre post. bs = pre @ b # post \<and> length us2 \<le> 2 * Suc (length pre))
       | AllUnavailable m l \<Rightarrow> m = cx_model cx1 \<and> \<not> ar_ok row \<and> length us2 \<le> 2 * length bs
       | _ \<Rightarrow> False" by blast
    have "st_sent st' = st_sent st @ us @ us2" "st_audit st' = st_audit st @ [row]"
      using us(1) i None by (simp_all add: walk_log_def)
    moreover have "case a of
         Relayed b' n \<Rightarrow> n < 500 \<and> ar_ok row \<and> us @ us2 \<noteq> []
           \<and> (\<exists>pre post. b # bs = pre @ b' # post \<and> length (us @ us2) \<le> 2 * Suc (length pre))
       | AllUnavailable m l \<Rightarrow> m = cx_model cx \<and> \<not> ar_ok row \<and> length (us @ us2) \<le> 2 * length (b # bs)
       | _ \<Rightarrow> False"
    proof (cases a)
      case (Relayed b' n)
      with i(3) obtain pre post where p: "bs = pre @ b' # post" "length us2 \<le> 2 * Suc (length pre)" by auto
      then have "b # bs = (b # pre) @ b' # post" "length (us @ us2) \<le> 2 * Suc (length (b # pre))" using us(2) by auto
      then have "\<exists>pre post. b # bs = pre @ b' # post \<and> length (us @ us2) \<le> 2 * Suc (length pre)" by blast
      then show ?thesis using i(3) Relayed by simp
    qed (use i(3) us(2) m in auto)
    ultimately show ?thesis by blast
  qed
qed

end
