(* ===== verification/Router_Chat_Props.thy ===== *)
theory Router_Chat_Props
  imports Router_Proxy_Props Router_Sample
begin

text \<open>
  The properties of a whole chat request: where keys travel, what of the client's body and headers
  reaches an upstream, who is admitted, and the backend that answers.
\<close>

section \<open>All requests of a walk\<close>

text \<open>The authorization header an attempt can start from: the client's or an earlier backend's.\<close>

definition reach_header :: "'w router_server \<Rightarrow> backend list \<Rightarrow> chat_context \<Rightarrow> string option \<Rightarrow> bool" where
  "reach_header s bs cx h \<longleftrightarrow> h = carried cx
     \<or> (\<exists>b\<in>set bs. \<exists>rb. resolved_as s b rb \<and> rb_apiKey rb \<noteq> [] \<and> h = Some (''Bearer '' @ rb_apiKey rb))"

definition walk_request :: "'w router_server \<Rightarrow> body \<Rightarrow> backend list \<Rightarrow> chat_context \<Rightarrow> upstream_request \<Rightarrow> bool" where
  "walk_request s bd bs cx u \<longleftrightarrow>
     (\<exists>b\<in>set bs. \<exists>rb cx'. resolved_as s b rb \<and> sent_by rb (backendBody s b rb bd) cx' u
        \<and> reach_header s bs cx (carried cx'))"

lemma reach_header_mono:
  "reach_header s bs cx1 h \<Longrightarrow> reach_header s (b # bs) cx (carried cx1) \<Longrightarrow> reach_header s (b # bs) cx h"
  by (auto simp: reach_header_def)

lemma tryBackends_requests:
  "tryBackends s bd bs cx cl st = (a, st') \<Longrightarrow>
   \<exists>us. st_sent st' = st_sent st @ us \<and> (\<forall>u\<in>set us. walk_request s bd bs cx u)"
proof (induction bs arbitrary: cx cl st)
  case (Cons b bs)
  obtain r cx1 cl1 st1 where 1: "tryBackend s bd b cx cl st = (r, cx1, cl1, st1)" by (metis prod_cases4)
  from 1 obtain us where us: "walk_log st st1 us r"
      "\<forall>u\<in>set us. \<exists>rb. resolved_as s b rb \<and> sent_by rb (backendBody s b rb bd) cx u"
      "cx1 = cx \<or> (\<exists>rb. resolved_as s b rb \<and> next_context rb cx cx1)"
    by (rule tryBackend_log)
  have h: "reach_header s (b # bs) cx (carried cx1)"
    using us(3) by (auto simp: reach_header_def next_context_def keyHeader_def split: if_splits)
  have first: "\<forall>u\<in>set us. walk_request s bd (b # bs) cx u"
  proof
    fix u assume "u \<in> set us"
    then obtain rb where "resolved_as s b rb" "sent_by rb (backendBody s b rb bd) cx u" using us(2) by blast
    moreover have "reach_header s (b # bs) cx (carried cx)" by (simp add: reach_header_def)
    ultimately show "walk_request s bd (b # bs) cx u" unfolding walk_request_def by auto
  qed
  show ?case
  proof (cases r)
    case (Some n)
    then show ?thesis using Cons.prems 1 us(1) first by (auto simp: walk_log_def)
  next
    case None
    then have "tryBackends s bd bs cx1 cl1 st1 = (a, st')" using Cons.prems 1 by simp
    from Cons.IH [OF this] obtain us2 where us2: "st_sent st' = st_sent st1 @ us2"
      "\<forall>u\<in>set us2. walk_request s bd bs cx1 u" by blast
    have "\<forall>u\<in>set us2. walk_request s bd (b # bs) cx u"
    proof
      fix u assume "u \<in> set us2"
      then obtain b' rb cx' where *: "b' \<in> set bs" "resolved_as s b' rb" "sent_by rb (backendBody s b' rb bd) cx' u"
        "reach_header s bs cx1 (carried cx')" using us2(2) unfolding walk_request_def by blast
      then have "reach_header s (b # bs) cx (carried cx')" using reach_header_mono h by blast
      then show "walk_request s bd (b # bs) cx u" unfolding walk_request_def using * by auto
    qed
    then show ?thesis using us2(1) us(1) None first by (auto simp: walk_log_def)
  qed
qed auto

section \<open>All requests of the handler\<close>

lemma catalogChain_sends_nothing:
  assumes "catalogChain s horizon m by b st = (r, b', st')"
  shows "st_sent st' = st_sent st"
proof (cases "\<exists>cat c n b2. rs_catalog s = Some cat \<and> resolveName s cat m b (st_world st) = Resolved c n b2 \<and> rs_sched s")
  case True
  then obtain cat c n b2 where *: "rs_catalog s = Some cat" "resolveName s cat m b (st_world st) = Resolved c n b2"
    "rs_sched s" by blast
  obtain r1 st1 where l: "loadChain s horizon c n b2 by st = (r1, st1)" by (metis surj_pair)
  then have "st1 = st'" using assms * by (simp add: catalogChain_def)
  moreover from l obtain rs where "load_log st st1 rs" by (rule loadChain_loads)
  ultimately show ?thesis by (simp add: load_log_def)
next
  case False
  then show ?thesis using assms by (auto simp: catalogChain_def split: option.splits resolution.splits if_splits)
qed

text \<open>Where a chain comes from, and which body goes with it.\<close>

definition chain_origin ::
    "'w router_server \<Rightarrow> router_config \<Rightarrow> string \<Rightarrow> body \<Rightarrow> backend list \<Rightarrow> body \<Rightarrow> bool" where
  "chain_origin s c m b bs b' \<longleftrightarrow>
     ((\<forall>bk\<in>set bs. bk_kind bk = ''foundry_slot'') \<and>
        (b' = b \<or> (\<exists>cat al. rs_catalog s = Some cat \<and> ct_aliasByName cat m = Found al
                     \<and> b' = mergeForcedDefaults b (ma_defaults al))))
     \<or> b' = b \<and> (\<forall>bk\<in>set bs. backend_ok s bk \<and> bk_kind bk = ''remote'')
     \<or> b' = b \<and> set bs \<subseteq> set (cg_backends c)"

lemma resolveName_body:
  "resolveName s cat m b w = Resolved c n b' \<Longrightarrow>
   b' = b \<or> (\<exists>al. ct_aliasByName cat m = Found al \<and> b' = mergeForcedDefaults b (ma_defaults al))"
  by (auto simp: resolveName_def Let_def split: fetched.splits option.splits if_splits elim!: found.elims)

lemma routeChain_configured: "routeChain c m = Some bs \<Longrightarrow> set bs \<subseteq> set (cg_backends c)"
  by (auto simp: routeChain_def in_map_filter backendByName_def split: option.splits dest!: find_Some_prop)

lemma requestChain_origin:
  assumes "requestChain s c horizon m by b st = (Inr (bs, b'), st')"
  shows "chain_origin s c m b bs b'"
proof -
  obtain r b1 st1 where cc: "catalogChain s horizon m by b st = (r, b1, st1)" by (metis prod_cases3)
  show ?thesis
  proof (cases r)
    case (CatChain xs)
    then have x: "xs = bs" "b1 = b'" using assms cc by (auto simp: requestChain_def)
    have cc': "catalogChain s horizon m by b st = (CatChain bs, b', st1)" using cc CatChain x by simp
    from cc' show ?thesis
    proof (rule catalogChain_Chain)
      fix cat c1 n
      assume *: "rs_catalog s = Some cat" "resolveName s cat m b (st_world st) = Resolved c1 n b'"
        "loadChain s horizon c1 n b' by st = (CatChain bs, st1)"
      have "\<forall>bk\<in>set bs. bk_kind bk = ''foundry_slot''" using loadChain_backend [OF *(3)] by (auto simp: serves_def)
      then show ?thesis using resolveName_body [OF *(2)] *(1) unfolding chain_origin_def by blast
    qed
  qed (use assms cc in \<open>auto simp: requestChain_def chain_origin_def split: chain_result.splits option.splits
        dest: offeringChain_ok routeChain_configured\<close>)
qed

lemma requestChain_sent: "requestChain s c horizon m by b st = (x, st') \<Longrightarrow> st_sent st' = st_sent st"
  by (auto simp: requestChain_def split: prod.splits dest: catalogChain_sends_nothing)

lemma checkBody_ok:
  "checkBody raw = Inr (m, b) \<Longrightarrow> raw = BodyDecoded b \<and> m = str_field ''model'' b \<and> m \<noteq> [] \<and> length m \<le> 128"
  by (auto simp: checkBody_def Let_def split: inbound_body.splits if_splits)

lemma chat_requests:
  assumes run: "chatCompletions s env now pu horizon r raw auth st = (a, auth', st')"
    and new: "st_sent st' = st_sent st @ us" "u \<in> set us"
  obtains i auth1 c m b bs b' cx st1 where "checkAuth env now r auth = (Some i, auth1)" and "rs_config s = Some c"
    and "raw = BodyDecoded b" and "m = str_field ''model'' b" and "chain_origin s c m b bs b'"
    and "cx_request cx = r" and "cx_model cx = m" and "walk_request s b' bs cx u"
proof -
  obtain who auth1 where 1: "checkAuth env now r auth = (who, auth1)" by (metis surj_pair)
  have ne: "st_sent st' \<noteq> st_sent st" using new by auto
  obtain i where i: "who = Some i" using run 1 ne by (cases who) (auto simp: chatCompletions_def)
  obtain m b where mb: "checkBody raw = Inr (m, b)"
    using run 1 i ne by (cases "checkBody raw") (auto simp: chatCompletions_def)
  obtain c where c: "rs_config s = Some c"
    using run 1 i mb ne by (cases "rs_config s") (auto simp: chatCompletions_def)
  obtain ch st1 where rc: "requestChain s c horizon m (requestedBy r) b st = (ch, st1)" by (metis surj_pair)
  note sent1 = requestChain_sent [OF rc]
  obtain bs b' where ch: "ch = Inr (bs, b')"
    using run 1 i mb c rc sent1 ne by (cases ch) (auto simp: chatCompletions_def Let_def)
  let ?cx = "\<lparr>cx_request = r, cx_model = m, cx_label = consumerLabel env r i, cx_now = now, cx_parsesURL = pu\<rparr>"
  obtain a2 st2 where tb: "tryBackends s b' bs ?cx noAttempts st1 = (a2, st2)" by (metis surj_pair)
  have "bs \<noteq> []" "st2 = st'" using run 1 i mb c rc ch tb sent1 ne
    by (auto simp: chatCompletions_def Let_def split: if_splits)
  then obtain us' where "st_sent st' = st_sent st1 @ us'" "\<forall>u\<in>set us'. walk_request s b' bs ?cx u"
    using tryBackends_requests [OF tb] by auto
  then have w: "walk_request s b' bs ?cx u" using new sent1 by simp
  show thesis
    by (rule that [of i auth1 c b m bs b' ?cx])
       (use 1 i c checkBody_ok [OF mb] requestChain_origin [of s c horizon m "requestedBy r" b st bs b' st1] rc ch w
         in auto)
qed

section \<open>Keys and addresses\<close>

lemma sample_providers_keyed:
  "providerCredential (sample_router ''kb'') n = Some p \<Longrightarrow> pv_apiKey p \<noteq> []"
  by (auto simp: providerCredential_def sample_router_def sample_provider_def split: if_splits)

lemma sample_chat_run:
  obtains a auth' st' where "chatCompletions (sample_router ''kb'') tailnet_env 0 (\<lambda>u. True) 0 sample_chat
       (BodyDecoded (sample_body ''glm-a'')) None sample_state = (a, auth', st')"
    and "st_sent st' = st_sent sample_state @ sample_sent ''kb'' ''glm-a''"
    and "sample_sent ''kb'' ''glm-a'' ! 1 \<in> set (sample_sent ''kb'' ''glm-a'')"
    and "ur_authorization (sample_sent ''kb'' ''glm-a'' ! 1) = Some ''Bearer kb''"
proof -
  obtain a auth' st' where r: "chatCompletions (sample_router ''kb'') tailnet_env 0 (\<lambda>u. True) 0 sample_chat
       (BodyDecoded (sample_body ''glm-a'')) None sample_state = (a, auth', st')" by (metis prod_cases3)
  then have e: "st_sent st' = sample_sent ''kb'' ''glm-a''" by (simp add: sample_sent_def sample_run_def)
  then have n: "st_sent st' = st_sent sample_state @ sample_sent ''kb'' ''glm-a''" by (simp add: sample_state_def)
  have l: "length (sample_sent ''kb'' ''glm-a'') = 2" using arg_cong [OF sample_keys, of length] by simp
  then have m: "sample_sent ''kb'' ''glm-a'' ! 1 \<in> set (sample_sent ''kb'' ''glm-a'')" by simp
  have "ur_authorization (sample_sent ''kb'' ''glm-a'' ! 1) = Some ''Bearer kb''"
    using arg_cong [OF sample_keys, of "\<lambda>xs. xs ! 1"] l by simp
  then show thesis using that r n m by blast
qed

lemma sample_no_backends: "\<forall>c. rs_config (sample_router k) = Some c \<longrightarrow> cg_backends c = []"
  by (simp add: sample_router_def emptyRouterConfig_def applyDefaults_def zeroRouterConfig_def)

lemma resolved_slot:
  assumes "resolved_as s b rb" and "bk_kind b = ''foundry_slot''"
  shows "rb_apiKey rb = [] \<and> (\<exists>p. rb_baseURL rb = loopbackURL p) \<and> (\<exists>p. rb_directURL rb \<noteq> [] \<longrightarrow> rb_directURL rb = loopbackURL p)
    \<and> (rb_upstreamOverride rb = [] \<or> (\<exists>p. rb_upstreamOverride rb = slotRoot p))"
  using assms
  by (auto simp: resolved_as_def resolveBackend_def resolveSlot_def localCompressorBaseURL_def Let_def
      split: prod.splits option.splits if_splits dest!: liveProxyURL_loopback)

definition trimmed_target :: "provider_row \<Rightarrow> string" where
  "trimmed_target p = trimSuffix ''/v1'' (trimRight (CHR ''/'') (pv_targetURL p))"

lemma resolved_remote:
  assumes "resolved_as s b rb" and "bk_kind b = ''remote''" and "backend_ok s b"
  obtains p where "providerCredential s (bk_credential b) = Some p" and "rb_apiKey rb = pv_apiKey p"
    and "own_address p (rb_baseURL rb)" and "rb_directURL rb \<noteq> [] \<longrightarrow> own_address p (rb_directURL rb)"
    and "rb_upstreamOverride rb \<in> {[], trimmed_target p}"
proof -
  have rr: "resolveRemote s b = Inr rb" using assms(1,2) by (auto simp: resolved_as_def resolveBackend_def)
  from resolveRemote_key [OF rr assms(3)] obtain p where p: "providerCredential s (bk_credential b) = Some p"
    "rb_apiKey rb = pv_apiKey p" "own_address p (rb_baseURL rb)" "rb_directURL rb \<noteq> [] \<longrightarrow> own_address p (rb_directURL rb)"
    by metis
  have "rb_upstreamOverride rb \<in> {[], trimmed_target p}" using rr p(1)
    by (auto simp: resolveRemote_def remoteTarget_def trimmed_target_def split: option.splits prod.splits if_splits)
  then show thesis using that p by blast
qed



section \<open>The body\<close>

lemma backendBody_other:
  "k \<notin> {''model'', ''stream_options'', ''reasoning_effort'', ''chat_template_kwargs''} \<Longrightarrow>
   backendBody s b rb bd k = bd k"
  by (simp add: backendBody_def)

text \<open>C13: Every field of the client's body other than the model, the stream options and the two
  fields that control thinking reaches the upstream as it was sent, unless the requested name is an
  alias whose forced defaults set it; the model is the one the resolved backend expects.\<close>

theorem body_passes_through:
  assumes run: "chatCompletions s env now pu horizon r (BodyDecoded b) auth st = (a, auth', st')"
    and new: "st_sent st' = st_sent st @ us" "u \<in> set us"
    and conf: "\<forall>c. rs_config s = Some c \<longrightarrow> cg_backends c = []"
  shows "(\<exists>bk rb. resolved_as s bk rb \<and> ur_body u ''model'' = Some (JStr (rb_wireModel rb))) \<and>
    (k \<notin> {''model'', ''stream_options'', ''reasoning_effort'', ''chat_template_kwargs''} \<longrightarrow>
       ur_body u k = b k
       \<or> (\<exists>cat al v. rs_catalog s = Some cat \<and> ct_aliasByName cat (str_field ''model'' b) = Found al
            \<and> ma_defaults al k = Some v \<and> ur_body u k = Some v))"
  using run new
proof (rule chat_requests)
  fix i auth1 c m b0 bs b' cx st1
  assume b0: "BodyDecoded b = BodyDecoded b0" "m = str_field ''model'' b0" and c: "rs_config s = Some c"
    and o: "chain_origin s c m b0 bs b'" and w: "walk_request s b' bs cx u"
  from w obtain bk rb where u: "bk \<in> set bs" "resolved_as s bk rb" "ur_body u = backendBody s bk rb b'"
    unfolding walk_request_def sent_by_def by blast
  have m: "\<exists>bk rb. resolved_as s bk rb \<and> ur_body u ''model'' = Some (JStr (rb_wireModel rb))"
    using u by (auto simp: backendBody_def)
  have other: "k \<notin> {''model'', ''stream_options'', ''reasoning_effort'', ''chat_template_kwargs''} \<longrightarrow>
      ur_body u k = b' k" using u(3) backendBody_other [of k s bk rb b'] by simp
  from o conf c u(1) consider "b' = b0"
    | cat al where "rs_catalog s = Some cat" "ct_aliasByName cat m = Found al" "b' = mergeForcedDefaults b0 (ma_defaults al)"
    unfolding chain_origin_def by fastforce
  then show ?thesis
  proof cases
    case 1
    then show ?thesis using u(3) b0(1) m other by simp
  next
    case 2
    then show ?thesis using u(3) b0 m other forced_other by (cases "ma_defaults al k") (auto dest: forced_wins)
  qed
qed

theorem body_passes_through_witness:
  "ur_body (sample_sent ''kb'' ''glm-a'' ! 1) ''temperature'' = Some (JNum ''0.7'')"
proof (rule sample_chat_run)
  fix a auth' st'
  assume *: "chatCompletions (sample_router ''kb'') tailnet_env 0 (\<lambda>u. True) 0 sample_chat
       (BodyDecoded (sample_body ''glm-a'')) None sample_state = (a, auth', st')"
    "st_sent st' = st_sent sample_state @ sample_sent ''kb'' ''glm-a''"
    "sample_sent ''kb'' ''glm-a'' ! 1 \<in> set (sample_sent ''kb'' ''glm-a'')"
  show ?thesis using body_passes_through [OF *(1-3) sample_no_backends, of "''temperature''"]
    by (auto simp: sample_body_def sample_router_def sample_catalog_def)
qed

section \<open>Admission\<close>

lemma has_prefix_split: "has_prefix p x \<Longrightarrow> x = p @ drop (length p) x"
  unfolding has_prefix_def by (metis append_take_drop_id)


section \<open>The backend that answers\<close>

text \<open>What an upstream that answers by address alone gives for a resolved backend.\<close>

definition answerOf :: "(string \<Rightarrow> upstream_answer) \<Rightarrow> resolved_backend \<Rightarrow> nat option" where
  "answerOf F rb =
     (case F (rb_baseURL rb @ ''/chat/completions'') of
        Answered n x y \<Rightarrow> if n < 500 then Some n else None
      | TransportError \<Rightarrow>
          if rb_compressorFronted rb \<and> rb_directURL rb \<noteq> []
          then (case F (rb_directURL rb @ ''/chat/completions'') of
                  Answered n x y \<Rightarrow> if n < 500 then Some n else None | TransportError \<Rightarrow> None)
          else None)"

fun firstCommit :: "'w router_server \<Rightarrow> (string \<Rightarrow> upstream_answer) \<Rightarrow> backend list \<Rightarrow> (backend \<times> nat) option" where
  "firstCommit s F [] = None"
| "firstCommit s F (b # bs) =
     (case resolveRemote s b of
        Inl e \<Rightarrow> firstCommit s F bs
      | Inr rb \<Rightarrow> (case answerOf F rb of Some n \<Rightarrow> Some (b, n) | None \<Rightarrow> firstCommit s F bs))"

lemma same_world [simp]: "st\<lparr>st_world := st_world st\<rparr> = st"
  by simp

lemma gate_remote: "bk_kind b = ''remote'' \<Longrightarrow> gateBackend s cx b st = (None, st)"
  by (simp add: gateBackend_def slotGate_def probePort_def on_world_def)

lemma attempt_answer:
  assumes F: "\<forall>u w. rw_send (rs_ops s) u w = (F (ur_url u), w)" and url: "\<forall>x. cx_parsesURL cx x"
  shows "\<exists>cx' cl' st'. attemptBackend s b rb mb cx cl st = (answerOf F rb, cx', cl', st')
    \<and> (\<forall>x. cx_parsesURL cx' x) \<and> cx_model cx' = cx_model cx"
proof -
  have once: "\<exists>cl' st'. sendOnce s b rb mb t bypass cx0 cl0 st0 =
      (case F (t @ ''/chat/completions'') of
         Answered n x y \<Rightarrow> if n < 500 then Committed n else NextBackend
       | TransportError \<Rightarrow> if \<not> bypass \<and> rb_compressorFronted rb \<and> rb_directURL rb \<noteq> [] then Bypass else NextBackend,
       outgoing (rewriteRequest (cx_request cx0) rb mb t bypass) cx0, cl', st')"
    if "\<forall>x. cx_parsesURL cx0 x" for t bypass cx0 cl0 st0
    using that F by (cases "F (t @ ''/chat/completions'')") (auto simp: sendOnce_def send_def on_world_def Let_def)
  let ?cx1 = "outgoing (rewriteRequest (cx_request cx) rb mb (rb_baseURL rb) False) cx"
  have url1: "\<forall>x. cx_parsesURL ?cx1 x" using url by (simp add: outgoing_def)
  obtain cl1 st1 where 1: "sendOnce s b rb mb (rb_baseURL rb) False cx cl st =
      (case F (rb_baseURL rb @ ''/chat/completions'') of
         Answered n x y \<Rightarrow> if n < 500 then Committed n else NextBackend
       | TransportError \<Rightarrow> if \<not> False \<and> rb_compressorFronted rb \<and> rb_directURL rb \<noteq> [] then Bypass else NextBackend,
       ?cx1, cl1, st1)" using once [OF url] by blast
  obtain cl2 st2 where 2: "sendOnce s b rb mb (rb_directURL rb) True ?cx1 cl1 st1 =
      (case F (rb_directURL rb @ ''/chat/completions'') of
         Answered n x y \<Rightarrow> if n < 500 then Committed n else NextBackend
       | TransportError \<Rightarrow> if \<not> True \<and> rb_compressorFronted rb \<and> rb_directURL rb \<noteq> [] then Bypass else NextBackend,
       outgoing (rewriteRequest (cx_request ?cx1) rb mb (rb_directURL rb) True) ?cx1, cl2, st2)"
    using once [OF url1] by blast
  show ?thesis using url 1 2
    by (cases "F (rb_baseURL rb @ ''/chat/completions'')"; cases "F (rb_directURL rb @ ''/chat/completions'')")
       (auto simp: attemptBackend_def answerOf_def outgoing_def)
qed


lemma map_filter_remote: "\<forall>b\<in>set (List.map_filter (offeringBackend s) os). bk_kind b = ''remote''"
  by (auto simp: in_map_filter dest: offeringBackend_ok)


section \<open>What the code does besides\<close>

text \<open>
  The on-demand load of the walk asks for the name the client requested, not for the configuration
  the chain was resolved to: for an alias, a virtual model or a substitute these differ.
\<close>

lemma on_demand_asks_for_requested_name:
  assumes "rs_sched s" and "bk_kind b = ''foundry_slot''" and "bk_port b \<noteq> 0"
    and "slotForPort s (bk_port b) \<noteq> []"
    and "\<not> sp_healthy (fst (rw_probe (rs_ops s) (bk_port b) (healthTTL (server_cfg s)) (st_world st)))"
  shows "st_loads (snd (gateBackend s cx b st)) =
     st_loads st @ [loadRequest (cx_model cx) (requestedBy (cx_request cx)) (slotForPort s (bk_port b))]"
proof -
  obtain pr w1 where p: "rw_probe (rs_ops s) (bk_port b) (healthTTL (server_cfg s)) (st_world st) = (pr, w1)"
    by (metis surj_pair)
  then have g: "on_world (slotGate s b (busyMode s)) st = (GateUnhealthy, st\<lparr>st_world := w1\<rparr>)"
    using assms by (simp add: on_world_def slotGate_def probePort_def)
  obtain x st2 where a: "askLoad s (loadRequest (cx_model cx) (requestedBy (cx_request cx)) (slotForPort s (bk_port b)))
      (st\<lparr>st_world := w1\<rparr>) = (x, st2)" by (metis surj_pair)
  have "st_loads st2 = st_loads st @ [loadRequest (cx_model cx) (requestedBy (cx_request cx)) (slotForPort s (bk_port b))]"
    using askLoad_res [OF a] by simp
  then show ?thesis using assms g a
    by (auto simp: gateBackend_def ensureBackendLoaded_def probePort_def Let_def split: sum.splits prod.splits
        dest!: on_world_res)
qed

text \<open>
  An answer of 500 or more from a slot is recorded twice, once when it arrives and once by the
  error handler, so that two such requests within a minute raise the alert meant for three.
\<close>

lemma server_error_counts_twice:
  assumes "rw_send (rs_ops s) (rewriteRequest (cx_request cx) rb mb t bypass) (st_world st) = (Answered n x y, w)"
    and "n \<ge> 500" and "bk_kind b = ''foundry_slot''" and "cx_parsesURL cx (t @ ''/chat/completions'')"
  shows "st_errors (snd (snd (snd (sendOnce s b rb mb t bypass cx cl st)))) =
     recordSlotError (cx_now cx div nanos_per_second) (bk_port b)
       (recordSlotError (cx_now cx div nanos_per_second) (bk_port b) (st_errors st))"
  using assms by (simp add: sendOnce_def send_def on_world_def slotError_def Let_def)

lemma storm_after_two:
  assumes "port \<noteq> 0" and "es port = None"
  shows "fst (collectSlotErrorAlerts now [port]
     (recordSlotError now port (recordSlotError now port (recordSlotError now port (recordSlotError now port es))))) = [port]"
  using assms by (simp add: recordSlotError_def slotErrorCount_def windowOf_def maxSlotsErrorWindow_def)

end
