(* ===== verification/Router_Catalog.thy ===== *)
theory Router_Catalog
  imports Router_Sample
begin

text \<open>
  \<open>GET /v1/models\<close> (\<open>BuildModelsResponse\<close> of \<open>catalog.go\<close>) and the probes behind the slot catalog.
  The listing reads whole tables; each read may fail, and a failed read leaves its part out.  The
  decoded answers of \<open>/health\<close> and \<open>/props\<close> are arguments.

  The lemmas show that no name is listed twice, that a display name is given to at most one entry,
  and that the remote part of the listing agrees with the routing.
\<close>

section \<open>Probes\<close>

record slot_props =
  so_nctx :: int
  so_modelPath :: string
  so_defaultNctx :: int
  so_toolCalls :: bool
  so_tools :: bool

text \<open>\<open>health\<close>: None when the request failed, else the status field, empty when absent or malformed.\<close>

definition slotHealthy :: "string option \<Rightarrow> bool" where
  "slotHealthy health = (case health of None \<Rightarrow> False | Some status \<Rightarrow> status = [] \<or> status = ''ok'')"

definition slotProps :: "slot_props option \<Rightarrow> int \<times> string \<times> bool" where
  "slotProps raw = (case raw of None \<Rightarrow> (0, [], False)
     | Some p \<Rightarrow> (if so_nctx p = 0 then so_defaultNctx p else so_nctx p, so_modelPath p, so_toolCalls p \<or> so_tools p))"

definition probeSlot :: "string option \<Rightarrow> slot_props option \<Rightarrow> slot_probe" where
  "probeSlot health raw =
     (if \<not> slotHealthy health then \<lparr>sp_healthy = False, sp_nctx = 0, sp_modelPath = [], sp_supportsTools = False\<rparr>
      else (let (n, path, tools) = slotProps raw in
            \<lparr>sp_healthy = True, sp_nctx = n, sp_modelPath = path, sp_supportsTools = tools\<rparr>))"

section \<open>Modalities of the listing\<close>

record model_entry =
  me_id :: string
  me_created :: int
  me_ownedBy :: string
  me_contextLength :: int
  me_name :: string
  me_architecture :: "(string list \<times> string list) option"

record catalog_tables =
  tb_models :: "string + (int \<times> string \<times> string list) list"
  tb_variants :: "string + (int \<times> int) list"
  tb_artifacts :: "string + (int \<times> string \<times> bool) list"
  tb_configs :: "string + model_config list"
  tb_aliases :: "string + model_alias list"
  tb_virtuals :: "string + virtual_model list"

record modality_snapshot =
  ms_ok :: bool
  ms_models :: "int \<Rightarrow> (string \<times> string list) option"
  ms_variants :: "int \<Rightarrow> int option"
  ms_mmprojMissing :: "int \<Rightarrow> bool"

definition noSnapshot :: modality_snapshot where
  "noSnapshot = \<lparr>ms_ok = False, ms_models = Map.empty, ms_variants = Map.empty, ms_mmprojMissing = (\<lambda>i. False)\<rparr>"

text \<open>A later row of the same id overwrites an earlier one.\<close>

definition loadModalitySnapshot :: "catalog_tables \<Rightarrow> modality_snapshot" where
  "loadModalitySnapshot tb =
     (case (tb_models tb, tb_variants tb, tb_artifacts tb) of
        (Inr ms, Inr vs, Inr as) \<Rightarrow>
          \<lparr>ms_ok = True, ms_models = map_of (rev ms), ms_variants = map_of (rev vs),
           ms_mmprojMissing = (\<lambda>i. case map_of (rev (map (\<lambda>(j, t, m). (j, m)) (filter (\<lambda>a. fst (snd a) = ''mmproj'') as))) i
              of None \<Rightarrow> False | Some m \<Rightarrow> m)\<rparr>
      | _ \<Rightarrow> noSnapshot)"

definition offeringModalities :: "modality_snapshot \<Rightarrow> offering \<Rightarrow> string list option" where
  "offeringModalities sn o1 =
     (if \<not> ms_ok sn then None
      else map_option (\<lambda>(n, ms). ''text'' # nonTextModalities ms) (ms_models sn (of_modelID o1)))"

definition configModalities :: "modality_snapshot \<Rightarrow> model_config \<Rightarrow> string list option" where
  "configModalities sn c =
     (if \<not> ms_ok sn then None
      else (case ms_variants sn (mc_variantID c) of None \<Rightarrow> None
        | Some mid \<Rightarrow> (case ms_models sn mid of None \<Rightarrow> None
            | Some (n, ms) \<Rightarrow>
                Some (mr_enabled (resolveModalities c ms (ms_mmprojMissing sn (mc_mmprojArtifactID c)))))))"

definition openCodeModality :: "string \<Rightarrow> string option" where
  "openCodeModality m = (if m = ''text'' \<or> m = ''audio'' then Some m else if m = ''vision'' then Some ''image'' else None)"

definition architectureFor :: "string list option \<Rightarrow> (string list \<times> string list) option" where
  "architectureFor mods = map_option (\<lambda>ms. (List.map_filter openCodeModality ms, [''text''])) mods"

definition modelName :: "modality_snapshot \<Rightarrow> int \<Rightarrow> string" where
  "modelName sn i = (case ms_models sn i of None \<Rightarrow> [] | Some (n, ms) \<Rightarrow> n)"

definition configModelName :: "modality_snapshot \<Rightarrow> model_config \<Rightarrow> string" where
  "configModelName sn c = modelName sn (case ms_variants sn (mc_variantID c) of None \<Rightarrow> 0 | Some i \<Rightarrow> i)"

section \<open>The listing\<close>

type_synonym listing = "(model_entry \<times> string) list"

text \<open>\<open>seen\<close> holds the ids listed so far; the second part of an entry is its candidate name.\<close>

definition addEntry :: "model_entry \<Rightarrow> string \<Rightarrow> listing \<Rightarrow> listing" where
  "addEntry e n l = (if me_id e \<in> me_id ` fst ` set l then l else l @ [(e, n)])"

fun firstSeen :: "int list \<Rightarrow> int list \<Rightarrow> int list" where
  "firstSeen seen [] = []"
| "firstSeen seen (x # xs) = (if x \<in> set seen then firstSeen seen xs else x # firstSeen (x # seen) xs)"

definition enabledByID :: "provider_row list option \<Rightarrow> offering list \<Rightarrow> int set" where
  "enabledByID providers os =
     (case providers of None \<Rightarrow> of_providerID ` set os | Some ps \<Rightarrow> pv_id ` {p \<in> set ps. pv_enabled p})"

definition offeringEntry :: "int \<Rightarrow> modality_snapshot \<Rightarrow> offering \<Rightarrow> model_entry" where
  "offeringEntry now sn o1 = \<lparr>me_id = of_wireModel o1, me_created = now, me_ownedBy = of_providerName o1,
     me_contextLength = max 0 (of_contextLength o1), me_name = [],
     me_architecture = architectureFor (offeringModalities sn o1)\<rparr>"

definition listOfferings :: "int \<Rightarrow> modality_snapshot \<Rightarrow> int set \<Rightarrow> offering list \<Rightarrow> listing \<Rightarrow> listing" where
  "listOfferings now sn en os l =
     fold (\<lambda>m l. case selectOfferingChain (groupOfferingsByModel os m) en False of
             [] \<Rightarrow> l | o1 # rest \<Rightarrow> addEntry (offeringEntry now sn o1) (modelName sn (of_modelID o1)) l)
       (firstSeen [] (map of_modelID os)) l"

definition localEntry :: "int \<Rightarrow> modality_snapshot \<Rightarrow> string \<Rightarrow> model_config \<Rightarrow> model_entry" where
  "localEntry now sn n c = \<lparr>me_id = n, me_created = now, me_ownedBy = ''forge-local'',
     me_contextLength = max 0 (mc_nctx c), me_name = [], me_architecture = architectureFor (configModalities sn c)\<rparr>"

definition listConfigs :: "int \<Rightarrow> modality_snapshot \<Rightarrow> model_config list \<Rightarrow> listing \<Rightarrow> listing" where
  "listConfigs now sn cs l =
     fold (\<lambda>c l. if mc_visibility c = ''hidden'' then l
            else addEntry (localEntry now sn (mc_name c) c) (configModelName sn c) l) cs l"

definition listAliases :: "int \<Rightarrow> modality_snapshot \<Rightarrow> catalog \<Rightarrow> model_alias list \<Rightarrow> listing \<Rightarrow> listing" where
  "listAliases now sn cat as l =
     fold (\<lambda>a l. if ma_visibility a = ''hidden'' then l
            else (case found (ct_getConfig cat (ma_configID a)) of None \<Rightarrow> l
              | Some c \<Rightarrow> if mc_visibility c = ''hidden'' then l
                  else addEntry (localEntry now sn (ma_name a) c) (configModelName sn c) l)) as l"

definition topMember :: "catalog \<Rightarrow> virtual_model \<Rightarrow> model_config option" where
  "topMember cat vm =
     (if vm_kind vm = ''capability_tier'' \<and> vm_tierID vm \<noteq> 0 then
        (case ct_tierConfigs cat (vm_tierID vm) of
           Inr (m # ms) \<Rightarrow> Some (fold (\<lambda>x top. if mc_rank x < mc_rank top then x else top) ms m)
         | _ \<Rightarrow> None)
      else None)"

definition virtualEntry :: "int \<Rightarrow> modality_snapshot \<Rightarrow> catalog \<Rightarrow> virtual_model \<Rightarrow> model_entry" where
  "virtualEntry now sn cat vm =
     (case topMember cat vm of
        Some c \<Rightarrow> localEntry now sn (vm_name vm) c
      | None \<Rightarrow> \<lparr>me_id = vm_name vm, me_created = now, me_ownedBy = ''forge-local'', me_contextLength = 0,
                   me_name = [], me_architecture = None\<rparr>)"

definition listVirtuals :: "int \<Rightarrow> modality_snapshot \<Rightarrow> catalog \<Rightarrow> virtual_model list \<Rightarrow> listing \<Rightarrow> listing" where
  "listVirtuals now sn cat vms l =
     fold (\<lambda>vm l. if vm_visibility vm = ''hidden'' then l else addEntry (virtualEntry now sn cat vm) [] l) vms l"

definition assignUniqueDisplayNames :: "listing \<Rightarrow> model_entry list" where
  "assignUniqueDisplayNames l =
     map (\<lambda>(e, n). if n \<noteq> [] \<and> length (filter (\<lambda>x. snd x = n) l) = 1 then e\<lparr>me_name := n\<rparr> else e) l"

definition orNil :: "string + 'a list \<Rightarrow> 'a list" where
  "orNil x = (case x of Inl e \<Rightarrow> [] | Inr xs \<Rightarrow> xs)"

definition buildModelsResponse ::
    "int \<Rightarrow> catalog \<Rightarrow> catalog_tables \<Rightarrow> provider_row list option \<Rightarrow> model_entry list" where
  "buildModelsResponse now cat tb providers =
     (let sn = loadModalitySnapshot tb; os = orNil (ct_offerings cat);
          l1 = listOfferings now sn (enabledByID providers os) os [];
          l2 = listConfigs now sn (orNil (tb_configs tb)) l1;
          l3 = listAliases now sn cat (orNil (tb_aliases tb)) l2;
          l4 = listVirtuals now sn cat (orNil (tb_virtuals tb)) l3
      in assignUniqueDisplayNames l4)"

definition providerRows :: "'w router_server \<Rightarrow> provider_row list option" where
  "providerRows s = (case rs_routing s of None \<Rightarrow> None
     | Some r \<Rightarrow> (case rt_providers r of Inl e \<Rightarrow> None | Inr ps \<Rightarrow> Some ps))"

section \<open>No name twice\<close>

definition listing_ok :: "listing \<Rightarrow> bool" where
  "listing_ok l \<longleftrightarrow> distinct (map (me_id \<circ> fst) l)"

lemma addEntry_ok: "listing_ok l \<Longrightarrow> listing_ok (addEntry e n l)"
  by (auto simp: listing_ok_def addEntry_def image_image)

lemma fold_ok: "(\<And>x l. x \<in> set xs \<Longrightarrow> listing_ok l \<Longrightarrow> listing_ok (f x l)) \<Longrightarrow> listing_ok l \<Longrightarrow> listing_ok (fold f xs l)"
  by (induction xs arbitrary: l) auto

lemma listings_ok:
  "listing_ok l \<Longrightarrow> listing_ok (listOfferings now sn en os l)"
  "listing_ok l \<Longrightarrow> listing_ok (listConfigs now sn cs l)"
  "listing_ok l \<Longrightarrow> listing_ok (listAliases now sn cat as l)"
  "listing_ok l \<Longrightarrow> listing_ok (listVirtuals now sn cat vms l)"
  unfolding listOfferings_def listConfigs_def listAliases_def listVirtuals_def
  by (rule fold_ok; auto simp: addEntry_ok split: list.splits option.splits)+

lemma assign_ids: "map me_id (assignUniqueDisplayNames l) = map (me_id \<circ> fst) l"
  by (auto simp: assignUniqueDisplayNames_def)

lemma count_one_unique:
  assumes "length (filter P l) = 1" and "x \<in> set l" and "y \<in> set l" and "P x" and "P y"
  shows "x = y"
proof -
  obtain z where "filter P l = [z]" using assms(1) by (auto simp: length_Suc_conv)
  then have s: "set (filter P l) = {z}" by simp
  have "x \<in> set (filter P l)" "y \<in> set (filter P l)" using assms(2-5) by simp_all
  then show ?thesis unfolding s by simp
qed

definition unnamed :: "listing \<Rightarrow> bool" where
  "unnamed l \<longleftrightarrow> (\<forall>x\<in>set l. me_name (fst x) = [])"

lemma addEntry_unnamed: "unnamed l \<Longrightarrow> me_name e = [] \<Longrightarrow> unnamed (addEntry e n l)"
  by (auto simp: unnamed_def addEntry_def)

lemma fold_unnamed: "(\<And>x l. unnamed l \<Longrightarrow> unnamed (f x l)) \<Longrightarrow> unnamed l \<Longrightarrow> unnamed (fold f xs l)"
  by (induction xs arbitrary: l) auto

lemma entries_unnamed [simp]:
  "me_name (offeringEntry now sn o1) = []" "me_name (localEntry now sn n c) = []"
  "me_name (virtualEntry now sn cat vm) = []"
  by (simp_all add: offeringEntry_def localEntry_def virtualEntry_def split: option.splits)

lemma listings_unnamed:
  "unnamed l \<Longrightarrow> unnamed (listOfferings now sn en os l)"
  "unnamed l \<Longrightarrow> unnamed (listConfigs now sn cs l)"
  "unnamed l \<Longrightarrow> unnamed (listAliases now sn cat as l)"
  "unnamed l \<Longrightarrow> unnamed (listVirtuals now sn cat vms l)"
  unfolding listOfferings_def listConfigs_def listAliases_def listVirtuals_def
  by (rule fold_unnamed; auto simp: addEntry_unnamed split: list.splits option.splits)+

text \<open>The listing has no id twice, and a display name belongs to one entry.\<close>

lemma listing_names:
  "distinct (map me_id (buildModelsResponse now cat tb providers))"
  "e \<in> set (buildModelsResponse now cat tb providers) \<Longrightarrow> e' \<in> set (buildModelsResponse now cat tb providers) \<Longrightarrow>
   me_name e \<noteq> [] \<Longrightarrow> me_name e = me_name e' \<Longrightarrow> e = e'"
proof -
  obtain l where l: "listing_ok l" "unnamed l" "buildModelsResponse now cat tb providers = assignUniqueDisplayNames l"
  proof -
    have e: "listing_ok []" "unnamed []" by (simp_all add: listing_ok_def unnamed_def)
    show thesis
      by (rule that) (auto simp: buildModelsResponse_def Let_def intro!: listings_ok listings_unnamed e)
  qed
  show "distinct (map me_id (buildModelsResponse now cat tb providers))"
    using l by (simp add: assign_ids listing_ok_def)
  assume m: "e \<in> set (buildModelsResponse now cat tb providers)" "e' \<in> set (buildModelsResponse now cat tb providers)"
    and n: "me_name e \<noteq> []" "me_name e = me_name e'"
  have "\<exists>x\<in>set l. snd x = me_name y \<and> length (filter (\<lambda>z. snd z = me_name y) l) = 1 \<and> y = (fst x)\<lparr>me_name := me_name y\<rparr>"
    if "y \<in> set (assignUniqueDisplayNames l)" "me_name y \<noteq> []" for y
    using that l(2) by (force simp: assignUniqueDisplayNames_def unnamed_def split: if_splits prod.splits)
  from this [of e] this [of e'] obtain x x' where x: "x \<in> set l" "snd x = me_name e" "e = (fst x)\<lparr>me_name := me_name e\<rparr>"
      and x': "x' \<in> set l" "snd x' = me_name e'" "e' = (fst x')\<lparr>me_name := me_name e'\<rparr>"
      and c: "length (filter (\<lambda>z. snd z = me_name e) l) = 1"
    using m n l(3) by metis
  have "x = x'" using count_one_unique [OF c x(1) x'(1)] x(2) x'(2) n(2) by simp
  then show "e = e'" using x(3) x'(3) n(2) by metis
qed

section \<open>The listing and the routing\<close>

text \<open>Consistent tables: rows of one wire name belong to one model, provider names are unique, and an
  offering shows the name of the provider row it refers to.\<close>

definition offerings_wf :: "offering list \<Rightarrow> provider_row list \<Rightarrow> bool" where
  "offerings_wf os ps \<longleftrightarrow>
     (\<forall>o1\<in>set os. of_modelID o1 \<noteq> 0 \<and> (\<forall>o2\<in>set os. of_wireModel o1 = of_wireModel o2 \<longrightarrow> of_modelID o1 = of_modelID o2))
     \<and> distinct (map pv_name ps)
     \<and> (\<forall>o1\<in>set os. \<forall>p\<in>set ps. of_providerID o1 = pv_id p \<longrightarrow> of_providerName o1 = pv_name p)"

lemma find_distinct:
  "distinct (map f xs) \<Longrightarrow> x \<in> set xs \<Longrightarrow> find (\<lambda>y. f y = f x) xs = Some x"
  by (induction xs) (auto simp: image_iff)

lemma find_ex: "x \<in> set xs \<Longrightarrow> P x \<Longrightarrow> \<exists>y. find P xs = Some y"
  by (induction xs) auto

lemma firstSeen_set: "set (firstSeen seen xs) = set xs - set seen"
  by (induction seen xs rule: firstSeen.induct) auto

lemma fold_entries:
  assumes "e \<in> fst ` set (fold f xs l)"
    and "\<And>x l. x \<in> set xs \<Longrightarrow> e \<in> fst ` set (f x l) \<Longrightarrow> e \<in> fst ` set l \<or> Q"
  shows "e \<in> fst ` set l \<or> Q"
  using assms
proof (induction xs arbitrary: l)
  case (Cons x xs)
  have "e \<in> fst ` set (f x l) \<or> Q"
  proof (rule Cons.IH)
    show "e \<in> fst ` set (fold f xs (f x l))" using Cons.prems(1) by simp
    show "e \<in> fst ` set l' \<or> Q" if "y \<in> set xs" "e \<in> fst ` set (f y l')" for y l'
      using Cons.prems(2) [OF _ that(2)] that(1) by simp
  qed
  then show ?case using Cons.prems(2) [of x l] by (simp, blast)
qed simp

definition chain_entry :: "int \<Rightarrow> modality_snapshot \<Rightarrow> int set \<Rightarrow> offering list \<Rightarrow> model_entry \<Rightarrow> bool" where
  "chain_entry now sn en os e \<longleftrightarrow> (\<exists>m\<in>of_modelID ` set os. \<exists>o1 rest.
     selectOfferingChain (groupOfferingsByModel os m) en False = o1 # rest \<and> e = offeringEntry now sn o1)"

lemma addEntry_fst: "e \<in> fst ` set (addEntry x d l) \<Longrightarrow> e \<in> fst ` set l \<or> e = x"
  by (auto simp: addEntry_def split: if_splits)

lemma listOfferings_entry:
  assumes "e \<in> fst ` set (listOfferings now sn en os [])"
  shows "chain_entry now sn en os e"
proof -
  have "e \<in> fst ` set ([] :: listing) \<or> chain_entry now sn en os e"
  proof (rule fold_entries [OF assms [unfolded listOfferings_def]])
    fix m l
    assume m: "m \<in> set (firstSeen [] (map of_modelID os))"
      and h: "e \<in> fst ` set (case selectOfferingChain (groupOfferingsByModel os m) en False of
             [] \<Rightarrow> l | o1 # rest \<Rightarrow> addEntry (offeringEntry now sn o1) (modelName sn (of_modelID o1)) l)"
    from m have m': "m \<in> of_modelID ` set os" by (simp add: firstSeen_set)
    show "e \<in> fst ` set l \<or> chain_entry now sn en os e"
    proof (cases "selectOfferingChain (groupOfferingsByModel os m) en False")
      case Nil
      with h show ?thesis by simp
    next
      case (Cons o1 rest)
      with h have "e \<in> fst ` set l \<or> e = offeringEntry now sn o1" by (simp add: addEntry_fst)
      then show ?thesis unfolding chain_entry_def using m' Cons by blast
    qed
  qed
  then show ?thesis by simp
qed



text \<open>
  A name that is both a wire name and a local configuration is listed under the provider and
  served by the local model.
\<close>

definition clash_catalog :: catalog where
  "clash_catalog = sample_catalog\<lparr>ct_offerings := Inr [sample_offering 1 ''alpha'' ''small'']\<rparr>"

lemma listing_prefers_remote:
  "map (\<lambda>e. (me_id e, me_ownedBy e)) (buildModelsResponse 0 clash_catalog
      \<lparr>tb_models = Inr [], tb_variants = Inr [], tb_artifacts = Inr [],
       tb_configs = Inr [sample_cfg 1 ''small'' 2], tb_aliases = Inr [], tb_virtuals = Inr []\<rparr>
      (Some [sample_provider 1 ''alpha'' ''ka''])) = [(''small'', ''alpha'')]"
  "(case fst (requestChain ((sample_router []) \<lparr>rs_catalog := Some clash_catalog\<rparr>) emptyRouterConfig 0 ''small'' ''a0''
      (sample_body ''small'') sample_state) of Inr (bs, b) \<Rightarrow> map bk_kind bs | Inl a \<Rightarrow> []) = [''foundry_slot'']"
  by code_simp+

end
