(* ===== verification/Router_Static.thy ===== *)
theory Router_Static
  imports Router_Proxy
begin

text \<open>
  The passthroughs with one fixed upstream (\<open>embeddings.go\<close>, \<open>speech.go\<close>).  \<open>parseBase\<close> is \<open>url.Parse\<close> of a configured address: its origin and its path,
  None when it has no host.
\<close>

record static_request =
  sr_url :: string
  sr_header :: "string \<Rightarrow> string"
  sr_deadline :: "duration option"

datatype static_answer = StaticRefused nat string | StaticRelayed nat

datatype static_plan = Stop static_answer | Forward static_request

definition deadlineOf :: "'w router_server \<Rightarrow> duration option" where
  "deadlineOf s = (if requestTimeout (server_cfg s) > 0 then Some (requestTimeout (server_cfg s)) else None)"

definition staticTarget ::
    "(string \<Rightarrow> (string \<times> string) option) \<Rightarrow> string \<Rightarrow> string \<Rightarrow> string option" where
  "staticTarget parseBase base sfx =
     (case parseBase base of None \<Rightarrow> None
      | Some (origin, path) \<Rightarrow> Some (origin @ trimRight (CHR ''/'') path @ sfx))"

text \<open>The embeddings handler hands the inbound request to the proxy, not the one with the deadline.\<close>

definition planEmbeddings ::
    "'w router_server \<Rightarrow> (string \<Rightarrow> (string \<times> string) option) \<Rightarrow> identity option \<Rightarrow> http_request \<Rightarrow> static_plan" where
  "planEmbeddings s parseBase who r =
     (if who = None then Stop (StaticRefused 401 ''Authentication required'')
      else
        (let base = cg_embeddingURL (server_cfg s) in
         if base = [] then Stop (StaticRefused 503 ''embeddings passthrough not configured'')
         else (case staticTarget parseBase base ''/embeddings'' of
                 None \<Rightarrow> Stop (StaticRefused 500 ''bad embedding_url'')
               | Some u \<Rightarrow> Forward \<lparr>sr_url = u, sr_header = rq_header r, sr_deadline = None\<rparr>)))"

definition planSpeech ::
    "'w router_server \<Rightarrow> (string \<Rightarrow> (string \<times> string) option) \<Rightarrow> string \<Rightarrow> identity option \<Rightarrow> http_request
     \<Rightarrow> static_plan" where
  "planSpeech s parseBase sfx who r =
     (if who = None then Stop (StaticRefused 401 ''Authentication required'')
      else
        (let base = cg_ttsURL (server_cfg s) in
         if base = [] then Stop (StaticRefused 503 ''TTS passthrough not configured'')
         else (case staticTarget parseBase base sfx of
                 None \<Rightarrow> Stop (StaticRefused 500 ''bad tts_url'')
               | Some u \<Rightarrow> Forward \<lparr>sr_url = u,
                   sr_header = (rq_header r)(''X-Forge-Internal-Token'' := []), sr_deadline = deadlineOf s\<rparr>)))"

text \<open>The upstream's answer: None is a transport error.  The second part is the audited label.\<close>

definition relayStatic :: "string \<Rightarrow> static_plan \<Rightarrow> (static_request \<Rightarrow> nat option) \<Rightarrow> static_answer \<times> string option" where
  "relayStatic unreachable p upstream =
     (case p of Stop a \<Rightarrow> (a, None)
      | Forward q \<Rightarrow>
        (case upstream q of None \<Rightarrow> (StaticRefused 502 unreachable, Some ''upstream_error'')
         | Some n \<Rightarrow> (StaticRelayed n, Some (if n \<ge> 400 then ''4xx'' else ''ok''))))"

definition embeddings ::
    "'w router_server \<Rightarrow> auth_env \<Rightarrow> time \<Rightarrow> (string \<Rightarrow> (string \<times> string) option) \<Rightarrow> (static_request \<Rightarrow> nat option)
     \<Rightarrow> http_request \<Rightarrow> authorizer option \<Rightarrow> (static_answer \<times> string option) \<times> authorizer option" where
  "embeddings s env now parseBase upstream r auth =
     (let (who, auth1) = checkAuth env now r auth in
      (relayStatic ''embedding upstream unreachable'' (planEmbeddings s parseBase who r) upstream, auth1))"

definition speechProxy ::
    "'w router_server \<Rightarrow> auth_env \<Rightarrow> time \<Rightarrow> (string \<Rightarrow> (string \<times> string) option) \<Rightarrow> (static_request \<Rightarrow> nat option)
     \<Rightarrow> string \<Rightarrow> http_request \<Rightarrow> authorizer option \<Rightarrow> (static_answer \<times> string option) \<times> authorizer option" where
  "speechProxy s env now parseBase upstream sfx r auth =
     (let (who, auth1) = checkAuth env now r auth in
      (relayStatic ''tts upstream unreachable'' (planSpeech s parseBase sfx who r) upstream, auth1))"

section \<open>Lemmas\<close>

text \<open>A client cannot smuggle the internal token to the speech service.\<close>

lemma speech_token_stripped:
  "planSpeech s parseBase sfx who r = Forward q \<Longrightarrow> sr_header q ''X-Forge-Internal-Token'' = []"
  by (auto simp: planSpeech_def Let_def split: if_splits option.splits)

text \<open>The configured request timeout bounds the speech service but not the embedding service.\<close>

lemma embeddings_unbounded:
  "planEmbeddings s parseBase who r = Forward q \<Longrightarrow> sr_deadline q = None"
  "planSpeech s parseBase sfx who r = Forward q' \<Longrightarrow> 0 < requestTimeout (server_cfg s) \<Longrightarrow>
   sr_deadline q' = Some (requestTimeout (server_cfg s))"
  by (auto simp: planEmbeddings_def planSpeech_def deadlineOf_def Let_def split: if_splits option.splits)

lemma static_needs_admission:
  "planEmbeddings s parseBase None r = Stop (StaticRefused 401 ''Authentication required'')"
  "planSpeech s parseBase sfx None r = Stop (StaticRefused 401 ''Authentication required'')"
  by (simp_all add: planEmbeddings_def planSpeech_def)

end
