(* ===== verification/Gguf.thy ===== *)
theory Gguf
  imports Engine_State "HOL-Library.Word"
begin

unbundle bit_operations_syntax

text \<open>
  The reader of GGUF headers (\<open>internal/gguf/gguf.go\<close>).  A file is a list of bytes and a reader
  takes a prefix of it, or fails; integers keep their widths, and the conversions between
  \<open>uint64\<close> and \<open>int64\<close> are those of words.  The conversions of floats to integers are parameters.
  A call of \<open>skipValue\<close> on a nested array recurses; the number of stack frames it may use is an
  argument, and running out of them is an error of its own.
\<close>

section \<open>Readers\<close>

type_synonym byte = "8 word"

datatype gguf_error =
    UnexpectedEOF
  | NotGguf
  | UnsupportedVersion
  | Implausible
  | TooLong
  | WrongType
  | StackExhausted
  | PanicMakeSlice

type_synonym 'a reader = "byte list \<Rightarrow> gguf_error + 'a \<times> byte list"

definition done_with :: "'a \<Rightarrow> 'a reader" where
  "done_with x bs = Inr (x, bs)"

definition fail_with :: "gguf_error \<Rightarrow> 'a reader" where
  "fail_with e bs = Inl e"

definition andThen :: "'a reader \<Rightarrow> ('a \<Rightarrow> 'b reader) \<Rightarrow> 'b reader" where
  "andThen p f bs = (case p bs of Inl e \<Rightarrow> Inl e | Inr (x, r) \<Rightarrow> f x r)"

primrec repeatR :: "nat \<Rightarrow> unit reader \<Rightarrow> unit reader" where
  "repeatR 0 p = done_with ()"
| "repeatR (Suc n) p = andThen p (\<lambda>_. repeatR n p)"

primrec collectR :: "nat \<Rightarrow> 'a reader \<Rightarrow> 'a list reader" where
  "collectR 0 p = done_with []"
| "collectR (Suc n) p = andThen p (\<lambda>x. andThen (collectR n p) (\<lambda>xs. done_with (x # xs)))"

text \<open>\<open>io.ReadFull\<close>, \<open>binary.Read\<close> and \<open>io.CopyN\<close> fail when the file is too short.\<close>

definition takeBytes :: "nat \<Rightarrow> byte list reader" where
  "takeBytes n bs = (if length bs < n then Inl UnexpectedEOF else Inr (take n bs, drop n bs))"

definition discard :: "nat \<Rightarrow> unit reader" where
  "discard n = andThen (takeBytes n) (\<lambda>_. done_with ())"

primrec le :: "byte list \<Rightarrow> 'a::len word" where
  "le [] = 0"
| "le (b # bs) = ucast b OR push_bit 8 (le bs)"

definition read32 :: "32 word reader" where
  "read32 = andThen (takeBytes 4) (\<lambda>b. done_with (le b))"

definition read64 :: "64 word reader" where
  "read64 = andThen (takeBytes 8) (\<lambda>b. done_with (le b))"

section \<open>Values\<close>

record gguf_env =
  ge_fileSize :: int
  ge_f32 :: "32 word \<Rightarrow> 64 word"
  ge_f64 :: "64 word \<Rightarrow> 64 word"

definition scalarSize :: "32 word \<Rightarrow> nat option" where
  "scalarSize t =
     (if t \<in> {0, 1, 7} then Some 1 else if t \<in> {2, 3} then Some 2 else if t \<in> {4, 5, 6} then Some 4
      else if t \<in> {10, 11, 12} then Some 8 else None)"

definition maxKVCount :: "64 word" where
  "maxKVCount = 2 ^ 20"

definition maxKeptString :: "64 word" where
  "maxKeptString = 2 ^ 16"

definition maxLayerArray :: "64 word" where
  "maxLayerArray = 8192"

text \<open>The check of a declared length: \<open>int64(n) < 0 || int64(n) > fileSize\<close>.\<close>

definition tooLong :: "gguf_env \<Rightarrow> 64 word \<Rightarrow> bool" where
  "tooLong env n \<longleftrightarrow> sint n < 0 \<or> sint n > ge_fileSize env"

definition chars :: "byte list \<Rightarrow> string" where
  "chars bs = map (\<lambda>b. char_of (unat b)) bs"

definition readString :: "gguf_env \<Rightarrow> string reader" where
  "readString env = andThen read64 (\<lambda>n.
     if tooLong env n then fail_with TooLong
     else if n > maxKeptString then andThen (discard (unat n)) (\<lambda>_. done_with [])
     else andThen (takeBytes (unat n)) (\<lambda>b. done_with (chars b)))"

definition readTypedString :: "gguf_env \<Rightarrow> 32 word \<Rightarrow> string reader" where
  "readTypedString env vt = (if vt \<noteq> 8 then fail_with WrongType else readString env)"

definition uintOf :: "gguf_env \<Rightarrow> 32 word \<Rightarrow> byte list \<Rightarrow> 64 word" where
  "uintOf env vt b =
     (if vt = 0 then ucast (le b :: 8 word) else if vt = 1 then scast (le b :: 8 word)
      else if vt = 2 then ucast (le b :: 16 word) else if vt = 3 then scast (le b :: 16 word)
      else if vt = 4 then ucast (le b :: 32 word) else if vt = 5 then scast (le b :: 32 word)
      else if vt = 6 then ge_f32 env (le b) else if vt = 12 then ge_f64 env (le b)
      else le b)"

definition readTypedUint :: "gguf_env \<Rightarrow> 32 word \<Rightarrow> 64 word reader" where
  "readTypedUint env vt =
     (case scalarSize vt of None \<Rightarrow> fail_with WrongType
      | Some k \<Rightarrow> if vt = 7 then fail_with WrongType
          else andThen (takeBytes k) (\<lambda>b. done_with (uintOf env vt b)))"

definition readUintOrArray :: "gguf_env \<Rightarrow> 32 word \<Rightarrow> int list reader" where
  "readUintOrArray env vt =
     (if vt \<noteq> 9 then andThen (readTypedUint env vt) (\<lambda>u. done_with [sint u])
      else andThen read32 (\<lambda>et. andThen read64 (\<lambda>count.
        if count > maxLayerArray then fail_with Implausible
        else (case scalarSize et of None \<Rightarrow> fail_with WrongType
          | Some k \<Rightarrow> if et = 7 then fail_with WrongType
              else if sint (count * of_nat k) > ge_fileSize env then fail_with TooLong
              else andThen (collectR (unat count) (readTypedUint env et)) (\<lambda>us. done_with (map sint us))))))"

definition readBoolArray :: "gguf_env \<Rightarrow> 32 word \<Rightarrow> bool list reader" where
  "readBoolArray env vt =
     (if vt \<noteq> 9 then fail_with WrongType
      else andThen read32 (\<lambda>et.
        if et \<noteq> 7 then fail_with WrongType
        else andThen read64 (\<lambda>count.
          if count > maxLayerArray \<or> sint count > ge_fileSize env then fail_with Implausible
          else collectR (unat count) (andThen (takeBytes 1) (\<lambda>b. done_with (b \<noteq> [0]))))))"

definition readStringLenSkip :: "gguf_env \<Rightarrow> unit reader" where
  "readStringLenSkip env = andThen read64 (\<lambda>n.
     if tooLong env n then fail_with TooLong else discard (unat n))"

text \<open>
  The array branch of \<open>skipValue\<close>.  The product of the count and the element size is one of
  \<open>int64\<close> values and wraps around.
\<close>

primrec skipArray :: "nat \<Rightarrow> gguf_env \<Rightarrow> unit reader" where
  "skipArray 0 env = fail_with StackExhausted"
| "skipArray (Suc d) env = andThen read32 (\<lambda>et. andThen read64 (\<lambda>count.
     case scalarSize et of
       Some k \<Rightarrow> (let total = sint (count * of_nat k) in
         if total < 0 \<or> total > ge_fileSize env then fail_with TooLong else discard (nat total))
     | None \<Rightarrow>
         if et = 8 then
           (if tooLong env count then fail_with Implausible else repeatR (unat count) (readStringLenSkip env))
         else if et = 9 then
           (if tooLong env count then fail_with Implausible else repeatR (unat count) (skipArray d env))
         else fail_with WrongType))"

definition skipValue :: "nat \<Rightarrow> gguf_env \<Rightarrow> 32 word \<Rightarrow> unit reader" where
  "skipValue d env vt =
     (case scalarSize vt of Some k \<Rightarrow> discard k
      | None \<Rightarrow> if vt = 8 then readStringLenSkip env
          else if vt = 9 then skipArray d env else fail_with WrongType)"

section \<open>The key-value section\<close>

record arch_attn =
  aa_blockCount :: int
  aa_embedding :: int
  aa_headCount :: int
  aa_headCountKV :: "int list"
  aa_keyLength :: int
  aa_valueLength :: int
  aa_keyLengthSWA :: int
  aa_valueLengthSWA :: int
  aa_slidingWindow :: int
  aa_swaPattern :: "bool list"

definition noAttn :: arch_attn where
  "noAttn = \<lparr>aa_blockCount = 0, aa_embedding = 0, aa_headCount = 0, aa_headCountKV = [], aa_keyLength = 0,
     aa_valueLength = 0, aa_keyLengthSWA = 0, aa_valueLengthSWA = 0, aa_slidingWindow = 0, aa_swaPattern = []\<rparr>"

text \<open>The local variables of \<open>readAll\<close>.\<close>

record gguf_scan =
  gs_architecture :: string
  gs_name :: string
  gs_parameterCount :: int
  gs_hybrid :: bool
  gs_ctx :: "string \<rightharpoonup> 64 word"
  gs_attn :: "string \<rightharpoonup> arch_attn"
  gs_fileType :: "64 word option"

definition emptyScan :: gguf_scan where
  "emptyScan = \<lparr>gs_architecture = [], gs_name = [], gs_parameterCount = 0, gs_hybrid = False,
     gs_ctx = Map.empty, gs_attn = Map.empty, gs_fileType = None\<rparr>"

definition stage :: "string \<Rightarrow> string \<Rightarrow> (arch_attn \<Rightarrow> arch_attn) \<Rightarrow> gguf_scan \<Rightarrow> gguf_scan" where
  "stage key sfx f sc =
     (let arch = take (length key - length sfx) key;
          a = (case gs_attn sc arch of None \<Rightarrow> noAttn | Some a \<Rightarrow> a)
      in sc\<lparr>gs_attn := (gs_attn sc)(arch \<mapsto> f a)\<rparr>)"

text \<open>The integer keys of an architecture in the order of the switch, with what they set.\<close>

definition attnKey :: "string \<Rightarrow> (string \<times> (int \<Rightarrow> arch_attn \<Rightarrow> arch_attn)) option" where
  "attnKey key =
     (if suffix ''.block_count'' key then Some (''.block_count'', \<lambda>u a. a\<lparr>aa_blockCount := u\<rparr>)
      else if suffix ''.embedding_length'' key then Some (''.embedding_length'', \<lambda>u a. a\<lparr>aa_embedding := u\<rparr>)
      else if suffix ''.attention.head_count'' key then Some (''.attention.head_count'', \<lambda>u a. a\<lparr>aa_headCount := u\<rparr>)
      else if suffix ''.attention.key_length_swa'' key then Some (''.attention.key_length_swa'', \<lambda>u a. a\<lparr>aa_keyLengthSWA := u\<rparr>)
      else if suffix ''.attention.value_length_swa'' key then Some (''.attention.value_length_swa'', \<lambda>u a. a\<lparr>aa_valueLengthSWA := u\<rparr>)
      else if suffix ''.attention.key_length'' key then Some (''.attention.key_length'', \<lambda>u a. a\<lparr>aa_keyLength := u\<rparr>)
      else if suffix ''.attention.value_length'' key then Some (''.attention.value_length'', \<lambda>u a. a\<lparr>aa_valueLength := u\<rparr>)
      else if suffix ''.attention.sliding_window'' key then Some (''.attention.sliding_window'', \<lambda>u a. a\<lparr>aa_slidingWindow := u\<rparr>)
      else None)"

datatype gguf_key =
    KeyArchitecture | KeyName | KeyFileType | KeyParameterCount | KeyContext
  | KeyHeadCountKV | KeyPattern | KeyAttn string "int \<Rightarrow> arch_attn \<Rightarrow> arch_attn" | KeyOther

definition classify :: "string \<Rightarrow> gguf_key" where
  "classify key =
     (if key = ''general.architecture'' then KeyArchitecture
      else if key = ''general.name'' then KeyName
      else if key = ''general.file_type'' then KeyFileType
      else if key = ''general.parameter_count'' then KeyParameterCount
      else if suffix ''.context_length'' key then KeyContext
      else if suffix ''.attention.head_count_kv'' key then KeyHeadCountKV
      else if suffix ''.attention.sliding_window_pattern'' key then KeyPattern
      else (case attnKey key of Some (sfx, f) \<Rightarrow> KeyAttn sfx f | None \<Rightarrow> KeyOther))"

definition noteContext :: "string \<Rightarrow> 64 word \<Rightarrow> gguf_scan \<Rightarrow> gguf_scan" where
  "noteContext key u sc =
     sc\<lparr>gs_ctx := (gs_ctx sc)(take (length key - length ''.context_length'') key \<mapsto> u)\<rparr>"

definition readKnown :: "gguf_env \<Rightarrow> nat \<Rightarrow> string \<Rightarrow> 32 word \<Rightarrow> gguf_scan \<Rightarrow> gguf_scan reader" where
  "readKnown env d key vt sc =
     (case classify key of
        KeyArchitecture \<Rightarrow> andThen (readTypedString env vt) (\<lambda>s. done_with (sc\<lparr>gs_architecture := s\<rparr>))
      | KeyName \<Rightarrow> andThen (readTypedString env vt) (\<lambda>s. done_with (sc\<lparr>gs_name := s\<rparr>))
      | KeyFileType \<Rightarrow> andThen (readTypedUint env vt) (\<lambda>u. done_with (sc\<lparr>gs_fileType := Some u\<rparr>))
      | KeyParameterCount \<Rightarrow> andThen (readTypedUint env vt) (\<lambda>u. done_with (sc\<lparr>gs_parameterCount := sint u\<rparr>))
      | KeyContext \<Rightarrow> andThen (readTypedUint env vt) (\<lambda>u. done_with (noteContext key u sc))
      | KeyHeadCountKV \<Rightarrow> andThen (readUintOrArray env vt) (\<lambda>us.
          done_with (stage key ''.attention.head_count_kv'' (\<lambda>a. a\<lparr>aa_headCountKV := us\<rparr>) sc))
      | KeyPattern \<Rightarrow> andThen (readBoolArray env vt) (\<lambda>bs.
          done_with (stage key ''.attention.sliding_window_pattern'' (\<lambda>a. a\<lparr>aa_swaPattern := bs\<rparr>) sc))
      | KeyAttn sfx f \<Rightarrow> andThen (readTypedUint env vt) (\<lambda>u. done_with (stage key sfx (f (sint u)) sc))
      | KeyOther \<Rightarrow> andThen (skipValue d env vt) (\<lambda>_. done_with sc))"

definition isHybridKey :: "string \<Rightarrow> bool" where
  "isHybridKey key \<longleftrightarrow> contains ''.ssm.'' key \<or> contains ''.attention.indexer.'' key"

definition readPair :: "gguf_env \<Rightarrow> nat \<Rightarrow> gguf_scan \<Rightarrow> gguf_scan reader" where
  "readPair env d sc = andThen (readString env) (\<lambda>key. andThen read32 (\<lambda>vt.
     readKnown env d key vt (if isHybridKey key then sc\<lparr>gs_hybrid := True\<rparr> else sc)))"

primrec readPairs :: "gguf_env \<Rightarrow> nat \<Rightarrow> nat \<Rightarrow> gguf_scan \<Rightarrow> gguf_scan reader" where
  "readPairs env d 0 sc = done_with sc"
| "readPairs env d (Suc n) sc = andThen (readPair env d sc) (readPairs env d n)"

definition readHeader :: "64 word reader" where
  "readHeader = andThen read32 (\<lambda>magic.
     if magic \<noteq> 0x46554747 then fail_with NotGguf
     else andThen read32 (\<lambda>version.
       if version < 2 \<or> version > 3 then fail_with UnsupportedVersion
       else andThen read64 (\<lambda>tensors. andThen read64 (\<lambda>kvCount.
         if kvCount > maxKVCount then fail_with Implausible else done_with kvCount))))"

section \<open>The metadata\<close>

record gguf_file = gguf_meta +
  gf_architecture :: string
  gf_name :: string
  gf_trainedCtx :: int
  gf_parameterCount :: int
  gf_quantType :: string
  gf_fileSize :: int

definition fileTypeNames :: "(nat \<times> string) list" where
  "fileTypeNames = [(0, ''F32''), (1, ''F16''), (2, ''Q4_0''), (3, ''Q4_1''), (7, ''Q8_0''), (8, ''Q5_0''),
     (9, ''Q5_1''), (10, ''Q2_K''), (11, ''Q3_K_S''), (12, ''Q3_K_M''), (13, ''Q3_K_L''), (14, ''Q4_K_S''),
     (15, ''Q4_K_M''), (16, ''Q5_K_S''), (17, ''Q5_K_M''), (18, ''Q6_K''), (19, ''IQ2_XXS''), (20, ''IQ2_XS''),
     (21, ''Q2_K_S''), (22, ''IQ3_XS''), (23, ''IQ3_XXS''), (24, ''IQ1_S''), (25, ''IQ4_NL''), (26, ''IQ3_S''),
     (27, ''IQ3_M''), (28, ''IQ2_S''), (29, ''IQ2_M''), (30, ''IQ4_XS''), (31, ''IQ1_M''), (32, ''BF16'')]"

definition trainedCtx :: "gguf_scan \<Rightarrow> int" where
  "trainedCtx sc = (case gs_ctx sc (gs_architecture sc) of Some u \<Rightarrow> sint u
     | None \<Rightarrow> (case gs_ctx sc ''llama'' of Some u \<Rightarrow> sint u | None \<Rightarrow> 0))"

definition quantType :: "(64 word \<Rightarrow> string) \<Rightarrow> gguf_scan \<Rightarrow> string" where
  "quantType unknown sc = (case gs_fileType sc of None \<Rightarrow> []
     | Some u \<Rightarrow> (case map_of fileTypeNames (unat u) of Some n \<Rightarrow> n | None \<Rightarrow> unknown u))"

text \<open>\<open>make\<close> panics when a slice of that many words cannot be in the address space.\<close>

definition maxSliceWords :: int where
  "maxSliceWords = 2 ^ 45"

definition headCountKV :: "arch_attn \<Rightarrow> gguf_error + int list" where
  "headCountKV a =
     (if length (aa_headCountKV a) = 1 \<and> aa_blockCount a > 0 then
        (if aa_blockCount a > maxSliceWords then Inl PanicMakeSlice
         else Inr (replicate (nat (aa_blockCount a)) (hd (aa_headCountKV a))))
      else if int (length (aa_headCountKV a)) = aa_blockCount a \<and> aa_blockCount a > 0 then Inr (aa_headCountKV a)
      else Inr [])"

definition swaPattern :: "arch_attn \<Rightarrow> bool list" where
  "swaPattern a = (if int (length (aa_swaPattern a)) = aa_blockCount a \<and> aa_blockCount a > 0
     then aa_swaPattern a else [])"

definition finish :: "(64 word \<Rightarrow> string) \<Rightarrow> int \<Rightarrow> gguf_scan \<Rightarrow> gguf_error + gguf_file" where
  "finish unknown bytes sc =
     (let a = (case gs_attn sc (gs_architecture sc) of None \<Rightarrow> noAttn | Some a \<Rightarrow> a) in
      case headCountKV a of Inl e \<Rightarrow> Inl e
      | Inr kv \<Rightarrow> Inr
         \<lparr>gg_blockCount = aa_blockCount a, gg_embedding = aa_embedding a, gg_headCount = aa_headCount a,
          gg_headCountKV = kv, gg_keyLength = aa_keyLength a, gg_valueLength = aa_valueLength a,
          gg_keyLengthSWA = aa_keyLengthSWA a, gg_valueLengthSWA = aa_valueLengthSWA a,
          gg_slidingWindow = aa_slidingWindow a, gg_swaPattern = swaPattern a, gg_hybrid = gs_hybrid sc,
          gf_architecture = gs_architecture sc, gf_name = gs_name sc, gf_trainedCtx = trainedCtx sc,
          gf_parameterCount = gs_parameterCount sc, gf_quantType = quantType unknown sc, gf_fileSize = bytes\<rparr>)"

text \<open>\<open>unknown\<close> formats the name of a file type that is not in the table.\<close>

definition readAll :: "(64 word \<Rightarrow> string) \<Rightarrow> nat \<Rightarrow> gguf_env \<Rightarrow> gguf_file reader" where
  "readAll unknown d env = andThen readHeader (\<lambda>n. andThen (readPairs env d (unat n) emptyScan) (\<lambda>sc.
     case finish unknown (ge_fileSize env) sc of Inl e \<Rightarrow> fail_with e | Inr m \<Rightarrow> done_with m))"

definition readMetadata ::
    "(64 word \<Rightarrow> string) \<Rightarrow> (32 word \<Rightarrow> 64 word) \<Rightarrow> (64 word \<Rightarrow> 64 word) \<Rightarrow> nat \<Rightarrow> byte list \<Rightarrow> gguf_error + gguf_file" where
  "readMetadata unknown f32 f64 d file =
     (case readAll unknown d \<lparr>ge_fileSize = int (length file), ge_f32 = f32, ge_f64 = f64\<rparr> file of
        Inl e \<Rightarrow> Inl e | Inr (m, rest) \<Rightarrow> Inr m)"

end
