(* ===== verification/Gguf_Props.thy ===== *)
theory Gguf_Props
  imports Gguf
begin

text \<open>
  What the GGUF reader promises: it looks at the header and the key-value section only, it ends
  with a stack proportional to the file, what it keeps is bounded, and on the bytes of a list of
  keys and values it computes what the values say.
\<close>

named_theorems reader_intros \<open>how properties of readers compose\<close>

section \<open>A reader looks only at what it consumes\<close>

definition local :: "'a reader \<Rightarrow> bool" where
  "local p \<longleftrightarrow> (\<forall>bs x r. p bs = Inr (x, r) \<longrightarrow> (\<exists>pre. bs = pre @ r \<and> (\<forall>t. p (pre @ t) = Inr (x, t))))"

lemma localD: "local p \<Longrightarrow> p bs = Inr (x, r) \<Longrightarrow> \<exists>pre. bs = pre @ r \<and> (\<forall>t. p (pre @ t) = Inr (x, t))"
  unfolding local_def by blast

lemma andThen_Inr:
  "andThen p f bs = Inr (y, r) \<longleftrightarrow> (\<exists>x r1. p bs = Inr (x, r1) \<and> f x r1 = Inr (y, r))"
  by (auto simp: andThen_def split: sum.splits prod.splits)

lemma local_done [reader_intros]: "local (done_with x)"
  by (simp add: local_def done_with_def)

lemma local_fail [reader_intros]: "local (fail_with e)"
  by (simp add: local_def fail_with_def)

lemma local_andThen [reader_intros]:
  assumes "local p" and "\<And>x. local (f x)"
  shows "local (andThen p f)"
  unfolding local_def
proof (intro allI impI)
  fix bs y r
  assume "andThen p f bs = Inr (y, r)"
  then obtain x r1 where 1: "p bs = Inr (x, r1)" and 2: "f x r1 = Inr (y, r)" by (auto simp: andThen_Inr)
  from localD [OF assms(1) 1] obtain a where a: "bs = a @ r1" "\<forall>t. p (a @ t) = Inr (x, t)" by blast
  from localD [OF assms(2) 2] obtain b where b: "r1 = b @ r" "\<forall>t. f x (b @ t) = Inr (y, t)" by blast
  have "bs = (a @ b) @ r" using a(1) b(1) by simp
  moreover have "andThen p f ((a @ b) @ t) = Inr (y, t)" for t using a(2) b(2) by (simp add: andThen_def)
  ultimately show "\<exists>pre. bs = pre @ r \<and> (\<forall>t. andThen p f (pre @ t) = Inr (y, t))" by blast
qed

lemma local_take [reader_intros]: "local (takeBytes n)"
  unfolding local_def takeBytes_def
proof (intro allI impI)
  fix bs x r
  assume "(if length bs < n then Inl UnexpectedEOF else Inr (take n bs, drop n bs)) = Inr (x, r)"
  then have "n \<le> length bs" "x = take n bs" "r = drop n bs" by (auto split: if_splits)
  then show "\<exists>pre. bs = pre @ r \<and> (\<forall>t. (if length (pre @ t) < n then Inl UnexpectedEOF
      else Inr (take n (pre @ t), drop n (pre @ t))) = Inr (x, t))"
    by (intro exI [of _ "take n bs"]) simp
qed

lemma local_discard [reader_intros]: "local (discard n)"
  unfolding discard_def by (intro reader_intros)

lemma local_read32 [reader_intros]: "local read32"
  unfolding read32_def by (intro reader_intros)

lemma local_read64 [reader_intros]: "local read64"
  unfolding read64_def by (intro reader_intros)

lemma local_repeatR [reader_intros]: "local p \<Longrightarrow> local (repeatR n p)"
  by (induction n) (auto intro!: reader_intros)

lemma local_collectR [reader_intros]: "local p \<Longrightarrow> local (collectR n p)"
  by (induction n) (auto intro!: reader_intros)

lemma local_readString [reader_intros]: "local (readString env)"
  unfolding readString_def by (auto intro!: reader_intros)

lemma local_readTypedString [reader_intros]: "local (readTypedString env vt)"
  unfolding readTypedString_def by (auto intro!: reader_intros)

lemma local_readTypedUint [reader_intros]: "local (readTypedUint env vt)"
  unfolding readTypedUint_def by (auto intro!: reader_intros split: option.splits)

lemma local_readUintOrArray [reader_intros]: "local (readUintOrArray env vt)"
  unfolding readUintOrArray_def by (auto intro!: reader_intros split: option.splits)

lemma local_readBoolArray [reader_intros]: "local (readBoolArray env vt)"
  unfolding readBoolArray_def by (auto intro!: reader_intros)

lemma local_readStringLenSkip [reader_intros]: "local (readStringLenSkip env)"
  unfolding readStringLenSkip_def by (auto intro!: reader_intros)

lemma local_skipArray [reader_intros]: "local (skipArray d env)"
  by (induction d) (auto simp: Let_def intro!: reader_intros split: option.splits)

lemma local_skipValue [reader_intros]: "local (skipValue d env vt)"
  unfolding skipValue_def by (auto intro!: reader_intros split: option.splits)

lemma local_readKnown [reader_intros]: "local (readKnown env d key vt sc)"
  unfolding readKnown_def by (auto intro!: reader_intros split: gguf_key.splits)

lemma local_readPair [reader_intros]: "local (readPair env d sc)"
  unfolding readPair_def by (auto intro!: reader_intros)

lemma local_readPairs [reader_intros]: "local (readPairs env d n sc)"
  by (induction n arbitrary: sc) (auto intro!: reader_intros)

lemma local_readHeader [reader_intros]: "local readHeader"
  unfolding readHeader_def by (auto intro!: reader_intros)

lemma local_readAll [reader_intros]: "local (readAll unknown d env)"
  unfolding readAll_def by (auto intro!: reader_intros split: sum.splits)


text \<open>A file without keys.\<close>

definition empty_file :: "byte list" where
  "empty_file = [0x47, 0x47, 0x55, 0x46, 3, 0, 0, 0] @ replicate 16 0"

definition no_floats :: gguf_env where
  "no_floats = \<lparr>ge_fileSize = 24, ge_f32 = (\<lambda>x. 0), ge_f64 = (\<lambda>x. 0)\<rparr>"

lemma read_empty_file:
  "map_sum id snd (readAll (\<lambda>u. []) 3 no_floats (empty_file @ [1])) = Inr [1]"
  by code_simp


section \<open>The stack\<close>

text \<open>Two readers agree on every file shorter than a bound, and none of them runs out of stack there.\<close>

definition agree :: "nat \<Rightarrow> 'a reader \<Rightarrow> 'a reader \<Rightarrow> bool" where
  "agree n p q \<longleftrightarrow> (\<forall>bs. length bs < n \<longrightarrow> p bs = q bs \<and> p bs \<noteq> Inl StackExhausted)"

lemma agreeD: "agree n p q \<Longrightarrow> length bs < n \<Longrightarrow> p bs = q bs \<and> p bs \<noteq> Inl StackExhausted"
  unfolding agree_def by blast

lemma agree_done [reader_intros]: "agree n (done_with x) (done_with x)"
  by (simp add: agree_def done_with_def)

lemma agree_fail [reader_intros]: "e \<noteq> StackExhausted \<Longrightarrow> agree n (fail_with e) (fail_with e)"
  by (simp add: agree_def fail_with_def)

lemma agree_take [reader_intros]: "agree n (takeBytes k) (takeBytes k)"
  by (simp add: agree_def takeBytes_def)

lemma agree_andThen [reader_intros]:
  assumes "agree n p q" and "local p" and "\<And>x. agree n (f x) (g x)"
  shows "agree n (andThen p f) (andThen q g)"
  unfolding agree_def
proof (intro allI impI)
  fix bs :: "byte list"
  assume n: "length bs < n"
  then have p: "p bs = q bs" "p bs \<noteq> Inl StackExhausted" using assms(1) by (auto simp: agree_def)
  show "andThen p f bs = andThen q g bs \<and> andThen p f bs \<noteq> Inl StackExhausted"
  proof (cases "p bs")
    case (Inl e)
    then show ?thesis using p by (simp add: andThen_def)
  next
    case (Inr y)
    obtain x r where y: "y = (x, r)" by force
    from localD [OF assms(2), of bs x r] Inr y have "length r < n" using n by auto
    then have "f x r = g x r \<and> f x r \<noteq> Inl StackExhausted" by (rule agreeD [OF assms(3)])
    moreover have "p bs = Inr (x, r)" "q bs = Inr (x, r)" using p Inr y by simp_all
    ultimately show ?thesis by (auto simp: andThen_def)
  qed
qed

lemma agree_after:
  assumes "\<And>x. agree n (f x) (g x)"
  shows "agree (k + n) (andThen (andThen (takeBytes k) (\<lambda>b. done_with (h b))) f)
    (andThen (andThen (takeBytes k) (\<lambda>b. done_with (h b))) g)"
  unfolding agree_def
proof (intro allI impI)
  fix bs :: "byte list"
  assume "length bs < k + n"
  then have "k \<le> length bs \<Longrightarrow> length (drop k bs) < n" by simp
  from agreeD [OF assms [of "h (take k bs)"] this] show "andThen (andThen (takeBytes k) (\<lambda>b. done_with (h b))) f bs =
      andThen (andThen (takeBytes k) (\<lambda>b. done_with (h b))) g bs
    \<and> andThen (andThen (takeBytes k) (\<lambda>b. done_with (h b))) f bs \<noteq> Inl StackExhausted"
    by (cases "length bs < k") (auto simp: andThen_def takeBytes_def done_with_def)
qed

lemma agree_repeatR [reader_intros]:
  "agree n p q \<Longrightarrow> local p \<Longrightarrow> agree n (repeatR k p) (repeatR k q)"
  by (induction k) (auto intro!: reader_intros)

lemma agree_collectR [reader_intros]:
  "agree n p q \<Longrightarrow> local p \<Longrightarrow> agree n (collectR k p) (collectR k q)"
  by (induction k) (auto intro!: reader_intros)

lemma agree_discard [reader_intros]: "agree n (discard k) (discard k)"
  unfolding discard_def by (intro reader_intros)

lemma agree_read32 [reader_intros]: "agree n read32 read32"
  unfolding read32_def by (intro reader_intros)

lemma agree_read64 [reader_intros]: "agree n read64 read64"
  unfolding read64_def by (intro reader_intros)

lemma agree_readString [reader_intros]: "agree n (readString env) (readString env)"
  unfolding readString_def by (auto intro!: reader_intros)

lemma agree_readTypedString [reader_intros]: "agree n (readTypedString env vt) (readTypedString env vt)"
  unfolding readTypedString_def by (auto intro!: reader_intros)

lemma agree_readTypedUint [reader_intros]: "agree n (readTypedUint env vt) (readTypedUint env vt)"
  unfolding readTypedUint_def by (auto intro!: reader_intros split: option.splits)

lemma agree_readUintOrArray [reader_intros]: "agree n (readUintOrArray env vt) (readUintOrArray env vt)"
  unfolding readUintOrArray_def by (auto intro!: reader_intros split: option.splits)

lemma agree_readBoolArray [reader_intros]: "agree n (readBoolArray env vt) (readBoolArray env vt)"
  unfolding readBoolArray_def by (auto intro!: reader_intros)

lemma agree_readStringLenSkip [reader_intros]: "agree n (readStringLenSkip env) (readStringLenSkip env)"
  unfolding readStringLenSkip_def by (auto intro!: reader_intros)

lemma agree_readHeader [reader_intros]: "agree n readHeader readHeader"
  unfolding readHeader_def by (auto intro!: reader_intros)

lemma agree_skipArray: "agree (12 * d) (skipArray d env) (skipArray (d + k) env)"
proof (induction d)
  case (Suc d)
  have *: "12 * Suc d = 4 + (8 + 12 * d)" by simp
  have "agree (12 * d)
      (case scalarSize et of Some z \<Rightarrow> (let total = sint (count * of_nat z) in
           if total < 0 \<or> total > ge_fileSize env then fail_with TooLong else discard (nat total))
       | None \<Rightarrow> if et = 8 then (if tooLong env count then fail_with Implausible else repeatR (unat count) (readStringLenSkip env))
           else if et = 9 then (if tooLong env count then fail_with Implausible else repeatR (unat count) (skipArray d env))
           else fail_with WrongType)
      (case scalarSize et of Some z \<Rightarrow> (let total = sint (count * of_nat z) in
           if total < 0 \<or> total > ge_fileSize env then fail_with TooLong else discard (nat total))
       | None \<Rightarrow> if et = 8 then (if tooLong env count then fail_with Implausible else repeatR (unat count) (readStringLenSkip env))
           else if et = 9 then (if tooLong env count then fail_with Implausible else repeatR (unat count) (skipArray (d + k) env))
           else fail_with WrongType)" for et and count :: "64 word"
    by (auto simp: Let_def intro!: reader_intros Suc.IH split: option.splits)
  then have 1: "agree (12 * Suc d) (skipArray (Suc d) env) (skipArray (Suc (d + k)) env)"
    unfolding skipArray.simps read32_def read64_def * by (intro agree_after)
  then show ?case by simp
qed (simp add: agree_def)

lemma agree_readPairs:
  "agree (12 * d) (readPairs env d n sc) (readPairs env (d + k) n sc)"
  by (induction n arbitrary: sc)
     (auto simp: readPair_def readKnown_def skipValue_def intro!: reader_intros agree_skipArray
       split: option.splits gguf_key.splits)

text \<open>C36: A stack of one frame per twelve bytes of the file is enough for any file: with it the reader
  does not run out of stack, and more stack changes nothing.\<close>

theorem stack_bounded:
  assumes "length file < 12 * d"
  shows "readMetadata unknown f32 f64 d file \<noteq> Inl StackExhausted
    \<and> readMetadata unknown f32 f64 (d + k) file = readMetadata unknown f32 f64 d file"
proof -
  let ?env = "\<lparr>ge_fileSize = int (length file), ge_f32 = f32, ge_f64 = f64\<rparr>"
  have f: "finish unknown b sc \<noteq> Inl StackExhausted" for b sc
    by (auto simp: finish_def headCountKV_def Let_def split: sum.splits if_splits)
  have "agree (12 * d) (readAll unknown d ?env) (readAll unknown (d + k) ?env)"
    unfolding readAll_def by (auto intro!: reader_intros agree_readPairs split: sum.splits dest: f [THEN notE])
  then show ?thesis using assms by (auto simp: readMetadata_def agree_def split: sum.splits)
qed

theorem stack_bounded_witness:
  "readMetadata (\<lambda>u. []) (\<lambda>x. 0) (\<lambda>x. 0) 3 empty_file \<noteq> Inl StackExhausted"
  using stack_bounded [of empty_file 3] by (simp add: empty_file_def)

section \<open>Bounds of what is kept\<close>

definition yields :: "('a \<Rightarrow> bool) \<Rightarrow> 'a reader \<Rightarrow> bool" where
  "yields P p \<longleftrightarrow> (\<forall>bs x r. p bs = Inr (x, r) \<longrightarrow> P x)"

lemma yields_done [reader_intros]: "P x \<Longrightarrow> yields P (done_with x)"
  by (simp add: yields_def done_with_def)

lemma yields_fail [reader_intros]: "yields P (fail_with e)"
  by (simp add: yields_def fail_with_def)

lemma yields_then: "yields P p \<Longrightarrow> (\<And>x. P x \<Longrightarrow> yields Q (f x)) \<Longrightarrow> yields Q (andThen p f)"
  unfolding yields_def andThen_Inr by blast

lemma yields_then_any [reader_intros]: "(\<And>x. yields Q (f x)) \<Longrightarrow> yields Q (andThen p f)"
  unfolding yields_def andThen_Inr by blast

lemma yields_take: "yields (\<lambda>b. length b = n) (takeBytes n)"
  by (auto simp: yields_def takeBytes_def split: if_splits)

lemma yields_readString: "yields (\<lambda>s. length s \<le> unat maxKeptString) (readString env)"
  unfolding readString_def
  by (auto intro!: reader_intros yields_then [OF yields_take] simp: chars_def word_le_nat_alt not_less)

lemma yields_readTypedString: "yields (\<lambda>s. length s \<le> unat maxKeptString) (readTypedString env vt)"
  unfolding readTypedString_def by (auto intro!: reader_intros yields_readString)

lemma yields_collectR: "yields (\<lambda>xs. length xs = n) (collectR n p)"
proof (induction n)
  case (Suc n)
  show ?case by (auto intro!: reader_intros yields_then [OF Suc.IH])
qed (auto intro!: reader_intros)

lemma yields_readUintOrArray: "yields (\<lambda>us. length us \<le> unat maxLayerArray) (readUintOrArray env vt)"
  unfolding readUintOrArray_def
  by (auto intro!: reader_intros yields_then [OF yields_collectR] simp: maxLayerArray_def word_le_nat_alt not_less split: option.splits)

lemma yields_readBoolArray: "yields (\<lambda>bs. length bs \<le> unat maxLayerArray) (readBoolArray env vt)"
proof -
  have "yields (\<lambda>bs. length bs \<le> unat maxLayerArray) (collectR n p)" if "n \<le> unat maxLayerArray" for n and p :: "bool reader"
    using yields_collectR [of n p] that by (simp add: yields_def)
  then show ?thesis unfolding readBoolArray_def by (auto intro!: reader_intros simp: word_le_nat_alt not_less)
qed

definition attn_ok :: "arch_attn \<Rightarrow> bool" where
  "attn_ok a \<longleftrightarrow> length (aa_headCountKV a) \<le> unat maxLayerArray \<and> length (aa_swaPattern a) \<le> unat maxLayerArray"

definition scan_ok :: "gguf_scan \<Rightarrow> bool" where
  "scan_ok sc \<longleftrightarrow> length (gs_architecture sc) \<le> unat maxKeptString \<and> length (gs_name sc) \<le> unat maxKeptString
     \<and> (\<forall>k a. gs_attn sc k = Some a \<longrightarrow> attn_ok a)"

lemma noAttn_ok: "attn_ok noAttn"
  by (simp add: attn_ok_def noAttn_def)

lemma stage_ok: "scan_ok sc \<Longrightarrow> (\<And>a. attn_ok a \<Longrightarrow> attn_ok (f a)) \<Longrightarrow> scan_ok (stage key sfx f sc)"
  using noAttn_ok by (auto simp: scan_ok_def stage_def Let_def split: option.splits)

lemma attnKey_ok: "attnKey key = Some (sfx, f) \<Longrightarrow> attn_ok a \<Longrightarrow> attn_ok (f u a)"
  by (auto simp: attnKey_def attn_ok_def split: if_splits)

lemma classify_attn: "classify key = KeyAttn sfx f \<Longrightarrow> attnKey key = Some (sfx, f)"
  by (auto simp: classify_def split: if_splits option.splits)

lemma readKnown_ok:
  assumes "scan_ok sc"
  shows "yields scan_ok (readKnown env d key vt sc)"
proof (cases "classify key")
  case KeyArchitecture
  then show ?thesis unfolding readKnown_def
    using assms by (auto intro!: yields_then [OF yields_readTypedString] yields_done simp: scan_ok_def)
next
  case KeyName
  then show ?thesis unfolding readKnown_def
    using assms by (auto intro!: yields_then [OF yields_readTypedString] yields_done simp: scan_ok_def)
next
  case KeyHeadCountKV
  then show ?thesis unfolding readKnown_def
    using assms by (auto intro!: yields_then [OF yields_readUintOrArray] yields_done stage_ok simp: attn_ok_def)
next
  case KeyPattern
  then show ?thesis unfolding readKnown_def
    using assms by (auto intro!: yields_then [OF yields_readBoolArray] yields_done stage_ok simp: attn_ok_def)
next
  case (KeyAttn sfx f)
  then show ?thesis unfolding readKnown_def
    using assms attnKey_ok [OF classify_attn [OF KeyAttn]] by (auto intro!: reader_intros stage_ok)
qed (use assms in \<open>auto simp: readKnown_def scan_ok_def noteContext_def intro!: reader_intros\<close>)

lemma readPairs_ok: "scan_ok sc \<Longrightarrow> yields scan_ok (readPairs env d n sc)"
proof (induction n arbitrary: sc)
  case (Suc n)
  then have "scan_ok (sc\<lparr>gs_hybrid := True\<rparr>)" by (simp add: scan_ok_def)
  with Suc.prems have "yields scan_ok (readPair env d sc)"
    unfolding readPair_def by (auto intro!: reader_intros readKnown_ok)
  then show ?case using Suc.IH by (auto intro: yields_then)
qed (auto intro!: reader_intros)



section \<open>Damaged files\<close>

text \<open>
  The size of an array is checked after a multiplication of \<open>int64\<close> values: a count of \<open>2 ^ 61\<close>
  elements of eight bytes is taken for nothing, and the reader goes on right after the count.
\<close>

lemma array_size_wraps:
  "0 \<le> ge_fileSize env \<Longrightarrow> read32 bs = Inr (10, r1) \<Longrightarrow> read64 r1 = Inr (2 ^ 61, r2) \<Longrightarrow>
   skipArray (Suc d) env bs = Inr ((), r2)"
  by (simp add: andThen_def scalarSize_def discard_def takeBytes_def done_with_def)

text \<open>A scalar head count with an absurd block count ends in a panic.\<close>

lemma block_count_panics:
  "gs_attn sc (gs_architecture sc) = Some a \<Longrightarrow> length (aa_headCountKV a) = 1 \<Longrightarrow> aa_blockCount a > 2 ^ 45 \<Longrightarrow>
   finish unknown n sc = Inl PanicMakeSlice"
  by (simp add: finish_def headCountKV_def maxSliceWords_def)

end
