(* ===== verification/Gguf_Format.thy ===== *)
theory Gguf_Format
  imports Gguf_Props
begin

text \<open>
  The GGUF format as a writer has it: values with their type tags and their bytes, and the meaning
  of a list of keys and values for the metadata.  The reader computes that meaning from the bytes.
\<close>

section \<open>Integers and strings as bytes\<close>

primrec toLe :: "nat \<Rightarrow> 'a::len word \<Rightarrow> byte list" where
  "toLe 0 w = []"
| "toLe (Suc n) w = ucast w # toLe n (drop_bit 8 w)"

lemma length_toLe [simp]: "length (toLe n w) = n"
  by (induction n arbitrary: w) auto

lemma le_toLe: "le (toLe n w) = take_bit (8 * n) w"
proof (induction n arbitrary: w)
  case (Suc n)
  show ?case
    by (rule bit_word_eqI) (auto simp: Suc.IH bit_simps)
qed simp

lemma le_toLe32 [simp]: "le (toLe 4 w) = (w :: 32 word)"
  using take_bit_length_eq [of w] by (simp add: le_toLe)

lemma le_toLe64 [simp]: "le (toLe 8 w) = (w :: 64 word)"
  using take_bit_length_eq [of w] by (simp add: le_toLe)

definition bytesOf :: "string \<Rightarrow> byte list" where
  "bytesOf s = map of_char s"

lemma length_bytesOf [simp]: "length (bytesOf s) = length s"
  by (simp add: bytesOf_def)

lemma char_byte: "char_of (unat (of_char c :: byte)) = c"
proof -
  have "of_char c = of_char c mod (256 :: nat)" using of_char_of [of "of_char c :: nat"] by simp
  then have "of_char c < (256 :: nat)" by (metis mod_less_divisor zero_less_numeral)
  then have "unat (of_nat (of_char c) :: byte) = of_char c" by (simp add: unsigned_of_nat take_bit_nat_eq_self)
  then show ?thesis by (simp add: of_nat_of_char)
qed

lemma chars_bytesOf [simp]: "chars (bytesOf s) = s"
  by (simp add: chars_def bytesOf_def char_byte o_def)

lemma sint_of_nat64: "n < 2 ^ 63 \<Longrightarrow> sint (of_nat n :: 64 word) = int n"
  by (simp add: signed_of_nat signed_take_bit_int_eq_self)

lemma unat_of_nat64: "n < 2 ^ 63 \<Longrightarrow> unat (of_nat n :: 64 word) = n"
  by (simp add: unsigned_of_nat take_bit_nat_eq_self)

section \<open>Values and their bytes\<close>

datatype gguf_value =
    Scalar "32 word" "byte list"
  | Str string
  | Arr "32 word" "gguf_value list"

fun tagOf :: "gguf_value \<Rightarrow> 32 word" where
  "tagOf (Scalar t b) = t"
| "tagOf (Str s) = 8"
| "tagOf (Arr t vs) = 9"

primrec payload :: "gguf_value \<Rightarrow> byte list" where
  "payload (Scalar t b) = b"
| "payload (Str s) = toLe 8 (of_nat (length s) :: 64 word) @ bytesOf s"
| "payload (Arr t vs) = toLe 4 t @ toLe 8 (of_nat (length vs) :: 64 word) @ concat (map payload vs)"

primrec wfValue :: "gguf_value \<Rightarrow> bool" where
  "wfValue (Scalar t b) \<longleftrightarrow> scalarSize t = Some (length b)"
| "wfValue (Str s) \<longleftrightarrow> True"
| "wfValue (Arr t vs) \<longleftrightarrow> (scalarSize t \<noteq> None \<or> t = 8 \<or> t = 9) \<and> list_all (\<lambda>v. tagOf v = t) vs \<and> list_all id (map wfValue vs)"

primrec nesting :: "gguf_value \<Rightarrow> nat" where
  "nesting (Scalar t b) = 0"
| "nesting (Str s) = 0"
| "nesting (Arr t vs) = Suc (foldr max (map nesting vs) 0)"

definition encString :: "string \<Rightarrow> byte list" where
  "encString s = toLe 8 (of_nat (length s) :: 64 word) @ bytesOf s"

definition encPair :: "string \<times> gguf_value \<Rightarrow> byte list" where
  "encPair kv = encString (fst kv) @ toLe 4 (tagOf (snd kv)) @ payload (snd kv)"

definition encFile :: "32 word \<Rightarrow> 64 word \<Rightarrow> (string \<times> gguf_value) list \<Rightarrow> byte list" where
  "encFile version tensors kvs =
     toLe 4 (0x46554747 :: 32 word) @ toLe 4 version @ toLe 8 tensors @ toLe 8 (of_nat (length kvs) :: 64 word)
     @ concat (map encPair kvs)"

text \<open>A file whose sizes are \<open>int64\<close> values.\<close>

definition fits :: "gguf_env \<Rightarrow> nat \<Rightarrow> bool" where
  "fits env n \<longleftrightarrow> int n \<le> ge_fileSize env \<and> ge_fileSize env < 2 ^ 63"

lemma fits_less:
  assumes "fits env n"
  shows "n < 2 ^ 63"
proof -
  have "int n < 2 ^ 63" using assms by (auto simp: fits_def)
  then show ?thesis by simp
qed

lemma fits_mono: "fits env n \<Longrightarrow> m \<le> n \<Longrightarrow> fits env m"
  unfolding fits_def by linarith

lemma longer_word:
  assumes "fits env n"
  shows "(of_nat n :: 64 word) > c \<longleftrightarrow> int n > uint c"
proof -
  have "uint c = int (unat c)" by simp
  then show ?thesis unfolding word_less_nat_alt unat_of_nat64 [OF fits_less [OF assms]] by (metis of_nat_less_iff)
qed

lemma tooLong_fits: "fits env n \<Longrightarrow> \<not> tooLong env (of_nat n)"
  using sint_of_nat64 [OF fits_less] by (simp add: tooLong_def fits_def)

section \<open>Reading what was written\<close>

lemma take_append: "length a = n \<Longrightarrow> takeBytes n (a @ r) = Inr (a, r)"
  by (auto simp: takeBytes_def)

lemma discard_append: "length a = n \<Longrightarrow> discard n (a @ r) = Inr ((), r)"
  by (simp add: discard_def andThen_def take_append done_with_def)

lemma read32_toLe: "read32 (toLe 4 w @ r) = Inr (w, r)"
  by (simp add: read32_def andThen_def take_append done_with_def)

lemma read64_toLe: "read64 (toLe 8 w @ r) = Inr (w, r)"
  by (simp add: read64_def andThen_def take_append done_with_def)

lemma then_read32: "andThen read32 f (toLe 4 w @ r) = f w r"
  by (simp add: andThen_def read32_toLe)

lemma then_read64: "andThen read64 f (toLe 8 w @ r) = f w r"
  by (simp add: andThen_def read64_toLe)

lemma then_done: "p bs = Inr (x, r) \<Longrightarrow> andThen p f bs = f x r"
  by (simp add: andThen_def)

lemma then_take: "length a = n \<Longrightarrow> andThen (takeBytes n) f (a @ r) = f a r"
  by (simp add: andThen_def take_append)

lemma then_discard: "length a = n \<Longrightarrow> andThen (discard n) f (a @ r) = f () r"
  by (simp add: andThen_def discard_append)

lemma readString_enc:
  "fits env (length s) \<Longrightarrow> readString env (encString s @ r) = Inr (if int (length s) > uint maxKeptString then [] else s, r)"
  using tooLong_fits [of env "length s"] unat_of_nat64 [OF fits_less, of env "length s"] longer_word [of env "length s" maxKeptString]
  by (simp add: readString_def encString_def then_read64 then_discard then_take done_with_def)

lemma skipString_enc: "fits env (length s) \<Longrightarrow> readStringLenSkip env (encString s @ r) = Inr ((), r)"
  using tooLong_fits [of env "length s"] unat_of_nat64 [OF fits_less, of env "length s"]
  by (simp add: readStringLenSkip_def encString_def then_read64 discard_append)

lemma repeatR_concat:
  "(\<And>v r. v \<in> set vs \<Longrightarrow> p (f v @ r) = Inr ((), r)) \<Longrightarrow> repeatR (length vs) p (concat (map f vs) @ r) = Inr ((), r)"
  by (induction vs) (simp_all add: done_with_def andThen_def)

lemma collectR_concat:
  "(\<And>v r. v \<in> set vs \<Longrightarrow> p (f v @ r) = Inr (g v, r)) \<Longrightarrow>
   collectR (length vs) p (concat (map f vs) @ r) = Inr (map g vs, r)"
  by (induction vs) (simp_all add: done_with_def andThen_def)

lemma scalar_values:
  assumes "wfValue (Arr t vs)" and "scalarSize t = Some k" and "v \<in> set vs"
  shows "\<exists>b. v = Scalar t b \<and> length b = k"
proof -
  from assms(1,3) have "tagOf v = t" "wfValue v" by (auto simp: list_all_iff)
  then show ?thesis using assms(2) by (cases v) (auto simp: scalarSize_def split: if_splits)
qed

lemma length_scalars:
  assumes "wfValue (Arr t vs)" and "scalarSize t = Some k"
  shows "length (concat (map payload vs)) = length vs * k"
proof -
  have "length (payload v) = k" if "v \<in> set vs" for v using scalar_values [OF assms that] by auto
  then show ?thesis by (induction vs) auto
qed

lemma payload_in: "v \<in> set vs \<Longrightarrow> length (payload v) \<le> length (concat (map payload vs))"
  by (induction vs) auto

lemma nesting_in: "v \<in> set vs \<Longrightarrow> nesting v \<le> foldr max (map nesting vs) 0"
  by (induction vs) auto

lemma payload_long:
  assumes "wfValue (Arr t vs)" and "t = 8 \<or> t = 9" and "v \<in> set vs"
  shows "8 \<le> length (payload v)"
proof -
  have "tagOf v = t" "wfValue v" using assms(1,3) by (auto simp: list_all_iff)
  then show ?thesis using assms(2) by (cases v) (auto simp: scalarSize_def)
qed

lemma length_many: "(\<And>v. v \<in> set vs \<Longrightarrow> 8 \<le> length (f v)) \<Longrightarrow> 8 * length vs \<le> length (concat (map f vs))"
  by (induction vs) fastforce+

lemma sint_product:
  assumes "fits env (n * k)" and "0 < k"
  shows "sint (of_nat n * of_nat k :: 64 word) = int (n * k)"
  using sint_of_nat64 [OF fits_less [OF assms(1)]] by simp

lemma skip_payload:
  "wfValue v \<Longrightarrow> fits env (length (payload v)) \<Longrightarrow> nesting v \<le> d \<Longrightarrow>
   skipValue d env (tagOf v) (payload v @ r) = Inr ((), r)"
proof (induction v arbitrary: d r)
  case (Scalar t b)
  then show ?case by (simp add: skipValue_def discard_append)
next
  case (Str s)
  then show ?case
    using skipString_enc [of env s r] fits_mono [of env _ "length s"] by (simp add: skipValue_def scalarSize_def encString_def)
next
  case (Arr t vs)
  from Arr.prems(3) obtain d' where d: "d = Suc d'" "foldr max (map nesting vs) 0 \<le> d'" by (cases d) auto
  have s9: "scalarSize 9 = None" by (simp add: scalarSize_def)
  have fp: "fits env (length (concat (map payload vs)))" using Arr.prems(2) by (auto intro: fits_mono)
  have fv: "fits env (length (payload v))" if "v \<in> set vs" for v
    using fits_mono [OF fp payload_in [OF that]] .
  show ?case
  proof (cases "scalarSize t")
    case (Some k)
    then have k: "0 < k" by (auto simp: scalarSize_def split: if_splits)
    have len: "length (concat (map payload vs)) = length vs * k" using Arr.prems(1) Some by (rule length_scalars)
    have "sint (of_nat (length vs) * of_nat k :: 64 word) = int (length vs * k)"
      using fp k unfolding len by (rule sint_product)
    moreover have "nat (int (length vs) * int k) = length vs * k" "\<not> int (length vs) * int k < 0"
      by (simp_all flip: of_nat_mult)
    ultimately show ?thesis using fp Some len d(1) s9
      by (simp add: skipValue_def then_read32 then_read64 Let_def discard_append fits_def del: length_concat)
  next
    case None
    then have t: "t = 8 \<or> t = 9" using Arr.prems(1) by auto
    have "8 * length vs \<le> length (concat (map payload vs))"
      using payload_long [OF Arr.prems(1) t] by (rule length_many)
    then have fl: "fits env (length vs)" using fits_mono [OF fp] by simp
    have n: "\<not> tooLong env (of_nat (length vs))" "unat (of_nat (length vs) :: 64 word) = length vs"
      using tooLong_fits [OF fl] unat_of_nat64 [OF fits_less [OF fl]] by auto
    from t show ?thesis
    proof
      assume t8: "t = 8"
      have "readStringLenSkip env (payload v @ r) = Inr ((), r)" if "v \<in> set vs" for v r
      proof -
        have "tagOf v = 8" "wfValue v" using that Arr.prems(1) t8 by (auto simp: list_all_iff)
        then obtain s where s: "v = Str s" by (cases v) (auto simp: scalarSize_def)
        then show ?thesis using skipString_enc [of env s r] fits_mono [OF fv [OF that], of "length s"] by (simp add: encString_def)
      qed
      then show ?thesis using n None t8 d(1) s9 repeatR_concat [of vs "readStringLenSkip env" payload r]
        by (simp add: skipValue_def then_read32 then_read64)
    next
      assume t9: "t = 9"
      have "skipArray d' env (payload v @ r) = Inr ((), r)" if "v \<in> set vs" for v r
      proof -
        from that Arr.prems(1) t9 have v: "tagOf v = 9" "wfValue v" by (auto simp: list_all_iff)
        have "nesting v \<le> d'" using nesting_in [OF that] d(2) by simp
        from Arr.IH [OF that v(2) fv [OF that] this] v(1) s9 show ?thesis by (simp add: skipValue_def)
      qed
      then show ?thesis using n None t9 d(1) s9 repeatR_concat [of vs "skipArray d' env" payload r]
        by (simp add: skipValue_def then_read32 then_read64)
    qed
  qed
qed

section \<open>What keys and values mean\<close>

fun asString :: "gguf_value \<Rightarrow> gguf_error + string" where
  "asString (Str s) = Inr (if int (length s) > uint maxKeptString then [] else s)"
| "asString _ = Inl WrongType"

fun asUint :: "gguf_env \<Rightarrow> gguf_value \<Rightarrow> gguf_error + 64 word" where
  "asUint env (Scalar t b) = (if t = 7 then Inl WrongType else Inr (uintOf env t b))"
| "asUint env _ = Inl WrongType"

fun asInts :: "gguf_env \<Rightarrow> gguf_value \<Rightarrow> gguf_error + int list" where
  "asInts env (Arr t vs) =
     (if int (length vs) > uint maxLayerArray then Inl Implausible
      else if scalarSize t = None \<or> t = 7 then Inl WrongType
      else Inr (map (\<lambda>v. sint (uintOf env t (payload v))) vs))"
| "asInts env v = (case asUint env v of Inl e \<Rightarrow> Inl e | Inr u \<Rightarrow> Inr [sint u])"

fun asBools :: "gguf_value \<Rightarrow> gguf_error + bool list" where
  "asBools (Arr t vs) =
     (if t \<noteq> 7 then Inl WrongType else if int (length vs) > uint maxLayerArray then Inl Implausible
      else Inr (map (\<lambda>v. payload v \<noteq> [0]) vs))"
| "asBools _ = Inl WrongType"

definition noteValue :: "gguf_env \<Rightarrow> string \<Rightarrow> gguf_value \<Rightarrow> gguf_scan \<Rightarrow> gguf_error + gguf_scan" where
  "noteValue env key v sc =
     (case classify key of
        KeyArchitecture \<Rightarrow> map_sum id (\<lambda>s. sc\<lparr>gs_architecture := s\<rparr>) (asString v)
      | KeyName \<Rightarrow> map_sum id (\<lambda>s. sc\<lparr>gs_name := s\<rparr>) (asString v)
      | KeyFileType \<Rightarrow> map_sum id (\<lambda>u. sc\<lparr>gs_fileType := Some u\<rparr>) (asUint env v)
      | KeyParameterCount \<Rightarrow> map_sum id (\<lambda>u. sc\<lparr>gs_parameterCount := sint u\<rparr>) (asUint env v)
      | KeyContext \<Rightarrow> map_sum id (\<lambda>u. noteContext key u sc) (asUint env v)
      | KeyHeadCountKV \<Rightarrow> map_sum id (\<lambda>us. stage key ''.attention.head_count_kv'' (\<lambda>a. a\<lparr>aa_headCountKV := us\<rparr>) sc) (asInts env v)
      | KeyPattern \<Rightarrow> map_sum id (\<lambda>bs. stage key ''.attention.sliding_window_pattern'' (\<lambda>a. a\<lparr>aa_swaPattern := bs\<rparr>) sc) (asBools v)
      | KeyAttn sfx f \<Rightarrow> map_sum id (\<lambda>u. stage key sfx (f (sint u)) sc) (asUint env v)
      | KeyOther \<Rightarrow> Inr sc)"

fun noteAll :: "gguf_env \<Rightarrow> (string \<times> gguf_value) list \<Rightarrow> gguf_scan \<Rightarrow> gguf_error + gguf_scan" where
  "noteAll env [] sc = Inr sc"
| "noteAll env ((key, v) # kvs) sc =
     (case noteValue env key v (if isHybridKey key then sc\<lparr>gs_hybrid := True\<rparr> else sc) of
        Inl e \<Rightarrow> Inl e | Inr sc1 \<Rightarrow> noteAll env kvs sc1)"

text \<open>How a reader follows a value: it fails as the value does, or returns it and the rest.\<close>

definition follows :: "(gguf_error + 'a) \<Rightarrow> byte list \<Rightarrow> gguf_error + 'a \<times> byte list" where
  "follows x r = map_sum id (\<lambda>y. (y, r)) x"

lemma follows_simps [simp]: "follows (Inl e) r = Inl e" "follows (Inr y) r = Inr (y, r)"
  by (simp_all add: follows_def)

lemma then_follows:
  "p bs = follows x r \<Longrightarrow> andThen p (\<lambda>y. done_with (g y)) bs = follows (map_sum id g x) r"
  by (cases x) (simp_all add: andThen_def done_with_def)

lemma tag_sizes [simp]: "scalarSize 8 = None" "scalarSize 9 = None"
  by (simp_all add: scalarSize_def)

lemma follow_string:
  "wfValue v \<Longrightarrow> fits env (length (payload v)) \<Longrightarrow> readTypedString env (tagOf v) (payload v @ r) = follows (asString v) r"
proof (cases v)
  case (Str s)
  assume "fits env (length (payload v))"
  then show ?thesis using Str readString_enc [of env s r] fits_mono [of env _ "length s"]
    by (simp add: readTypedString_def encString_def)
qed (auto simp: readTypedString_def fail_with_def)

lemma follow_uint: "wfValue v \<Longrightarrow> readTypedUint env (tagOf v) (payload v @ r) = follows (asUint env v) r"
  by (cases v) (auto simp: readTypedUint_def fail_with_def then_take done_with_def split: option.splits)

lemma payload_nonempty: "wfValue v \<Longrightarrow> 1 \<le> length (payload v)"
  by (cases v) (auto simp: scalarSize_def split: if_splits)

lemma length_concat_ge: "(\<And>v. v \<in> set vs \<Longrightarrow> 1 \<le> length (f v)) \<Longrightarrow> length vs \<le> length (concat (map f vs))"
  by (induction vs) fastforce+

lemma fits_array:
  assumes "wfValue (Arr t vs)" and "fits env (length (payload (Arr t vs)))"
  shows "fits env (length (concat (map payload vs)))" and "fits env (length vs)"
proof -
  show 1: "fits env (length (concat (map payload vs)))" using assms(2) by (auto intro: fits_mono)
  have "length vs \<le> length (concat (map payload vs))"
    using assms(1) payload_nonempty by (intro length_concat_ge) (auto simp: list_all_iff)
  then show "fits env (length vs)" by (rule fits_mono [OF 1])
qed

lemma follow_ints:
  assumes "wfValue v" and "fits env (length (payload v))"
  shows "readUintOrArray env (tagOf v) (payload v @ r) = follows (asInts env v) r"
proof (cases v)
  case (Arr t vs)
  note fa = fits_array [OF assms [unfolded Arr]]
  have n: "unat (of_nat (length vs) :: 64 word) = length vs" by (rule unat_of_nat64 [OF fits_less [OF fa(2)]])
  note l = longer_word [OF fa(2), of maxLayerArray]
  show ?thesis
  proof (cases "int (length vs) \<le> uint maxLayerArray \<and> t \<noteq> 7 \<and> scalarSize t \<noteq> None")
    case True
    then obtain k where k: "scalarSize t = Some k" by blast
    have len: "length (concat (map payload vs)) = length vs * k" by (rule length_scalars [OF assms(1) [unfolded Arr] k])
    have "sint (of_nat (length vs) * of_nat k :: 64 word) = int (length vs * k)"
      using fa(1) k unfolding len by (intro sint_product) (auto simp: scalarSize_def split: if_splits)
    then have z: "\<not> sint (of_nat (length vs) * of_nat k :: 64 word) > ge_fileSize env"
      using fa(1) unfolding len fits_def by simp
    have "readTypedUint env t (payload v @ r) = Inr (uintOf env t (payload v), r)" if "v \<in> set vs" for v r
      using scalar_values [OF assms(1) [unfolded Arr] k that] k True
      by (auto simp: readTypedUint_def then_take done_with_def)
    from collectR_concat [of vs "readTypedUint env t" payload "\<lambda>v. uintOf env t (payload v)", OF this]
    show ?thesis using Arr True k z n l
      by (simp add: readUintOrArray_def then_read32 then_read64 then_done done_with_def o_def)
  next
    case False
    then show ?thesis using Arr n l
      by (auto simp: readUintOrArray_def then_read32 then_read64 fail_with_def split: option.splits)
  qed
qed (use assms in \<open>auto simp: readUintOrArray_def fail_with_def then_take done_with_def readTypedUint_def andThen_def
    take_append split: option.splits\<close>)

lemma follow_bools:
  assumes "wfValue v" and "fits env (length (payload v))"
  shows "readBoolArray env (tagOf v) (payload v @ r) = follows (asBools v) r"
proof (cases v)
  case (Arr t vs)
  note fa = fits_array [OF assms [unfolded Arr]]
  have n: "unat (of_nat (length vs) :: 64 word) = length vs" "\<not> sint (of_nat (length vs) :: 64 word) > ge_fileSize env"
    using unat_of_nat64 [OF fits_less [OF fa(2)]] sint_of_nat64 [OF fits_less [OF fa(2)]] fa(2) by (auto simp: fits_def)
  note l = longer_word [OF fa(2), of maxLayerArray]
  show ?thesis
  proof (cases "t = 7")
    case True
    have "andThen (takeBytes 1) (\<lambda>b. done_with (b \<noteq> [0])) (payload v @ r) = Inr (payload v \<noteq> [0], r)"
      if "v \<in> set vs" for v r
      using scalar_values [OF assms(1) [unfolded Arr], of 1 v] that True
      by (auto simp: scalarSize_def then_take done_with_def)
    from collectR_concat [of vs _ payload, OF this] show ?thesis using Arr True n l
      by (auto simp: readBoolArray_def then_read32 then_read64 fail_with_def)
  qed (use Arr n l in \<open>auto simp: readBoolArray_def then_read32 fail_with_def\<close>)
qed (use assms(1) in \<open>auto simp: readBoolArray_def fail_with_def\<close>)

lemma follow_known:
  assumes "wfValue v" and "fits env (length (payload v))" and "nesting v \<le> d"
  shows "readKnown env d key (tagOf v) sc (payload v @ r) = follows (noteValue env key v sc) r"
  by (cases "classify key")
     (simp_all add: readKnown_def noteValue_def then_done [of "skipValue d env (tagOf v)", OF skip_payload [OF assms]],
      (rule then_follows follow_string follow_ints follow_bools follow_uint assms)+, simp add: done_with_def)

lemma follow_pair:
  assumes "wfValue v" and "fits env (length (encPair (key, v)))" and "nesting v \<le> d" and "int (length key) \<le> uint maxKeptString"
  shows "readPair env d sc (encPair (key, v) @ r) =
    follows (noteValue env key v (if isHybridKey key then sc\<lparr>gs_hybrid := True\<rparr> else sc)) r"
proof -
  have "fits env (length key)" "fits env (length (payload v))"
    using assms(2) by (auto simp: encPair_def encString_def intro: fits_mono)
  then show ?thesis using assms(4) readString_enc [of env key] follow_known [OF assms(1) _ assms(3)]
    by (simp add: readPair_def encPair_def then_done then_read32)
qed

definition wfPair :: "nat \<Rightarrow> string \<times> gguf_value \<Rightarrow> bool" where
  "wfPair d kv \<longleftrightarrow> wfValue (snd kv) \<and> nesting (snd kv) \<le> d \<and> int (length (fst kv)) \<le> uint maxKeptString"

lemma follow_pairs:
  assumes "list_all (wfPair d) kvs" and "fits env (length (concat (map encPair kvs)))"
  shows "readPairs env d (length kvs) sc (concat (map encPair kvs) @ r) = follows (noteAll env kvs sc) r"
  using assms
proof (induction kvs arbitrary: sc)
  case (Cons kv kvs)
  obtain key v where kv: "kv = (key, v)" by force
  have f: "fits env (length (encPair (key, v)))" "fits env (length (concat (map encPair kvs)))"
    using Cons.prems(2) kv by (auto intro: fits_mono)
  from Cons.prems(1) have w: "wfValue v" "nesting v \<le> d" "int (length key) \<le> uint maxKeptString" "list_all (wfPair d) kvs"
    by (simp_all add: kv wfPair_def [of d "(key, v)"])
  from follow_pair [OF w(1) f(1) w(2,3)] Cons.IH [OF w(4) f(2)] show ?case
    by (simp add: kv andThen_def split: sum.splits)
qed (simp add: done_with_def)

text \<open>C35: A file that holds keys and values is read as what they mean: the metadata is that of the
  value-level reading of the pairs in their order, or the first error in it, whatever tensors follow.\<close>

theorem gguf_roundtrip:
  assumes "version = 2 \<or> version = 3" and "length kvs \<le> 2 ^ 20" and "list_all (wfPair d) kvs"
    and "file = encFile version tensors kvs @ rest" and "length file < 2 ^ 63"
  shows "readMetadata unknown f32 f64 d file =
    (let env = \<lparr>ge_fileSize = int (length file), ge_f32 = f32, ge_f64 = f64\<rparr> in
     case noteAll env kvs emptyScan of Inl e \<Rightarrow> Inl e | Inr sc \<Rightarrow> finish unknown (int (length file)) sc)"
proof -
  let ?env = "\<lparr>ge_fileSize = int (length file), ge_f32 = f32, ge_f64 = f64\<rparr>"
  have "int (length file) < 2 ^ 63" using assms(5) by simp
  then have f: "fits ?env (length (concat (map encPair kvs)))"
    using assms(4) by (auto simp: fits_def encFile_def)
  have n: "unat (of_nat (length kvs) :: 64 word) = length kvs" using assms(2) by (intro unat_of_nat64) simp
  then have "\<not> (of_nat (length kvs) :: 64 word) > maxKVCount"
    using assms(2) by (simp add: maxKVCount_def word_less_nat_alt)
  then have "readHeader file = Inr (of_nat (length kvs), concat (map encPair kvs) @ rest)"
    using assms(1,4) by (auto simp: readHeader_def encFile_def then_read32 then_read64 done_with_def)
  then have "readAll unknown d ?env file =
      (case noteAll ?env kvs emptyScan of Inl e \<Rightarrow> Inl e
       | Inr sc \<Rightarrow> (case finish unknown (int (length file)) sc of Inl e \<Rightarrow> Inl e | Inr m \<Rightarrow> Inr (m, rest)))"
    using follow_pairs [OF assms(3) f] n
    by (simp add: readAll_def andThen_def fail_with_def done_with_def split: sum.splits)
  then show ?thesis by (simp add: readMetadata_def Let_def split: sum.splits)
qed

definition sample_pairs :: "(string \<times> gguf_value) list" where
  "sample_pairs =
     [(''general.architecture'', Str ''llama''), (''llama.block_count'', Scalar 4 [2, 0, 0, 0]),
      (''llama.attention.head_count_kv'', Scalar 0 [4]), (''tokenizer.tokens'', Arr 8 [Str ''a'', Str []]),
      (''nested'', Arr 9 [Arr 0 [Scalar 0 [7]]])]"

lemma sample_pairs_wf: "list_all (wfPair 2) sample_pairs"
  by (simp add: sample_pairs_def wfPair_def scalarSize_def maxKeptString_def)

lemma sample_meaning:
  "map_sum id gg_headCountKV (case noteAll \<lparr>ge_fileSize = 300, ge_f32 = (\<lambda>x. 0), ge_f64 = (\<lambda>x. 0)\<rparr> sample_pairs emptyScan of
     Inl e \<Rightarrow> Inl e | Inr sc \<Rightarrow> finish (\<lambda>u. []) 300 sc) = Inr [4, 4]"
  by code_simp

theorem gguf_roundtrip_witness:
  "map_sum id gg_headCountKV (readMetadata (\<lambda>u. []) (\<lambda>x. 0) (\<lambda>x. 0) 2
     (encFile 3 9 sample_pairs @ replicate (300 - length (encFile 3 9 sample_pairs)) 0)) = Inr [4, 4]"
proof -
  define f where "f = encFile 3 9 sample_pairs @ replicate (300 - length (encFile 3 9 sample_pairs)) 0"
  have len: "length f = 300" by (simp add: f_def encFile_def encPair_def encString_def sample_pairs_def)
  have "length sample_pairs \<le> 2 ^ 20" by (simp add: sample_pairs_def)
  from gguf_roundtrip [OF _ this sample_pairs_wf f_def, of "\<lambda>u. []" "\<lambda>x. 0" "\<lambda>x. 0", unfolded len Let_def of_nat_numeral]
  have "readMetadata (\<lambda>u. []) (\<lambda>x. 0) (\<lambda>x. 0) 2 f =
      (case noteAll \<lparr>ge_fileSize = 300, ge_f32 = (\<lambda>x. 0), ge_f64 = (\<lambda>x. 0)\<rparr> sample_pairs emptyScan of
         Inl e \<Rightarrow> Inl e | Inr sc \<Rightarrow> finish (\<lambda>u. []) 300 sc)" by simp
  then show ?thesis using sample_meaning by (simp add: f_def)
qed

text \<open>Every nested array takes a stack frame, so the depth a file asks for grows with its size.\<close>

lemma nested_arrays_need_stack:
  assumes "1 \<le> ge_fileSize env"
  shows "skipArray d env (concat (replicate d (toLe 4 (9 :: 32 word) @ toLe 8 (1 :: 64 word))) @ r) = Inl StackExhausted"
proof (induction d)
  case (Suc d)
  then show ?case using assms
    by (simp add: then_read32 then_read64 tooLong_def) (simp add: andThen_def)
qed (simp add: fail_with_def)

end
