(* ===== verification/Must_Keep.thy ===== *)
theory Must_Keep
  imports Go_Strings
begin

text \<open>
  The safety net of the compressor (\<open>internal/compress/mustkeep.go\<close>): a regular expression with
  look-around, searched in one word of ASCII characters.  A match is a pair of what lies before the
  end of the match, reversed, and what lies after it.
\<close>

section \<open>Regular expressions\<close>

type_synonym char_class = "char \<Rightarrow> bool"

datatype rx =
    Rep nat "nat option" char_class
  | Then rx rx
  | Either rx rx
  | Opt rx
  | Boundary
  | NotBehind char_class
  | NotAhead char_class

abbreviation One :: "char_class \<Rightarrow> rx" where
  "One c \<equiv> Rep 1 (Some 1) c"

definition between :: "char \<Rightarrow> char \<Rightarrow> char_class" where
  "between a b c \<longleftrightarrow> a \<le> c \<and> c \<le> b"

definition is_lit :: "char \<Rightarrow> char_class" where
  "is_lit a c \<longleftrightarrow> c = a"

definition cls :: "char_class list \<Rightarrow> char_class" where
  "cls ps c \<longleftrightarrow> list_ex (\<lambda>p. p c) ps"

definition digit :: char_class where "digit = between (CHR ''0'') (CHR ''9'')"
definition lower :: char_class where "lower = between (CHR ''a'') (CHR ''z'')"
definition upper :: char_class where "upper = between (CHR ''A'') (CHR ''Z'')"
definition wordc :: char_class where "wordc = cls [lower, upper, digit, is_lit (CHR ''_'')]"

definition boundary_at :: "string \<Rightarrow> string \<Rightarrow> bool" where
  "boundary_at pre s \<longleftrightarrow> (pre \<noteq> [] \<and> wordc (hd pre)) \<noteq> (s \<noteq> [] \<and> wordc (hd s))"

text \<open>The ends of the matches that start between \<open>pre\<close> and \<open>s\<close>.\<close>

primrec ends :: "rx \<Rightarrow> string \<times> string \<Rightarrow> (string \<times> string) list" where
  "ends (Rep lo hi c) p =
     (let n = length (takeWhile c (snd p)); m = (case hi of None \<Rightarrow> n | Some h \<Rightarrow> min n h)
      in map (\<lambda>k. (rev (take k (snd p)) @ fst p, drop k (snd p))) [lo..<Suc m])"
| "ends (Then r1 r2) p = concat (map (ends r2) (ends r1 p))"
| "ends (Either r1 r2) p = ends r1 p @ ends r2 p"
| "ends (Opt r) p = ends r p @ [p]"
| "ends Boundary p = (if boundary_at (fst p) (snd p) then [p] else [])"
| "ends (NotBehind c) p = (if fst p \<noteq> [] \<and> c (hd (fst p)) then [] else [p])"
| "ends (NotAhead c) p = (if snd p \<noteq> [] \<and> c (hd (snd p)) then [] else [p])"

definition found_in :: "rx \<Rightarrow> string \<Rightarrow> bool" where
  "found_in r w \<longleftrightarrow> list_ex (\<lambda>i. ends r (rev (take i w), drop i w) \<noteq> []) [0..<Suc (length w)]"

fun seqOf :: "rx list \<Rightarrow> rx" where
  "seqOf [] = Rep 0 (Some 0) (\<lambda>c. False)"
| "seqOf [r] = r"
| "seqOf (r # rs) = Then r (seqOf rs)"

section \<open>The pattern\<close>

definition hexPattern :: rx where
  "hexPattern = seqOf [Boundary, One (is_lit (CHR ''0'')), One (is_lit (CHR ''x'')),
     Rep 1 None (cls [digit, between (CHR ''A'') (CHR ''F''), between (CHR ''a'') (CHR ''f'')]), Boundary]"

definition numberPattern :: rx where
  "numberPattern = seqOf [NotBehind digit, Rep 1 None digit,
     Opt (Then (One (is_lit (CHR ''.''))) (Rep 1 None digit)), NotAhead digit]"

definition capsPattern :: rx where
  "capsPattern = Rep 2 None (cls [upper, is_lit (CHR ''_'')])"

definition dottedPattern :: rx where
  "dottedPattern = seqOf [One (cls [lower, is_lit (CHR ''_'')]), Rep 0 None (cls [lower, digit, is_lit (CHR ''_'')]),
     One (is_lit (CHR ''.'')), Rep 1 None (cls [lower, digit, is_lit (CHR ''_'')])]"

definition pathPattern :: rx where
  "pathPattern = Then (One (is_lit (CHR ''/''))) (Rep 2 None (cls [lower, digit, is_lit (CHR ''/''),
     is_lit (CHR ''.''), is_lit (CHR ''_''), is_lit (CHR ''-'')]))"

definition extensionPattern :: rx where
  "extensionPattern = seqOf [One (is_lit (CHR ''.'')), Rep 2 (Some 4) lower, Boundary]"

definition flagPattern :: rx where
  "flagPattern = seqOf [One (is_lit (CHR ''-'')), Opt (One (is_lit (CHR ''-''))), One lower,
     Rep 0 None (cls [wordc, is_lit (CHR ''-'')])]"

definition camelPattern :: rx where
  "camelPattern = seqOf [Boundary, One upper, Rep 1 None lower, One upper, Rep 0 None wordc]"

definition mustKeepPattern :: rx where
  "mustKeepPattern = foldr Either [hexPattern, numberPattern, capsPattern, dottedPattern, pathPattern,
     extensionPattern, flagPattern] camelPattern"

definition mustKeep :: "string \<Rightarrow> bool" where
  "mustKeep w = found_in mustKeepPattern w"

section \<open>Lemmas\<close>

lemma found_inI: "w = a @ b \<Longrightarrow> ends r (rev a, b) \<noteq> [] \<Longrightarrow> found_in r w"
  by (auto simp: found_in_def list_ex_iff intro!: bexI [of _ "length a"])

lemma ends_Then: "q \<in> set (ends r1 p) \<Longrightarrow> ends r2 q \<noteq> [] \<Longrightarrow> ends (Then r1 r2) p \<noteq> []"
  by auto

lemma number_found:
  assumes "digit d" and "list_all (\<lambda>c. \<not> digit c) a"
  shows "ends numberPattern (rev a, d # b) \<noteq> []"
proof -
  let ?n = "length (takeWhile digit (d # b))"
  let ?q = "(rev (take ?n (d # b)) @ rev a, drop ?n (d # b))"
  have "?n \<in> set [1..<Suc ?n]" using assms(1) by (simp add: Suc_le_eq)
  then have 1: "?q \<in> set (ends (Rep 1 None digit) (rev a, d # b))"
    by (simp only: ends.simps fst_conv snd_conv Let_def option.case set_map) blast
  have "drop ?n (d # b) = dropWhile digit (d # b)" by (simp add: dropWhile_eq_drop)
  then have 2: "ends (NotAhead digit) ?q \<noteq> []"
    using hd_dropWhile [of digit "d # b"] by (auto split: if_splits)
  have 3: "ends (Then (Opt (Then (One (is_lit (CHR ''.''))) (Rep 1 None digit))) (NotAhead digit)) ?q \<noteq> []"
    by (rule ends_Then [OF _ 2]) simp
  have 4: "ends (Then (Rep 1 None digit) (Then (Opt (Then (One (is_lit (CHR ''.''))) (Rep 1 None digit))) (NotAhead digit)))
      (rev a, d # b) \<noteq> []" by (rule ends_Then [OF 1 3])
  have "\<not> (rev a \<noteq> [] \<and> digit (hd (rev a)))"
    using assms(2) hd_in_set [of "rev a"] by (auto simp: list_all_iff)
  then have "(rev a, d # b) \<in> set (ends (NotBehind digit) (rev a, d # b))" by simp
  then show ?thesis unfolding numberPattern_def seqOf.simps by (rule ends_Then [OF _ 4])
qed

text \<open>Any word with a digit is kept, whatever is glued to it.\<close>

lemma digits_kept:
  assumes "d \<in> set w" and "digit d"
  shows "mustKeep w"
proof -
  let ?a = "takeWhile (\<lambda>c. \<not> digit c) w"
  obtain e b where e: "dropWhile (\<lambda>c. \<not> digit c) w = e # b" "digit e"
    using assms hd_dropWhile [of "\<lambda>c. \<not> digit c" w]
    by (cases "dropWhile (\<lambda>c. \<not> digit c) w") (auto simp: dropWhile_eq_Nil_conv)
  have "list_all (\<lambda>c. \<not> digit c) ?a" by (auto simp: list_all_iff dest: set_takeWhileD)
  then have "ends numberPattern (rev ?a, e # b) \<noteq> []" by (rule number_found [OF e(2)])
  then have "ends mustKeepPattern (rev ?a, e # b) \<noteq> []" by (simp add: mustKeepPattern_def)
  moreover have "w = ?a @ e # b" using e(1) by (metis takeWhile_dropWhile_id)
  ultimately show ?thesis unfolding mustKeep_def by (intro found_inI)
qed

lemma must_keep_examples:
  "mustKeep ''0x7fff2038''" "mustKeep ''104x''" "mustKeep ''SIGILL''" "mustKeep ''libsystem_kernel.dylib''"
  "mustKeep ''/usr/lib''" "mustKeep ''x.py''" "mustKeep ''--verbose''" "mustKeep ''IndexError''"
  "\<not> mustKeep ''hello''" "\<not> mustKeep ''Hello''"
  by code_simp+

end
