(* ===== verification/Compress.thy ===== *)
theory Compress
  imports Must_Keep Complex_Main
begin

text \<open>
  The text compressor (\<open>internal/compress/compress.go\<close>, \<open>chunk.go\<close>): words are cut into chunks that
  fit the model, scored, and kept when a token of theirs scores above the threshold or the word must
  be kept.  The tokenizer and the scorer are parameters.  An index of theirs that is out of range is
  the panic the code runs into; an attention mask is taken to be as long as its ids.
\<close>

section \<open>Data\<close>

record compress_config =
  cc_threshold :: rat
  cc_minWords :: int
  cc_byteThreshold :: int
  cc_batchSize :: int

definition defaultCompressConfig :: compress_config where
  "defaultCompressConfig = \<lparr>cc_threshold = 1 / 2, cc_minWords = 10, cc_byteThreshold = 2048, cc_batchSize = 16\<rparr>"

record encoding =
  en_ids :: "int list"
  en_mask :: "int list"
  en_wordIndex :: "int list"

datatype compress_error = TokenizerFailed string | ScorerFailed string | BatchMismatch nat nat | PanicIndex

record scorer =
  sc_score :: "int list \<Rightarrow> int list \<Rightarrow> string + rat list"
  sc_scoreBatch :: "int list list \<Rightarrow> int list list \<Rightarrow> string + rat list list"

record compress_engine =
  ce_tokenizer :: "string list \<Rightarrow> string + encoding"
  ce_scorer :: scorer
  ce_config :: compress_config

record compress_result =
  cr_compressed :: string
  cr_originalWords :: nat
  cr_compressedWords :: nat
  cr_originalTokens :: nat
  cr_compressedTokens :: nat
  cr_passthrough :: bool

section \<open>Chunks\<close>

definition maxChunkTokens :: nat where
  "maxChunkTokens = 512"

definition maxContentTokensPerChunk :: nat where
  "maxContentTokensPerChunk = 510"

text \<open>The loop over the words with their token counts: the chunk since \<open>start\<close> and its count.\<close>

fun chunkLoop :: "string list \<Rightarrow> nat \<Rightarrow> (string \<times> nat) list \<Rightarrow> string list list" where
  "chunkLoop cur used [] = [cur]"
| "chunkLoop cur used ((w, n) # rest) =
     (if used + n > maxContentTokensPerChunk \<and> cur \<noteq> [] then cur # chunkLoop [w] n rest
      else chunkLoop (cur @ [w]) (used + n) rest)"

definition chunkWords :: "string list \<Rightarrow> nat list \<Rightarrow> string list list" where
  "chunkWords words tokensPerWord = (if words = [] then [] else chunkLoop [] 0 (zip words tokensPerWord))"

section \<open>Scoring\<close>

fun liftErr :: "string + 'a \<Rightarrow> compress_error + 'a" where
  "liftErr (Inl e) = Inl (ScorerFailed e)"
| "liftErr (Inr x) = Inr x"

function scoreBatches :: "scorer \<Rightarrow> int list \<Rightarrow> int list \<Rightarrow> compress_error + rat list" where
  "scoreBatches sc ids msk =
     (if ids = [] then Inr []
      else (case liftErr (sc_score sc (take maxChunkTokens ids) (take maxChunkTokens msk)) of Inl e \<Rightarrow> Inl e
        | Inr batch \<Rightarrow> map_sum id ((@) batch) (scoreBatches sc (drop maxChunkTokens ids) (drop maxChunkTokens msk))))"
  by pat_completeness auto
termination by (relation "measure (\<lambda>(sc, ids, msk). length ids)") (auto simp: maxChunkTokens_def)

declare scoreBatches.simps [simp del]

definition scoreChunk :: "scorer \<Rightarrow> encoding \<Rightarrow> compress_error + rat list" where
  "scoreChunk sc enc =
     (if length (en_ids enc) \<le> maxChunkTokens then liftErr (sc_score sc (en_ids enc) (en_mask enc))
      else scoreBatches sc (en_ids enc) (en_mask enc))"

type_synonym scores = "rat list list"

definition flush :: "scorer \<Rightarrow> (nat \<times> encoding) list \<Rightarrow> scores \<Rightarrow> compress_error + scores" where
  "flush sc pending out =
     (if pending = [] then Inr out
      else (case liftErr (sc_scoreBatch sc (map (en_ids \<circ> snd) pending) (map (en_mask \<circ> snd) pending)) of
          Inl e \<Rightarrow> Inl e
        | Inr ss \<Rightarrow>
            if length ss \<noteq> length pending then Inl (BatchMismatch (length ss) (length pending))
            else Inr (fold (\<lambda>(p, s) out. out[fst p := s]) (zip pending ss) out)))"

fun scoreLoop :: "scorer \<Rightarrow> int \<Rightarrow> (nat \<times> encoding) list \<Rightarrow> (nat \<times> encoding) list \<Rightarrow> scores \<Rightarrow> compress_error + scores" where
  "scoreLoop sc batchSize [] pending out = flush sc pending out"
| "scoreLoop sc batchSize ((i, enc) # rest) pending out =
     (if length (en_ids enc) > maxChunkTokens then
        (case flush sc pending out of Inl e \<Rightarrow> Inl e
         | Inr out1 \<Rightarrow> (case scoreChunk sc enc of Inl e \<Rightarrow> Inl e
             | Inr s \<Rightarrow> scoreLoop sc batchSize rest [] (out1[i := s])))
      else if int (length pending + 1) \<ge> batchSize then
        (case flush sc (pending @ [(i, enc)]) out of Inl e \<Rightarrow> Inl e
         | Inr out1 \<Rightarrow> scoreLoop sc batchSize rest [] out1)
      else scoreLoop sc batchSize rest (pending @ [(i, enc)]) out)"

definition scoreEncodings :: "scorer \<Rightarrow> encoding list \<Rightarrow> int \<Rightarrow> compress_error + scores" where
  "scoreEncodings sc encs batchSize =
     scoreLoop sc (max 1 batchSize) (enumerate 0 encs) [] (replicate (length encs) [])"

section \<open>Compressing\<close>

definition measureWindowWords :: nat where
  "measureWindowWords = 32768"

text \<open>The tokens of every word: one more for each token with a word index that is not negative.\<close>

fun countTokens :: "nat \<Rightarrow> int list \<Rightarrow> nat list \<Rightarrow> compress_error + nat list" where
  "countTokens start [] cs = Inr cs"
| "countTokens start (wi # wis) cs =
     (if wi < 0 then countTokens start wis cs
      else let k = start + nat wi in
        if k < length cs then countTokens start wis (cs[k := cs ! k + 1]) else Inl PanicIndex)"

text \<open>The windows of the words from \<open>start\<close> on.\<close>

function measureWindows :: "(string list \<Rightarrow> string + encoding) \<Rightarrow> nat \<Rightarrow> string list \<Rightarrow> nat list \<Rightarrow> compress_error + nat list" where
  "measureWindows tok start rest cs =
     (if rest = [] then Inr cs
      else (case tok (take measureWindowWords rest) of Inl e \<Rightarrow> Inl (TokenizerFailed e)
        | Inr win \<Rightarrow> (case countTokens start (en_wordIndex win) cs of Inl e \<Rightarrow> Inl e
            | Inr cs1 \<Rightarrow> measureWindows tok (start + measureWindowWords) (drop measureWindowWords rest) cs1)))"
  by pat_completeness auto
termination by (relation "measure (\<lambda>(tok, start, rest, cs). length rest)") (auto simp: measureWindowWords_def)

declare measureWindows.simps [simp del]

definition tokensOfWords :: "(string list \<Rightarrow> string + encoding) \<Rightarrow> string list \<Rightarrow> compress_error + nat list" where
  "tokensOfWords tok words = measureWindows tok 0 words (replicate (length words) 0)"

fun encodeChunks :: "(string list \<Rightarrow> string + encoding) \<Rightarrow> string list list \<Rightarrow> compress_error + encoding list" where
  "encodeChunks tok [] = Inr []"
| "encodeChunks tok (c # cs) =
     (case tok c of Inl e \<Rightarrow> Inl (TokenizerFailed e)
      | Inr enc \<Rightarrow> map_sum id ((#) enc) (encodeChunks tok cs))"

text \<open>The words of the chunk at \<open>wo\<close> that its scores keep; a token past the scores is skipped.\<close>

fun markScored :: "rat \<Rightarrow> nat \<Rightarrow> (int \<times> rat) list \<Rightarrow> bool list \<Rightarrow> compress_error + bool list" where
  "markScored t wo [] kept = Inr kept"
| "markScored t wo ((wi, s) # rest) kept =
     (if wi < 0 \<or> \<not> s > t then markScored t wo rest kept
      else if wo + nat wi < length kept then markScored t wo rest (kept[wo + nat wi := True])
      else Inl PanicIndex)"

fun markMust :: "nat \<Rightarrow> string list \<Rightarrow> bool list \<Rightarrow> bool list" where
  "markMust k [] kept = kept"
| "markMust k (w # ws) kept = markMust (Suc k) ws (if mustKeep w then kept[k := True] else kept)"

fun keepWords :: "rat \<Rightarrow> nat \<Rightarrow> (string list \<times> encoding \<times> rat list) list \<Rightarrow> bool list \<Rightarrow> compress_error + bool list" where
  "keepWords t wo [] kept = Inr kept"
| "keepWords t wo ((chunk, enc, ss) # rest) kept =
     (case markScored t wo (zip (en_wordIndex enc) ss) kept of Inl e \<Rightarrow> Inl e
      | Inr kept1 \<Rightarrow> keepWords t (wo + length chunk) rest (markMust wo chunk kept1))"

definition passthroughResult :: "string \<Rightarrow> compress_result" where
  "passthroughResult content =
     (let n = length (str_fields content) in
      \<lparr>cr_compressed = content, cr_originalWords = n, cr_compressedWords = n, cr_originalTokens = 0,
       cr_compressedTokens = 0, cr_passthrough = True\<rparr>)"

definition keptOf :: "bool list \<Rightarrow> 'a list \<Rightarrow> 'a list" where
  "keptOf kept xs = map snd (filter fst (zip kept xs))"

definition resultOf :: "string \<Rightarrow> string list \<Rightarrow> nat list \<Rightarrow> bool list \<Rightarrow> compress_result" where
  "resultOf content words tokensPerWord kept =
     (let out = keptOf kept words; total = sum_list tokensPerWord in
      if out = [] then (passthroughResult content)\<lparr>cr_originalTokens := total, cr_compressedTokens := total\<rparr>
      else \<lparr>cr_compressed = join_with '' '' out, cr_originalWords = length words, cr_compressedWords = length out,
            cr_originalTokens = total, cr_compressedTokens = sum_list (keptOf kept tokensPerWord),
            cr_passthrough = False\<rparr>)"

definition compress :: "compress_engine \<Rightarrow> string \<Rightarrow> compress_error + compress_result" where
  "compress e content =
     (let cfg = ce_config e; words = str_fields content in
      if int (length content) < cc_byteThreshold cfg then Inr (passthroughResult content)
      else if int (length words) < cc_minWords cfg then Inr (passthroughResult content)
      else
        (case tokensOfWords (ce_tokenizer e) words of Inl err \<Rightarrow> Inl err
         | Inr tokensPerWord \<Rightarrow>
           (let chunks = chunkWords words tokensPerWord in
            case encodeChunks (ce_tokenizer e) chunks of Inl err \<Rightarrow> Inl err
            | Inr encs \<Rightarrow>
              (case scoreEncodings (ce_scorer e) encs (cc_batchSize cfg) of Inl err \<Rightarrow> Inl err
               | Inr all \<Rightarrow>
                 (case keepWords (cc_threshold cfg) 0 (zip chunks (zip encs all)) (replicate (length words) False) of Inl err \<Rightarrow> Inl err
                  | Inr kept \<Rightarrow> Inr (resultOf content words tokensPerWord kept))))))"

end
