(* ===== verification/Compress_Props.thy ===== *)
theory Compress_Props
  imports Compress
begin

text \<open>
  What the compressor promises: chunks are a partition of the words that fits the model, the result
  is a selection of the words in their order that has every word that must be kept, scoring in
  batches is scoring one by one, and the model never sees more than its length.
\<close>

section \<open>Chunks\<close>

lemma chunkLoop_concat: "concat (chunkLoop cur u ps) = cur @ map fst ps"
  by (induction cur u ps rule: chunkLoop.induct) auto

lemma chunkLoop_nonempty: "cur \<noteq> [] \<or> ps \<noteq> [] \<Longrightarrow> [] \<notin> set (chunkLoop cur u ps)"
  by (induction cur u ps rule: chunkLoop.induct) auto

lemma chunks_partition:
  assumes "length tpw = length words"
  shows "concat (chunkWords words tpw) = words" and "[] \<notin> set (chunkWords words tpw)"
proof -
  show "concat (chunkWords words tpw) = words" using assms by (simp add: chunkWords_def chunkLoop_concat)
  show "[] \<notin> set (chunkWords words tpw)"
  proof (cases "words = []")
    case False
    then have "zip words tpw \<noteq> []" using assms by (cases words; cases tpw) auto
    then show ?thesis using chunkLoop_nonempty [of "[]" "zip words tpw" 0] False by (simp add: chunkWords_def)
  qed (simp add: chunkWords_def)
qed

text \<open>The chunks with the token counts of their words.\<close>

lemma chunkLoop_counts:
  assumes "sum_list (map snd cur) \<le> maxContentTokensPerChunk \<or> length cur \<le> 1"
  shows "\<exists>css. concat css = cur @ ps \<and> map (map fst) css = chunkLoop (map fst cur) (sum_list (map snd cur)) ps
    \<and> (\<forall>c\<in>set css. sum_list (map snd c) \<le> maxContentTokensPerChunk \<or> length c \<le> 1)"
  using assms
proof (induction ps arbitrary: cur)
  case Nil
  then show ?case by (intro exI [of _ "[cur]"]) simp
next
  case (Cons p ps)
  obtain w n where p: "p = (w, n)" by force
  show ?case
  proof (cases "sum_list (map snd cur) + n > maxContentTokensPerChunk \<and> cur \<noteq> []")
    case True
    have "sum_list (map snd [p]) \<le> maxContentTokensPerChunk \<or> length [p] \<le> 1" by simp
    from Cons.IH [OF this] obtain css where css: "concat css = [p] @ ps" "map (map fst) css = chunkLoop [w] n ps"
      "\<forall>c\<in>set css. sum_list (map snd c) \<le> maxContentTokensPerChunk \<or> length c \<le> 1" by (auto simp: p)
    show ?thesis using True css Cons.prems by (intro exI [of _ "cur # css"]) (simp add: p)
  next
    case False
    then have "sum_list (map snd (cur @ [p])) \<le> maxContentTokensPerChunk \<or> length (cur @ [p]) \<le> 1"
      by (cases cur) (auto simp: p)
    from Cons.IH [OF this] obtain css where css: "concat css = (cur @ [p]) @ ps"
      "map (map fst) css = chunkLoop (map fst cur @ [w]) (sum_list (map snd cur) + n) ps"
      "\<forall>c\<in>set css. sum_list (map snd c) \<le> maxContentTokensPerChunk \<or> length c \<le> 1" by (auto simp: p)
    then show ?thesis using False by (intro exI [of _ css]) (auto simp: p)
  qed
qed

lemma chunks_fit:
  assumes "length tpw = length words"
  shows "\<exists>css. concat css = zip words tpw \<and> map (map fst) css = chunkWords words tpw
    \<and> (\<forall>c\<in>set css. sum_list (map snd c) \<le> maxContentTokensPerChunk \<or> length c = 1)"
proof (cases "words = []")
  case True
  then show ?thesis by (intro exI [of _ "[]"]) (simp add: chunkWords_def)
next
  case False
  from chunkLoop_counts [of "[]" "zip words tpw"] obtain css where css: "concat css = zip words tpw"
    "map (map fst) css = chunkWords words tpw"
    "\<forall>c\<in>set css. sum_list (map snd c) \<le> maxContentTokensPerChunk \<or> length c \<le> 1"
    using False by (auto simp: chunkWords_def)
  moreover have "length c = 1 \<or> sum_list (map snd c) \<le> maxContentTokensPerChunk" if "c \<in> set css" for c
    using css(3) that by (cases c) fastforce+
  ultimately show ?thesis by (intro exI [of _ css]) auto
qed

section \<open>Counting and marking\<close>

lemma countTokens_length: "countTokens start wis cs = Inr cs' \<Longrightarrow> length cs' = length cs"
  by (induction start wis cs rule: countTokens.induct) (auto simp: Let_def split: if_splits)

lemma measureWindows_length: "measureWindows tok start rest cs = Inr cs' \<Longrightarrow> length cs' = length cs"
proof (induction tok start rest cs arbitrary: cs' rule: measureWindows.induct)
  case (1 tok start rest cs)
  show ?case
  proof (cases "rest = []")
    case True
    with "1.prems" show ?thesis by (simp add: measureWindows.simps)
  next
    case False
    with "1.prems" obtain win cs1 where w: "tok (take measureWindowWords rest) = Inr win"
        "countTokens start (en_wordIndex win) cs = Inr cs1"
        "measureWindows tok (start + measureWindowWords) (drop measureWindowWords rest) cs1 = Inr cs'"
      by (subst (asm) measureWindows.simps) (auto split: sum.splits)
    from "1.IH" [OF False w] countTokens_length [OF w(2)] show ?thesis by simp
  qed
qed

lemma tokensOfWords_length: "tokensOfWords tok words = Inr tpw \<Longrightarrow> length tpw = length words"
  by (simp add: tokensOfWords_def measureWindows_length)

text \<open>Marking keeps the length and never takes a mark away.\<close>

definition marks_more :: "bool list \<Rightarrow> bool list \<Rightarrow> bool" where
  "marks_more ks ks' \<longleftrightarrow> length ks' = length ks \<and> (\<forall>i<length ks. ks ! i \<longrightarrow> ks' ! i)"

lemma marks_refl [simp]: "marks_more ks ks"
  by (simp add: marks_more_def)

lemma marks_trans: "marks_more a b \<Longrightarrow> marks_more b c \<Longrightarrow> marks_more a c"
  by (auto simp: marks_more_def)

lemma marks_set: "marks_more ks (ks[i := True])"
proof -
  have "ks[i := True] ! j" if "ks ! j" "j < length ks" for j using that by (cases "i = j") auto
  then show ?thesis by (simp add: marks_more_def)
qed

lemma markScored_more: "markScored t wo ps ks = Inr ks' \<Longrightarrow> marks_more ks ks'"
  by (induction t wo ps ks arbitrary: ks' rule: markScored.induct)
     (auto split: if_splits intro: marks_trans [OF marks_set])

lemma markMust_more: "marks_more ks (markMust k ws ks)"
  by (induction k ws ks rule: markMust.induct) (auto intro: marks_trans [OF marks_set])

lemma markMust_marks:
  "i < length ws \<Longrightarrow> k + length ws \<le> length ks \<Longrightarrow> mustKeep (ws ! i) \<Longrightarrow> markMust k ws ks ! (k + i)"
proof (induction k ws ks arbitrary: i rule: markMust.induct)
  case (2 k w ws ks)
  show ?case
  proof (cases i)
    case 0
    then have "(if mustKeep w then ks[k := True] else ks) ! k" using 2 by simp
    then show ?thesis using 0 2 markMust_more [of "if mustKeep w then ks[k := True] else ks" "Suc k" ws]
      by (auto simp: marks_more_def)
  next
    case (Suc j)
    then show ?thesis using 2 by simp
  qed
qed simp

lemma keepWords_marks:
  assumes "keepWords t wo parts ks = Inr ks'" and "wo + length (concat (map fst parts)) = length ks"
  shows "marks_more ks ks' \<and> (\<forall>i<length (concat (map fst parts)). mustKeep (concat (map fst parts) ! i) \<longrightarrow> ks' ! (wo + i))"
  using assms
proof (induction t wo parts ks arbitrary: ks' rule: keepWords.induct)
  case (2 t wo chunk enc ss rest ks)
  then obtain k1 where k1: "markScored t wo (zip (en_wordIndex enc) ss) ks = Inr k1"
      "keepWords t (wo + length chunk) rest (markMust wo chunk k1) = Inr ks'" by (auto split: sum.splits)
  let ?k2 = "markMust wo chunk k1"
  have m: "marks_more ks k1" "marks_more k1 ?k2" using markScored_more [OF k1(1)] markMust_more by auto
  then have len: "length k1 = length ks" "length ?k2 = length ks" by (simp_all add: marks_more_def)
  have IH: "marks_more ?k2 ks'"
      "\<forall>i<length (concat (map fst rest)). mustKeep (concat (map fst rest) ! i) \<longrightarrow> ks' ! (wo + length chunk + i)"
    using "2.IH" [OF k1 ] "2.prems"(2) len by (auto simp: add.assoc)
  have "ks' ! (wo + i)" if "i < length chunk" "mustKeep (chunk ! i)" for i
    using markMust_marks [of i chunk wo k1] that IH(1) "2.prems"(2) len by (auto simp: marks_more_def)
  then show ?case using IH marks_trans [OF m(1) marks_trans [OF m(2) IH(1)]]
    by (auto simp: nth_append add.assoc [symmetric] split: if_splits)
       (metis add_diff_inverse_nat add_less_cancel_left group_cancel.add1)
qed simp

section \<open>Scoring in batches\<close>

lemma fold_update_length: "length (fold (\<lambda>(p, s) out. out[g p := s]) ps out) = length out"
  by (induction ps arbitrary: out) auto

lemma flush_length: "flush sc pending out = Inr out' \<Longrightarrow> length out' = length out"
  by (auto simp: flush_def fold_update_length split: if_splits sum.splits)

lemma scoreLoop_length: "scoreLoop sc b rest pending out = Inr out' \<Longrightarrow> length out' = length out"
  by (induction sc b rest pending out arbitrary: out' rule: scoreLoop.induct)
     (auto split: if_splits sum.splits dest: flush_length)

lemma scoreEncodings_length: "scoreEncodings sc encs b = Inr all \<Longrightarrow> length all = length encs"
  by (simp add: scoreEncodings_def scoreLoop_length)

text \<open>Entering the scores \<open>f\<close> of indexed encodings into a list.\<close>

definition enter :: "(encoding \<Rightarrow> rat list) \<Rightarrow> (nat \<times> encoding) list \<Rightarrow> scores \<Rightarrow> scores" where
  "enter f ps out = fold (\<lambda>(i, e) out. out[i := f e]) ps out"

lemma enter_simps [simp]: "enter f [] out = out" "enter f (p # ps) out = enter f ps (out[fst p := f (snd p)])"
  by (simp_all add: enter_def split: prod.splits)

lemma enter_append [simp]: "enter f (ps @ qs) out = enter f qs (enter f ps out)"
  by (simp add: enter_def)

lemma enter_zip: "fold (\<lambda>(p, s) out. out[fst p := s]) (zip ps (map (f \<circ> snd) ps)) out = enter f ps out"
  by (induction ps arbitrary: out) auto

lemma enter_enumerate:
  "length pre = k \<Longrightarrow> enter f (enumerate k es) (pre @ replicate (length es) []) = pre @ map f es"
proof (induction es arbitrary: k pre)
  case (Cons e es)
  have "enter f (enumerate (Suc k) es) ((pre @ [f e]) @ replicate (length es) []) = (pre @ [f e]) @ map f es"
    using Cons by (intro Cons.IH) simp
  then show ?case using Cons.prems by (auto simp: list_update_append)
qed simp

definition scores_alone :: "scorer \<Rightarrow> (encoding \<Rightarrow> rat list) \<Rightarrow> bool" where
  "scores_alone sc f \<longleftrightarrow>
     (\<forall>es. (\<forall>e\<in>set es. length (en_ids e) \<le> maxChunkTokens) \<longrightarrow>
        sc_scoreBatch sc (map en_ids es) (map en_mask es) = Inr (map f es))
   \<and> (\<forall>e. maxChunkTokens < length (en_ids e) \<longrightarrow> scoreChunk sc e = Inr (f e))"

lemma flush_alone:
  assumes "scores_alone sc f" and "\<forall>p\<in>set ps. length (en_ids (snd p)) \<le> maxChunkTokens"
  shows "flush sc ps out = Inr (enter f ps out)"
proof -
  have "sc_scoreBatch sc (map en_ids (map snd ps)) (map en_mask (map snd ps)) = Inr (map f (map snd ps))"
    using assms unfolding scores_alone_def by (metis (no_types, lifting) imageE list.set_map)
  then show ?thesis using enter_zip [of ps f out] by (simp add: flush_def comp_def)
qed

lemma scoreLoop_alone:
  assumes "scores_alone sc f" and "\<forall>p\<in>set pending. length (en_ids (snd p)) \<le> maxChunkTokens"
  shows "scoreLoop sc b rest pending out = Inr (enter f rest (enter f pending out))"
  using assms(2)
proof (induction rest arbitrary: pending out)
  case Nil
  then show ?case by (simp add: flush_alone [OF assms(1)])
next
  case (Cons p rest)
  obtain i enc where p: "p = (i, enc)" by force
  show ?case
  proof (cases "maxChunkTokens < length (en_ids enc)")
    case True
    then have "scoreChunk sc enc = Inr (f enc)" using assms(1) by (simp add: scores_alone_def)
    then show ?thesis using True Cons by (simp add: p flush_alone [OF assms(1)])
  next
    case False
    then have "\<forall>q\<in>set (pending @ [p]). length (en_ids (snd q)) \<le> maxChunkTokens" using Cons.prems by (auto simp: p)
    then show ?thesis using False Cons.IH [of "pending @ [p]" out] Cons.IH [of "[]"] flush_alone [OF assms(1), of "pending @ [p]" out]
      by (simp add: p)
  qed
qed


text \<open>A scorer that gives every token its id as score, for the instances.\<close>

definition sample_scorer :: scorer where
  "sample_scorer = \<lparr>sc_score = (\<lambda>ids m. Inr (map of_int ids)),
     sc_scoreBatch = (\<lambda>idss ms. Inr (map (map of_int) idss))\<rparr>"

lemma sample_batches: "scoreBatches sample_scorer ids m = Inr (map of_int ids)"
proof (induction sample_scorer ids m rule: scoreBatches.induct)
  case (1 ids m)
  show ?case
  proof (cases "ids = []")
    case False
    have "take maxChunkTokens (map of_int ids) @ drop maxChunkTokens (map of_int ids) = (map of_int ids :: rat list)"
      by (rule append_take_drop_id)
    with 1 False show ?thesis
      by (subst scoreBatches.simps) (simp add: sample_scorer_def take_map drop_map)
  qed (simp add: scoreBatches.simps)
qed

lemma sample_alone: "scores_alone sample_scorer (\<lambda>e. map of_int (en_ids e))"
  by (simp add: scores_alone_def scoreChunk_def sample_batches) (simp add: sample_scorer_def comp_def)

definition sample_encoding :: "nat \<Rightarrow> encoding" where
  "sample_encoding n = \<lparr>en_ids = replicate n 1, en_mask = replicate n 1, en_wordIndex = replicate n 0\<rparr>"


section \<open>What the model sees\<close>

text \<open>Two scorers that agree on batches of at most \<open>b\<close> sequences within the model's length.\<close>

definition same_within :: "int \<Rightarrow> scorer \<Rightarrow> scorer \<Rightarrow> bool" where
  "same_within b sc sc' \<longleftrightarrow>
     (\<forall>ids m. length ids \<le> maxChunkTokens \<longrightarrow> sc_score sc ids m = sc_score sc' ids m)
   \<and> (\<forall>idss ms. int (length idss) \<le> max 1 b \<and> (\<forall>ids\<in>set idss. length ids \<le> maxChunkTokens) \<longrightarrow>
        sc_scoreBatch sc idss ms = sc_scoreBatch sc' idss ms)"

lemma same_batches: "same_within b sc sc' \<Longrightarrow> scoreBatches sc ids m = scoreBatches sc' ids m"
proof (induction sc ids m rule: scoreBatches.induct)
  case (1 sc ids m)
  have s: "sc_score sc (take maxChunkTokens ids) m' = sc_score sc' (take maxChunkTokens ids) m'" for m'
    using "1.prems" by (simp add: same_within_def)
  show ?case
  proof (cases "ids = [] \<or> (\<exists>e. liftErr (sc_score sc (take maxChunkTokens ids) (take maxChunkTokens m)) = Inl e)")
    case True
    then show ?thesis by (auto simp: scoreBatches.simps [of sc ids] scoreBatches.simps [of sc' ids] s)
  next
    case False
    then obtain x where x: "ids \<noteq> []" "liftErr (sc_score sc (take maxChunkTokens ids) (take maxChunkTokens m)) = Inr x"
      by (metis obj_sumE)
    from "1.IH" [OF x "1.prems"] x show ?thesis
      by (simp add: scoreBatches.simps [of sc ids] scoreBatches.simps [of sc' ids] s)
  qed
qed

lemma same_flush:
  assumes "same_within b sc sc'" and "int (length ps) \<le> max 1 b" and "\<forall>p\<in>set ps. length (en_ids (snd p)) \<le> maxChunkTokens"
  shows "flush sc ps out = flush sc' ps out"
proof -
  have "sc_scoreBatch sc (map (en_ids \<circ> snd) ps) ms = sc_scoreBatch sc' (map (en_ids \<circ> snd) ps) ms" for ms
    using assms unfolding same_within_def by (simp add: image_iff)
  then show ?thesis by (simp add: flush_def)
qed

lemma same_loop:
  assumes "same_within b sc sc'" and "int (length pending) < max 1 b"
    and "\<forall>p\<in>set pending. length (en_ids (snd p)) \<le> maxChunkTokens"
  shows "scoreLoop sc (max 1 b) rest pending out = scoreLoop sc' (max 1 b) rest pending out"
  using assms(2,3)
proof (induction rest arbitrary: pending out)
  case Nil
  then show ?case using same_flush [OF assms(1), of pending out] by simp
next
  case (Cons p rest)
  obtain i enc where p: "p = (i, enc)" by force
  have z: "int (length ([] :: (nat \<times> encoding) list)) < max 1 b" by simp
  have IH0: "scoreLoop sc (max 1 b) rest [] out = scoreLoop sc' (max 1 b) rest [] out" for out
    using Cons.IH [OF z] by simp
  have chunk: "scoreChunk sc enc = scoreChunk sc' enc"
    using assms(1) same_batches [OF assms(1)] by (auto simp: scoreChunk_def same_within_def)
  have fl: "flush sc pending out = flush sc' pending out" using Cons.prems by (intro same_flush [OF assms(1)]) auto
  show ?case
  proof (cases "maxChunkTokens < length (en_ids enc)")
    case True
    then show ?thesis by (simp add: p fl chunk IH0 split: sum.splits)
  next
    case False
    then have q: "\<forall>q\<in>set (pending @ [p]). length (en_ids (snd q)) \<le> maxChunkTokens" using Cons.prems by (auto simp: p)
    have l: "int (length (pending @ [p])) \<le> max 1 b" using Cons.prems(1) by simp
    have "flush sc (pending @ [(i, enc)]) out = flush sc' (pending @ [(i, enc)]) out"
      using same_flush [OF assms(1) l q] by (simp add: p)
    moreover have "scoreLoop sc (max 1 b) rest (pending @ [(i, enc)]) out = scoreLoop sc' (max 1 b) rest (pending @ [(i, enc)]) out"
      if "\<not> max 1 b \<le> int (length pending + 1)"
      using Cons.IH [of "pending @ [p]" out] that q by (simp add: p)
    ultimately show ?thesis using False IH0 by (simp add: p split: sum.splits)
  qed
qed

text \<open>The model never sees a sequence longer than its 512 tokens, nor more sequences at once than
  the batch size: the scores do not depend on what the scorer does with any other input.\<close>

theorem scorer_input_bounded:
  assumes "same_within batchSize sc sc'"
  shows "scoreEncodings sc encs batchSize = scoreEncodings sc' encs batchSize"
  unfolding scoreEncodings_def by (rule same_loop [OF assms]) simp_all

theorem scorer_input_bounded_witness:
  "scoreEncodings (sample_scorer\<lparr>sc_score := (\<lambda>ids m. if length ids > 512 then Inl ''out of memory'' else Inr (map of_int ids))\<rparr>)
     [sample_encoding 1, sample_encoding 600] 2 = scoreEncodings sample_scorer [sample_encoding 1, sample_encoding 600] 2"
  by (rule scorer_input_bounded) (simp add: same_within_def sample_scorer_def maxChunkTokens_def)

section \<open>The result\<close>

lemma encodeChunks_length: "encodeChunks tok cs = Inr encs \<Longrightarrow> length encs = length cs"
  by (induction tok cs arbitrary: encs rule: encodeChunks.induct) (auto split: sum.splits simp: map_sum_def)

lemma sum_kept: "sum_list (keptOf kept xs) \<le> (sum_list xs :: nat)"
proof (induction xs arbitrary: kept)
  case (Cons x xs)
  show ?case using Cons [of "tl kept"] by (cases kept) (auto simp: keptOf_def)
qed (simp add: keptOf_def)

text \<open>C39: What comes out of the compressor is the input unchanged, or a selection of its words in
  their order, joined by blanks, that has every word the pattern protects and every word with a
  digit; it is never empty and never has more tokens than the input.\<close>

theorem compress_selects:
  assumes "compress e content = Inr res"
  shows "cr_passthrough res \<and> cr_compressed res = content
    \<or> (\<exists>kept. let words = str_fields content in length kept = length words
        \<and> (\<forall>i<length words. mustKeep (words ! i) \<or> (\<exists>c\<in>set (words ! i). digit c) \<longrightarrow> kept ! i)
        \<and> keptOf kept words \<noteq> [] \<and> cr_compressed res = join_with '' '' (keptOf kept words)
        \<and> cr_compressedWords res = length (keptOf kept words) \<and> cr_compressedTokens res \<le> cr_originalTokens res)"
proof -
  let ?words = "str_fields content" and ?cfg = "ce_config e"
  show ?thesis
  proof (cases "int (length content) < cc_byteThreshold ?cfg \<or> int (length ?words) < cc_minWords ?cfg")
    case True
    then have "compress e content = Inr (passthroughResult content)"
      by (cases "int (length content) < cc_byteThreshold ?cfg") (simp_all add: compress_def Let_def)
    with assms have "res = passthroughResult content" by simp
    then show ?thesis by (simp add: passthroughResult_def Let_def)
  next
    case False
    then obtain tpw encs all kept where t: "tokensOfWords (ce_tokenizer e) ?words = Inr tpw"
      and en: "encodeChunks (ce_tokenizer e) (chunkWords ?words tpw) = Inr encs"
      and al: "scoreEncodings (ce_scorer e) encs (cc_batchSize ?cfg) = Inr all"
      and k: "keepWords (cc_threshold ?cfg) 0 (zip (chunkWords ?words tpw) (zip encs all)) (replicate (length ?words) False) = Inr kept"
      and r: "res = resultOf content ?words tpw kept"
      using assms by (auto simp: compress_def Let_def split: sum.splits)
    have "map fst (zip (chunkWords ?words tpw) (zip encs all)) = chunkWords ?words tpw"
      using encodeChunks_length [OF en] scoreEncodings_length [OF al] by simp
    then have c: "concat (map fst (zip (chunkWords ?words tpw) (zip encs all))) = ?words"
      using chunks_partition(1) [OF tokensOfWords_length [OF t]] by simp
    from keepWords_marks [OF k] c have kept: "length kept = length ?words" "\<forall>i<length ?words. mustKeep (?words ! i) \<longrightarrow> kept ! i"
      by (auto simp: marks_more_def)
    show ?thesis
    proof (cases "keptOf kept ?words = []")
      case True
      then show ?thesis by (simp add: r resultOf_def Let_def passthroughResult_def)
    next
      case False
      then show ?thesis using kept digits_kept sum_kept [of kept tpw]
        by (intro disjI2 exI [of _ kept]) (auto simp: r resultOf_def Let_def)
    qed
  qed
qed

text \<open>A tokenizer with one token for each word, between two special ones.\<close>

definition sample_tokenizer :: "string list \<Rightarrow> string + encoding" where
  "sample_tokenizer ws = Inr \<lparr>en_ids = [0] @ map (\<lambda>w. if w = ''keep'' then 1 else 0) ws @ [0],
     en_mask = replicate (length ws + 2) 1, en_wordIndex = [-1] @ map int [0..<length ws] @ [-1]\<rparr>"

definition sample_engine :: compress_engine where
  "sample_engine = \<lparr>ce_tokenizer = sample_tokenizer, ce_scorer = sample_scorer,
     ce_config = \<lparr>cc_threshold = 1 / 2, cc_minWords = 3, cc_byteThreshold = 4, cc_batchSize = 2\<rparr>\<rparr>"

lemma sample_compressed:
  "map_sum id (\<lambda>r. (cr_compressed r, cr_compressedTokens r)) (compress sample_engine ''drop keep 104x drop'')
     = Inr (''keep 104x'', 2)"
proof -
  have w: "str_fields ''drop keep 104x drop'' = [''drop'', ''keep'', ''104x'', ''drop'']" by code_simp
  have m: "mustKeep ''104x''" "\<not> mustKeep ''drop''" "\<not> mustKeep ''keep''" by code_simp+
  have t: "tokensOfWords sample_tokenizer [''drop'', ''keep'', ''104x'', ''drop''] = Inr [1, 1, 1, 1]"
    by (simp add: tokensOfWords_def measureWindows.simps sample_tokenizer_def measureWindowWords_def upt_rec)
  have c: "chunkWords [''drop'', ''keep'', ''104x'', ''drop''] [1, 1, 1, 1] = [[''drop'', ''keep'', ''104x'', ''drop'']]"
    by (simp add: chunkWords_def maxContentTokensPerChunk_def)
  let ?w = "[''drop'', ''keep'', ''104x'', ''drop'']"
  let ?e = "\<lparr>en_ids = [0, 0, 1, 0, 0, 0], en_mask = [1, 1, 1, 1, 1, 1], en_wordIndex = [-1, 0, 1, 2, 3, -1]\<rparr>"
  have e: "encodeChunks sample_tokenizer [?w] = Inr [?e]"
    by (simp add: sample_tokenizer_def upt_rec)
  have s: "scoreEncodings sample_scorer [?e] 2 = Inr [[0, 0, 1, 0, 0, 0]]"
    by (simp add: scoreEncodings_def flush_def sample_scorer_def maxChunkTokens_def)
  have k: "keepWords (1 / 2) 0 (zip [?w] (zip [?e] [[0, 0, 1, 0, 0, 0]])) [False, False, False, False]
      = Inr [False, True, True, False]" by (simp add: m)
  have r: "resultOf ''drop keep 104x drop'' ?w [1, 1, 1, 1] [False, True, True, False] =
      \<lparr>cr_compressed = ''keep 104x'', cr_originalWords = 4, cr_compressedWords = 2, cr_originalTokens = 4,
       cr_compressedTokens = 2, cr_passthrough = False\<rparr>"
    by (simp add: resultOf_def keptOf_def)
  have l: "replicate (length ?w) False = [False, False, False, False]" by simp
  show ?thesis unfolding compress_def Let_def sample_engine_def
    by (simp only: compress_engine.simps compress_config.simps w t c e s sum.case l k r) simp
qed

theorem compress_selects_witness:
  "\<exists>res. compress sample_engine ''drop keep 104x drop'' = Inr res \<and> cr_compressedTokens res \<le> cr_originalTokens res
     \<and> cr_compressed res \<noteq> ''drop keep 104x drop''"
proof -
  obtain res where r: "compress sample_engine ''drop keep 104x drop'' = Inr res" "cr_compressed res = ''keep 104x''"
    using sample_compressed by (cases "compress sample_engine ''drop keep 104x drop''") auto
  from compress_selects [OF r(1)] r show ?thesis by (auto simp: Let_def)
qed

end
