(* ===== verification/Spec2Isabelle.thy ===== *)
theory Spec2Isabelle
  imports Ensure_Loaded Sched_Restart Deployed_Props Jobs_Props Auth_Handlers_Props
    Router_Chat_Props Router_Catalog Router_Static Gguf_Format Compress_Props
begin

text \<open>
  The Forge runs language models on one GPU host.  A daemon (cmd/forge) holds a scheduler, an
  engine that drives systemd units, a maintenance gate between the two, a runner of scheduled
  loads, and a web API.  This library models the daemon's decisions and state changes, in
  theories that follow the packages of src/go/internal, and proves what they promise.

  How the parts interact.  A request to load a model (\<open>EnsureLoaded\<close>) becomes a ticket in the
  load queue; at its turn one load attempt asks the engine for a fit plan, chooses a slot and
  the slots to evict under the rules of reservations and idleness, unloads those and loads the
  model.  The engine writes a slot's env and args files, starts the unit and waits for it; it
  keeps per slot which model it holds, and infers that again from the files after a restart.
  The maintenance gate wraps the engine and refuses changes while a window is open.  The
  scheduler persists queue, slots and reservations through a SQL store.  The job runner calls
  the same entry point at the times of a cron expression.  Every route of the web API sits behind
  one middleware that turns a bearer key, a session cookie or a network principal into an
  identity, checks the CSRF token of changes, and then the role and the assurance the route asks
  for; the assurance a resource needs is an editable policy in the settings table.  The router a0
  is a second server: it takes OpenAI chat requests, resolves the name of a model to a local
  configuration (loading it through the scheduler, or choosing a loaded peer in its place) or to a
  chain of providers, and relays the request along the chain until one of them answers.

  Theories and sources:

  \<^item> \<open>Forge_Prelude\<close>, \<open>Go_Strings\<close>: Go's times, durations and string functions, facts on lists.
  \<^item> \<open>Sched_Types\<close>, \<open>Sched_Queue\<close>, \<open>Sched_Ops\<close>, \<open>Reservations\<close>, \<open>Sched_Store\<close>, \<open>Engine_Ops\<close>,
    \<open>Place\<close>, \<open>Outcomes\<close>, \<open>Sched_Core\<close>, \<open>Sched_Restart\<close>, \<open>Ensure_Loaded\<close>, \<open>Attempt\<close>: package sched
    (sched.go, core.go, queue.go, reservations.go, place.go, loadstatus.go) and store/sched.go.
    \<open>Core\<close> is the record \<open>core\<close>; an \<open>EnsureLoaded\<close> call is a small state machine whose
    transitions are the sections the mutex makes atomic, and calls interleave freely.
  \<^item> \<open>Engine_State\<close>, \<open>Sysconfig\<close>, \<open>Kv_Cache\<close>, \<open>Engine_Memory\<close>, \<open>Lifecycle\<close>, \<open>Switch\<close>,
    \<open>Engine_Provider\<close>, \<open>Engine_Props\<close>: package engine.  \<open>manager\<close> is the state of \<open>Manager\<close>; the
    host is a parameter (an abstract state with the operations the engine calls) and the
    commands issued to it are recorded.  \<open>Sample_Host\<close> is a simulated host for the instances.
  \<^item> \<open>Maintenance\<close>, \<open>Gated_Engine\<close>: package maintenance and its boot in cmd/forge/main.go.
  \<^item> \<open>Deployed_Props\<close>: scheduler, gate and engine composed as the daemon composes them.
  \<^item> \<open>Cron\<close>, \<open>Jobs\<close>, \<open>Jobs_Props\<close>: package cron, sched/jobs.go, store/scheduler_jobs.go and
    httpapi/scheduler_job_handlers.go.
  \<^item> \<open>Pricing\<close>: package pricing.
  \<^item> \<open>Auth_Tokens\<close>, \<open>Rate_Limit\<close>, \<open>Auth_Store\<close>, \<open>Auth_Policy\<close>, \<open>Authorizer\<close>, \<open>Second_Factor\<close>:
    package authz and its tables in package store.  \<open>authorizer\<close> is the state of \<open>Authorizer\<close> with
    the database it works on; each operation reads the clock once.  The password hasher, keyed
    hashes and base32 are parameters, random bytes are arguments.
  \<^item> \<open>Auth_Http\<close>, \<open>Auth_Routes\<close>, \<open>Auth_Handlers\<close>: authz/identity.go and, of package httpapi, the
    middleware and route table of httpapi.go, the handlers of auth_handlers.go and the form posts
    of pwa.go.  \<open>reachHandler\<close> is a request on a route up to its handler.
  \<^item> \<open>Router_Types\<close>, \<open>Router_Body\<close>, \<open>Router_Select\<close>, \<open>Router_Resolve\<close>, \<open>Router_State\<close>,
    \<open>Router_Subst\<close>, \<open>Router_Proxy\<close>, \<open>Router_Usage\<close>, \<open>Router_Static\<close>, \<open>Router_Catalog\<close>: package
    router (config.go, reasoning.go, select.go, routing.go, capability_substitution.go,
    virtual_models.go, proxy.go, usage.go, embeddings.go, speech.go, catalog.go) with the rows it
    reads (store/catalog.go, store/modalities.go).  \<open>router_server\<close> holds what a request only
    reads, \<open>router_state\<close> what it changes and the record of loads asked for, requests sent and
    audit rows; the world (slots, scheduler, upstreams) is a parameter.  An attempt of the reverse
    proxy is one call \<open>rw_send\<close>; a request reads the clock once.  \<open>sort.Slice\<close> is taken as the
    stable sort it is for distinct keys, prices are rationals, and the usage tap is modelled beside
    the relay.  \<open>Router_Subst_Props\<close>, \<open>Router_Proxy_Props\<close>, \<open>Router_Chat_Props\<close> hold the lemmas,
    \<open>Router_Sample\<close> a small instance, \<open>Activity\<close> the consumer labels of package activity.
  \<^item> \<open>Gguf\<close>: package gguf, the reader of model file headers, as functions from a list of bytes to
    an error or a result and the rest; integers keep their widths.  \<open>Gguf_Props\<close> says what every
    reader keeps to, \<open>Gguf_Format\<close> writes the format and reads it back.
  \<^item> \<open>Must_Keep\<close>, \<open>Compress\<close>, \<open>Compress_Props\<close>: package compress, on words of ASCII characters
    and with rational scores; the tokenizer and the scorer are parameters.
  \<^item> \<open>Auth_Props\<close>, \<open>Auth_History\<close>, \<open>Auth_Sessions\<close>, \<open>Auth_Http_Props\<close>, \<open>Auth_Handlers_Props\<close>: what
    these promise, over sequences of calls with any arguments.

  Interfaces.  What a client relies on is a locale, and the lemmas on the client are proved in
  it: \<open>sched_store\<close> for the persistence of the scheduler (interpreted by the SQL tables),
  \<open>slot_engine\<close> and \<open>seamed_engine\<close> for the engine (interpreted by the manager, and by the
  wrapped manager through \<open>gated_engine\<close>, whose \<open>sublocale\<close> says that wrapping keeps the laws),
  \<open>job_store\<close> for the job table.

  What the lemmas show.  Queue: arrival order within a class, at most a bounded number of
  overtakings, one load in flight, the queue is exactly the waiting calls, every call returns
  after its deadline.  Placement: eviction respects the tiers of reservations and idleness,
  a placement is sound and complete.  Reservations: well-formed, ownership respected, recovered
  from the store.  Engine: a slot is freed only when its unit was seen stopped; success means
  loaded; a reserved model is not stopped; the loaded mode is inferred again.  Memory: the fit
  check is exact and evicts a smallest prefix.  Gate: a window is protected by its lease, ends
  within four hours in any history, and keeps the host quiet.  Jobs: the next fire time is the
  least, due jobs fire once, the table stays well-formed.  Access: guessing is slow, retired keys
  and ended sessions stay dead, a minted key works until then, recovery codes work once, setup
  runs once, a handler runs only for an identified and authorised caller, a session rises only
  by a proven factor, and keys do not beget other keys.  Router: provider keys stay with their
  provider, a stand-in passes every gate, failover takes the first backend that commits, the body
  passes through, what is listed of the providers is what is served.  Model files: the reader
  gives back what a writer of the format wrote, never looks past the key-value section, and its
  recursion is bounded by the size of the file.  Compression: the result is a selection of the
  words with all that must be kept, and batching does not show.

  Bounds.  Integers are unbounded where the code's values cannot leave their width; times are
  nanoseconds since Go's zero time, \<open>Sub\<close> saturates as documented.  Loops are recursions with
  measures: polls count down to their deadline, the cron search ends at its five-year horizon.
  The one bound that is an argument is the number of stack frames \<open>skipArray\<close> may use; one for
  every twelve bytes of the file is enough (\<open>stack_bounded\<close>).

  Not modelled.  HTTP encoding and the remaining handlers, JSON, logging and auditing, metrics,
  the language-model assistant (package smith), model downloads, the ONNX scorer,
  speech and the command-line clients; each is listed with its reason in the manifest.  Times of
  \<open>time.Now()\<close>, random identifiers, hashes, network addresses' text forms, the file system, systemd,
  the time zone database, tokenizers, model scores and the conversion of floats to integers are
  parameters.
\<close>

end
